(* ===== verification/PyFloat.thy ===== *)
theory PyFloat
  imports Complex_Main "HOL-Library.Log_Nat"
begin

text \<open>
  Python floats. A finite binary64 value is a rational of the form \<open>m * 2 ^ e\<close> with
  \<open>\<bar>m\<bar> < 2 ^ 53\<close> and \<open>e \<ge> -1074\<close>, and every arithmetic operation of the language returns the exact
  result rounded to the nearest such value, ties to even. The model keeps the value as a
  \<open>rat\<close> and writes the rounding out: \<open>fl\<close> is the rounding function and \<open>fadd\<close>, \<open>fsub\<close>,
  \<open>fmul\<close>, \<open>fdiv\<close> and \<open>int_to_float\<close> are the operations. Everything is executable.

  Not modelled: infinities, NaN and the sign of zero. The exponent range is unbounded above, so
  a value of at least \<open>2 ^ 1024\<close> (where Python raises OverflowError or returns an infinity) is
  kept as a number.

  The lemmas that carry the other theories: \<open>fl\<close> is monotone, fixes every representable value
  (in particular the integers up to \<open>2 ^ 53\<close>), and is idempotent. Together they give interval
  reasoning about a chain of float operations with representable end points.
\<close>

type_synonym pyfloat = rat

section \<open>Definitions\<close>

definition round_half_even :: "rat \<Rightarrow> int" where
  "round_half_even x =
     (let f = \<lfloor>x\<rfloor>; d = x - of_int f
      in if d < 1 / 2 then f else if 1 / 2 < d then f + 1 else if even f then f else f + 1)"

definition pow2 :: "int \<Rightarrow> rat" where
  "pow2 e = (if 0 \<le> e then 2 ^ nat e else 1 / 2 ^ nat (- e))"

text \<open>The exponent of the binade of a positive number.\<close>

definition ilog2 :: "rat \<Rightarrow> int" where
  "ilog2 x =
     (if 1 \<le> x then int (floorlog 2 (nat \<lfloor>x\<rfloor>)) - 1
      else - int (floorlog 2 (nat (\<lceil>1 / x\<rceil> - 1))))"

definition ulp_exp :: "rat \<Rightarrow> int" where
  "ulp_exp x = (if x = 0 then -1074 else max (ilog2 \<bar>x\<bar> - 52) (-1074))"

definition fl :: "rat \<Rightarrow> pyfloat" where
  "fl x = (let e = ulp_exp x in of_int (round_half_even (x / pow2 e)) * pow2 e)"

definition fadd :: "pyfloat \<Rightarrow> pyfloat \<Rightarrow> pyfloat" where "fadd a b = fl (a + b)"
definition fsub :: "pyfloat \<Rightarrow> pyfloat \<Rightarrow> pyfloat" where "fsub a b = fl (a - b)"
definition fmul :: "pyfloat \<Rightarrow> pyfloat \<Rightarrow> pyfloat" where "fmul a b = fl (a * b)"

text \<open>Division; the divisors of the program are nonzero literals.\<close>

definition fdiv :: "pyfloat \<Rightarrow> pyfloat \<Rightarrow> pyfloat" where "fdiv a b = fl (a / b)"

definition int_to_float :: "int \<Rightarrow> pyfloat" where "int_to_float i = fl (of_int i)"

text \<open>\<open>int(x)\<close> truncates towards zero.\<close>

definition float_to_int :: "pyfloat \<Rightarrow> int" where
  "float_to_int x = (if 0 \<le> x then \<lfloor>x\<rfloor> else \<lceil>x\<rceil>)"

definition is_float :: "rat \<Rightarrow> bool" where "is_float x \<longleftrightarrow> fl x = x"

section \<open>Powers of two and binades\<close>

lemma pow2_pos [simp]: "0 < pow2 e"
  by (simp add: pow2_def)

lemma pow2_nonneg [simp]: "0 \<le> pow2 e" and pow2_nonzero [simp]: "pow2 e \<noteq> 0"
  using pow2_pos [of e] by linarith+

lemma pow2_powi: "pow2 e = 2 powi e"
  by (simp add: pow2_def power_int_def inverse_eq_divide power_one_over)

lemma pow2_add: "pow2 (a + b) = pow2 a * pow2 b"
  by (simp add: pow2_powi power_int_add)

lemma pow2_0 [simp]: "pow2 0 = 1"
  by (simp add: pow2_def)

lemma pow2_nat: "pow2 (int n) = 2 ^ n"
  by (simp add: pow2_def)

lemma pow2_mono: "a \<le> b \<Longrightarrow> pow2 a \<le> pow2 b"
  by (simp add: pow2_powi power_int_increasing)

lemma pow2_strict: "a < b \<Longrightarrow> pow2 a < pow2 b"
  by (simp add: pow2_powi power_int_strict_increasing)

lemma pow2_less_imp: "pow2 a < pow2 b \<Longrightarrow> a < b"
  using pow2_mono [of b a] by (meson not_le)

lemma pow2_diff_int: "b \<le> a \<Longrightarrow> \<exists>n::int. pow2 a = of_int n * pow2 b"
  using pow2_add [of "a - b" b] by (simp add: pow2_def)

lemma ilog2_bounds:
  assumes "0 < x"
  shows "pow2 (ilog2 x) \<le> x \<and> x < pow2 (ilog2 x + 1)"
proof (cases "1 \<le> x")
  case True
  define n where "n = nat \<lfloor>x\<rfloor>"
  have fx: "\<lfloor>x\<rfloor> = int n" and n1: "1 \<le> n" using True by (simp_all add: n_def le_nat_iff)
  have log: "2 ^ (floorlog 2 n - 1) \<le> n" "n < 2 ^ floorlog 2 n"
    using floorlog_bounds [of n 2] n1 by auto
  have "floorlog 2 n \<noteq> 0" using n1 by (auto simp: floorlog_eq_zero_iff)
  then have e: "ilog2 x = int (floorlog 2 n - 1)" "ilog2 x + 1 = int (floorlog 2 n)"
    using True by (simp_all add: ilog2_def n_def)
  have "(2::rat) ^ (floorlog 2 n - 1) \<le> of_int \<lfloor>x\<rfloor>"
    using log(1) unfolding fx by (metis of_int_of_nat_eq of_nat_le_iff of_nat_numeral of_nat_power)
  moreover have "of_int (\<lfloor>x\<rfloor> + 1) \<le> (2::rat) ^ floorlog 2 n"
  proof -
    have "of_nat (n + 1) \<le> (of_nat (2 ^ floorlog 2 n) :: rat)"
      using log(2) by (intro of_nat_mono) simp
    then show ?thesis unfolding fx by simp
  qed
  ultimately show ?thesis
    using floor_correct [of x] pow2_nat [of "floorlog 2 n - 1"] pow2_nat [of "floorlog 2 n"]
    unfolding e(1) e(2) [unfolded e(1)] by linarith
next
  case False
  define n where "n = nat (\<lceil>1 / x\<rceil> - 1)"
  have "1 < 1 / x" using False assms by simp
  then have c2: "2 \<le> \<lceil>1 / x\<rceil>" by linarith
  then have cx: "\<lceil>1 / x\<rceil> = int n + 1" and n1: "1 \<le> n" unfolding n_def by arith+
  have log: "2 ^ (floorlog 2 n - 1) \<le> n" "n < 2 ^ floorlog 2 n"
    using floorlog_bounds [of n 2] n1 by auto
  define j where "j = floorlog 2 n"
  have j1: "1 \<le> j" using n1 by (simp add: j_def floorlog_def)
  have e: "ilog2 x = - int j" using False by (simp add: ilog2_def n_def j_def)
  have up: "1 / x \<le> 2 ^ j"
  proof -
    have "of_nat (n + 1) \<le> (of_nat (2 ^ j) :: rat)"
      using log(2) unfolding j_def by (intro of_nat_mono) simp
    moreover have "1 / x \<le> of_int \<lceil>1 / x\<rceil>" by (rule le_of_int_ceiling)
    ultimately show ?thesis unfolding cx by simp
  qed
  have low: "2 ^ (j - 1) < 1 / x"
  proof -
    have "of_nat (2 ^ (j - 1)) \<le> (of_nat n :: rat)"
      using log(1) unfolding j_def by (intro of_nat_mono)
    then have "2 ^ (j - 1) \<le> (of_nat n :: rat)" by (simp only: of_nat_power of_nat_numeral)
    moreover have "of_int (\<lceil>1 / x\<rceil> - 1) < 1 / x" using ceiling_correct [of "1 / x"] by simp
    ultimately show ?thesis unfolding cx by linarith
  qed
  have "pow2 (ilog2 x) = 1 / 2 ^ j" using j1 by (simp add: e pow2_def)
  moreover have "pow2 (ilog2 x + 1) = 1 / 2 ^ (j - 1)"
    using j1 by (simp add: e pow2_def nat_diff_distrib)
  moreover have "1 / 2 ^ j \<le> x" using up assms by (simp add: field_simps)
  moreover have "x < 1 / 2 ^ (j - 1)" using low assms by (simp add: field_simps)
  ultimately show ?thesis by simp
qed

lemma ilog2_mono: "0 < x \<Longrightarrow> x \<le> y \<Longrightarrow> ilog2 x \<le> ilog2 y"
  using ilog2_bounds [of x] ilog2_bounds [of y] pow2_less_imp [of "ilog2 x" "ilog2 y + 1"]
  by linarith

section \<open>Rounding to an integer\<close>

lemma round_of_int [simp]: "round_half_even (of_int i) = i"
  by (simp add: round_half_even_def)

lemma round_0 [simp]: "round_half_even 0 = 0"
  using round_of_int [of 0] by simp

lemma round_floor_ceiling:
  "\<lfloor>x\<rfloor> \<le> round_half_even x \<and> round_half_even x \<le> \<lfloor>x\<rfloor> + 1"
  by (auto simp: round_half_even_def Let_def)

lemma round_mono:
  assumes "x \<le> y" shows "round_half_even x \<le> round_half_even y"
proof (cases "\<lfloor>x\<rfloor> = \<lfloor>y\<rfloor>")
  case True
  with assms show ?thesis by (auto simp: round_half_even_def Let_def)
next
  case False
  with assms have "\<lfloor>x\<rfloor> + 1 \<le> \<lfloor>y\<rfloor>" using floor_mono [OF assms] by linarith
  then show ?thesis using round_floor_ceiling [of x] round_floor_ceiling [of y] by linarith
qed

lemma round_uminus: "round_half_even (- x) = - round_half_even x"
proof (cases "x \<in> \<int>")
  case True
  then obtain i where x: "x = of_int i" by (auto elim: Ints_cases)
  show ?thesis unfolding x by (metis of_int_minus round_of_int)
next
  case False
  then have "x \<noteq> of_int \<lfloor>x\<rfloor>" by (metis Ints_of_int)
  then have f: "\<lfloor>- x\<rfloor> = - \<lfloor>x\<rfloor> - 1"
    using floor_minus [of x] ceiling_altdef [of x] by simp
  show ?thesis unfolding round_half_even_def Let_def f by auto
qed

section \<open>Rounding to a float\<close>

lemma fl_0 [simp]: "fl 0 = 0"
  by (simp add: fl_def Let_def)

lemma ulp_exp_uminus [simp]: "ulp_exp (- x) = ulp_exp x"
  by (simp add: ulp_exp_def)

lemma fl_uminus: "fl (- x) = - fl x"
  by (simp add: fl_def Let_def round_uminus flip: minus_divide_left)

lemma fl_nonneg: "0 \<le> x \<Longrightarrow> 0 \<le> fl x"
  using round_mono [of 0 "x / pow2 (ulp_exp x)"] by (simp add: fl_def Let_def)

lemma fl_pos_mono:
  assumes "0 < x" "x \<le> y" shows "fl x \<le> fl y"
proof -
  define a b where "a = ulp_exp x" and "b = ulp_exp y"
  have y0: "0 < y" using assms by simp
  have ab: "a \<le> b" using ilog2_mono [OF assms] assms(1) y0 by (simp add: a_def b_def ulp_exp_def)
  have fx: "fl x = of_int (round_half_even (x / pow2 a)) * pow2 a"
    and fy: "fl y = of_int (round_half_even (y / pow2 b)) * pow2 b"
    by (simp_all add: fl_def Let_def a_def b_def)
  show ?thesis
  proof (cases "a = b")
    case True
    have "x / pow2 a \<le> y / pow2 a" using assms(2) by (simp add: divide_right_mono)
    then have "round_half_even (x / pow2 a) \<le> round_half_even (y / pow2 a)" by (rule round_mono)
    then show ?thesis unfolding fx fy True [symmetric] by (simp add: mult_right_mono)
  next
    case False
    with ab have ab1: "a + 1 \<le> b" by simp
    have xa: "x \<le> of_int (2 ^ 53) * pow2 a"
    proof -
      have "pow2 (ilog2 x + 1) \<le> pow2 (53 + a)"
        using assms(1) by (intro pow2_mono) (simp add: a_def ulp_exp_def)
      moreover have "pow2 (53 + a) = of_int (2 ^ 53) * pow2 a"
        unfolding pow2_add by (simp add: pow2_def)
      ultimately show ?thesis using ilog2_bounds [OF assms(1)] by linarith
    qed
    have yb: "of_int (2 ^ 52) * pow2 b \<le> y"
    proof -
      have "-1074 \<le> a" using assms(1) by (simp add: a_def ulp_exp_def)
      then have "b = ilog2 y - 52" using ab1 y0 by (simp add: b_def ulp_exp_def split: if_splits)
      then have "pow2 (52 + b) \<le> y" using ilog2_bounds [OF y0] by simp
      moreover have "pow2 (52 + b) = of_int (2 ^ 52) * pow2 b"
        unfolding pow2_add by (simp add: pow2_def)
      ultimately show ?thesis by simp
    qed
    have "round_half_even (x / pow2 a) \<le> 2 ^ 53"
    proof -
      have "x / pow2 a \<le> of_int (2 ^ 53)" using xa by (simp add: divide_le_eq)
      from round_mono [OF this] show ?thesis by (simp only: round_of_int)
    qed
    then have "fl x \<le> of_int (2 ^ 53) * pow2 a"
      unfolding fx by (intro mult_right_mono) (simp_all only: of_int_le_iff pow2_nonneg)
    also have "\<dots> = of_int (2 ^ 52) * pow2 (a + 1)" unfolding pow2_add by (simp add: pow2_def)
    also have "\<dots> \<le> of_int (2 ^ 52) * pow2 b" using pow2_mono [OF ab1] by simp
    also have "\<dots> \<le> fl y"
    proof -
      have "of_int (2 ^ 52) \<le> y / pow2 b" using yb by (simp add: le_divide_eq)
      from round_mono [OF this] have "2 ^ 52 \<le> round_half_even (y / pow2 b)"
        by (simp only: round_of_int)
      then show ?thesis unfolding fy
        by (intro mult_right_mono) (simp_all only: of_int_le_iff pow2_nonneg)
    qed
    finally show ?thesis .
  qed
qed

text \<open>Rounding is monotone.\<close>

lemma fl_mono:
  assumes "x \<le> y" shows "fl x \<le> fl y"
proof -
  consider "0 < x" | "x \<le> 0" "0 \<le> y" | "y < 0" by linarith
  then show ?thesis
  proof cases
    case 1
    then show ?thesis using assms by (rule fl_pos_mono)
  next
    case 2
    then show ?thesis using fl_nonneg [of y] fl_nonneg [of "- x"] by (simp add: fl_uminus)
  next
    case 3
    then show ?thesis using fl_pos_mono [of "- y" "- x"] assms by (simp add: fl_uminus)
  qed
qed

text \<open>Representable numbers are fixed.\<close>

lemma fl_representable:
  assumes m: "\<bar>m\<bar> \<le> 2 ^ 53" and k: "-1074 \<le> k"
  shows "fl (of_int m * pow2 k) = of_int m * pow2 k"
proof (cases "m = 0")
  case False
  define x e where "x = of_int m * pow2 k" and "e = ulp_exp x"
  have x0: "0 < \<bar>x\<bar>" using False by (simp add: x_def)
  have "\<exists>n. x = of_int n * pow2 e"
  proof (cases "e \<le> k")
    case True
    then show ?thesis
      using pow2_diff_int [OF True] by (metis x_def mult.assoc of_int_mult)
  next
    case False
    with k have e: "e = ilog2 \<bar>x\<bar> - 52" using x0 by (simp add: e_def ulp_exp_def split: if_splits)
    have ax: "\<bar>x\<bar> = of_int \<bar>m\<bar> * pow2 k" by (simp add: x_def abs_mult)
    have "pow2 (53 + k) \<le> pow2 (ilog2 \<bar>x\<bar>)" using False by (intro pow2_mono) (simp add: e)
    also have "\<dots> \<le> of_int \<bar>m\<bar> * pow2 k" using ilog2_bounds [OF x0] ax by simp
    finally have "of_int (2 ^ 53) * pow2 k \<le> of_int \<bar>m\<bar> * pow2 k"
      unfolding pow2_add by (simp add: pow2_def)
    then have "(2::int) ^ 53 \<le> \<bar>m\<bar>" by (metis mult_right_le_imp_le of_int_le_iff pow2_pos)
    with m have m53: "\<bar>m\<bar> = 2 ^ 53" by simp
    have "\<bar>x\<bar> = pow2 (53 + k)" unfolding ax m53 pow2_add by (simp add: pow2_def)
    then have "pow2 (ilog2 \<bar>x\<bar>) \<le> pow2 (53 + k)" using ilog2_bounds [OF x0] by simp
    then have "e \<le> k + 1" using e pow2_strict [of "53 + k" "ilog2 \<bar>x\<bar>"] by linarith
    with False have ek: "k = e + (-1)" by simp
    have half: "pow2 k = pow2 e / 2" unfolding ek pow2_add by (simp add: pow2_def)
    have "x = of_int (sgn m * 2 ^ 52) * pow2 e"
    proof -
      have "m = sgn m * 2 ^ 53" using m53 by (metis mult_sgn_abs)
      then have "x = of_int (sgn m * 2 ^ 53) * (pow2 e / 2)" unfolding x_def half by simp
      then show ?thesis by simp
    qed
    then show ?thesis by blast
  qed
  then obtain n where n: "x = of_int n * pow2 e" ..
  have "fl x = of_int (round_half_even (x / pow2 e)) * pow2 e" by (simp add: fl_def e_def Let_def)
  also have "x / pow2 e = of_int n" unfolding n by simp
  finally have "fl x = x" unfolding round_of_int n [symmetric] .
  then show ?thesis unfolding x_def .
qed simp

lemma fl_of_int: "\<bar>i\<bar> \<le> 2 ^ 53 \<Longrightarrow> fl (of_int i) = of_int i"
  using fl_representable [of i 0] by simp

lemma round_bounded: "\<bar>x\<bar> \<le> of_int n \<Longrightarrow> \<bar>round_half_even x\<bar> \<le> n"
  using round_mono [of x "of_int n"] round_mono [of "of_int (- n)" x] round_of_int [of n]
    round_of_int [of "- n"] by (simp add: abs_le_iff)

lemma fl_idem [simp]: "fl (fl x) = fl x"
proof (cases "x = 0")
  case False
  define e where "e = ulp_exp x"
  have "ilog2 \<bar>x\<bar> + 1 \<le> 53 + e" using False by (simp add: e_def ulp_exp_def)
  then have "\<bar>x\<bar> < pow2 (53 + e)"
    using ilog2_bounds [of "\<bar>x\<bar>"] pow2_mono [of "ilog2 \<bar>x\<bar> + 1" "53 + e"] False by linarith
  then have "\<bar>x / pow2 e\<bar> \<le> of_int (2 ^ 53)"
    unfolding pow2_add by (simp add: pow2_def [of 53] divide_le_eq)
  then have "\<bar>round_half_even (x / pow2 e)\<bar> \<le> 2 ^ 53" by (rule round_bounded)
  moreover have "-1074 \<le> e" by (simp add: e_def ulp_exp_def)
  ultimately show ?thesis unfolding fl_def [of x] e_def [symmetric] Let_def by (rule fl_representable)
qed simp

lemma is_float_fl [simp]: "is_float (fl x)"
  by (simp add: is_float_def)

lemma is_float_of_int: "\<bar>i\<bar> \<le> 2 ^ 53 \<Longrightarrow> is_float (of_int i)"
  by (simp add: is_float_def fl_of_int)

lemma is_float_0 [simp]: "is_float 0" and is_float_1 [simp]: "is_float 1"
  using is_float_of_int [of 0] is_float_of_int [of 1] by simp_all

lemma is_float_numeral [simp]: "(numeral k :: int) \<le> 2 ^ 53 \<Longrightarrow> is_float (numeral k)"
  using is_float_of_int [of "numeral k"] by simp

lemma is_float_neg_numeral [simp]: "(numeral k :: int) \<le> 2 ^ 53 \<Longrightarrow> is_float (- numeral k)"
  using is_float_of_int [of "- numeral k"] by simp

lemma is_float_fadd [simp]: "is_float (fadd a b)" and is_float_fsub [simp]: "is_float (fsub a b)"
  and is_float_fmul [simp]: "is_float (fmul a b)" and is_float_fdiv [simp]: "is_float (fdiv a b)"
  and is_float_int_to_float [simp]: "is_float (int_to_float i)"
  by (simp_all add: fadd_def fsub_def fmul_def fdiv_def int_to_float_def)

lemma is_float_max [simp]: "is_float a \<Longrightarrow> is_float b \<Longrightarrow> is_float (max a b)"
  and is_float_min [simp]: "is_float a \<Longrightarrow> is_float b \<Longrightarrow> is_float (min a b)"
  by (simp_all add: max_def min_def)

section \<open>Bounds through rounding\<close>

lemma fl_le: "x \<le> c \<Longrightarrow> is_float c \<Longrightarrow> fl x \<le> c"
  using fl_mono [of x c] by (simp add: is_float_def)

lemma fl_ge: "c \<le> x \<Longrightarrow> is_float c \<Longrightarrow> c \<le> fl x"
  using fl_mono [of c x] by (simp add: is_float_def)

lemma fadd_le: "a + b \<le> c \<Longrightarrow> is_float c \<Longrightarrow> fadd a b \<le> c"
  and fadd_ge: "c \<le> a + b \<Longrightarrow> is_float c \<Longrightarrow> c \<le> fadd a b"
  and fsub_le: "a - b \<le> c \<Longrightarrow> is_float c \<Longrightarrow> fsub a b \<le> c"
  and fsub_ge: "c \<le> a - b \<Longrightarrow> is_float c \<Longrightarrow> c \<le> fsub a b"
  and fmul_le: "a * b \<le> c \<Longrightarrow> is_float c \<Longrightarrow> fmul a b \<le> c"
  and fmul_ge: "c \<le> a * b \<Longrightarrow> is_float c \<Longrightarrow> c \<le> fmul a b"
  and fdiv_le: "a / b \<le> c \<Longrightarrow> is_float c \<Longrightarrow> fdiv a b \<le> c"
  and fdiv_ge: "c \<le> a / b \<Longrightarrow> is_float c \<Longrightarrow> c \<le> fdiv a b"
  and int_to_float_le: "of_int i \<le> c \<Longrightarrow> is_float c \<Longrightarrow> int_to_float i \<le> c"
  and int_to_float_ge: "c \<le> of_int i \<Longrightarrow> is_float c \<Longrightarrow> c \<le> int_to_float i"
  by (simp_all add: fadd_def fsub_def fmul_def fdiv_def int_to_float_def fl_le fl_ge)

lemma fadd_mono: "a \<le> a' \<Longrightarrow> b \<le> b' \<Longrightarrow> fadd a b \<le> fadd a' b'"
  and fsub_mono: "a \<le> a' \<Longrightarrow> b' \<le> b \<Longrightarrow> fsub a b \<le> fsub a' b'"
  and int_to_float_mono: "i \<le> j \<Longrightarrow> int_to_float i \<le> int_to_float j"
  and fdiv_mono: "a \<le> a' \<Longrightarrow> 0 \<le> c \<Longrightarrow> fdiv a c \<le> fdiv a' c"
  by (simp_all add: fadd_def fsub_def int_to_float_def fdiv_def fl_mono divide_right_mono)

lemma fadd_0 [simp]: "is_float a \<Longrightarrow> fadd a 0 = a" "is_float a \<Longrightarrow> fadd 0 a = a"
  by (simp_all add: fadd_def is_float_def)

lemma int_to_float_exact: "\<bar>i\<bar> \<le> 2 ^ 53 \<Longrightarrow> int_to_float i = of_int i"
  by (simp add: int_to_float_def fl_of_int)

lemma float_to_int_bounds: "0 \<le> x \<Longrightarrow> 0 \<le> float_to_int x" "x \<le> of_int n \<Longrightarrow> float_to_int x \<le> n"
  by (auto simp: float_to_int_def floor_le_iff ceiling_le_iff)

end
