(* ===== verification/Prelude.thy ===== *)
theory Prelude
  imports Complex_Main "HOL-Library.AList" "HOL-Library.List_Lexorder" "HOL-Library.Char_ord"
    "HOL-Library.Product_Lexorder"
begin

text \<open>
  What the components share: Python exceptions as values, the result type and its sequencing,
  dictionaries as association lists, decimal strings, and the named collections that carry the
  proofs (\<open>result_simps\<close> for the error plumbing, \<open>dict_simps\<close> for dictionary lookups).

  A \<open>dict\<close> of the program is an association list with distinct keys in insertion order:
  \<open>AList.update\<close> replaces the value of an existing key in place and appends a new key at the
  end, and \<open>AList.delete\<close> removes a key, as Python does. Strings are lists of characters
  compared lexicographically by code.
\<close>

named_theorems result_simps \<open>unfolding of the error plumbing\<close>
named_theorems dict_simps \<open>lookups in dictionaries\<close>

section \<open>Exceptions and results\<close>

datatype py_error =
    ValueError string
  | KeyError string
  | TypeError string
  | IndexError
  | AttributeError string
  | ZeroDivisionError
  | OSError string
  | SystemExit string

type_synonym 'a result = "py_error + 'a"

definition bind_r :: "'a result \<Rightarrow> ('a \<Rightarrow> 'b result) \<Rightarrow> 'b result" where
  "bind_r m f = (case m of Inl e \<Rightarrow> Inl e | Inr x \<Rightarrow> f x)"

lemma bind_r_simps [simp, result_simps]:
  "bind_r (Inl e) f = Inl e" "bind_r (Inr x) f = f x"
  by (simp_all add: bind_r_def)

lemma bind_r_Inr_iff [result_simps]:
  "bind_r first rest = Inr v \<longleftrightarrow> (\<exists>w. first = Inr w \<and> rest w = Inr v)"
  by (cases first) auto

lemma bind_r_assoc: "bind_r (bind_r m f) g = bind_r m (\<lambda>x. bind_r (f x) g)"
  by (cases m) auto

text \<open>A list comprehension whose body may raise stops at the first exception.\<close>

fun map_r :: "('a \<Rightarrow> 'b result) \<Rightarrow> 'a list \<Rightarrow> 'b list result" where
  "map_r f [] = Inr []"
| "map_r f (x # xs) = bind_r (f x) (\<lambda>y. bind_r (map_r f xs) (\<lambda>ys. Inr (y # ys)))"

lemma map_r_Inr: "(\<And>x. x \<in> set xs \<Longrightarrow> f x = Inr (g x)) \<Longrightarrow> map_r f xs = Inr (map g xs)"
  by (induction xs) auto

lemma map_r_length: "map_r f xs = Inr ys \<Longrightarrow> length ys = length xs"
  by (induction xs arbitrary: ys) (auto simp: bind_r_Inr_iff)

lemma map_r_elem: "map_r f xs = Inr ys \<Longrightarrow> y \<in> set ys \<Longrightarrow> \<exists>x \<in> set xs. f x = Inr y"
  by (induction xs arbitrary: ys) (auto simp: bind_r_Inr_iff)

text \<open>A loop over a list whose body may raise.\<close>

fun fold_r :: "('a \<Rightarrow> 's \<Rightarrow> 's result) \<Rightarrow> 'a list \<Rightarrow> 's \<Rightarrow> 's result" where
  "fold_r f [] s = Inr s"
| "fold_r f (x # xs) s = bind_r (f x s) (fold_r f xs)"

lemma fold_r_append: "fold_r f (xs @ ys) s = bind_r (fold_r f xs s) (fold_r f ys)"
  by (induction xs arbitrary: s) (auto simp: bind_r_def split: sum.splits)

lemma fold_r_invariant:
  assumes "fold_r f xs s = Inr t" "P s"
    and "\<And>x u v. x \<in> set xs \<Longrightarrow> P u \<Longrightarrow> f x u = Inr v \<Longrightarrow> P v"
  shows "P t"
  using assms
proof (induction xs arbitrary: s)
  case (Cons x xs)
  from Cons.prems(1) obtain u where u: "f x s = Inr u" "fold_r f xs u = Inr t"
    by (auto simp: bind_r_Inr_iff)
  have "P u" using Cons.prems(2,3) u(1) by auto
  with u(2) show ?case using Cons.prems(3) by (intro Cons.IH [of u]) auto
qed simp

lemma fold_r_total:
  assumes "P s" "\<And>x u. x \<in> set xs \<Longrightarrow> P u \<Longrightarrow> \<exists>v. f x u = Inr v \<and> P v"
  shows "\<exists>t. fold_r f xs s = Inr t \<and> P t"
  using assms
proof (induction xs arbitrary: s)
  case (Cons x xs)
  obtain u where "f x s = Inr u" "P u" using Cons.prems(1) Cons.prems(2) [of x s] by auto
  with Cons.IH [of u] Cons.prems(2) show ?case by simp
qed simp

text \<open>A loop that also establishes something for each element, which later iterations keep.\<close>

lemma fold_r_each:
  assumes "P s" "\<And>x u. x \<in> set xs \<Longrightarrow> P u \<Longrightarrow> \<exists>v. f x u = Inr v \<and> P v \<and> Q x v"
    and "\<And>x y u v. Q x u \<Longrightarrow> f y u = Inr v \<Longrightarrow> Q x v"
  shows "\<exists>t. fold_r f xs s = Inr t \<and> P t \<and> (\<forall>x \<in> set xs. Q x t)"
  using assms(1,2)
proof (induction xs arbitrary: s)
  case (Cons x xs)
  obtain u where u: "f x s = Inr u" "P u" "Q x u" using Cons.prems(1) Cons.prems(2) [of x s] by auto
  obtain t where t: "fold_r f xs u = Inr t" "P t" "\<forall>x \<in> set xs. Q x t"
    using Cons.IH [OF u(2)] Cons.prems(2) by auto
  have "Q x t" by (rule fold_r_invariant [OF t(1), of "Q x"]) (use u(3) assms(3) in auto)
  with u t show ?case by simp
qed simp

text \<open>
  A computation that may also run forever: \<open>None\<close> is "does not return", \<open>Some (Inl e)\<close> an
  exception, \<open>Some (Inr x)\<close> a result.
\<close>

type_synonym 'a outcome = "'a result option"

definition bind_o :: "'a outcome \<Rightarrow> ('a \<Rightarrow> 'b outcome) \<Rightarrow> 'b outcome" where
  "bind_o m f = (case m of None \<Rightarrow> None | Some (Inl e) \<Rightarrow> Some (Inl e) | Some (Inr x) \<Rightarrow> f x)"

lemma bind_o_simps [simp, result_simps]:
  "bind_o None f = None" "bind_o (Some (Inl e)) f = Some (Inl e)" "bind_o (Some (Inr x)) f = f x"
  by (simp_all add: bind_o_def)

lemma bind_o_Some_Inr_iff [result_simps]:
  "bind_o m f = Some (Inr y) \<longleftrightarrow> (\<exists>x. m = Some (Inr x) \<and> f x = Some (Inr y))"
  by (auto simp: bind_o_def split: option.splits sum.splits)

lemma bind_o_cong_fun: "(\<And>x. m = Some (Inr x) \<Longrightarrow> f x = g x) \<Longrightarrow> bind_o m f = bind_o m g"
  by (auto simp: bind_o_def split: option.splits sum.splits)

lemma bind_o_mono [partial_function_mono]:
  fixes m :: "('a \<Rightarrow> 'b option) \<Rightarrow> 'c outcome" and k :: "'c \<Rightarrow> ('a \<Rightarrow> 'b option) \<Rightarrow> 'd outcome"
  assumes "mono_option m" "\<And>x. mono_option (\<lambda>f. k x f)"
  shows "mono_option (\<lambda>f. bind_o (m f) (\<lambda>x. k x f))"
proof (rule monotoneI)
  fix f g :: "'a \<Rightarrow> 'b option" assume fg: "fun_ord option_ord f g"
  have m: "option_ord (m f) (m g)" using assms(1) fg by (rule monotoneD [of _ _ _ f g])
  have k: "option_ord (k x f) (k x g)" for x using assms(2) fg by (rule monotoneD [of _ _ _ f g])
  show "option_ord (bind_o (m f) (\<lambda>x. k x f)) (bind_o (m g) (\<lambda>x. k x g))"
  proof (cases "m f")
    case (Some r)
    then have "m g = Some r" using m by (auto simp: flat_ord_def)
    with Some k show ?thesis by (cases r) (simp_all add: flat_ord_def)
  qed (simp add: flat_ord_def)
qed

fun fold_o :: "('a \<Rightarrow> 's \<Rightarrow> 's outcome) \<Rightarrow> 'a list \<Rightarrow> 's \<Rightarrow> 's outcome" where
  "fold_o f [] s = Some (Inr s)"
| "fold_o f (x # xs) s = bind_o (f x s) (fold_o f xs)"

lemma fold_o_append: "fold_o f (xs @ ys) s = bind_o (fold_o f xs s) (fold_o f ys)"
  by (induction xs arbitrary: s) (auto simp: bind_o_def split: option.splits sum.splits)

text \<open>A loop that appends results to an output: \<open>g\<close> lists what one round is about, and every result is related to its
  item, in order.\<close>

lemma fold_o_grid:
  assumes "kept s"
    and "\<And>x s. x \<in> set xs \<Longrightarrow> kept s
      \<Longrightarrow> \<exists>t new. f x s = Some (Inr t) \<and> kept t \<and> output t = output s @ new \<and> list_all2 Q (g x) new"
  shows "\<exists>t new. fold_o f xs s = Some (Inr t) \<and> kept t \<and> output t = output s @ new \<and> list_all2 Q (concat (map g xs)) new"
  using assms
proof (induction xs arbitrary: s)
  case (Cons x xs)
  obtain t new where t: "f x s = Some (Inr t)" "kept t" "output t = output s @ new" "list_all2 Q (g x) new"
    using Cons.prems(2) [of x s] Cons.prems(1) by auto
  have "\<exists>u more. fold_o f xs t = Some (Inr u) \<and> kept u \<and> output u = output t @ more \<and> list_all2 Q (concat (map g xs)) more"
    by (rule Cons.IH [OF t(2)]) (use Cons.prems(2) in simp)
  then obtain u more where "fold_o f xs t = Some (Inr u)" "kept u" "output u = output t @ more" "list_all2 Q (concat (map g xs)) more"
    by blast
  with t show ?case by (intro exI [of _ u] exI [of _ "new @ more"]) (simp add: list_all2_appendI)
qed simp

text \<open>
  \<open>safely m P\<close>: the computation returns, and unless it raises, its result satisfies \<open>P\<close>.
\<close>

definition safely :: "'a outcome \<Rightarrow> ('a \<Rightarrow> bool) \<Rightarrow> bool" where
  "safely m P \<longleftrightarrow> (case m of None \<Rightarrow> False | Some r \<Rightarrow> (\<forall>x. r = Inr x \<longrightarrow> P x))"

lemma safely_Some [simp]: "safely (Some r) P \<longleftrightarrow> (\<forall>x. r = Inr x \<longrightarrow> P x)"
  by (simp add: safely_def)

lemma safely_bind [simp]: "safely (bind_o m f) P \<longleftrightarrow> safely m (\<lambda>x. safely (f x) P)"
  by (auto simp: safely_def bind_o_def split: option.splits sum.splits)

lemma safelyD: "safely m P \<Longrightarrow> m = Some (Inr x) \<Longrightarrow> P x"
  by simp

lemma safely_defined: "safely m P \<Longrightarrow> m \<noteq> None"
  by (cases m) (simp_all add: safely_def)

lemma safely_mono: "safely m P \<Longrightarrow> (\<And>x. P x \<Longrightarrow> Q x) \<Longrightarrow> safely m Q"
  by (auto simp: safely_def split: option.splits)

text \<open>Runs of a transition function that may raise or diverge, on events that are \<open>ok\<close>.\<close>

locale stepwise =
  fixes step :: "'e \<Rightarrow> 's \<Rightarrow> 's outcome" and ok :: "'e \<Rightarrow> bool" and inv :: "'s \<Rightarrow> bool"
  assumes step_safely: "inv s \<Longrightarrow> ok e \<Longrightarrow> safely (step e s) inv"
begin

lemma run_safely: "inv s \<Longrightarrow> (\<forall>e \<in> set es. ok e) \<Longrightarrow> safely (fold_o step es s) inv"
proof (induction es arbitrary: s)
  case (Cons e es)
  have "safely (step e s) inv" using Cons.prems step_safely by simp
  then have "safely (step e s) (\<lambda>t. safely (fold_o step es t) inv)"
    by (rule safely_mono) (rule Cons.IH, use Cons.prems in auto)
  then show ?case by simp
qed simp

lemma run_defined: "inv s \<Longrightarrow> (\<forall>e \<in> set es. ok e) \<Longrightarrow> fold_o step es s \<noteq> None"
  using run_safely safely_defined by blast

end

text \<open>When an event that is \<open>ok\<close> raises nothing, neither does a run of them.\<close>

locale total_stepwise = stepwise +
  assumes step_total: "inv s \<Longrightarrow> ok e \<Longrightarrow> step e s \<noteq> Some (Inl x)"
begin

lemma run_total:
  "inv s \<Longrightarrow> (\<forall>e \<in> set es. ok e) \<Longrightarrow> \<exists>t. fold_o step es s = Some (Inr t) \<and> inv t"
proof (induction es arbitrary: s)
  case (Cons e es)
  then have "safely (step e s) inv" using step_safely by simp
  then obtain r where r: "step e s = Some r" "\<forall>t. r = Inr t \<longrightarrow> inv t"
    by (auto simp: safely_def split: option.splits)
  with Cons.prems step_total [of s e] obtain t where "r = Inr t" by (cases r) auto
  with r Cons.IH [of t] Cons.prems show ?case by simp
qed simp

end

text \<open>Python's \<open>xs[i]\<close>: negative indices count from the end, anything else out of range raises.\<close>

definition py_nth :: "'a list \<Rightarrow> int \<Rightarrow> 'a result" where
  "py_nth xs i =
     (if i < - int (length xs) \<or> int (length xs) \<le> i then Inl IndexError
      else Inr (if i < 0 then xs ! nat (int (length xs) + i) else xs ! nat i))"

lemma py_nth_in_range: "0 \<le> i \<Longrightarrow> i < int (length xs) \<Longrightarrow> py_nth xs i = Inr (xs ! nat i)"
  by (simp add: py_nth_def)

text \<open>\<open>enumerate(xs)\<close>\<close>

definition py_enumerate :: "'a list \<Rightarrow> (int \<times> 'a) list" where
  "py_enumerate xs = zip (map int [0..<length xs]) xs"

lemma py_enumerate_member: "ix \<in> set (py_enumerate xs) \<Longrightarrow> 0 \<le> fst ix \<and> snd ix \<in> set xs"
  by (auto simp: py_enumerate_def set_zip)

lemma py_enumerate_simps [simp]: "length (py_enumerate xs) = length xs"
  "i < length xs \<Longrightarrow> py_enumerate xs ! i = (int i, xs ! i)"
  by (simp_all add: py_enumerate_def)

section \<open>Dictionaries\<close>

type_synonym ('k, 'v) dict = "('k \<times> 'v) list"

abbreviation dict_get :: "('k, 'v) dict \<Rightarrow> 'k \<Rightarrow> 'v option" where
  "dict_get d k \<equiv> map_of d k"

abbreviation dict_keys :: "('k, 'v) dict \<Rightarrow> 'k set" where
  "dict_keys d \<equiv> fst ` set d"

abbreviation dict_wf :: "('k, 'v) dict \<Rightarrow> bool" where
  "dict_wf d \<equiv> distinct (map fst d)"

lemma dict_get_update [dict_simps]:
  "dict_get (AList.update k v d) k' = (if k' = k then Some v else dict_get d k')"
  by (simp add: update_conv')

lemma dict_update_new: "k \<notin> dict_keys d \<Longrightarrow> AList.update k v d = d @ [(k, v)]"
  by (induction d) auto

lemma dict_get_delete [dict_simps]:
  "dict_get (AList.delete k d) k' = (if k' = k then None else dict_get d k')"
  by (simp add: delete_conv')

lemma dict_keys_update [dict_simps]: "dict_keys (AList.update k v d) = insert k (dict_keys d)"
  by (simp add: dom_update)

lemma dict_keys_delete [dict_simps]: "dict_keys (AList.delete k d) = dict_keys d - {k}"
  by (induction d) auto

lemma dict_wf_update [simp]: "dict_wf d \<Longrightarrow> dict_wf (AList.update k v d)"
  by (rule distinct_update)

lemma dict_wf_delete [simp]: "dict_wf d \<Longrightarrow> dict_wf (AList.delete k d)"
  by (rule distinct_delete)

lemma dict_get_Some_iff: "dict_wf d \<Longrightarrow> dict_get d k = Some v \<longleftrightarrow> (k, v) \<in> set d"
  by simp

lemma dict_get_None_iff [dict_simps]: "dict_get d k = None \<longleftrightarrow> k \<notin> dict_keys d"
  by (simp add: map_of_eq_None_iff)

lemma dict_key_of: "dict_get d k = Some v \<Longrightarrow> k \<in> dict_keys d"
  by (metis domI dom_map_of_conv_image_fst)

lemma dict_key_Some: "k \<in> dict_keys d \<Longrightarrow> \<exists>v. dict_get d k = Some v"
  using dict_get_None_iff [of d k] by (cases "dict_get d k") auto

lemma dict_map_values: "dict_get (map (\<lambda>(k, v). (k, f v)) d) k = map_option f (dict_get d k)"
  by (induction d) auto

text \<open>
  The interface a component uses when it keeps objects in a dictionary under their own identity:
  every stored object is found under its identity, and the three operations keep that.
\<close>

locale keyed_store =
  fixes get :: "'d \<Rightarrow> 'k \<Rightarrow> 'v option" and put :: "'k \<Rightarrow> 'v \<Rightarrow> 'd \<Rightarrow> 'd"
    and del :: "'k \<Rightarrow> 'd \<Rightarrow> 'd" and ident :: "'v \<Rightarrow> 'k"
  assumes get_put: "get (put k v d) k' = (if k' = k then Some v else get d k')"
    and get_del: "get (del k d) k' = (if k' = k then None else get d k')"
begin

lemma put_keyed:
  assumes "\<And>k v. get d k = Some v \<Longrightarrow> ident v = k" "ident v = k" "get (put k v d) k' = Some w"
  shows "ident w = k'"
  using assms by (auto simp: get_put split: if_splits)

lemma del_keyed:
  assumes "\<And>k v. get d k = Some v \<Longrightarrow> ident v = k" "get (del k d) k' = Some w"
  shows "ident w = k'"
  using assms by (auto simp: get_del split: if_splits)

lemma put_all:
  assumes "\<And>k v. get d k = Some v \<Longrightarrow> P v" "P v" "get (put k v d) k' = Some w"
  shows "P w"
  using assms by (auto simp: get_put split: if_splits)

lemma del_all:
  assumes "\<And>k v. get d k = Some v \<Longrightarrow> P v" "get (del k d) k' = Some w"
  shows "P w"
  using assms by (auto simp: get_del split: if_splits)

lemma put_same: "get d k = Some v \<Longrightarrow> get (put k v d) k' = get d k'"
  by (simp add: get_put)

end

section \<open>Decimal strings\<close>

fun digit_char :: "nat \<Rightarrow> char" where
  "digit_char n = char_of (48 + n)"

fun nat_str :: "nat \<Rightarrow> string" where
  "nat_str n = (if n < 10 then [digit_char n] else nat_str (n div 10) @ [digit_char (n mod 10)])"

declare nat_str.simps [simp del] digit_char.simps [simp del]

text \<open>\<open>str(i)\<close> of a Python int.\<close>

definition int_str :: "int \<Rightarrow> string" where
  "int_str i = (if i < 0 then ''-'' @ nat_str (nat (- i)) else nat_str (nat i))"

definition is_digit :: "char \<Rightarrow> bool" where
  "is_digit c \<longleftrightarrow> 48 \<le> (of_char c :: nat) \<and> (of_char c :: nat) \<le> 57"

definition digit_val :: "char \<Rightarrow> nat" where "digit_val c = of_char c - 48"

fun digits_val :: "nat \<Rightarrow> string \<Rightarrow> nat" where
  "digits_val acc [] = acc"
| "digits_val acc (c # cs) = digits_val (10 * acc + digit_val c) cs"

lemma digit_char_props:
  assumes "n < 10" shows "is_digit (digit_char n)" "digit_val (digit_char n) = n"
  using assms by (simp_all add: is_digit_def digit_val_def digit_char.simps)

lemma digits_val_append: "digits_val acc (xs @ ys) = digits_val (digits_val acc xs) ys"
  by (induction xs arbitrary: acc) auto

lemma nat_str_digits: "\<forall>c \<in> set (nat_str n). is_digit c"
proof (induction n rule: nat_str.induct)
  case (1 n)
  then show ?case by (subst nat_str.simps) (auto simp: digit_char_props)
qed

lemma nat_str_nonempty [simp]: "nat_str n \<noteq> []"
  by (subst nat_str.simps) simp

lemma digits_val_nat_str: "digits_val 0 (nat_str n) = n"
proof (induction n rule: nat_str.induct)
  case (1 n)
  then show ?case by (subst nat_str.simps) (auto simp: digits_val_append digit_char_props)
qed

lemma nat_str_inj [simp]: "nat_str m = nat_str n \<longleftrightarrow> m = n"
  by (metis digits_val_nat_str)

lemma minus_not_digit: "\<not> is_digit (CHR ''-'')" and colon_not_digit: "\<not> is_digit (CHR '':'')"
  by (simp_all add: is_digit_def)

lemma int_str_inj [simp]: "int_str i = int_str j \<longleftrightarrow> i = j"
proof -
  have "hd (nat_str n) \<noteq> CHR ''-''" for n
    using nat_str_digits [of n] minus_not_digit by (metis list.set_sel(1) nat_str_nonempty)
  then have "nat_str n \<noteq> CHR ''-'' # s" for n s by (metis list.sel(1))
  moreover have "CHR ''-'' # s \<noteq> nat_str n" for n s using calculation by metis
  ultimately show ?thesis by (auto simp: int_str_def)
qed

lemma int_str_no_colon: "CHR '':'' \<notin> set (int_str i)"
  using nat_str_digits colon_not_digit by (auto simp: int_str_def)

text \<open>
  Identifiers of the form \<open>f"{prefix}:tag:{n}"\<close> determine both the prefix and the number: the
  number is what follows the last colon.
\<close>

lemma last_colon_split:
  assumes "p @ CHR '':'' # s = q @ CHR '':'' # t" "CHR '':'' \<notin> set s" "CHR '':'' \<notin> set t"
  shows "p = q \<and> s = t"
proof -
  have "rev s @ CHR '':'' # rev p = rev t @ CHR '':'' # rev q"
    using arg_cong [OF assms(1), of rev] by simp
  moreover have "takeWhile (\<lambda>c. c \<noteq> CHR '':'') (rev s @ CHR '':'' # rev p) = rev s"
    using assms(2) by (subst takeWhile_append2) auto
  moreover have "takeWhile (\<lambda>c. c \<noteq> CHR '':'') (rev t @ CHR '':'' # rev q) = rev t"
    using assms(3) by (subst takeWhile_append2) auto
  ultimately have "rev s = rev t" by metis
  with assms(1) show ?thesis by simp
qed

definition tagged_id :: "string \<Rightarrow> string \<Rightarrow> int \<Rightarrow> string" where
  "tagged_id request_id tag n = request_id @ '':'' @ tag @ '':'' @ int_str n"

lemma tagged_id_inj: "tagged_id p tag m = tagged_id q tag n \<longleftrightarrow> p = q \<and> m = n"
  using last_colon_split [of "p @ '':'' @ tag" "int_str m" "q @ '':'' @ tag" "int_str n"]
  by (auto simp: tagged_id_def int_str_no_colon)

lemma tagged_id_nonempty [simp]: "tagged_id p tag n \<noteq> []"
  by (simp add: tagged_id_def)

text \<open>\<open>int(s.rsplit(":", 1)[-1])\<close> on an identifier whose last part is made of digits.\<close>

definition int_after_colon :: "string \<Rightarrow> int result" where
  "int_after_colon s =
     (let t = rev (takeWhile (\<lambda>c. c \<noteq> CHR '':'') (rev s))
      in if t \<noteq> [] \<and> list_all is_digit t then Inr (int (digits_val 0 t))
         else Inl (ValueError ''invalid literal for int() with base 10''))"

lemma int_after_colon_tagged: "0 \<le> n \<Longrightarrow> int_after_colon (tagged_id p tag n) = Inr n"
proof -
  assume n: "0 \<le> n"
  have d: "list_all is_digit (nat_str (nat n))" using nat_str_digits by (simp add: list_all_iff)
  have "\<forall>c \<in> set (rev (nat_str (nat n))). c \<noteq> CHR '':''"
    using nat_str_digits [of "nat n"] colon_not_digit by auto
  then have "takeWhile (\<lambda>c. c \<noteq> CHR '':'') (rev (nat_str (nat n)) @ CHR '':'' # rev (p @ '':'' @ tag))
      = rev (nat_str (nat n))"
    by (subst takeWhile_append2) auto
  then show ?thesis
    using n d by (simp add: int_after_colon_def tagged_id_def int_str_def digits_val_nat_str Let_def)
qed

section \<open>String methods\<close>

text \<open>\<open>strip\<close>, \<open>lower\<close> and \<open>join\<close> on ASCII text.\<close>

definition is_space :: "char \<Rightarrow> bool" where
  "is_space c \<longleftrightarrow> (let n = of_char c :: nat in (9 \<le> n \<and> n \<le> 13) \<or> (28 \<le> n \<and> n \<le> 32))"

definition py_strip :: "string \<Rightarrow> string" where
  "py_strip s = rev (dropWhile is_space (rev (dropWhile is_space s)))"

definition lower_char :: "char \<Rightarrow> char" where
  "lower_char c = (let n = of_char c :: nat in if 65 \<le> n \<and> n \<le> 90 then char_of (n + 32) else c)"

definition py_lower :: "string \<Rightarrow> string" where "py_lower s = map lower_char s"

fun py_join :: "string \<Rightarrow> string list \<Rightarrow> string" where
  "py_join sep [] = []"
| "py_join sep [x] = x"
| "py_join sep (x # y # zs) = x @ sep @ py_join sep (y # zs)"

end
