(* ===== verification/PyChoice.thy ===== *)
theory PyChoice
  imports Prelude
begin

text \<open>
  Selection. Python's \<open>min(xs, key=k)\<close> and \<open>max(xs, key=k)\<close> return the first element whose key
  is least or greatest. The locales state what a client of a victim selection relies on: it
  returns a member whenever there is one (\<open>victim_selection\<close>), it returns a best one for a
  preference that tells different identities apart (\<open>ranked_selection\<close>), and a preference that
  puts every unpinned block before every pinned one never selects a pinned block while an
  unpinned one is there (\<open>pin_ranked\<close>). The client's lemmas are proved here once; the placement
  policies interpret the locales.
\<close>

section \<open>min and max with a key\<close>

definition min_by :: "('a \<Rightarrow> 'k::linorder) \<Rightarrow> 'a list \<Rightarrow> 'a option" where
  "min_by k xs = (case xs of [] \<Rightarrow> None
     | x # ys \<Rightarrow> Some (fold (\<lambda>y best. if k y < k best then y else best) ys x))"

definition max_by :: "('a \<Rightarrow> 'k::linorder) \<Rightarrow> 'a list \<Rightarrow> 'a option" where
  "max_by k xs = (case xs of [] \<Rightarrow> None
     | x # ys \<Rightarrow> Some (fold (\<lambda>y best. if k best < k y then y else best) ys x))"

lemma fold_min_props:
  fixes k :: "'a \<Rightarrow> 'k::linorder"
  defines "m \<equiv> fold (\<lambda>y best. if k y < k best then y else best)"
  shows "m ys x \<in> insert x (set ys) \<and> (\<forall>y \<in> insert x (set ys). k (m ys x) \<le> k y)"
  unfolding m_def
proof (induction ys arbitrary: x)
  case (Cons y ys)
  show ?case using Cons.IH [of x] Cons.IH [of y] by (auto intro: order_trans less_imp_le)
qed simp

lemma fold_max_props:
  fixes k :: "'a \<Rightarrow> 'k::linorder"
  defines "m \<equiv> fold (\<lambda>y best. if k best < k y then y else best)"
  shows "m ys x \<in> insert x (set ys) \<and> (\<forall>y \<in> insert x (set ys). k y \<le> k (m ys x))"
  unfolding m_def
proof (induction ys arbitrary: x)
  case (Cons y ys)
  show ?case using Cons.IH [of x] Cons.IH [of y] by (auto intro: order_trans less_imp_le)
qed simp

lemma min_by_Nil [simp]: "min_by k [] = None" and max_by_Nil [simp]: "max_by k [] = None"
  by (simp_all add: min_by_def max_by_def)

lemma min_by_total: "xs \<noteq> [] \<Longrightarrow> \<exists>v. min_by k xs = Some v"
  and max_by_total: "xs \<noteq> [] \<Longrightarrow> \<exists>v. max_by k xs = Some v"
  by (auto simp: min_by_def max_by_def neq_Nil_conv)

lemma min_by_SomeD: "min_by k xs = Some v \<Longrightarrow> v \<in> set xs \<and> (\<forall>y \<in> set xs. k v \<le> k y)"
  using fold_min_props [of k "tl xs" "hd xs"] by (cases xs) (auto simp: min_by_def)

lemma max_by_SomeD: "max_by k xs = Some v \<Longrightarrow> v \<in> set xs \<and> (\<forall>y \<in> set xs. k y \<le> k v)"
  using fold_max_props [of k "tl xs" "hd xs"] by (cases xs) (auto simp: max_by_def)

section \<open>The contract of a victim selection\<close>

locale victim_selection =
  fixes select :: "'b list \<Rightarrow> 'b option"
  assumes select_Nil: "select [] = None"
    and select_total: "bs \<noteq> [] \<Longrightarrow> \<exists>v. select bs = Some v"
    and select_member: "select bs = Some v \<Longrightarrow> v \<in> set bs"
begin

lemma select_None_iff: "select bs = None \<longleftrightarrow> bs = []"
  using select_Nil select_total by (cases "bs = []") auto

lemma select_shrinks:
  assumes "select bs = Some v" "set bs \<subseteq> f ` S" "finite S" "inj_on f S"
  shows "card (S - {x \<in> S. f x = v}) < card S"
proof -
  have "v \<in> f ` S" using select_member [OF assms(1)] assms(2) by blast
  then show ?thesis using assms(3) by (intro psubset_card_mono) auto
qed

end

locale ranked_selection = victim_selection select for select :: "'b list \<Rightarrow> 'b option" +
  fixes better :: "'b \<Rightarrow> 'b \<Rightarrow> bool" and ident :: "'b \<Rightarrow> 'i"
  assumes select_best: "select bs = Some v \<Longrightarrow> b \<in> set bs \<Longrightarrow> \<not> better b v"
    and better_total: "ident b \<noteq> ident c \<Longrightarrow> better b c \<or> better c b"
begin

text \<open>
  With pairwise different identities the choice depends on the set of candidates only, not on
  the order in which they are listed.
\<close>

lemma select_order_independent:
  assumes "set bs = set cs" "inj_on ident (set bs)"
  shows "select bs = select cs"
proof (cases "bs = []")
  case True
  with assms show ?thesis by simp
next
  case False
  moreover from False assms(1) have "cs \<noteq> []" by auto
  ultimately obtain v w where vw: "select bs = Some v" "select cs = Some w"
    using select_total by blast
  have m: "v \<in> set bs" "w \<in> set bs" using vw select_member assms(1) by auto
  have "\<not> better w v" "\<not> better v w" using vw m select_best assms(1) by auto
  then have "ident v = ident w" using better_total by blast
  with assms(2) m have "v = w" by (auto dest: inj_onD)
  with vw show ?thesis by simp
qed

end

locale pin_respecting = victim_selection select for select :: "'b list \<Rightarrow> 'b option" +
  fixes pinned :: "'b \<Rightarrow> bool"
  assumes pinned_last: "select bs = Some v \<Longrightarrow> pinned v \<Longrightarrow> b \<in> set bs \<Longrightarrow> pinned b"
begin

lemma select_unpinned: "\<exists>b \<in> set bs. \<not> pinned b \<Longrightarrow> \<exists>v. select bs = Some v \<and> \<not> pinned v"
  using select_total [of bs] pinned_last by (cases "bs = []") auto

end

locale pin_ranked = ranked_selection select better ident
  for select :: "'b list \<Rightarrow> 'b option" and better and ident :: "'b \<Rightarrow> 'i" +
  fixes pinned :: "'b \<Rightarrow> bool"
  assumes unpinned_better: "\<not> pinned b \<Longrightarrow> pinned c \<Longrightarrow> better b c"

sublocale pin_ranked \<subseteq> pin_respecting select pinned
  using select_best unpinned_better by unfold_locales blast

end
