(* ===== verification/Schema.thy ===== *)
theory Schema
  imports PyFloat PyChoice
begin

text \<open>
  \<open>src/kv_memory_intent/schema.py\<close>: the enumerations, the \<open>MemoryIntent\<close> dataclass with its
  validation (\<open>__post_init__\<close>), the copy operation every component uses (\<open>copy_with\<close>, which
  validates again), the derived predicates, and the two urgency scores in float arithmetic.

  A construction \<open>MemoryIntent(...)\<close> is \<open>post_init\<close> of the record of the arguments;
  \<open>copy_with(field=v, ...)\<close> is \<open>copy_with\<close> of the record update. Both return the error of the first
  failing check. \<open>valid_intent\<close> is the class invariant they establish.
\<close>

named_theorems intent_defs \<open>definitions of the schema\<close>

section \<open>Enumerations\<close>

datatype object_type = KV_CACHE | WEIGHT | ACTIVATION | SCRATCH
datatype phase = PREFILL | DECODE | VERIFY | ROLLBACK | DONE | IDLE
datatype priority = DECODE_CRITICAL | HOT | WARM | COLD
datatype tier = HBM | DRAM | CXL | NVME
datatype event_type = ALLOCATED | ACCESSED | COMMITTED | MARKED_DECODE_CRITICAL | MARKED_COLD
  | SPILLED | PREFETCHED | MISS | EVICTED | FREED

text \<open>The string value of each member (\<open>StrEnum\<close>).\<close>

fun object_type_value :: "object_type \<Rightarrow> string" where
  "object_type_value KV_CACHE = ''KV_CACHE''"
| "object_type_value WEIGHT = ''WEIGHT''"
| "object_type_value ACTIVATION = ''ACTIVATION''"
| "object_type_value SCRATCH = ''SCRATCH''"

fun phase_value :: "phase \<Rightarrow> string" where
  "phase_value PREFILL = ''PREFILL''"
| "phase_value DECODE = ''DECODE''"
| "phase_value VERIFY = ''VERIFY''"
| "phase_value ROLLBACK = ''ROLLBACK''"
| "phase_value DONE = ''DONE''"
| "phase_value IDLE = ''IDLE''"

fun priority_value :: "priority \<Rightarrow> string" where
  "priority_value DECODE_CRITICAL = ''DECODE_CRITICAL''"
| "priority_value HOT = ''HOT''"
| "priority_value WARM = ''WARM''"
| "priority_value COLD = ''COLD''"

fun tier_value :: "tier \<Rightarrow> string" where
  "tier_value HBM = ''HBM''"
| "tier_value DRAM = ''DRAM''"
| "tier_value CXL = ''CXL''"
| "tier_value NVME = ''NVME''"

fun event_type_value :: "event_type \<Rightarrow> string" where
  "event_type_value ALLOCATED = ''ALLOCATED''"
| "event_type_value ACCESSED = ''ACCESSED''"
| "event_type_value COMMITTED = ''COMMITTED''"
| "event_type_value MARKED_DECODE_CRITICAL = ''MARKED_DECODE_CRITICAL''"
| "event_type_value MARKED_COLD = ''MARKED_COLD''"
| "event_type_value SPILLED = ''SPILLED''"
| "event_type_value PREFETCHED = ''PREFETCHED''"
| "event_type_value MISS = ''MISS''"
| "event_type_value EVICTED = ''EVICTED''"
| "event_type_value FREED = ''FREED''"

text \<open>Tiers compare by their string value, which is how \<open>sorted(..., key=str)\<close> orders them.\<close>

instantiation tier :: linorder
begin

definition less_eq_tier :: "tier \<Rightarrow> tier \<Rightarrow> bool" where
  "less_eq_tier a b \<longleftrightarrow> tier_value a \<le> tier_value b"

definition less_tier :: "tier \<Rightarrow> tier \<Rightarrow> bool" where
  "less_tier a b \<longleftrightarrow> tier_value a < tier_value b"

instance
proof
  fix a b c :: tier
  have inj: "tier_value a = tier_value b \<Longrightarrow> a = b" by (cases a; cases b; simp)
  show "(a < b) = (a \<le> b \<and> \<not> b \<le> a)" by (simp add: less_eq_tier_def less_tier_def less_le_not_le)
  show "a \<le> a" by (simp add: less_eq_tier_def)
  show "a \<le> b \<Longrightarrow> b \<le> c \<Longrightarrow> a \<le> c" unfolding less_eq_tier_def by (rule order_trans)
  show "a \<le> b \<Longrightarrow> b \<le> a \<Longrightarrow> a = b" unfolding less_eq_tier_def using inj by (blast intro: order_antisym)
  show "a \<le> b \<or> b \<le> a" unfolding less_eq_tier_def by (rule linear)
qed

end

lemma finite_tiers [simp]: "finite (S :: tier set)"
proof (rule finite_subset)
  show "S \<subseteq> {HBM, DRAM, CXL, NVME}" using tier.exhaust by blast
qed simp

section \<open>MemoryIntent\<close>

record mintent =
  object_id :: string
  request_id :: string
  block_id :: int
  object_type :: object_type
  phase :: phase
  priority :: priority
  allowed_tiers :: "tier set"
  current_tier :: tier
  size_bytes :: int
  request_priority :: int
  recency_score :: pyfloat
  deadline_us :: "int option"
  slack_us :: "int option"
  arrival_step :: "int option"
  target_decode_step :: "int option"
  expected_reuse_window_tokens :: "int option"
  recompute_cost_us :: "int option"
  spill_cost_us :: "int option"
  compression_ok :: bool
  recompute_ok :: bool
  prefetch_ok :: bool
  pin_requested :: bool
  is_draft :: bool
  is_committed :: bool
  created_step :: int
  last_access_step :: int

text \<open>The checks of \<open>__post_init__\<close> in their order, and the automatic pin.\<close>

definition post_init :: "mintent \<Rightarrow> mintent result" where
  "post_init i =
     (if object_id i = [] then Inl (ValueError ''object_id must not be empty'')
      else if object_type i = KV_CACHE \<and> request_id i = []
        then Inl (ValueError ''KV_CACHE objects must include a non-empty request_id'')
      else if block_id i < 0 then Inl (ValueError ''block_id must be >= 0'')
      else if size_bytes i \<le> 0 then Inl (ValueError ''size_bytes must be > 0'')
      else if allowed_tiers i = {} then Inl (ValueError ''allowed_tiers must not be empty'')
      else if current_tier i \<notin> allowed_tiers i
        then Inl (ValueError ''current_tier must be present in allowed_tiers'')
      else if \<not> (0 \<le> request_priority i \<and> request_priority i \<le> 100)
        then Inl (ValueError ''request_priority must be in range 0..100'')
      else if \<not> (0 \<le> recency_score i \<and> recency_score i \<le> 1)
        then Inl (ValueError ''recency_score must be in range 0.0..1.0'')
      else Inr (if priority i = DECODE_CRITICAL then i\<lparr>pin_requested := True\<rparr> else i))"

definition copy_with :: "(mintent \<Rightarrow> mintent) \<Rightarrow> mintent \<Rightarrow> mintent result" where
  "copy_with f i = post_init (f i)"

definition normalized :: "mintent \<Rightarrow> mintent result" where
  "normalized i =
     (if phase i = DONE \<and> priority i \<noteq> COLD then copy_with (\<lambda>x. x\<lparr>priority := COLD\<rparr>) i
      else copy_with id i)"

definition is_decode_critical :: "mintent \<Rightarrow> bool" where
  "is_decode_critical i \<longleftrightarrow> priority i = DECODE_CRITICAL \<or> phase i = DECODE"

definition is_spillable :: "mintent \<Rightarrow> bool" where
  "is_spillable i \<longleftrightarrow> 0 < card (allowed_tiers i - {HBM}) \<and> \<not> pin_requested i"

definition is_prefetchable :: "mintent \<Rightarrow> bool" where
  "is_prefetchable i \<longleftrightarrow> prefetch_ok i \<and> current_tier i \<noteq> HBM \<and> HBM \<in> allowed_tiers i"

section \<open>The class invariant\<close>

text \<open>The range checks, and the pin that decode-critical blocks carry.\<close>

definition intent_ranges :: "mintent \<Rightarrow> bool" where
  "intent_ranges i \<longleftrightarrow>
     object_id i \<noteq> [] \<and> (object_type i = KV_CACHE \<longrightarrow> request_id i \<noteq> [])
     \<and> 0 \<le> block_id i \<and> 0 < size_bytes i \<and> current_tier i \<in> allowed_tiers i
     \<and> 0 \<le> request_priority i \<and> request_priority i \<le> 100
     \<and> 0 \<le> recency_score i \<and> recency_score i \<le> 1"

definition valid_intent :: "mintent \<Rightarrow> bool" where
  "valid_intent i \<longleftrightarrow> intent_ranges i \<and> (priority i = DECODE_CRITICAL \<longrightarrow> pin_requested i)"

definition auto_pin :: "mintent \<Rightarrow> mintent" where
  "auto_pin i = (if priority i = DECODE_CRITICAL then i\<lparr>pin_requested := True\<rparr> else i)"

lemma post_init_eq:
  "intent_ranges i \<Longrightarrow> post_init i = Inr (auto_pin i)"
  by (auto simp: post_init_def intent_ranges_def auto_pin_def)

lemma post_init_Inr_iff: "post_init i = Inr j \<longleftrightarrow> intent_ranges i \<and> j = auto_pin i"
proof (cases "intent_ranges i")
  case False
  then show ?thesis by (auto simp: post_init_def intent_ranges_def split: if_splits)
qed (auto simp: post_init_eq)

lemma intent_ranges_auto_pin [simp]: "intent_ranges (auto_pin i) = intent_ranges i"
  by (simp add: auto_pin_def intent_ranges_def)

lemma auto_pin_valid [simp]: "intent_ranges i \<Longrightarrow> valid_intent (auto_pin i)"
  by (simp add: valid_intent_def) (simp add: auto_pin_def)

lemma auto_pin_id [simp]: "valid_intent i \<Longrightarrow> auto_pin i = i"
  by (simp add: auto_pin_def valid_intent_def)

lemma auto_pin_fields [simp]:
  "object_id (auto_pin i) = object_id i" "request_id (auto_pin i) = request_id i"
  "block_id (auto_pin i) = block_id i" "object_type (auto_pin i) = object_type i"
  "phase (auto_pin i) = phase i" "priority (auto_pin i) = priority i"
  "allowed_tiers (auto_pin i) = allowed_tiers i" "current_tier (auto_pin i) = current_tier i"
  "size_bytes (auto_pin i) = size_bytes i" "request_priority (auto_pin i) = request_priority i"
  "recency_score (auto_pin i) = recency_score i" "deadline_us (auto_pin i) = deadline_us i"
  "slack_us (auto_pin i) = slack_us i" "recompute_cost_us (auto_pin i) = recompute_cost_us i"
  "prefetch_ok (auto_pin i) = prefetch_ok i" "is_draft (auto_pin i) = is_draft i"
  "is_committed (auto_pin i) = is_committed i" "last_access_step (auto_pin i) = last_access_step i"
  "expected_reuse_window_tokens (auto_pin i) = expected_reuse_window_tokens i"
  by (simp_all add: auto_pin_def)

lemma pin_requested_auto_pin:
  "pin_requested (auto_pin i) \<longleftrightarrow> pin_requested i \<or> priority i = DECODE_CRITICAL"
  by (auto simp: auto_pin_def)

lemma valid_intent_ranges [dest]: "valid_intent i \<Longrightarrow> intent_ranges i"
  by (simp add: valid_intent_def)

lemma post_init_valid [simp]: "valid_intent i \<Longrightarrow> post_init i = Inr i"
  by (simp add: post_init_eq valid_intent_ranges)

lemma copy_with_id [simp]: "valid_intent i \<Longrightarrow> copy_with id i = Inr i"
  by (simp add: copy_with_def)

lemma copy_with_Inr_iff:
  "copy_with f i = Inr j \<longleftrightarrow> intent_ranges (f i) \<and> j = auto_pin (f i)"
  by (simp add: copy_with_def post_init_Inr_iff)

lemma copy_with_valid: "copy_with f i = Inr j \<Longrightarrow> valid_intent j"
  by (auto simp: copy_with_Inr_iff)

text \<open>A sound block is valid and can live in HBM and in some tier below it.\<close>

definition routable :: "mintent \<Rightarrow> bool" where
  "routable b \<longleftrightarrow> HBM \<in> allowed_tiers b \<and> \<not> allowed_tiers b \<subseteq> {HBM}"

definition sound :: "mintent \<Rightarrow> bool" where
  "sound b \<longleftrightarrow> valid_intent b \<and> routable b"

lemma routable_auto_pin [simp]: "routable (auto_pin b) = routable b"
  by (simp add: routable_def)

lemma sound_copy:
  assumes "intent_ranges (f b)" "routable (f b)"
  shows "\<exists>c. copy_with f b = Inr c \<and> sound c \<and> object_id c = object_id (f b)"
  using assms by (simp add: copy_with_def post_init_eq sound_def)

text \<open>The arguments of a construction with the dataclass defaults, which callers then override.\<close>

definition new_intent ::
  "string \<Rightarrow> string \<Rightarrow> int \<Rightarrow> object_type \<Rightarrow> phase \<Rightarrow> priority \<Rightarrow> tier set \<Rightarrow> tier \<Rightarrow> int \<Rightarrow> mintent" where
  "new_intent oid rid bid ot ph pr tiers ct sz =
     \<lparr>object_id = oid, request_id = rid, block_id = bid, object_type = ot, phase = ph, priority = pr,
      allowed_tiers = tiers, current_tier = ct, size_bytes = sz, request_priority = 0, recency_score = 0,
      deadline_us = None, slack_us = None, arrival_step = None, target_decode_step = None,
      expected_reuse_window_tokens = None, recompute_cost_us = None, spill_cost_us = None,
      compression_ok = False, recompute_ok = False, prefetch_ok = False, pin_requested = False,
      is_draft = False, is_committed = False, created_step = 0, last_access_step = 0\<rparr>"

section \<open>A sample block\<close>

text \<open>A concrete block for the witnesses: 1 KiB in HBM, allowed in HBM and DRAM.\<close>

definition sample_intent :: "string \<Rightarrow> mintent" where
  "sample_intent name =
     \<lparr>object_id = name, request_id = ''req-1'', block_id = 0, object_type = KV_CACHE, phase = PREFILL,
      priority = WARM, allowed_tiers = {HBM, DRAM}, current_tier = HBM, size_bytes = 1024,
      request_priority = 50, recency_score = 1 / 2, deadline_us = None, slack_us = None,
      arrival_step = None, target_decode_step = None, expected_reuse_window_tokens = None,
      recompute_cost_us = None, spill_cost_us = None, compression_ok = False, recompute_ok = False,
      prefetch_ok = False, pin_requested = False, is_draft = False, is_committed = False,
      created_step = 0, last_access_step = 0\<rparr>"

lemma sample_intent_valid [simp]: "name \<noteq> [] \<Longrightarrow> valid_intent (sample_intent name)"
  by (simp add: sample_intent_def valid_intent_def intent_ranges_def)

section \<open>Properties\<close>

text \<open>C24: Constructing a MemoryIntent succeeds exactly when the range checks hold. The result is the
  record of the arguments with pin_requested set for a decode-critical block, it satisfies the class
  invariant, and copying it unchanged gives it back; otherwise a ValueError is raised.\<close>

theorem construction_spec:
  "(if intent_ranges i
    then post_init i = Inr (if priority i = DECODE_CRITICAL then i\<lparr>pin_requested := True\<rparr> else i)
         \<and> valid_intent (auto_pin i) \<and> copy_with id (auto_pin i) = Inr (auto_pin i)
    else (\<exists>msg. post_init i = Inl (ValueError msg)))"
  by (auto simp: post_init_eq auto_pin_def [symmetric])
    (auto simp: post_init_def intent_ranges_def)

text \<open>normalized() never fails on a valid block; its result is valid, differs at most in the
  priority, and a block of a finished request ends up COLD.\<close>

theorem normalized_spec:
  assumes "valid_intent i"
  shows "\<exists>j. normalized i = Inr j \<and> valid_intent j \<and> (phase j = DONE \<longrightarrow> priority j = COLD)
    \<and> j = i\<lparr>priority := priority j\<rparr> \<and> (phase i \<noteq> DONE \<longrightarrow> j = i)"
proof (cases "phase i = DONE \<and> priority i \<noteq> COLD")
  case True
  have r: "intent_ranges (i\<lparr>priority := COLD\<rparr>)"
    using assms by (auto simp: valid_intent_def intent_ranges_def)
  then have "normalized i = Inr (i\<lparr>priority := COLD\<rparr>)"
    using True by (simp add: normalized_def copy_with_def post_init_eq auto_pin_def)
  with True r show ?thesis by (simp add: valid_intent_def)
next
  case False
  with assms show ?thesis by (auto simp: normalized_def)
qed

theorem normalized_spec_witness:
  "normalized ((sample_intent ''a'')\<lparr>phase := DONE\<rparr>)
     = Inr ((sample_intent ''a'')\<lparr>phase := DONE, priority := COLD\<rparr>)"
proof -
  have "valid_intent ((sample_intent ''a'')\<lparr>phase := DONE\<rparr>)"
    by (simp add: sample_intent_def valid_intent_def intent_ranges_def)
  from normalized_spec [OF this] obtain j where
    j: "normalized ((sample_intent ''a'')\<lparr>phase := DONE\<rparr>) = Inr j" "phase j = DONE \<longrightarrow> priority j = COLD"
      "j = (sample_intent ''a'')\<lparr>phase := DONE, priority := priority j\<rparr>"
    by auto
  have "phase j = DONE" by (subst j(3)) simp
  with j show ?thesis by simp
qed

end
