(* ===== verification/Events.thy ===== *)
theory Events
  imports Schema
begin

text \<open>
  \<open>src/kv_memory_intent/events.py\<close>: the event record and its validation. Serialization is in the
  theory of the JSON forms.
\<close>

record mevent =
  ev_step :: int
  ev_type :: event_type
  ev_intent :: mintent
  ev_reason :: "string option"
  ev_latency_us :: "int option"

definition event_post_init :: "mevent \<Rightarrow> mevent result" where
  "event_post_init e =
     (if ev_step e < 0 then Inl (ValueError ''step must be >= 0'')
      else case ev_latency_us e of
          None \<Rightarrow> Inr e
        | Some l \<Rightarrow> if l < 0 then Inl (ValueError ''latency_us must be >= 0 when provided'') else Inr e)"

text \<open>\<open>MemoryIntentEvent(step, event_type, intent, reason)\<close>\<close>

definition mk_event :: "int \<Rightarrow> event_type \<Rightarrow> mintent \<Rightarrow> string \<Rightarrow> mevent result" where
  "mk_event step et i reason =
     event_post_init \<lparr>ev_step = step, ev_type = et, ev_intent = i, ev_reason = Some reason,
       ev_latency_us = None\<rparr>"

definition valid_event :: "mevent \<Rightarrow> bool" where
  "valid_event e \<longleftrightarrow> 0 \<le> ev_step e \<and> valid_intent (ev_intent e)
     \<and> (\<forall>l \<in> set_option (ev_latency_us e). 0 \<le> l)"

lemma event_post_init_valid: "valid_event e \<Longrightarrow> event_post_init e = Inr e"
  by (auto simp: event_post_init_def valid_event_def split: option.splits)

lemma event_post_init_Inr: "event_post_init e = Inr e' \<Longrightarrow> e' = e \<and> 0 \<le> ev_step e"
  by (auto simp: event_post_init_def split: option.splits if_splits)

lemma mk_event_Inr_iff:
  "mk_event t et i r = Inr e \<longleftrightarrow>
     0 \<le> t \<and> e = \<lparr>ev_step = t, ev_type = et, ev_intent = i, ev_reason = Some r, ev_latency_us = None\<rparr>"
  by (auto simp: mk_event_def event_post_init_def)

end
