(* ===== verification/FloatText.thy ===== *)
theory FloatText
  imports Prelude PyFloat
begin

text \<open>
  The text of a float: \<open>repr(x)\<close> prints the shortest decimal that reads back as \<open>x\<close>, in fixed notation
  for decimal points from -3 to 16 and with an exponent otherwise; reading a decimal literal rounds
  its exact value. The main fact is that reading what was printed gives the float back.
\<close>

section \<open>Powers of ten\<close>

definition pow10 :: "int \<Rightarrow> rat" where
  "pow10 e = (if 0 \<le> e then 10 ^ nat e else 1 / 10 ^ nat (- e))"

lemma pow10_powi: "pow10 e = 10 powi e"
  by (simp add: pow10_def power_int_def inverse_eq_divide power_one_over)

lemma pow10_pos [simp]: "0 < pow10 e" and pow10_nonzero [simp]: "pow10 e \<noteq> 0"
  by (simp_all add: pow10_powi)

lemma pow10_nonneg [simp]: "0 \<le> pow10 e" and pow10_abs [simp]: "\<bar>pow10 e\<bar> = pow10 e"
  using pow10_pos [of e] by linarith+

lemma pow10_add: "pow10 (a + b) = pow10 a * pow10 b"
  by (simp add: pow10_powi power_int_add)

lemma pow10_nat: "pow10 (int n) = 10 ^ n"
  by (simp add: pow10_def)

lemma pow10_mono: "a \<le> b \<Longrightarrow> pow10 a \<le> pow10 b"
  by (simp add: pow10_powi power_int_increasing)

section \<open>The shortest decimal\<close>

definition reads_back :: "rat \<Rightarrow> int \<Rightarrow> int \<Rightarrow> bool" where
  "reads_back x q m \<longleftrightarrow> fl (of_int m * pow10 q) = x"

text \<open>The multiple of \<open>10 ^ q\<close> to print: the nearest one if it reads back, else the neighbour that does.\<close>

definition decimal_at :: "rat \<Rightarrow> int \<Rightarrow> int option" where
  "decimal_at x q =
     (let y = x / pow10 q; near = round_half_even y; low = \<lfloor>y\<rfloor>
      in if reads_back x q near then Some near
         else if reads_back x q low then Some low
         else if reads_back x q (low + 1) then Some (low + 1) else None)"

fun shortest :: "nat \<Rightarrow> int \<Rightarrow> rat \<Rightarrow> int \<times> int" where
  "shortest 0 q x = (round_half_even (x / pow10 q), q)"
| "shortest (Suc n) q x = (case decimal_at x q of Some m \<Rightarrow> (m, q) | None \<Rightarrow> shortest n (q - 1) x)"

text \<open>The search starts above \<open>x\<close>; the number of steps is enough for 17 significant digits.\<close>

definition decimal_of :: "rat \<Rightarrow> int \<times> int" where
  "decimal_of x = shortest (nat (2 * \<bar>ilog2 x\<bar>) + 40) (max 0 (ilog2 x) + 1) x"

definition zeros :: "int \<Rightarrow> string" where "zeros n = replicate (nat n) (CHR ''0'')"

definition exponent_str :: "int \<Rightarrow> string" where
  "exponent_str e =
     (if e < 0 then ''-'' else ''+'') @ (let ds = nat_str (nat \<bar>e\<bar>) in if length ds < 2 then CHR ''0'' # ds else ds)"

text \<open>Digits \<open>ds\<close> with the decimal point after the first \<open>p\<close> of them.\<close>

definition place_point :: "string \<Rightarrow> int \<Rightarrow> string" where
  "place_point ds p =
     (if -4 < p \<and> p \<le> 16 then
        if p \<le> 0 then ''0.'' @ zeros (- p) @ ds
        else if int (length ds) \<le> p then ds @ zeros (p - int (length ds)) @ ''.0''
        else take (nat p) ds @ ''.'' @ drop (nat p) ds
      else hd ds # (if tl ds = [] then [] else ''.'' @ tl ds) @ ''e'' @ exponent_str (p - 1))"

definition pos_float_str :: "rat \<Rightarrow> string" where
  "pos_float_str x =
     (let mq = decimal_of x; ds = nat_str (nat (fst mq)) in place_point ds (int (length ds) + snd mq))"

definition float_str :: "pyfloat \<Rightarrow> string" where
  "float_str x = (if x = 0 then ''0.0'' else if x < 0 then ''-'' @ pos_float_str (- x) else pos_float_str x)"

section \<open>Reading a decimal literal\<close>

definition digits_of :: "string \<Rightarrow> string" where "digits_of s = takeWhile is_digit s"
definition after_digits :: "string \<Rightarrow> string" where "after_digits s = dropWhile is_digit s"

definition scan_frac :: "string \<Rightarrow> string \<times> string" where
  "scan_frac s =
     (if s \<noteq> [] \<and> hd s = CHR ''.'' \<and> digits_of (tl s) \<noteq> [] then (digits_of (tl s), after_digits (tl s)) else ([], s))"

definition scan_sign :: "string \<Rightarrow> int \<times> string" where
  "scan_sign s = (if s \<noteq> [] \<and> hd s = CHR ''-'' then (-1, tl s) else if s \<noteq> [] \<and> hd s = CHR ''+'' then (1, tl s) else (1, s))"

definition scan_exp :: "string \<Rightarrow> int option \<times> string" where
  "scan_exp s =
     (let st = scan_sign (tl s) in
      if s \<noteq> [] \<and> (hd s = CHR ''e'' \<or> hd s = CHR ''E'') \<and> digits_of (snd st) \<noteq> []
      then (Some (fst st * int (digits_val 0 (digits_of (snd st)))), after_digits (snd st)) else (None, s))"

text \<open>A number after its sign: an integer, or a float when there is a fraction or an exponent.\<close>

definition scan_unsigned :: "string \<Rightarrow> ((int + pyfloat) \<times> string) option" where
  "scan_unsigned s =
     (if s = [] \<or> \<not> is_digit (hd s) then None
      else let ip = (if hd s = CHR ''0'' then ''0'' else digits_of s);
               fr = scan_frac (drop (length ip) s); ex = scan_exp (snd fr)
           in if fst fr = [] \<and> fst ex = None then Some (Inl (int (digits_val 0 ip)), snd ex)
              else Some (Inr (fl (of_int (int (digits_val 0 (ip @ fst fr)))
                     * pow10 ((case fst ex of None \<Rightarrow> 0 | Some e \<Rightarrow> e) - int (length (fst fr))))), snd ex))"

section \<open>Seventeen digits are enough\<close>

lemma round_near:
  assumes "\<bar>y - of_int n\<bar> < 1 / 2" shows "round_half_even y = n"
proof -
  have close: "of_int n - 1 / 2 < y" "y < of_int n + 1 / 2" using assms by linarith+
  have "\<lfloor>y\<rfloor> = n \<or> \<lfloor>y\<rfloor> = n - 1" using close by linarith
  then show ?thesis
  proof
    assume f: "\<lfloor>y\<rfloor> = n"
    have "y - of_int n < 1 / 2" using close by linarith
    then show ?thesis unfolding round_half_even_def Let_def f by simp
  next
    assume f: "\<lfloor>y\<rfloor> = n - 1"
    have "1 / 2 < y - of_int (n - 1)" using close by simp
    then show ?thesis unfolding round_half_even_def Let_def f by auto
  qed
qed

lemma round_close: "\<bar>of_int (round_half_even y) - y\<bar> \<le> 1 / 2"
proof -
  have f: "of_int \<lfloor>y\<rfloor> \<le> y" "y < of_int \<lfloor>y\<rfloor> + 1" by linarith+
  show ?thesis
    unfolding round_half_even_def Let_def
    by (cases "y - of_int \<lfloor>y\<rfloor> < 1 / 2"; cases "1 / 2 < y - of_int \<lfloor>y\<rfloor>") (use f in \<open>auto simp: abs_le_iff\<close>)
qed

lemma ilog2_unique: "0 < x \<Longrightarrow> pow2 k \<le> x \<Longrightarrow> x < pow2 (k + 1) \<Longrightarrow> ilog2 x = k"
  using ilog2_bounds [of x] pow2_less_imp [of "ilog2 x" "k + 1"] pow2_less_imp [of k "ilog2 x + 1"] by linarith

lemma fl_near_multiple:
  assumes "x = of_int n * pow2 (ulp_exp d)" "\<bar>d - x\<bar> < pow2 (ulp_exp d) / 2"
  shows "fl d = x"
proof -
  let ?u = "pow2 (ulp_exp d)"
  have "d / ?u - of_int n = (d - x) / ?u" using assms(1) by (simp add: field_simps)
  then have "\<bar>d / ?u - of_int n\<bar> = \<bar>d - x\<bar> / ?u" by (simp add: abs_divide)
  also have "\<dots> < 1 / 2" using assms(2) by (simp add: divide_less_eq)
  finally show ?thesis using assms(1) by (simp add: fl_def Let_def round_near)
qed

lemma float_multiple: "fl x = x \<Longrightarrow> e \<le> ulp_exp x \<Longrightarrow> \<exists>n. x = of_int n * pow2 e"
  using pow2_diff_int [of e "ulp_exp x"] by (metis fl_def mult.assoc of_int_mult)

text \<open>A number closer to a float than a quarter of its relative precision rounds to it.\<close>

lemma fl_absorbs:
  assumes x: "fl x = x" "0 < x" and near: "\<bar>d - x\<bar> < x * pow2 (-54)"
  shows "fl d = x"
proof -
  let ?E = "ilog2 x" and ?e = "ulp_exp x"
  have E: "pow2 ?E \<le> x" "x < pow2 (?E + 1)" using ilog2_bounds [OF x(2)] by auto
  have e: "?e = max (?E - 52) (-1074)" using x(2) by (simp add: ulp_exp_def)
  obtain n where n: "x = of_int n * pow2 ?e" using float_multiple [OF x(1), of ?e] by blast
  have "1 \<le> n" using n x(2) by (metis int_one_le_iff_zero_less of_int_0_less_iff pow2_pos zero_less_mult_pos2)
  then have "pow2 ?e \<le> x" using n mult_right_mono [of 1 "of_int n" "pow2 ?e"] by simp
  then have eE: "?e \<le> ?E" using E(2) pow2_less_imp [of ?e "?E + 1"] by linarith
  have "x * pow2 (-54) < pow2 (?E + 1) * pow2 (-54)" using E(2) by (intro mult_strict_right_mono) simp_all
  then have half: "\<bar>d - x\<bar> < pow2 (?E - 53)" using near unfolding pow2_add [symmetric] by simp
  have "pow2 (?E - 53) = pow2 (?E - 52) / 2" using pow2_add [of "?E - 53" 1] by (simp add: pow2_def [of 1])
  also have "\<dots> \<le> pow2 ?e / 2" using pow2_mono [of "?E - 52" ?e] by (simp add: e)
  finally have half_e: "\<bar>d - x\<bar> < pow2 ?e / 2" using half by linarith
  have "x * pow2 (-54) < x * 1" using x(2) pow2_strict [of "-54" 0] by (intro mult_strict_left_mono) simp_all
  then have "\<bar>d - x\<bar> < x" using near by linarith
  then have d0: "0 < d" by linarith
  obtain t where t: "pow2 (?E + 1) = of_int t * pow2 ?e" using pow2_diff_int [of ?e "?E + 1"] eE by auto
  have "n < t" using E(2) n t by (metis mult_less_cancel_right_pos of_int_less_iff pow2_pos)
  then have "of_int (n + 1) * pow2 ?e \<le> of_int t * pow2 ?e" by (intro mult_right_mono) (simp_all del: of_int_add)
  then have "x + pow2 ?e \<le> pow2 (?E + 1)" using n t by (simp add: distrib_right)
  then have d_less: "d < pow2 (?E + 1)" using half_e pow2_pos [of ?e] by linarith
  show ?thesis
  proof (cases "pow2 ?E \<le> d")
    case True
    have "ulp_exp d = ?e" using ilog2_unique [OF d0 True d_less] d0 x(2) by (simp add: ulp_exp_def)
    with fl_near_multiple [of x n d] n half_e show ?thesis by simp
  next
    case False
    obtain b where b: "pow2 ?E = of_int b * pow2 ?e" using pow2_diff_int [OF eE] by auto
    have "\<not> b < n"
    proof
      assume "b < n"
      then have "of_int (b + 1) * pow2 ?e \<le> of_int n * pow2 ?e" by (intro mult_right_mono) (simp_all del: of_int_add)
      then have "pow2 ?E + pow2 ?e \<le> x" using n b by (simp add: distrib_right)
      with False half_e pow2_pos [of ?e] show False by linarith
    qed
    moreover have "\<not> n < b" using E(1) n b by (metis mult_less_cancel_right_pos not_le of_int_less_iff pow2_pos)
    ultimately have xE: "x = pow2 ?E" using n b by (metis linorder_neqE)
    have "x * pow2 (-54) = pow2 ?E * pow2 (-54)" using arg_cong [OF xE, of "\<lambda>y. y * pow2 (-54)"] .
    also have "\<dots> = pow2 (?E - 54)" using pow2_add [of ?E "-54"] by simp
    finally have quarter: "\<bar>d - x\<bar> < pow2 (?E - 54)" using near by linarith
    have "pow2 (?E - 54) \<le> pow2 (?E - 1)" "2 * pow2 (?E - 1) = pow2 ?E"
      using pow2_add [of "?E - 1" 1] by (auto intro: pow2_mono simp: pow2_def [of 1])
    then have "pow2 (?E - 1) \<le> d" using quarter xE by linarith
    then have "ilog2 d = ?E - 1" using False d0 by (intro ilog2_unique) simp_all
    then have ed: "ulp_exp d = max (?E - 53) (-1074)" using d0 by (simp add: ulp_exp_def)
    have "ulp_exp d \<le> ?e" unfolding ed e by (intro max.mono) simp_all
    then obtain k where k: "x = of_int k * pow2 (ulp_exp d)" using float_multiple [OF x(1), of "ulp_exp d"] by blast
    have "pow2 (?E - 54) = pow2 (?E - 53) / 2" using pow2_add [of "?E - 54" 1] by (simp add: pow2_def [of 1])
    also have "\<dots> \<le> pow2 (ulp_exp d) / 2" using pow2_mono [of "?E - 53" "ulp_exp d"] by (simp add: ed)
    finally show ?thesis using fl_near_multiple [OF k] quarter by linarith
  qed
qed

section \<open>The search succeeds\<close>

lemma decimal_at_reads: "decimal_at x q = Some m \<Longrightarrow> reads_back x q m"
  by (auto simp: decimal_at_def Let_def split: if_splits)

lemma decimal_found:
  assumes "fl x = x" "0 < x" "pow10 q < x * pow2 (-53)"
  shows "decimal_at x q \<noteq> None"
proof -
  let ?m = "round_half_even (x / pow10 q)"
  have "of_int ?m * pow10 q - x = (of_int ?m - x / pow10 q) * pow10 q" by (simp add: left_diff_distrib)
  then have "\<bar>of_int ?m * pow10 q - x\<bar> = \<bar>of_int ?m - x / pow10 q\<bar> * pow10 q" by (simp add: abs_mult)
  also have "\<dots> \<le> 1 / 2 * pow10 q" using round_close by (intro mult_right_mono) simp_all
  also have "\<dots> < x * pow2 (-54)"
    using assms(3) pow2_add [of "-54" 1] by (simp add: pow2_def [of 1])
  finally have "reads_back x q ?m" using fl_absorbs [OF assms(1,2)] by (simp add: reads_back_def)
  then show ?thesis by (simp add: decimal_at_def Let_def)
qed

lemma shortest_reads:
  assumes "fl x = x" "0 < x" "pow10 (q - int k) < x * pow2 (-53)" "k < n"
  shows "reads_back x (snd (shortest n q x)) (fst (shortest n q x))"
  using assms(3,4)
proof (induction n arbitrary: q k)
  case (Suc n)
  show ?case
  proof (cases "decimal_at x q")
    case None
    then have "k \<noteq> 0" using decimal_found [OF assms(1,2), of q] Suc.prems(1) by (cases "k = 0") auto
    then have "pow10 (q - 1 - int (k - 1)) < x * pow2 (-53)" "k - 1 < n" using Suc.prems by (simp_all add: of_nat_diff)
    from Suc.IH [OF this] None show ?thesis by simp
  qed (simp add: decimal_at_reads)
qed simp

lemma pow10_le_pow2: "e \<le> 0 \<Longrightarrow> pow10 e \<le> pow2 e"
  by (auto simp: pow10_def pow2_def intro!: divide_left_mono power_mono)

lemma decimal_of_reads:
  assumes "fl x = x" "0 < x"
  shows "reads_back x (snd (decimal_of x)) (fst (decimal_of x))"
proof -
  let ?E = "ilog2 x"
  define k where "k = nat (2 * \<bar>?E\<bar>) + 39"
  have "max 0 ?E + 1 - int k \<le> min 0 ?E + (-38)" unfolding k_def by linarith
  then have "pow10 (max 0 ?E + 1 - int k) \<le> pow10 (min 0 ?E) * pow10 (-38)"
    using pow10_mono unfolding pow10_add [symmetric] by blast
  also have "\<dots> < pow2 (min 0 ?E) * pow2 (-53)"
  proof -
    have "pow10 (-38) < pow2 (-53)" by code_simp
    moreover have "pow10 (min 0 ?E) \<le> pow2 (min 0 ?E)" by (simp add: pow10_le_pow2)
    ultimately show ?thesis by (intro mult_le_less_imp_less) simp_all
  qed
  also have "\<dots> \<le> x * pow2 (-53)"
  proof (intro mult_right_mono)
    have "pow2 (min 0 ?E) \<le> pow2 ?E" by (simp add: pow2_mono)
    also have "\<dots> \<le> x" using ilog2_bounds [OF assms(2)] by simp
    finally show "pow2 (min 0 ?E) \<le> x" .
  qed simp
  finally show ?thesis unfolding decimal_of_def by (rule shortest_reads [OF assms]) (simp add: k_def)
qed

lemma decimal_of_pos:
  assumes "fl x = x" "0 < x" shows "0 < fst (decimal_of x)"
proof (rule ccontr)
  assume "\<not> 0 < fst (decimal_of x)"
  then have "of_int (fst (decimal_of x)) * pow10 (snd (decimal_of x)) \<le> 0"
    by (simp add: mult_le_0_iff)
  then have "fl (of_int (fst (decimal_of x)) * pow10 (snd (decimal_of x))) \<le> fl 0" by (rule fl_mono)
  then show False using decimal_of_reads [OF assms] assms(2) by (simp add: reads_back_def)
qed

section \<open>Reading back\<close>

definition ends_number :: "string \<Rightarrow> bool" where
  "ends_number s \<longleftrightarrow> s = [] \<or> \<not> is_digit (hd s) \<and> hd s \<notin> {CHR ''.'', CHR ''e'', CHR ''E''}"

lemma digits_of_append: "list_all is_digit ds \<Longrightarrow> rest = [] \<or> \<not> is_digit (hd rest)
    \<Longrightarrow> digits_of (ds @ rest) = ds \<and> after_digits (ds @ rest) = rest"
  by (induction ds) (cases rest; auto simp: digits_of_def after_digits_def)+

lemma scan_frac_point:
  "list_all is_digit ds \<Longrightarrow> ds \<noteq> [] \<Longrightarrow> rest = [] \<or> \<not> is_digit (hd rest) \<Longrightarrow> scan_frac (CHR ''.'' # ds @ rest) = (ds, rest)"
  by (simp add: scan_frac_def digits_of_append)

lemma scan_frac_none: "ends_number s \<or> hd s \<noteq> CHR ''.'' \<Longrightarrow> scan_frac s = ([], s)"
  by (auto simp: scan_frac_def ends_number_def)

lemma scan_exp_none: "ends_number s \<Longrightarrow> scan_exp s = (None, s)"
  by (auto simp: scan_exp_def ends_number_def Let_def)

lemma list_all_nat_str [simp]: "list_all is_digit (nat_str n)"
  using nat_str_digits by (simp add: list_all_iff)

lemma digits_val_zero: "digits_val 0 (CHR ''0'' # s) = digits_val 0 s"
  by (simp add: digit_val_def)

lemma digits_val_zeros: "digits_val 0 (zeros k @ s) = digits_val 0 s"
proof -
  have "digits_val 0 (replicate n (CHR ''0'') @ s) = digits_val 0 s" for n
    by (induction n) (simp_all add: digit_val_def)
  then show ?thesis by (simp add: zeros_def)
qed

lemma digits_val_more_zeros: "digits_val v (zeros k) = v * 10 ^ nat k"
proof -
  have "digits_val v (replicate n (CHR ''0'')) = v * 10 ^ n" for n
    by (induction n arbitrary: v) (simp_all add: digit_val_def)
  then show ?thesis by (simp add: zeros_def)
qed

lemma zeros_digits [simp]: "list_all is_digit (zeros k)" "length (zeros k) = nat k"
  by (simp_all add: zeros_def list_all_iff is_digit_def)

lemma exponent_back:
  assumes "ends_number rest"
  shows "scan_exp (CHR ''e'' # exponent_str e @ rest) = (Some e, rest)"
proof -
  define ds where "ds = (let ds = nat_str (nat \<bar>e\<bar>) in if length ds < 2 then CHR ''0'' # ds else ds)"
  have ds: "list_all is_digit ds" "ds \<noteq> []" "digits_val 0 ds = nat \<bar>e\<bar>"
    by (auto simp: ds_def Let_def digits_val_nat_str digit_val_def is_digit_def)
  have stop: "rest = [] \<or> \<not> is_digit (hd rest)" using assms by (auto simp: ends_number_def)
  show ?thesis
    using ds(2,3) digits_of_append [OF ds(1) stop] unfolding exponent_str_def ds_def [symmetric]
    by (simp add: scan_exp_def scan_sign_def Let_def)
qed

lemma nat_str_head: "0 < m \<Longrightarrow> hd (nat_str m) \<noteq> CHR ''0''"
proof (induction m rule: nat_str.induct)
  case (1 m)
  show ?case
  proof (cases "m < 10")
    case True
    then have "digit_val (digit_char m) = m" by (rule digit_char_props)
    moreover have "digit_val (CHR ''0'') = 0" by (simp add: digit_val_def)
    ultimately have "digit_char m \<noteq> CHR ''0''" using 1(2) by auto
    then show ?thesis using True by (subst nat_str.simps) auto
  next
    case False
    then have "hd (nat_str (m div 10)) \<noteq> CHR ''0''" using 1(1) by simp
    then show ?thesis using False by (subst nat_str.simps) simp
  qed
qed

lemma scan_unsigned_parts:
  assumes ip: "ip = ''0'' \<or> ip \<noteq> [] \<and> list_all is_digit ip \<and> hd ip \<noteq> CHR ''0''"
    and r: "r = [] \<or> \<not> is_digit (hd r)"
    and parts: "scan_frac r = (fp, u)" "scan_exp u = (ex, rest)"
  shows "scan_unsigned (ip @ r) =
    (if fp = [] \<and> ex = None then Some (Inl (int (digits_val 0 ip)), rest)
     else Some (Inr (fl (of_int (int (digits_val 0 (ip @ fp)))
       * pow10 ((case ex of None \<Rightarrow> 0 | Some e \<Rightarrow> e) - int (length fp)))), rest))"
proof -
  have d: "is_digit (hd ip)" "ip \<noteq> []" using ip by (auto simp: is_digit_def neq_Nil_conv)
  have "(if hd (ip @ r) = CHR ''0'' then ''0'' else digits_of (ip @ r)) = ip"
    using ip r digits_of_append [of ip r] by (auto simp: hd_append)
  then show ?thesis
    using d parts by (simp add: scan_unsigned_def Let_def)
qed

lemma place_point_back:
  assumes m: "0 < m" and rest: "ends_number rest"
  shows "scan_unsigned (place_point (nat_str m) p @ rest)
    = Some (Inr (fl (of_nat m * pow10 (p - int (length (nat_str m))))), rest)"
proof -
  let ?ds = "nat_str m"
  have stop: "rest = [] \<or> \<not> is_digit (hd rest)" using rest by (auto simp: ends_number_def)
  have point: "CHR ''.'' # t = [] \<or> \<not> is_digit (hd (CHR ''.'' # t))" for t by (simp add: is_digit_def)
  have e_char: "CHR ''e'' # t = [] \<or> \<not> is_digit (hd (CHR ''e'' # t))" for t by (simp add: is_digit_def)
  have val: "digits_val 0 ?ds = m" by (rule digits_val_nat_str)
  have head: "?ds \<noteq> []" "hd ?ds \<noteq> CHR ''0''" using nat_str_head [OF m] by simp_all
  have pieces: "list_all is_digit (take k ?ds)" "list_all is_digit (drop k ?ds)" "list_all is_digit (tl ?ds)" for k
    using list_all_nat_str [of m]
    by (auto simp: list_all_iff dest: in_set_takeD in_set_dropD) (metis list.set_sel(2) nat_str_nonempty)
  consider (exp) "\<not> (-4 < p \<and> p \<le> 16)" | (small) "-4 < p" "p \<le> 0" | (big) "0 < p" "int (length ?ds) \<le> p" "p \<le> 16"
    | (mid) "0 < p" "p < int (length ?ds)" "p \<le> 16" by linarith
  then show ?thesis
  proof cases
    case small
    have eq: "place_point ?ds p @ rest = ''0'' @ CHR ''.'' # (zeros (- p) @ ?ds) @ rest"
      using small by (simp add: place_point_def)
    have "scan_frac (CHR ''.'' # (zeros (- p) @ ?ds) @ rest) = (zeros (- p) @ ?ds, rest)"
      by (rule scan_frac_point [OF _ _ stop]) simp_all
    from scan_unsigned_parts [OF _ point this scan_exp_none [OF rest], of "''0''"] show ?thesis
      unfolding eq using small by (simp add: digits_val_zeros val digit_val_def algebra_simps)
  next
    case big
    let ?k = "p - int (length ?ds)"
    have eq: "place_point ?ds p @ rest = (?ds @ zeros ?k) @ CHR ''.'' # ''0'' @ rest"
      using big by (simp add: place_point_def)
    have "scan_frac (CHR ''.'' # ''0'' @ rest) = (''0'', rest)"
      by (rule scan_frac_point [OF _ _ stop]) (simp_all add: is_digit_def)
    from scan_unsigned_parts [OF _ point this scan_exp_none [OF rest], of "?ds @ zeros ?k"]
    have res: "scan_unsigned (place_point ?ds p @ rest)
        = Some (Inr (fl (of_int (int (digits_val 0 ((?ds @ zeros ?k) @ ''0''))) * pow10 (-1))), rest)"
      unfolding eq using head by simp
    have val: "digits_val 0 ((?ds @ zeros ?k) @ ''0'') = m * 10 ^ nat ?k * 10"
      by (simp add: digits_val_append digits_val_nat_str digits_val_more_zeros digit_val_def)
    have scale: "of_int (int (m * 10 ^ nat ?k * 10)) * pow10 (-1) = of_nat m * pow10 ?k"
      using big by (simp add: pow10_def)
    show ?thesis using res unfolding val scale .
  next
    case mid
    have eq: "place_point ?ds p @ rest = take (nat p) ?ds @ CHR ''.'' # drop (nat p) ?ds @ rest"
      using mid by (simp add: place_point_def)
    have "scan_frac (CHR ''.'' # drop (nat p) ?ds @ rest) = (drop (nat p) ?ds, rest)"
      by (rule scan_frac_point [OF pieces(2) _ stop]) (use mid in auto)
    from scan_unsigned_parts [OF _ point this scan_exp_none [OF rest], of "take (nat p) ?ds"] show ?thesis
      unfolding eq using mid head pieces(1) by (simp add: val nat_less_iff of_nat_diff)
  next
    case exp
    let ?tail = "CHR ''e'' # exponent_str (p - 1) @ rest"
    have ds: "?ds = [hd ?ds] @ tl ?ds" using head by simp
    have d0: "list_all is_digit [hd ?ds]" using pieces(1) [of 1] head by (cases ?ds) auto
    have e: "scan_exp ?tail = (Some (p - 1), rest)" by (rule exponent_back [OF rest])
    have frac: "scan_frac ((if tl ?ds = [] then [] else ''.'' @ tl ?ds) @ ?tail) = (tl ?ds, ?tail)"
      using scan_frac_point [OF pieces(3) _ e_char] by (auto intro!: scan_frac_none)
    have eq: "place_point ?ds p @ rest = [hd ?ds] @ (if tl ?ds = [] then [] else ''.'' @ tl ?ds) @ ?tail"
      unfolding place_point_def if_not_P [OF exp] by simp
    have stop': "(if tl ?ds = [] then [] else ''.'' @ tl ?ds) @ ?tail = []
        \<or> \<not> is_digit (hd ((if tl ?ds = [] then [] else ''.'' @ tl ?ds) @ ?tail))"
      by (simp add: is_digit_def)
    have len: "p - 1 - int (length (tl ?ds)) = p - int (length ?ds)" using head by (cases ?ds) auto
    from scan_unsigned_parts [OF _ stop' frac e, of "[hd ?ds]"] show ?thesis
      unfolding eq using head d0 val len ds [symmetric] by simp
  qed
qed

text \<open>Printing a float and reading it gives the float; the sign is read by the caller.\<close>

theorem float_text_back:
  assumes "is_float x" "0 < x" "ends_number rest"
  shows "scan_unsigned (pos_float_str x @ rest) = Some (Inr x, rest)"
proof -
  have x: "fl x = x" using assms(1) by (simp add: is_float_def)
  define m where "m = nat (fst (decimal_of x))"
  have m: "0 < m" "fst (decimal_of x) = int m" using decimal_of_pos [OF x assms(2)] by (simp_all add: m_def)
  from place_point_back [OF m(1) assms(3), of "int (length (nat_str m)) + snd (decimal_of x)"]
  show ?thesis
    using decimal_of_reads [OF x assms(2)] by (simp add: pos_float_str_def Let_def m reads_back_def flip: m_def)
qed

end
