(* ===== verification/JsonText.thy ===== *)
theory JsonText
  imports FloatText
begin

text \<open>
  JSON values and the part of Python's \<open>json\<close> module the program uses: \<open>json.dumps(v, sort_keys=True)\<close>
  with the default separators and \<open>ensure_ascii\<close>, and \<open>json.loads\<close>. The scanner follows the module's:
  it reads one value and returns the text after it. Its fuel bounds the number of nested calls; twice
  the length of the text is enough, since every second call consumes a character.

  Characters are 8-bit, so text is Latin-1: an escape above \<open>\u00ff\<close> is rejected. So are the literals
  NaN and Infinity, which have no value in the model of floats.
\<close>

section \<open>Values\<close>

datatype json = JNull | JBool bool | JInt int | JFloat pyfloat | JStr string
  | JList "json list" | JDict "(string \<times> json) list"

type_synonym jdict = "(string, json) dict"

text \<open>What \<open>sort_keys\<close> does to a value.\<close>

fun json_sorted :: "json \<Rightarrow> json" where
  "json_sorted (JList xs) = JList (map json_sorted xs)"
| "json_sorted (JDict d) = JDict (sort_key fst (map (\<lambda>kv. (fst kv, json_sorted (snd kv))) d))"
| "json_sorted j = j"

section \<open>Printing\<close>

definition hex_digit :: "nat \<Rightarrow> char" where
  "hex_digit n = char_of (if n < 10 then 48 + n else 87 + n)"

definition esc :: "char \<Rightarrow> string" where
  "esc c =
     (let n = of_char c :: nat in
      if n = 34 then [CHR 0x5C, c] else if n = 92 then [CHR 0x5C, c]
      else if n = 10 then [CHR 0x5C, CHR ''n''] else if n = 13 then [CHR 0x5C, CHR ''r'']
      else if n = 9 then [CHR 0x5C, CHR ''t''] else if n = 12 then [CHR 0x5C, CHR ''f'']
      else if n = 8 then [CHR 0x5C, CHR ''b'']
      else if 32 \<le> n \<and> n \<le> 126 then [c]
      else [CHR 0x5C, CHR ''u'', CHR ''0'', CHR ''0'', hex_digit (n div 16), hex_digit (n mod 16)])"

definition quote :: "string \<Rightarrow> string" where
  "quote s = CHR 0x22 # concat (map esc s) @ [CHR 0x22]"

fun json_text :: "json \<Rightarrow> string" where
  "json_text JNull = ''null''"
| "json_text (JBool b) = (if b then ''true'' else ''false'')"
| "json_text (JInt i) = int_str i"
| "json_text (JFloat x) = float_str x"
| "json_text (JStr s) = quote s"
| "json_text (JList xs) = ''['' @ py_join '', '' (map json_text xs) @ '']''"
| "json_text (JDict d) =
     ''{'' @ py_join '', '' (map (\<lambda>kv. quote (fst kv) @ '': '' @ json_text (snd kv)) d) @ ''}''"

definition json_dumps :: "json \<Rightarrow> string" where "json_dumps j = json_text (json_sorted j)"

section \<open>Scanning\<close>

definition json_space :: "char \<Rightarrow> bool" where
  "json_space c \<longleftrightarrow> (of_char c :: nat) \<in> {9, 10, 13, 32}"

definition skip :: "string \<Rightarrow> string" where "skip s = dropWhile json_space s"

definition hex_val :: "char \<Rightarrow> nat option" where
  "hex_val c =
     (let n = of_char c :: nat in
      if 48 \<le> n \<and> n \<le> 57 then Some (n - 48) else if 97 \<le> n \<and> n \<le> 102 then Some (n - 87)
      else if 65 \<le> n \<and> n \<le> 70 then Some (n - 55) else None)"

definition hex_char :: "char \<Rightarrow> char \<Rightarrow> char \<Rightarrow> char \<Rightarrow> char option" where
  "hex_char a b c d =
     (case (hex_val a, hex_val b, hex_val c, hex_val d) of
        (Some 0, Some 0, Some x, Some y) \<Rightarrow> Some (char_of (16 * x + y)) | _ \<Rightarrow> None)"

definition simple_escape :: "char \<Rightarrow> char option" where
  "simple_escape c =
     (let n = of_char c :: nat in
      if n \<in> {34, 92, 47} then Some c else if c = CHR ''n'' then Some (CHR 0x0A)
      else if c = CHR ''r'' then Some (CHR 0x0D) else if c = CHR ''t'' then Some (CHR 0x09)
      else if c = CHR ''f'' then Some (CHR 0x0C) else if c = CHR ''b'' then Some (CHR 0x08) else None)"

definition cons_char :: "char option \<Rightarrow> (string \<times> string) option \<Rightarrow> (string \<times> string) option" where
  "cons_char c r = (case (c, r) of (Some x, Some (s, u)) \<Rightarrow> Some (x # s, u) | _ \<Rightarrow> None)"

text \<open>The rest of a string literal, after its opening quote.\<close>

fun scan_string :: "string \<Rightarrow> (string \<times> string) option" where
  "scan_string [] = None"
| "scan_string [c] = (if of_char c = (34 :: nat) then Some ([], []) else None)"
| "scan_string (c # e # r) =
     (if of_char c = (34 :: nat) then Some ([], e # r)
      else if of_char c = (92 :: nat) then
        if e = CHR ''u'' then
          (case r of h1 # h2 # h3 # h4 # u \<Rightarrow> cons_char (hex_char h1 h2 h3 h4) (scan_string u) | _ \<Rightarrow> None)
        else cons_char (simple_escape e) (scan_string r)
      else if (of_char c :: nat) < 32 then None
      else cons_char (Some c) (scan_string (e # r)))"

definition json_number :: "bool \<Rightarrow> int + pyfloat \<Rightarrow> json" where
  "json_number neg v =
     (case v of Inl i \<Rightarrow> JInt (if neg then - i else i) | Inr x \<Rightarrow> JFloat (if neg then - x else x))"

definition scan_number :: "string \<Rightarrow> (json \<times> string) option" where
  "scan_number s =
     (if s \<noteq> [] \<and> hd s = CHR ''-'' then map_option (\<lambda>vr. (json_number True (fst vr), snd vr)) (scan_unsigned (tl s))
      else map_option (\<lambda>vr. (json_number False (fst vr), snd vr)) (scan_unsigned s))"

definition scan_literal :: "string \<Rightarrow> json \<Rightarrow> string \<Rightarrow> (json \<times> string) option" where
  "scan_literal w j s = (if take (length w) s = w then Some (j, drop (length w) s) else None)"

text \<open>\<open>scan_items\<close> and \<open>scan_pairs\<close> read the elements after the opening bracket of a non-empty container.\<close>

fun scan_value :: "nat \<Rightarrow> string \<Rightarrow> (json \<times> string) option"
  and scan_items :: "nat \<Rightarrow> json list \<Rightarrow> string \<Rightarrow> (json list \<times> string) option"
  and scan_pairs :: "nat \<Rightarrow> jdict \<Rightarrow> string \<Rightarrow> (jdict \<times> string) option" where
  "scan_value 0 s = None"
| "scan_value (Suc n) [] = None"
| "scan_value (Suc n) (c # r) =
     (if of_char c = (34 :: nat) then map_option (\<lambda>tu. (JStr (fst tu), snd tu)) (scan_string r)
      else if c = CHR ''['' then
        if skip r \<noteq> [] \<and> hd (skip r) = CHR '']'' then Some (JList [], tl (skip r))
        else map_option (\<lambda>xu. (JList (fst xu), snd xu)) (scan_items n [] (skip r))
      else if c = CHR ''{'' then
        if skip r \<noteq> [] \<and> hd (skip r) = CHR ''}'' then Some (JDict [], tl (skip r))
        else map_option (\<lambda>du. (JDict (fst du), snd du)) (scan_pairs n [] (skip r))
      else if c = CHR ''n'' then scan_literal ''null'' JNull (c # r)
      else if c = CHR ''t'' then scan_literal ''true'' (JBool True) (c # r)
      else if c = CHR ''f'' then scan_literal ''false'' (JBool False) (c # r)
      else scan_number (c # r))"
| "scan_items 0 acc s = None"
| "scan_items (Suc n) acc s =
     (case scan_value n s of None \<Rightarrow> None
      | Some (x, r) \<Rightarrow>
          (case skip r of [] \<Rightarrow> None
           | c # u \<Rightarrow> if c = CHR '','' then scan_items n (acc @ [x]) (skip u)
                     else if c = CHR '']'' then Some (acc @ [x], u) else None))"
| "scan_pairs 0 acc s = None"
| "scan_pairs (Suc n) acc s =
     (if s = [] \<or> of_char (hd s) \<noteq> (34 :: nat) then None
      else case scan_string (tl s) of None \<Rightarrow> None
      | Some (k, r) \<Rightarrow>
          (case skip r of [] \<Rightarrow> None
           | c # u \<Rightarrow> if c \<noteq> CHR '':'' then None else
               (case scan_value n (skip u) of None \<Rightarrow> None
                | Some (x, v) \<Rightarrow>
                    (case skip v of [] \<Rightarrow> None
                     | e # w \<Rightarrow> if e = CHR '','' then scan_pairs n (AList.update k x acc) (skip w)
                               else if e = CHR ''}'' then Some (AList.update k x acc, w) else None))))"

definition json_loads :: "string \<Rightarrow> json result" where
  "json_loads s =
     (case scan_value (2 * length s + 2) (skip s) of
        None \<Rightarrow> Inl (ValueError ''Expecting value'')
      | Some (j, r) \<Rightarrow> if skip r = [] then Inr j else Inl (ValueError ''Extra data''))"

section \<open>Strings read back\<close>

lemma hex_back: "k < 16 \<Longrightarrow> hex_val (hex_digit k) = Some k"
  by (simp add: hex_val_def hex_digit_def Let_def)

lemma code_less_256: "of_char c < (256 :: nat)"
  by (metis mod_less_divisor of_char_mod_256 zero_less_numeral)

lemma hex_char_back: "hex_char (CHR ''0'') (CHR ''0'') (hex_digit (of_char c div 16)) (hex_digit (of_char c mod 16)) = Some c"
proof -
  note c = code_less_256 [of c]
  have "hex_val (CHR ''0'') = Some 0" by (simp add: hex_val_def)
  moreover have "hex_val (hex_digit (of_char c div 16)) = Some (of_char c div 16)"
    using c by (intro hex_back) (simp add: less_mult_imp_div_less)
  moreover have "hex_val (hex_digit (of_char c mod 16)) = Some (of_char c mod 16)" by (rule hex_back) simp
  moreover have "char_of (16 * (of_char c div 16) + of_char c mod 16 :: nat) = c" by simp
  ultimately show ?thesis unfolding hex_char_def by simp
qed

lemma char_codes:
  "of_char c = (34 :: nat) \<longleftrightarrow> c = CHR 0x22" "of_char c = (92 :: nat) \<longleftrightarrow> c = CHR 0x5C"
  "of_char c = (10 :: nat) \<longleftrightarrow> c = CHR 0x0A" "of_char c = (13 :: nat) \<longleftrightarrow> c = CHR 0x0D"
  "of_char c = (9 :: nat) \<longleftrightarrow> c = CHR 0x09" "of_char c = (12 :: nat) \<longleftrightarrow> c = CHR 0x0C"
  "of_char c = (8 :: nat) \<longleftrightarrow> c = CHR 0x08" "of_char c = (48 :: nat) \<longleftrightarrow> c = CHR ''0''"
  using of_char_eq_iff [where 'a = nat, of c "CHR 0x22"] of_char_eq_iff [where 'a = nat, of c "CHR 0x5C"]
    of_char_eq_iff [where 'a = nat, of c "CHR 0x0A"] of_char_eq_iff [where 'a = nat, of c "CHR 0x0D"]
    of_char_eq_iff [where 'a = nat, of c "CHR 0x09"] of_char_eq_iff [where 'a = nat, of c "CHR 0x0C"]
    of_char_eq_iff [where 'a = nat, of c "CHR 0x08"] of_char_eq_iff [where 'a = nat, of c "CHR ''0''"]
  by simp_all

lemma scan_string_esc:
  assumes "t \<noteq> []" shows "scan_string (esc c @ t) = cons_char (Some c) (scan_string t)"
proof -
  obtain e r where t: "t = e # r" using assms by (cases t) auto
  let ?n = "of_char c :: nat"
  have u: "scan_string (CHR 0x5C # CHR ''u'' # CHR ''0'' # CHR ''0'' # hex_digit (?n div 16) # hex_digit (?n mod 16) # t)
      = cons_char (Some c) (scan_string t)"
    using hex_char_back [of c] by simp
  consider (named) "?n \<in> {34, 92, 10, 13, 9, 12, 8}" | (plain) "?n \<notin> {34, 92, 10, 13, 9, 12, 8}" "32 \<le> ?n" "?n \<le> 126"
    | (other) "?n \<notin> {34, 92, 10, 13, 9, 12, 8}" "\<not> (32 \<le> ?n \<and> ?n \<le> 126)" by blast
  then show ?thesis
  proof cases
    case named
    then show ?thesis by (auto simp: char_codes esc_def simple_escape_def Let_def)
  next
    case plain
    then show ?thesis by (simp add: esc_def Let_def t)
  next
    case other
    then show ?thesis using u by (auto simp: esc_def Let_def)
  qed
qed

lemma quote_back: "scan_string (concat (map esc s) @ CHR 0x22 # rest) = Some (s, rest)"
proof (induction s)
  case Nil
  then show ?case by (cases rest) simp_all
next
  case (Cons c s)
  then show ?case using scan_string_esc [of "concat (map esc s) @ CHR 0x22 # rest" c] by (simp add: cons_char_def)
qed

section \<open>Numbers read back\<close>

lemma ends_no_point: "ends_number s \<Longrightarrow> s = [] \<or> \<not> is_digit (hd s)"
  by (auto simp: ends_number_def)

lemma nat_text_back:
  assumes "ends_number rest" shows "scan_unsigned (nat_str n @ rest) = Some (Inl (int n), rest)"
proof -
  have "digit_char 0 = CHR ''0''" using char_codes(8) [of "digit_char 0"] by (simp add: digit_char.simps)
  then have zero: "nat_str 0 = ''0''" by (simp add: nat_str.simps)
  have "nat_str n = ''0'' \<or> nat_str n \<noteq> [] \<and> list_all is_digit (nat_str n) \<and> hd (nat_str n) \<noteq> CHR ''0''"
    using nat_str_head [of n] zero by (cases "n = 0") auto
  from scan_unsigned_parts [OF this ends_no_point [OF assms] scan_frac_none scan_exp_none [OF assms]] assms
  show ?thesis by (simp add: digits_val_nat_str)
qed

text \<open>The first character of a printed value.\<close>

definition value_head :: "char \<Rightarrow> bool" where
  "value_head c \<longleftrightarrow> c \<in> {CHR 0x22, CHR ''['', CHR ''{'', CHR ''n'', CHR ''t'', CHR ''f'', CHR ''-''} \<or> is_digit c"

lemma value_headD: "value_head c \<Longrightarrow> \<not> json_space c \<and> \<not> is_space c \<and> c \<notin> {CHR '']'', CHR ''}''}"
  by (auto simp: value_head_def json_space_def is_space_def is_digit_def Let_def)

lemma starts_digit:
  "\<exists>c r. nat_str n = c # r \<and> is_digit c" "\<exists>c r. place_point (nat_str n) p = c # r \<and> is_digit c"
proof -
  obtain c r where n: "nat_str n = c # r" by (cases "nat_str n") auto
  then have c: "is_digit c" using list_all_nat_str [of n] by simp
  with n show "\<exists>c r. nat_str n = c # r \<and> is_digit c" by simp
  show "\<exists>c r. place_point (nat_str n) p = c # r \<and> is_digit c"
    using c by (auto simp: place_point_def n is_digit_def take_Cons')
qed

lemma number_heads: "\<exists>c r. int_str i = c # r \<and> value_head c" "\<exists>c r. float_str x = c # r \<and> value_head c"
proof -
  show "\<exists>c r. int_str i = c # r \<and> value_head c"
    using starts_digit(1) [of "nat i"] by (auto simp: int_str_def value_head_def)
  have "\<exists>c r. pos_float_str y = c # r \<and> value_head c" for y
    using starts_digit(2) by (simp add: pos_float_str_def Let_def value_head_def) metis
  then show "\<exists>c r. float_str x = c # r \<and> value_head c"
    by (auto simp: float_str_def value_head_def is_digit_def)
qed

lemma float_str_nonempty: "float_str x \<noteq> []"
  using number_heads(2) [of x] by auto

lemma json_text_head: "\<exists>c r. json_text j = c # r \<and> value_head c"
proof (cases j)
  case (JBool b)
  then show ?thesis by (cases b) (simp_all add: value_head_def)
qed (use number_heads in \<open>simp_all add: quote_def value_head_def\<close>)

lemma digit_not_minus: "is_digit c \<Longrightarrow> c \<noteq> CHR ''-''"
  using minus_not_digit by auto

lemma scan_number_int:
  assumes "ends_number rest" shows "scan_number (int_str i @ rest) = Some (JInt i, rest)"
proof (cases "i < 0")
  case True
  then show ?thesis using nat_text_back [OF assms] by (simp add: scan_number_def int_str_def json_number_def)
next
  case False
  obtain c r where c: "nat_str (nat i) = c # r" "is_digit c" using starts_digit(1) by blast
  then show ?thesis
    using False nat_text_back [OF assms, of "nat i"] digit_not_minus [OF c(2)]
    by (simp add: scan_number_def int_str_def json_number_def)
qed

lemma scan_number_float:
  assumes "is_float x" "ends_number rest" shows "scan_number (float_str x @ rest) = Some (JFloat x, rest)"
proof -
  consider "x = 0" | "0 < x" | "x < 0" by linarith
  then show ?thesis
  proof cases
    case 1
    have "scan_unsigned (''0'' @ CHR ''.'' # ''0'' @ rest) = Some (Inr 0, rest)"
      using scan_unsigned_parts [OF _ _ scan_frac_point [OF _ _ ends_no_point [OF assms(2)]] scan_exp_none [OF assms(2)],
          of "''0''" "''0''"]
      by (simp add: is_digit_def digit_val_def)
    then show ?thesis using 1 by (simp add: scan_number_def float_str_def json_number_def)
  next
    case 2
    obtain c r where c: "pos_float_str x = c # r" "is_digit c"
      using starts_digit(2) by (simp add: pos_float_str_def Let_def) metis
    then show ?thesis
      using 2 float_text_back [OF assms(1) 2 assms(2)] digit_not_minus [OF c(2)]
      by (simp add: scan_number_def float_str_def json_number_def)
  next
    case 3
    have "is_float (- x)" using assms(1) by (simp add: is_float_def fl_uminus)
    from float_text_back [OF this _ assms(2)] 3 show ?thesis
      by (simp add: scan_number_def float_str_def json_number_def)
  qed
qed

section \<open>Values read back\<close>

text \<open>What a value must satisfy: its floats are floats, its dictionaries have distinct keys.\<close>

fun json_ok :: "json \<Rightarrow> bool" where
  "json_ok (JFloat x) = is_float x"
| "json_ok (JList xs) = list_all json_ok xs"
| "json_ok (JDict d) = (dict_wf d \<and> list_all (\<lambda>kv. json_ok (snd kv)) d)"
| "json_ok j = True"

definition closes :: "string \<Rightarrow> bool" where
  "closes s \<longleftrightarrow> s = [] \<or> hd s \<in> {CHR '','', CHR '']'', CHR ''}''}"

lemma closes_ends: "closes s \<Longrightarrow> ends_number s"
  by (auto simp: closes_def ends_number_def is_digit_def)

lemma closes_skip: "closes s \<Longrightarrow> skip s = s"
  by (cases s) (auto simp: closes_def skip_def json_space_def)

lemma closes_simps [simp]: "closes (CHR '','' # s)" "closes (CHR '']'' # s)" "closes (CHR ''}'' # s)" "closes []"
  by (simp_all add: closes_def)

lemma skip_head: "value_head c \<Longrightarrow> skip (c # r) = c # r"
  using value_headD [of c] by (simp add: skip_def)

lemma skip_text: "skip (json_text j @ r) = json_text j @ r" "skip (CHR '' '' # json_text j @ r) = json_text j @ r"
proof -
  obtain c t where "json_text j = c # t" "value_head c" using json_text_head by blast
  then show "skip (json_text j @ r) = json_text j @ r" by (simp add: skip_head)
  then show "skip (CHR '' '' # json_text j @ r) = json_text j @ r" by (simp add: skip_def json_space_def)
qed

definition scans :: "json \<Rightarrow> bool" where
  "scans j \<longleftrightarrow> (\<forall>n rest. 2 * length (json_text j) \<le> n \<longrightarrow> closes rest \<longrightarrow> scan_value n (json_text j @ rest) = Some (j, rest))"

lemma scansD: "scans j \<Longrightarrow> 2 * length (json_text j) \<le> n \<Longrightarrow> closes rest \<Longrightarrow> scan_value n (json_text j @ rest) = Some (j, rest)"
  by (simp add: scans_def)

lemma scan_value_number:
  assumes "value_head c" "c = CHR ''-'' \<or> is_digit c"
  shows "scan_value (Suc n) (c # r) = scan_number (c # r)"
proof -
  have "of_char c \<noteq> (34 :: nat)" "c \<notin> {CHR ''['', CHR ''{'', CHR ''n'', CHR ''t'', CHR ''f''}"
    using assms(2) by (auto simp: is_digit_def)
  then show ?thesis by simp
qed

lemma number_first: "\<exists>c r. int_str i = c # r \<and> (c = CHR ''-'' \<or> is_digit c)" "\<exists>c r. float_str x = c # r \<and> (c = CHR ''-'' \<or> is_digit c)"
proof -
  show "\<exists>c r. int_str i = c # r \<and> (c = CHR ''-'' \<or> is_digit c)"
    using starts_digit(1) [of "nat i"] by (auto simp: int_str_def)
  have "\<exists>c r. pos_float_str y = c # r \<and> is_digit c" for y
    using starts_digit(2) by (simp add: pos_float_str_def Let_def)
  then show "\<exists>c r. float_str x = c # r \<and> (c = CHR ''-'' \<or> is_digit c)"
    by (cases "x < 0"; cases "x = 0") (simp_all add: float_str_def is_digit_def, metis)
qed

lemma scans_scalar: "json_ok j \<Longrightarrow> (\<And>xs. j \<noteq> JList xs) \<Longrightarrow> (\<And>d. j \<noteq> JDict d) \<Longrightarrow> scans j"
  unfolding scans_def
proof (intro allI impI)
  fix n rest assume j: "json_ok j" "\<And>xs. j \<noteq> JList xs" "\<And>d. j \<noteq> JDict d"
    and n: "2 * length (json_text j) \<le> n" and rest: "closes rest"
  obtain c r where c: "json_text j = c # r" "value_head c" using json_text_head by blast
  with n obtain m where m: "n = Suc m" by (cases n) auto
  show "scan_value n (json_text j @ rest) = Some (j, rest)"
  proof (cases j)
    case (JInt i)
    obtain c r where "int_str i = c # r" "c = CHR ''-'' \<or> is_digit c" using number_first(1) by blast
    then show ?thesis
      using scan_value_number [of c m "r @ rest"] scan_number_int [OF closes_ends [OF rest], of i] JInt m
      by (simp add: value_head_def) 
  next
    case (JFloat x)
    obtain c r where "float_str x = c # r" "c = CHR ''-'' \<or> is_digit c" using number_first(2) by blast
    then show ?thesis
      using scan_value_number [of c m "r @ rest"] scan_number_float [OF _ closes_ends [OF rest], of x] JFloat m j(1)
      by (simp add: value_head_def) 
  next
    case (JStr s)
    then show ?thesis using quote_back [of s rest] m by (simp add: quote_def)
  qed (use j m in \<open>auto simp: scan_literal_def\<close>)
qed

lemma scan_items_back:
  assumes "\<forall>x \<in> set xs. scans x" "xs \<noteq> []" "2 * length (py_join '', '' (map json_text xs)) + 1 \<le> n"
  shows "scan_items n acc (py_join '', '' (map json_text xs) @ CHR '']'' # rest) = Some (acc @ xs, rest)"
  using assms
proof (induction xs arbitrary: n acc)
  case (Cons x xs)
  obtain m where m: "n = Suc m" using Cons.prems(3) by (cases n) auto
  show ?case
  proof (cases xs)
    case Nil
    then show ?thesis
      using Cons.prems m scansD [of x m "CHR '']'' # rest"] closes_skip [of "CHR '']'' # rest"] by simp
  next
    case (Cons y ys)
    let ?more = "py_join '', '' (map json_text xs) @ CHR '']'' # rest"
    have shape: "py_join '', '' (map json_text (x # xs)) @ CHR '']'' # rest = json_text x @ CHR '','' # CHR '' '' # ?more"
      by (simp add: Cons)
    have "scan_value m (json_text x @ CHR '','' # CHR '' '' # ?more) = Some (x, CHR '','' # CHR '' '' # ?more)"
      using Cons.prems m by (intro scansD) (auto simp: Cons)
    moreover have "skip (CHR '' '' # ?more) = ?more"
      using skip_text(2) [of y] by (cases ys) (simp_all add: Cons)
    moreover have "scan_items m (acc @ [x]) ?more = Some (acc @ x # xs, rest)"
      using Cons.IH [of m "acc @ [x]"] Cons.prems m by (simp add: Cons)
    ultimately show ?thesis unfolding shape m by (simp add: closes_skip)
  qed
qed simp

definition pair_text :: "string \<times> json \<Rightarrow> string" where
  "pair_text kv = quote (fst kv) @ '': '' @ json_text (snd kv)"

lemma scan_pairs_back:
  assumes "\<forall>kv \<in> set d. scans (snd kv)" "d \<noteq> []" "dict_wf (acc @ d)"
    and "2 * length (py_join '', '' (map pair_text d)) + 1 \<le> n"
  shows "scan_pairs n acc (py_join '', '' (map pair_text d) @ CHR ''}'' # rest) = Some (acc @ d, rest)"
  using assms
proof (induction d arbitrary: n acc)
  case (Cons kv d)
  obtain k x where kv: "kv = (k, x)" by (cases kv) auto
  obtain m where m: "n = Suc m" using Cons.prems(4) by (cases n) auto
  have new: "AList.update k x acc = acc @ [(k, x)]" using Cons.prems(3) kv by (intro dict_update_new) auto
  define after where "after = (if d = [] then [] else '', '' @ py_join '', '' (map pair_text d)) @ CHR ''}'' # rest"
  have shape: "py_join '', '' (map pair_text (kv # d)) @ CHR ''}'' # rest
      = CHR 0x22 # concat (map esc k) @ CHR 0x22 # CHR '':'' # CHR '' '' # json_text x @ after"
    by (cases d) (simp_all add: after_def pair_text_def quote_def kv)
  have clo: "closes after" by (simp add: after_def)
  have len: "2 * length (json_text x) \<le> m" using Cons.prems(4) m by (cases d) (auto simp: pair_text_def kv)
  have val: "scan_value m (skip (CHR '' '' # json_text x @ after)) = Some (x, after)"
    using Cons.prems(1) kv scansD [of x m after] len clo by (simp add: skip_text)
  have step: "scan_pairs n acc (py_join '', '' (map pair_text (kv # d)) @ CHR ''}'' # rest)
      = (case after of [] \<Rightarrow> None
         | e # w \<Rightarrow> if e = CHR '','' then scan_pairs m (AList.update k x acc) (skip w)
                   else if e = CHR ''}'' then Some (AList.update k x acc, w) else None)"
    unfolding shape m using val by (simp add: quote_back closes_skip [OF clo] skip_def [of "CHR '':'' # _"] json_space_def)
  show ?case
  proof (cases d)
    case Nil
    then show ?thesis unfolding step new by (simp add: after_def kv)
  next
    case (Cons kv' d')
    let ?more = "py_join '', '' (map pair_text d) @ CHR ''}'' # rest"
    have "skip (CHR '' '' # ?more) = ?more"
      by (cases d') (simp_all add: Cons pair_text_def quote_def skip_def json_space_def)
    moreover have "scan_pairs m (acc @ [kv]) ?more = Some ((acc @ [kv]) @ d, rest)"
      using Cons.prems m by (intro Cons.IH) (auto simp: Cons)
    ultimately show ?thesis unfolding step new by (simp add: after_def Cons kv)
  qed
qed simp

lemma json_scans: "json_ok j \<Longrightarrow> scans j"
proof (induction j rule: json_text.induct)
  case (6 xs)
  have xs: "\<forall>x \<in> set xs. scans x" using 6 by (auto simp: list_all_iff)
  show ?case
    unfolding scans_def
  proof (intro allI impI)
    fix n rest assume n: "2 * length (json_text (JList xs)) \<le> n"
    then obtain m where m: "n = Suc m" by (cases n) auto
    show "scan_value n (json_text (JList xs) @ rest) = Some (JList xs, rest)"
    proof (cases xs)
      case Nil
      then show ?thesis using m by (simp add: skip_def json_space_def)
    next
      case (Cons x ys)
      let ?t = "py_join '', '' (map json_text xs) @ CHR '']'' # rest"
      obtain c r where c: "json_text x = c # r" "value_head c" using json_text_head by blast
      have t: "?t = c # tl ?t" using c(1) by (cases ys) (simp_all add: Cons)
      from t have "skip ?t = ?t" using skip_head [OF c(2), of "tl ?t"] by metis
      moreover have "hd ?t \<noteq> CHR '']''" using value_headD [OF c(2)] by (subst t) auto
      moreover have "?t \<noteq> []" by simp
      moreover have "scan_items m [] ?t = Some (xs, rest)"
        using scan_items_back [OF xs, of m "[]" rest] n m by (simp add: Cons)
      ultimately show ?thesis using m by simp
    qed
  qed
next
  case (7 d)
  have d: "\<forall>kv \<in> set d. scans (snd kv)" using 7 by (auto simp: list_all_iff)
  have shape: "json_text (JDict d) = ''{'' @ py_join '', '' (map pair_text d) @ ''}''"
    by (simp add: pair_text_def [abs_def])
  show ?case
    unfolding scans_def shape
  proof (intro allI impI)
    fix n rest assume n: "2 * length (''{'' @ py_join '', '' (map pair_text d) @ ''}'') \<le> n"
    then obtain m where m: "n = Suc m" by (cases n) auto
    show "scan_value n ((''{'' @ py_join '', '' (map pair_text d) @ ''}'') @ rest) = Some (JDict d, rest)"
    proof (cases d)
      case Nil
      then show ?thesis using m by (simp add: skip_def json_space_def)
    next
      case (Cons kv ds)
      let ?t = "py_join '', '' (map pair_text d) @ CHR ''}'' # rest"
      have t: "?t = CHR 0x22 # tl ?t" by (cases ds) (simp_all add: Cons pair_text_def quote_def)
      have quote_head: "value_head (CHR 0x22)" by (simp add: value_head_def)
      from t have "skip ?t = ?t" using skip_head [OF quote_head, of "tl ?t"] by metis
      moreover have "hd ?t \<noteq> CHR ''}''" by (subst t) simp
      moreover have "?t \<noteq> []" by simp
      moreover have "scan_pairs m [] ?t = Some (d, rest)"
        using scan_pairs_back [OF d, of "[]" m rest] n m 7(2) by (simp add: Cons)
      ultimately show ?thesis using m by simp
    qed
  qed
qed (rule scans_scalar; simp)+

text \<open>Printing a value and reading it gives the value.\<close>

theorem json_text_back: "json_ok j \<Longrightarrow> json_loads (json_text j) = Inr j"
  using scansD [OF json_scans, of j "2 * length (json_text j) + 2" "[]"] skip_text(1) [of j "[]"]
  by (simp add: json_loads_def skip_def)

section \<open>Sorted keys and the shape of the text\<close>

lemma json_ok_sorted: "json_ok j \<Longrightarrow> json_ok (json_sorted j)"
proof (induction j rule: json_sorted.induct)
  case (2 d)
  let ?d = "map (\<lambda>kv. (fst kv, json_sorted (snd kv))) d"
  have "dict_wf ?d" using 2(2) by (simp add: comp_def)
  then have "dict_wf (sort_key fst ?d)" using distinct_map [of fst "sort_key fst ?d"] distinct_map [of fst ?d] by simp
  moreover have "\<forall>kv \<in> set d. json_ok (json_sorted (snd kv))" using 2 by (auto simp: list_all_iff)
  ultimately show ?case by (simp add: list_all_iff)
qed (auto simp: list_all_iff)

lemma json_loads_dumps: "json_ok j \<Longrightarrow> json_loads (json_dumps j) = Inr (json_sorted j)"
  by (simp add: json_dumps_def json_text_back json_ok_sorted)

definition printable :: "char \<Rightarrow> bool" where
  "printable c \<longleftrightarrow> 32 \<le> (of_char c :: nat) \<and> (of_char c :: nat) \<le> 126"

lemma digit_printable: "is_digit c \<Longrightarrow> printable c"
  by (simp add: is_digit_def printable_def)

lemma printable_chars [simp]: "printable (CHR ''.'')" "printable (CHR ''-'')" "printable (CHR ''+'')" "printable (CHR ''e'')"
  "printable (CHR ''0'')" "printable (CHR '','')" "printable (CHR '' '')" "printable (CHR '':'')" "printable (CHR ''['')"
  "printable (CHR '']'')" "printable (CHR ''{'')" "printable (CHR ''}'')" "printable (CHR 0x22)" "printable (CHR 0x5C)"
  "printable (CHR ''u'')" "printable (CHR ''n'')" "printable (CHR ''r'')" "printable (CHR ''t'')" "printable (CHR ''f'')"
  "printable (CHR ''b'')" "printable (CHR ''l'')" "printable (CHR ''a'')" "printable (CHR ''s'')"
  by (simp_all add: printable_def)

lemma nat_str_printable: "c \<in> set (nat_str n) \<Longrightarrow> printable c"
  using nat_str_digits digit_printable by blast

lemma point_printable: "c \<in> set (place_point (nat_str n) p) \<Longrightarrow> printable c"
proof -
  have "\<forall>c \<in> set (exponent_str e). printable c" for e
    by (auto simp: exponent_str_def Let_def dest: nat_str_printable)
  moreover have "hd (nat_str n) \<in> set (nat_str n)" by simp
  then have "printable (hd (nat_str n))" by (rule nat_str_printable)
  moreover have "\<forall>c \<in> set (tl (nat_str n)). printable c" using nat_str_printable list.set_sel(2) by (metis nat_str_nonempty)
  ultimately show "c \<in> set (place_point (nat_str n) p) \<Longrightarrow> printable c"
    by (auto simp: place_point_def zeros_def dest: in_set_takeD in_set_dropD nat_str_printable split: if_splits)
qed

lemma number_printable: "c \<in> set (int_str i) \<Longrightarrow> printable c" "c \<in> set (float_str x) \<Longrightarrow> printable c"
  by (auto simp: int_str_def float_str_def pos_float_str_def Let_def dest: nat_str_printable point_printable split: if_splits)

lemma quote_printable: "c \<in> set (quote s) \<Longrightarrow> printable c"
proof -
  have hex: "printable (hex_digit k)" if "k < 16" for k
    using that by (simp add: printable_def hex_digit_def)
  have "of_char d div 16 < (16 :: nat)" for d using code_less_256 [of d] by (simp add: less_mult_imp_div_less)
  then have "\<forall>c \<in> set (esc d). printable c" for d
    using hex by (auto simp: esc_def Let_def) (simp add: printable_def)
  then show "c \<in> set (quote s) \<Longrightarrow> printable c" by (auto simp: quote_def)
qed

lemma join_chars: "c \<in> set (py_join sep xs) \<Longrightarrow> c \<in> set sep \<or> (\<exists>x \<in> set xs. c \<in> set x)"
  by (induction sep xs rule: py_join.induct) auto

lemma json_text_printable: "c \<in> set (json_text j) \<Longrightarrow> printable c"
proof (induction j rule: json_text.induct)
  case (6 xs)
  then show ?case by (auto dest!: join_chars)
next
  case (7 d)
  then show ?case by (auto dest!: join_chars) (use quote_printable in blast)
qed (auto dest: number_printable quote_printable split: if_splits)

lemma strip_nonempty: "c \<in> set s \<Longrightarrow> \<not> is_space c \<Longrightarrow> py_strip s \<noteq> []"
proof
  assume c: "c \<in> set s" "\<not> is_space c" and blank: "py_strip s = []"
  let ?t = "dropWhile is_space s"
  have t: "?t \<noteq> []" using c by (auto simp: dropWhile_eq_Nil_conv)
  then have "\<not> is_space (hd ?t)" by (rule hd_dropWhile)
  moreover have "\<forall>x \<in> set ?t. is_space x" using blank by (simp add: py_strip_def dropWhile_eq_Nil_conv)
  ultimately show False using t list.set_sel(1) by blast
qed

lemma json_text_solid: "py_strip (json_text j) \<noteq> []"
proof -
  obtain c r where "json_text j = c # r" "value_head c" using json_text_head by blast
  then show ?thesis using value_headD [of c] strip_nonempty [of c] by simp
qed

end
