(* ===== verification/Serialization.thy ===== *)
theory Serialization
  imports Events JsonText
begin

text \<open>
  The JSON forms: \<open>to_dict\<close>/\<open>from_dict\<close> of \<open>schema.py\<close> and \<open>events.py\<close>, and the text forms built on
  \<open>json.dumps(..., sort_keys=True)\<close> and \<open>json.loads\<close>.

  \<open>json\<close> is a parsed JSON value; a \<open>dict[str, object]\<close> is an association list. The conversions
  \<open>int(x)\<close>, \<open>float(x)\<close>, \<open>bool(x)\<close> and \<open>str(x)\<close> are written out where they are arithmetic or
  structural; the conversions that the program only meets on values of an unexpected type (a number
  given as text, the text of a container) are the parameter \<open>conversions\<close>.
\<close>

section \<open>Values and conversions\<close>

record conversions =
  repr_of :: "json \<Rightarrow> string"
  int_of_text :: "string \<Rightarrow> int result"
  float_of_text :: "string \<Rightarrow> pyfloat result"
  dict_of_items :: "json \<Rightarrow> jdict result"

fun py_str :: "conversions \<Rightarrow> json \<Rightarrow> string" where
  "py_str c JNull = ''None''"
| "py_str c (JBool b) = (if b then ''True'' else ''False'')"
| "py_str c (JInt i) = int_str i"
| "py_str c (JStr s) = s"
| "py_str c (JFloat x) = float_str x"
| "py_str c j = repr_of c j"

fun py_int :: "conversions \<Rightarrow> json \<Rightarrow> int result" where
  "py_int c (JInt i) = Inr i"
| "py_int c (JBool b) = Inr (if b then 1 else 0)"
| "py_int c (JFloat f) = Inr (if 0 \<le> f then \<lfloor>f\<rfloor> else \<lceil>f\<rceil>)"
| "py_int c (JStr s) = int_of_text c s"
| "py_int c j = Inl (TypeError ''int() argument must be a string or a number'')"

fun py_float :: "conversions \<Rightarrow> json \<Rightarrow> pyfloat result" where
  "py_float c (JFloat f) = Inr f"
| "py_float c (JInt i) = Inr (int_to_float i)"
| "py_float c (JBool b) = Inr (if b then 1 else 0)"
| "py_float c (JStr s) = float_of_text c s"
| "py_float c j = Inl (TypeError ''float() argument must be a string or a number'')"

fun py_bool :: "json \<Rightarrow> bool" where
  "py_bool JNull = False"
| "py_bool (JBool b) = b"
| "py_bool (JInt i) = (i \<noteq> 0)"
| "py_bool (JFloat f) = (f \<noteq> 0)"
| "py_bool (JStr s) = (s \<noteq> [])"
| "py_bool (JList xs) = (xs \<noteq> [])"
| "py_bool (JDict d) = (d \<noteq> [])"

text \<open>Iteration over a value, and \<open>dict(x)\<close>.\<close>

fun py_iter :: "json \<Rightarrow> json list result" where
  "py_iter (JList xs) = Inr xs"
| "py_iter (JDict d) = Inr (map (\<lambda>kv. JStr (fst kv)) d)"
| "py_iter (JStr s) = Inr (map (\<lambda>ch. JStr [ch]) s)"
| "py_iter j = Inl (TypeError ''object is not iterable'')"

fun py_dict :: "conversions \<Rightarrow> json \<Rightarrow> jdict result" where
  "py_dict c (JDict d) = Inr d"
| "py_dict c (JList xs) = dict_of_items c (JList xs)"
| "py_dict c (JStr s) = dict_of_items c (JStr s)"
| "py_dict c j = Inl (TypeError ''object is not iterable'')"

text \<open>\<open>data[k]\<close>, \<open>data.get(k, default)\<close> and the guarded conversions built on them.\<close>

definition get_item :: "jdict \<Rightarrow> string \<Rightarrow> json result" where
  "get_item d k = (case dict_get d k of None \<Rightarrow> Inl (KeyError k) | Some v \<Rightarrow> Inr v)"

definition req_str :: "conversions \<Rightarrow> jdict \<Rightarrow> string \<Rightarrow> string result" where
  "req_str c d k = bind_r (get_item d k) (\<lambda>v. Inr (py_str c v))"

definition req_int :: "conversions \<Rightarrow> jdict \<Rightarrow> string \<Rightarrow> int result" where
  "req_int c d k = bind_r (get_item d k) (py_int c)"

definition default_int :: "conversions \<Rightarrow> jdict \<Rightarrow> string \<Rightarrow> int \<Rightarrow> int result" where
  "default_int c d k n = (case dict_get d k of None \<Rightarrow> Inr n | Some v \<Rightarrow> py_int c v)"

definition default_float :: "conversions \<Rightarrow> jdict \<Rightarrow> string \<Rightarrow> pyfloat \<Rightarrow> pyfloat result" where
  "default_float c d k x = (case dict_get d k of None \<Rightarrow> Inr x | Some v \<Rightarrow> py_float c v)"

definition default_bool :: "jdict \<Rightarrow> string \<Rightarrow> bool" where
  "default_bool d k = (case dict_get d k of None \<Rightarrow> False | Some v \<Rightarrow> py_bool v)"

definition opt_value :: "jdict \<Rightarrow> string \<Rightarrow> json option" where
  "opt_value d k = (case dict_get d k of None \<Rightarrow> None | Some v \<Rightarrow> if v = JNull then None else Some v)"

definition opt_int :: "conversions \<Rightarrow> jdict \<Rightarrow> string \<Rightarrow> int option result" where
  "opt_int c d k = (case opt_value d k of None \<Rightarrow> Inr None
     | Some v \<Rightarrow> bind_r (py_int c v) (\<lambda>i. Inr (Some i)))"

definition opt_str :: "conversions \<Rightarrow> jdict \<Rightarrow> string \<Rightarrow> string option" where
  "opt_str c d k = map_option (py_str c) (opt_value d k)"

section \<open>Enumeration members by value\<close>

definition member_of :: "('a \<Rightarrow> string) \<Rightarrow> 'a list \<Rightarrow> string \<Rightarrow> 'a result" where
  "member_of value_of members s =
     (case find (\<lambda>m. value_of m = s) members of
        None \<Rightarrow> Inl (ValueError (s @ '' is not a valid member'')) | Some m \<Rightarrow> Inr m)"

definition object_type_of :: "string \<Rightarrow> object_type result" where
  "object_type_of = member_of object_type_value [KV_CACHE, WEIGHT, ACTIVATION, SCRATCH]"
definition phase_of :: "string \<Rightarrow> phase result" where
  "phase_of = member_of phase_value [PREFILL, DECODE, VERIFY, ROLLBACK, DONE, IDLE]"
definition priority_of :: "string \<Rightarrow> priority result" where
  "priority_of = member_of priority_value [DECODE_CRITICAL, HOT, WARM, COLD]"
definition tier_of :: "string \<Rightarrow> tier result" where
  "tier_of = member_of tier_value [HBM, DRAM, CXL, NVME]"
definition event_type_of :: "string \<Rightarrow> event_type result" where
  "event_type_of = member_of event_type_value
     [ALLOCATED, ACCESSED, COMMITTED, MARKED_DECODE_CRITICAL, MARKED_COLD, SPILLED, PREFETCHED, MISS,
      EVICTED, FREED]"

lemma object_type_of_value [simp]: "object_type_of (object_type_value t) = Inr t"
  by (cases t) (simp_all add: object_type_of_def member_of_def)
lemma phase_of_value [simp]: "phase_of (phase_value p) = Inr p"
  by (cases p) (simp_all add: phase_of_def member_of_def)
lemma priority_of_value [simp]: "priority_of (priority_value q) = Inr q"
  by (cases q) (simp_all add: priority_of_def member_of_def)
lemma tier_of_value [simp]: "tier_of (tier_value u) = Inr u"
  by (cases u) (simp_all add: tier_of_def member_of_def)
lemma event_type_of_value [simp]: "event_type_of (event_type_value e) = Inr e"
  by (cases e) (simp_all add: event_type_of_def member_of_def)

section \<open>Intents\<close>

definition json_opt :: "int option \<Rightarrow> json" where
  "json_opt x = (case x of None \<Rightarrow> JNull | Some i \<Rightarrow> JInt i)"

definition json_tiers :: "tier set \<Rightarrow> json" where
  "json_tiers ts = JList (map (\<lambda>t. JStr (tier_value t)) (sorted_list_of_set ts))"

definition intent_to_dict :: "mintent \<Rightarrow> jdict" where
  "intent_to_dict i =
     [(''object_id'', JStr (object_id i)), (''request_id'', JStr (request_id i)),
      (''block_id'', JInt (block_id i)), (''object_type'', JStr (object_type_value (object_type i))),
      (''phase'', JStr (phase_value (phase i))), (''priority'', JStr (priority_value (priority i))),
      (''allowed_tiers'', json_tiers (allowed_tiers i)),
      (''current_tier'', JStr (tier_value (current_tier i))), (''size_bytes'', JInt (size_bytes i)),
      (''request_priority'', JInt (request_priority i)), (''recency_score'', JFloat (recency_score i)),
      (''deadline_us'', json_opt (deadline_us i)), (''slack_us'', json_opt (slack_us i)),
      (''arrival_step'', json_opt (arrival_step i)),
      (''target_decode_step'', json_opt (target_decode_step i)),
      (''expected_reuse_window_tokens'', json_opt (expected_reuse_window_tokens i)),
      (''recompute_cost_us'', json_opt (recompute_cost_us i)),
      (''spill_cost_us'', json_opt (spill_cost_us i)), (''compression_ok'', JBool (compression_ok i)),
      (''recompute_ok'', JBool (recompute_ok i)), (''prefetch_ok'', JBool (prefetch_ok i)),
      (''pin_requested'', JBool (pin_requested i)), (''is_draft'', JBool (is_draft i)),
      (''is_committed'', JBool (is_committed i)), (''created_step'', JInt (created_step i)),
      (''last_access_step'', JInt (last_access_step i))]"

definition tiers_of :: "conversions \<Rightarrow> jdict \<Rightarrow> string \<Rightarrow> tier set result" where
  "tiers_of c d k = bind_r (get_item d k) (\<lambda>v. bind_r (py_iter v) (\<lambda>xs.
     bind_r (map_r (\<lambda>x. tier_of (py_str c x)) xs) (\<lambda>ts. Inr (set ts))))"

definition intent_from_dict :: "conversions \<Rightarrow> jdict \<Rightarrow> mintent result" where
  "intent_from_dict c d =
     bind_r (req_str c d ''object_id'') (\<lambda>oid. bind_r (req_str c d ''request_id'') (\<lambda>rid.
     bind_r (req_int c d ''block_id'') (\<lambda>bid.
     bind_r (bind_r (req_str c d ''object_type'') object_type_of) (\<lambda>ot.
     bind_r (bind_r (req_str c d ''phase'') phase_of) (\<lambda>ph.
     bind_r (bind_r (req_str c d ''priority'') priority_of) (\<lambda>pr.
     bind_r (tiers_of c d ''allowed_tiers'') (\<lambda>ts.
     bind_r (bind_r (req_str c d ''current_tier'') tier_of) (\<lambda>ct.
     bind_r (req_int c d ''size_bytes'') (\<lambda>sz.
     bind_r (default_int c d ''request_priority'' 0) (\<lambda>rp.
     bind_r (default_float c d ''recency_score'' 0) (\<lambda>rs.
     bind_r (opt_int c d ''deadline_us'') (\<lambda>dl. bind_r (opt_int c d ''slack_us'') (\<lambda>sl.
     bind_r (opt_int c d ''arrival_step'') (\<lambda>ar. bind_r (opt_int c d ''target_decode_step'') (\<lambda>td.
     bind_r (opt_int c d ''expected_reuse_window_tokens'') (\<lambda>er.
     bind_r (opt_int c d ''recompute_cost_us'') (\<lambda>rc. bind_r (opt_int c d ''spill_cost_us'') (\<lambda>sc.
     bind_r (default_int c d ''created_step'' 0) (\<lambda>cs. bind_r (default_int c d ''last_access_step'' 0) (\<lambda>la.
     post_init \<lparr>object_id = oid, request_id = rid, block_id = bid, object_type = ot, phase = ph,
       priority = pr, allowed_tiers = ts, current_tier = ct, size_bytes = sz, request_priority = rp,
       recency_score = rs, deadline_us = dl, slack_us = sl, arrival_step = ar,
       target_decode_step = td, expected_reuse_window_tokens = er, recompute_cost_us = rc,
       spill_cost_us = sc, compression_ok = default_bool d ''compression_ok'',
       recompute_ok = default_bool d ''recompute_ok'', prefetch_ok = default_bool d ''prefetch_ok'',
       pin_requested = default_bool d ''pin_requested'', is_draft = default_bool d ''is_draft'',
       is_committed = default_bool d ''is_committed'', created_step = cs,
       last_access_step = la\<rparr>))))))))))))))))))))"

section \<open>Events\<close>

definition event_to_dict :: "mevent \<Rightarrow> jdict" where
  "event_to_dict e =
     [(''step'', JInt (ev_step e)), (''event_type'', JStr (event_type_value (ev_type e))),
      (''intent'', JDict (intent_to_dict (ev_intent e))),
      (''reason'', (case ev_reason e of None \<Rightarrow> JNull | Some r \<Rightarrow> JStr r)),
      (''latency_us'', json_opt (ev_latency_us e))]"

definition event_from_dict :: "conversions \<Rightarrow> jdict \<Rightarrow> mevent result" where
  "event_from_dict c d =
     bind_r (req_int c d ''step'') (\<lambda>st.
     bind_r (bind_r (req_str c d ''event_type'') event_type_of) (\<lambda>et.
     bind_r (bind_r (bind_r (get_item d ''intent'') (py_dict c)) (intent_from_dict c)) (\<lambda>i.
     bind_r (opt_int c d ''latency_us'') (\<lambda>lat.
     event_post_init \<lparr>ev_step = st, ev_type = et, ev_intent = i, ev_reason = opt_str c d ''reason'',
       ev_latency_us = lat\<rparr>))))"

definition event_to_json :: "mevent \<Rightarrow> string" where
  "event_to_json e = json_dumps (JDict (event_to_dict e))"

definition as_mapping :: "json \<Rightarrow> jdict result" where
  "as_mapping j = (case j of JDict d \<Rightarrow> Inr d
     | _ \<Rightarrow> Inl (TypeError ''indices must be integers or slices, not str''))"

definition event_from_json :: "conversions \<Rightarrow> string \<Rightarrow> mevent result" where
  "event_from_json c s = bind_r (json_loads s) (\<lambda>j. bind_r (as_mapping j) (event_from_dict c))"

section \<open>What the readers look at\<close>

text \<open>The readers see a dictionary through its lookups only, so the order of the keys is irrelevant.\<close>

lemmas readers = req_str_def req_int_def default_int_def default_float_def default_bool_def
  opt_value_def opt_int_def opt_str_def get_item_def tiers_of_def

lemma intent_from_dict_cong:
  assumes "\<And>k. dict_get d k = dict_get d' k" shows "intent_from_dict c d = intent_from_dict c d'"
  by (simp add: intent_from_dict_def readers assms)

lemma opt_int_json [simp]: "dict_get d k = Some (json_opt x) \<Longrightarrow> opt_int c d k = Inr x"
  by (cases x) (simp_all add: opt_int_def opt_value_def json_opt_def)

lemma reader_simps:
  "dict_get d k = Some (JStr s) \<Longrightarrow> req_str c d k = Inr s"
  "dict_get d k = Some (JInt n) \<Longrightarrow> req_int c d k = Inr n"
  "dict_get d k = Some (JInt n) \<Longrightarrow> default_int c d k m = Inr n"
  "dict_get d k = Some (JFloat x) \<Longrightarrow> default_float c d k y = Inr x"
  "dict_get d k = Some (JBool b) \<Longrightarrow> default_bool d k = b"
  by (simp_all add: readers)

lemma map_r_tiers: "map_r (\<lambda>x. tier_of (py_str c x)) (map (\<lambda>t. JStr (tier_value t)) ts) = Inr ts"
  by (induction ts) simp_all

lemma tiers_of_json: "dict_get d k = Some (json_tiers ts) \<Longrightarrow> tiers_of c d k = Inr ts"
  by (simp add: tiers_of_def get_item_def json_tiers_def map_r_tiers)

text \<open>Lookups in the dictionary of an intent.\<close>

lemma intent_dict_lookups:
  "dict_get (intent_to_dict i) ''object_id'' = Some (JStr (object_id i))"
  "dict_get (intent_to_dict i) ''request_id'' = Some (JStr (request_id i))"
  "dict_get (intent_to_dict i) ''block_id'' = Some (JInt (block_id i))"
  "dict_get (intent_to_dict i) ''object_type'' = Some (JStr (object_type_value (object_type i)))"
  "dict_get (intent_to_dict i) ''phase'' = Some (JStr (phase_value (phase i)))"
  "dict_get (intent_to_dict i) ''priority'' = Some (JStr (priority_value (priority i)))"
  "dict_get (intent_to_dict i) ''allowed_tiers'' = Some (json_tiers (allowed_tiers i))"
  "dict_get (intent_to_dict i) ''current_tier'' = Some (JStr (tier_value (current_tier i)))"
  "dict_get (intent_to_dict i) ''size_bytes'' = Some (JInt (size_bytes i))"
  "dict_get (intent_to_dict i) ''request_priority'' = Some (JInt (request_priority i))"
  "dict_get (intent_to_dict i) ''recency_score'' = Some (JFloat (recency_score i))"
  "dict_get (intent_to_dict i) ''deadline_us'' = Some (json_opt (deadline_us i))"
  "dict_get (intent_to_dict i) ''slack_us'' = Some (json_opt (slack_us i))"
  "dict_get (intent_to_dict i) ''arrival_step'' = Some (json_opt (arrival_step i))"
  "dict_get (intent_to_dict i) ''target_decode_step'' = Some (json_opt (target_decode_step i))"
  "dict_get (intent_to_dict i) ''expected_reuse_window_tokens'' = Some (json_opt (expected_reuse_window_tokens i))"
  "dict_get (intent_to_dict i) ''recompute_cost_us'' = Some (json_opt (recompute_cost_us i))"
  "dict_get (intent_to_dict i) ''spill_cost_us'' = Some (json_opt (spill_cost_us i))"
  "dict_get (intent_to_dict i) ''compression_ok'' = Some (JBool (compression_ok i))"
  "dict_get (intent_to_dict i) ''recompute_ok'' = Some (JBool (recompute_ok i))"
  "dict_get (intent_to_dict i) ''prefetch_ok'' = Some (JBool (prefetch_ok i))"
  "dict_get (intent_to_dict i) ''pin_requested'' = Some (JBool (pin_requested i))"
  "dict_get (intent_to_dict i) ''is_draft'' = Some (JBool (is_draft i))"
  "dict_get (intent_to_dict i) ''is_committed'' = Some (JBool (is_committed i))"
  "dict_get (intent_to_dict i) ''created_step'' = Some (JInt (created_step i))"
  "dict_get (intent_to_dict i) ''last_access_step'' = Some (JInt (last_access_step i))"
  by (simp_all add: intent_to_dict_def)

lemma intent_from_lookups:
  assumes "\<And>k. dict_get d k = dict_get (intent_to_dict i) k" "valid_intent i"
  shows "intent_from_dict c d = Inr i"
proof -
  note look = intent_dict_lookups [of i, folded assms(1)]
  have "intent_from_dict c d = post_init i"
    unfolding intent_from_dict_def by (simp add: look reader_simps tiers_of_json) (cases i, simp)
  then show ?thesis using assms(2) by simp
qed

section \<open>Sorted keys\<close>

lemma dict_get_sort_key:
  assumes "dict_wf d" shows "dict_get (sort_key fst d) k = dict_get d k"
proof -
  have "distinct (map fst (sort_key fst d))"
    using assms distinct_map [of fst "sort_key fst d"] distinct_map [of fst d] by simp
  then have "map_of (sort_key fst d) = map_of d" using assms by (subst map_of_inject_set) simp_all
  then show ?thesis by simp
qed

lemma dict_get_json_sorted:
  assumes "dict_wf d"
  shows "dict_get (sort_key fst (map (\<lambda>kv. (fst kv, json_sorted (snd kv))) d)) k
    = map_option json_sorted (dict_get d k)"
proof -
  have "dict_wf (map (\<lambda>kv. (fst kv, json_sorted (snd kv))) d)" using assms by (simp add: comp_def)
  from dict_get_sort_key [OF this] show ?thesis
    using dict_map_values [of json_sorted d k] by (simp add: case_prod_unfold)
qed

end
