(* ===== verification/Trace.thy ===== *)
theory Trace
  imports Serialization "HOL-Library.Multiset"
begin

text \<open>
  \<open>IntentTraceRecorder\<close> of \<open>src/kv_memory_intent/trace.py\<close>: the recorded events, the JSON-lines text
  it writes and reads (the file itself is I/O and is left out: the functions take and return the
  text), and the summary. \<open>Counter\<close> is an association list of counts.
\<close>

section \<open>Recorder\<close>

record recorder =
  rec_events :: "mevent list"

definition new_recorder :: recorder where "new_recorder = \<lparr>rec_events = []\<rparr>"

definition record_event :: "mevent \<Rightarrow> recorder \<Rightarrow> recorder" where
  "record_event e r = r\<lparr>rec_events := rec_events r @ [e]\<rparr>"

definition extend_events :: "mevent list \<Rightarrow> recorder \<Rightarrow> recorder" where
  "extend_events es r = r\<lparr>rec_events := rec_events r @ es\<rparr>"

section \<open>JSON lines\<close>

text \<open>\<open>str.splitlines\<close>: the line boundaries, with carriage return and line feed together as one.\<close>

definition is_line_break :: "char \<Rightarrow> bool" where
  "is_line_break c \<longleftrightarrow> (of_char c :: nat) \<in> {10, 11, 12, 13, 28, 29, 30, 133}"

definition drop_break :: "string \<Rightarrow> string" where
  "drop_break s = (case s of c # d # r \<Rightarrow> if (of_char c :: nat) = 13 \<and> (of_char d :: nat) = 10 then r else d # r
     | _ \<Rightarrow> [])"

lemma drop_break_length: "s \<noteq> [] \<Longrightarrow> length (drop_break s) < length s"
  by (auto simp: drop_break_def split: list.splits)

function py_splitlines :: "string \<Rightarrow> string list" where
  "py_splitlines s =
     (if s = [] then []
      else takeWhile (\<lambda>c. \<not> is_line_break c) s
        # py_splitlines (drop_break (dropWhile (\<lambda>c. \<not> is_line_break c) s)))"
  by pat_completeness auto
termination
proof (relation "measure length")
  fix s :: string assume s: "s \<noteq> []"
  let ?r = "dropWhile (\<lambda>c. \<not> is_line_break c) s"
  have le: "length ?r \<le> length s" by (rule length_dropWhile_le)
  have "length (drop_break ?r) < length s"
  proof (cases "?r = []")
    case True
    with s show ?thesis unfolding True by (simp add: drop_break_def)
  next
    case False
    with drop_break_length [OF this] le show ?thesis by simp
  qed
  then show "(drop_break ?r, s) \<in> measure length" by simp
qed simp

declare py_splitlines.simps [simp del]

definition newline :: string where "newline = [char_of (10 :: nat)]"

definition to_jsonl :: "recorder \<Rightarrow> string" where
  "to_jsonl r = py_join newline (map event_to_json (rec_events r)) @ newline"

definition from_jsonl :: "conversions \<Rightarrow> string \<Rightarrow> recorder result" where
  "from_jsonl c text =
     fold_r (\<lambda>line r. if py_strip line \<noteq> []
         then bind_r (event_from_json c line) (\<lambda>e. Inr (record_event e r)) else Inr r)
       (py_splitlines text) new_recorder"

section \<open>Summary\<close>

text \<open>\<open>counter[k] += n\<close>\<close>

definition count_up :: "'k \<Rightarrow> int \<Rightarrow> ('k, int) dict \<Rightarrow> ('k, int) dict" where
  "count_up k n d = AList.update k ((case dict_get d k of None \<Rightarrow> 0 | Some m \<Rightarrow> m) + n) d"

definition count_all :: "('a \<Rightarrow> 'k) \<Rightarrow> ('a \<Rightarrow> int) \<Rightarrow> 'a list \<Rightarrow> ('k, int) dict" where
  "count_all key amount xs = fold (\<lambda>x. count_up (key x) (amount x)) xs []"

definition latest_by_object :: "mevent list \<Rightarrow> (string, mevent) dict" where
  "latest_by_object es = fold (\<lambda>e. AList.update (object_id (ev_intent e)) e) es []"

record trace_summary =
  total_events :: int
  events_by_type :: "(string, int) dict"
  total_unique_blocks :: int
  total_bytes_represented :: int
  bytes_by_current_tier :: "(string, int) dict"
  decode_critical_bytes :: int
  committed_blocks :: int
  draft_blocks :: int
  spill_events :: int
  miss_events :: int
  eviction_events :: int
  prefetch_events :: int

definition count_of :: "(string, int) dict \<Rightarrow> string \<Rightarrow> int" where
  "count_of d k = (case dict_get d k of None \<Rightarrow> 0 | Some n \<Rightarrow> n)"

definition trace_summary_of :: "recorder \<Rightarrow> trace_summary" where
  "trace_summary_of r =
     (let es = rec_events r;
          by_type = count_all (\<lambda>e. event_type_value (ev_type e)) (\<lambda>_. 1) es;
          latest = map (\<lambda>kv. ev_intent (snd kv)) (latest_by_object es);
          identities = (\<lambda>e. (request_id (ev_intent e), block_id (ev_intent e))) ` set es;
          by_tier = count_all (\<lambda>i. tier_value (current_tier i)) size_bytes latest
      in \<lparr>total_events = int (length es), events_by_type = sort_key fst by_type,
          total_unique_blocks = (if identities \<noteq> {} then int (card identities) else int (length latest)),
          total_bytes_represented = sum_list (map size_bytes latest),
          bytes_by_current_tier = sort_key fst by_tier,
          decode_critical_bytes = sum_list (map size_bytes (filter is_decode_critical latest)),
          committed_blocks = int (length (filter is_committed latest)),
          draft_blocks = int (length (filter is_draft latest)),
          spill_events = count_of by_type (event_type_value SPILLED),
          miss_events = count_of by_type (event_type_value MISS),
          eviction_events = count_of by_type (event_type_value EVICTED),
          prefetch_events = count_of by_type (event_type_value PREFETCHED)\<rparr>)"

section \<open>Reading back what was written\<close>

lemma newline_break [simp]: "is_line_break (char_of (10 :: nat))"
  by (simp add: is_line_break_def)

text \<open>The text of a JSON value is one line, and not a blank one.\<close>

lemma printable_no_break: "printable c \<Longrightarrow> \<not> is_line_break c"
  by (auto simp: printable_def is_line_break_def)

lemma json_one_line: "\<forall>c \<in> set (json_dumps j). \<not> is_line_break c" "py_strip (json_dumps j) \<noteq> []"
  using json_text_printable printable_no_break json_text_solid by (auto simp: json_dumps_def)

lemma splitlines_line:
  assumes "\<forall>c \<in> set s. \<not> is_line_break c"
  shows "py_splitlines (s @ newline @ rest) = s # py_splitlines rest"
proof -
  have "takeWhile (\<lambda>c. \<not> is_line_break c) (s @ newline @ rest) = s"
    "dropWhile (\<lambda>c. \<not> is_line_break c) (s @ newline @ rest) = char_of (10 :: nat) # rest"
    using assms by (simp_all add: newline_def takeWhile_append dropWhile_append3)
  moreover have "drop_break (char_of (10 :: nat) # rest) = rest"
    by (auto simp: drop_break_def split: list.splits)
  ultimately show ?thesis by (subst py_splitlines.simps) (simp add: newline_def)
qed

lemma splitlines_join:
  "lines \<noteq> [] \<Longrightarrow> (\<forall>l \<in> set lines. \<forall>c \<in> set l. \<not> is_line_break c)
   \<Longrightarrow> py_splitlines (py_join newline lines @ newline) = lines"
proof (induction newline lines rule: py_join.induct)
  case (2 x)
  then show ?case using splitlines_line [of x "[]"] by (simp add: py_splitlines.simps)
next
  case (3 x y zs)
  then show ?case using splitlines_line [of x "py_join newline (y # zs) @ newline"] by simp
qed simp

lemma fold_r_record:
  assumes "\<And>e. e \<in> set es \<Longrightarrow> py_strip (line e) \<noteq> [] \<and> event_from_json c (line e) = Inr e"
  shows "fold_r (\<lambda>l r. if py_strip l \<noteq> [] then bind_r (event_from_json c l) (\<lambda>e. Inr (record_event e r))
      else Inr r) (map line es) r = Inr (r\<lparr>rec_events := rec_events r @ es\<rparr>)"
  using assms by (induction es arbitrary: r) (simp_all add: record_event_def)

text \<open>Reading an event from its sorted dictionary.\<close>

lemma scalar_sorted [simp]: "json_sorted (json_opt x) = json_opt x"
  by (cases x) (simp_all add: json_opt_def)

lemma tiers_sorted [simp]: "json_sorted (json_tiers ts) = json_tiers ts"
  by (simp add: json_tiers_def)

lemma intent_values_sorted:
  "dict_get (intent_to_dict i) k = Some v \<Longrightarrow> json_sorted v = v"
  by (auto simp: intent_to_dict_def split: if_splits)

lemma intent_dict_wf [simp]: "dict_wf (intent_to_dict i)"
  by (simp add: intent_to_dict_def)

lemma event_from_sorted:
  assumes v: "valid_event e" and d: "json_sorted (JDict (event_to_dict e)) = JDict d"
  shows "event_from_dict c d = Inr e"
proof -
  have wf: "dict_wf (event_to_dict e)" by (simp add: event_to_dict_def)
  have look: "dict_get d k = map_option json_sorted (dict_get (event_to_dict e) k)" for k
    using d dict_get_json_sorted [OF wf, of k] by simp
  define di where "di = sort_key fst (map (\<lambda>kv. (fst kv, json_sorted (snd kv))) (intent_to_dict (ev_intent e)))"
  have "dict_get di k = dict_get (intent_to_dict (ev_intent e)) k" for k
    using dict_get_json_sorted [OF intent_dict_wf, of "ev_intent e" k] intent_values_sorted
    by (cases "dict_get (intent_to_dict (ev_intent e)) k") (auto simp: di_def)
  then have i: "intent_from_dict c di = Inr (ev_intent e)"
    using v by (intro intent_from_lookups) (auto simp: valid_event_def)
  have vals: "dict_get d ''step'' = Some (JInt (ev_step e))"
    "dict_get d ''event_type'' = Some (JStr (event_type_value (ev_type e)))"
    "dict_get d ''intent'' = Some (JDict di)"
    "dict_get d ''reason'' = Some (case ev_reason e of None \<Rightarrow> JNull | Some r \<Rightarrow> JStr r)"
    "dict_get d ''latency_us'' = Some (json_opt (ev_latency_us e))"
    by (simp_all add: look event_to_dict_def di_def split: option.splits)
  have "opt_str c d ''reason'' = ev_reason e"
    by (simp add: opt_str_def opt_value_def vals(4) split: option.splits)
  then have "event_from_dict c d = event_post_init e"
    by (simp add: event_from_dict_def vals reader_simps get_item_def i) (cases e, simp)
  then show ?thesis using event_post_init_valid [OF v] by simp
qed

lemma json_opt_ok [simp]: "json_ok (json_opt x)" and json_tiers_ok [simp]: "json_ok (json_tiers ts)"
  by (auto simp: json_opt_def json_tiers_def list_all_iff split: option.splits)

lemma event_json_ok:
  assumes "is_float (recency_score (ev_intent e))" shows "json_ok (JDict (event_to_dict e))"
proof -
  have "json_ok (JDict (intent_to_dict (ev_intent e)))"
    using assms intent_dict_wf [of "ev_intent e"] by (simp add: intent_to_dict_def)
  then show ?thesis by (auto simp: event_to_dict_def split: option.splits)
qed

lemma event_json_back:
  assumes "valid_event e" "is_float (recency_score (ev_intent e))"
  shows "event_from_json c (event_to_json e) = Inr e"
proof -
  obtain d where d: "json_sorted (JDict (event_to_dict e)) = JDict d" by simp
  then have "json_loads (event_to_json e) = Inr (JDict d)"
    using json_loads_dumps [OF event_json_ok [OF assms(2)]] by (simp add: event_to_json_def)
  then show ?thesis using event_from_sorted [OF assms(1) d] by (simp add: event_from_json_def as_mapping_def)
qed

section \<open>Counting\<close>

lemma count_up_sum: "dict_wf d \<Longrightarrow> sum_list (map snd (count_up k n d)) = sum_list (map snd d) + n"
  by (induction d) (auto simp: count_up_def split: option.splits)

lemma count_all_snoc: "count_all f g (xs @ [x]) = count_up (f x) (g x) (count_all f g xs)"
  by (simp add: count_all_def)

lemma count_all_wf [simp]: "dict_wf (count_all f g xs)"
  by (induction xs rule: rev_induct) (simp_all add: count_all_snoc count_up_def, simp add: count_all_def)

lemma count_all_sum: "sum_list (map snd (count_all f g xs)) = sum_list (map g xs)"
  by (induction xs rule: rev_induct) (simp_all add: count_all_snoc count_up_sum, simp add: count_all_def)

lemma count_of_all:
  "count_of (count_all f g xs) k = sum_list (map g (filter (\<lambda>x. f x = k) xs))"
  by (induction xs rule: rev_induct)
    (auto simp: count_all_snoc count_up_def count_of_def dict_simps, simp add: count_all_def)

lemma sum_list_sort_key: "sum_list (map f (sort_key k xs)) = sum_list (map (f :: _ \<Rightarrow> int) xs)"
  by (metis mset_map mset_sort sum_mset_sum_list)

lemma sum_dict_values:
  "dict_wf d \<Longrightarrow> sum_list (map (\<lambda>kv. f (snd kv)) d) = (\<Sum>k \<in> dict_keys d. f (the (dict_get d k)) :: int)"
proof (induction d)
  case (Cons kv d)
  have "(\<Sum>k \<in> dict_keys d. f (the (dict_get (kv # d) k))) = (\<Sum>k \<in> dict_keys d. f (the (dict_get d k)))"
    using Cons.prems by (intro sum.cong [OF refl]) (cases kv, auto)
  with Cons show ?case by (cases kv) simp
qed simp

lemma event_type_value_inj [simp]: "event_type_value a = event_type_value b \<longleftrightarrow> a = b"
  using event_type_of_value by (metis sum.inject(2))

lemma latest_snoc: "latest_by_object (es @ [e]) = AList.update (object_id (ev_intent e)) e (latest_by_object es)"
  by (simp add: latest_by_object_def)

lemma latest_wf [simp]: "dict_wf (latest_by_object es)"
  by (induction es rule: rev_induct) (simp_all add: latest_snoc, simp add: latest_by_object_def)

lemma latest_get:
  "dict_get (latest_by_object es) k = (case filter (\<lambda>e. object_id (ev_intent e) = k) es of [] \<Rightarrow> None | fs \<Rightarrow> Some (last fs))"
  by (induction es rule: rev_induct)
    (auto simp: latest_snoc dict_simps split: list.splits, simp add: latest_by_object_def)

section \<open>Properties\<close>

definition trace_event :: mevent where
  "trace_event = \<lparr>ev_step = 3, ev_type = ALLOCATED, ev_intent = sample_intent ''b-1'', ev_reason = Some ''new'',
     ev_latency_us = None\<rparr>"

lemma jsonl_back:
  assumes "\<forall>e \<in> set (rec_events r). valid_event e \<and> is_float (recency_score (ev_intent e))"
  shows "from_jsonl c (to_jsonl r) = Inr r"
proof (cases "rec_events r = []")
  case True
  have "py_splitlines (to_jsonl r) = [[]]"
    using splitlines_line [of "[]" "[]"] by (simp add: to_jsonl_def True py_splitlines.simps)
  then show ?thesis
    using True by (cases r) (simp add: from_jsonl_def py_strip_def new_recorder_def)
next
  case False
  have "py_splitlines (to_jsonl r) = map event_to_json (rec_events r)"
    unfolding to_jsonl_def using json_one_line False by (intro splitlines_join) (auto simp: event_to_json_def)
  moreover have "fold_r (\<lambda>l r. if py_strip l \<noteq> [] then bind_r (event_from_json c l) (\<lambda>e. Inr (record_event e r))
      else Inr r) (map event_to_json (rec_events r)) new_recorder
    = Inr (new_recorder\<lparr>rec_events := rec_events new_recorder @ rec_events r\<rparr>)"
    using assms event_json_back json_one_line(2) by (intro fold_r_record) (auto simp: event_to_json_def)
  ultimately show ?thesis by (cases r) (simp add: from_jsonl_def new_recorder_def)
qed

text \<open>C26: Writing a trace as JSON lines and reading it back gives the recorded events, in order: the file's
  text is the printed JSON of each event, one per line, and the reader parses it, floats and escaped
  strings included. The recency scores must be values of the float type.\<close>

theorem jsonl_roundtrip:
  assumes "\<forall>e \<in> set (rec_events r). valid_event e \<and> is_float (recency_score (ev_intent e))"
  shows "from_jsonl c (to_jsonl r) = Inr r"
  using assms by (rule jsonl_back)

theorem jsonl_roundtrip_witness:
  "\<forall>c. from_jsonl c (to_jsonl \<lparr>rec_events = [trace_event, trace_event]\<rparr>) = Inr \<lparr>rec_events = [trace_event, trace_event]\<rparr>"
proof (rule allI, rule jsonl_roundtrip)
  have v: "valid_event trace_event" by (simp add: valid_event_def trace_event_def)
  have "is_float (1 / 2)" by code_simp
  then have "is_float (recency_score (ev_intent trace_event))" by (simp add: trace_event_def sample_intent_def)
  with v show "\<forall>e \<in> set (rec_events \<lparr>rec_events = [trace_event, trace_event]\<rparr>). valid_event e
      \<and> is_float (recency_score (ev_intent e))" by simp
qed

text \<open>The trace summary accounts for every event and every byte: the counts by type add up to the number
  of events, the bytes by tier add up to the total, the total is the size of the last event of each
  object, and the reported spills, misses, evictions and prefetches are the numbers of such events.\<close>

theorem summary_totals:
  "let s = trace_summary_of r; es = rec_events r; n = (\<lambda>t. int (length (filter (\<lambda>e. ev_type e = t) es)))
   in sum_list (map snd (events_by_type s)) = int (length es)
      \<and> sum_list (map snd (bytes_by_current_tier s)) = total_bytes_represented s
      \<and> total_bytes_represented s = (\<Sum>k \<in> (\<lambda>e. object_id (ev_intent e)) ` set es.
           size_bytes (ev_intent (last (filter (\<lambda>e. object_id (ev_intent e) = k) es))))
      \<and> spill_events s = n SPILLED \<and> miss_events s = n MISS
      \<and> eviction_events s = n EVICTED \<and> prefetch_events s = n PREFETCHED"
proof -
  define es where "es = rec_events r"
  define L where "L = latest_by_object es"
  have ones: "sum_list (map (\<lambda>_. 1) xs) = int (length xs)" for xs :: "mevent list" by (induction xs) simp_all
  have keys: "dict_keys L = (\<lambda>e. object_id (ev_intent e)) ` set es" unfolding L_def
    by (induction es rule: rev_induct)
      (simp_all add: latest_snoc dict_keys_update del: fst_conv, simp add: latest_by_object_def)
  have "sum_list (map (\<lambda>kv. size_bytes (ev_intent (snd kv))) L)
      = (\<Sum>k \<in> dict_keys L. size_bytes (ev_intent (the (dict_get L k))))"
    by (rule sum_dict_values) (simp add: L_def)
  also have "\<dots> = (\<Sum>k \<in> (\<lambda>e. object_id (ev_intent e)) ` set es.
      size_bytes (ev_intent (last (filter (\<lambda>e. object_id (ev_intent e) = k) es))))"
    unfolding keys by (rule sum.cong [OF refl]) (auto simp: L_def latest_get filter_empty_conv split: list.splits)
  finally show ?thesis
    by (simp add: trace_summary_of_def Let_def es_def [symmetric] L_def [symmetric] sum_list_sort_key
        count_all_sum count_of_all ones comp_def del: event_type_value.simps)
qed

end
