(* ===== verification/IntentScore.thy ===== *)
theory IntentScore
  imports Schema
begin

text \<open>
  \<open>effective_deadline_score\<close> and \<open>eviction_risk_score\<close> of \<open>schema.py\<close>: chains of guarded float
  additions, written in the source's order with every operation rounded. The lemmas bound each
  score by integers (\<open>between\<close> through a chain of float additions) and show how it moves with the
  deadline, the slack and the request priority.
\<close>

section \<open>Guarded additions\<close>

definition opt_add :: "pyfloat \<Rightarrow> 'a option \<Rightarrow> ('a \<Rightarrow> pyfloat) \<Rightarrow> pyfloat" where
  "opt_add s m f = (case m of None \<Rightarrow> s | Some x \<Rightarrow> fadd s (f x))"

definition opt_sub :: "pyfloat \<Rightarrow> 'a option \<Rightarrow> ('a \<Rightarrow> pyfloat) \<Rightarrow> pyfloat" where
  "opt_sub s m f = (case m of None \<Rightarrow> s | Some x \<Rightarrow> fsub s (f x))"

definition when_add :: "bool \<Rightarrow> pyfloat \<Rightarrow> pyfloat \<Rightarrow> pyfloat" where
  "when_add c s w = (if c then fadd s w else s)"

definition when_sub :: "bool \<Rightarrow> pyfloat \<Rightarrow> pyfloat \<Rightarrow> pyfloat" where
  "when_sub c s w = (if c then fsub s w else s)"

definition between :: "rat \<Rightarrow> rat \<Rightarrow> pyfloat \<Rightarrow> bool" where
  "between lo hi x \<longleftrightarrow> lo \<le> x \<and> x \<le> hi"

named_theorems between_intros \<open>interval steps\<close>

lemma between_fadd:
  "between lo hi s \<Longrightarrow> between l h w \<Longrightarrow> lo' \<le> lo + l \<Longrightarrow> hi + h \<le> hi' \<Longrightarrow> is_float lo' \<Longrightarrow> is_float hi'
   \<Longrightarrow> between lo' hi' (fadd s w)"
  by (auto simp: between_def intro!: fadd_le fadd_ge)

lemma between_fsub:
  "between lo hi s \<Longrightarrow> between l h w \<Longrightarrow> lo' \<le> lo - h \<Longrightarrow> hi - l \<le> hi' \<Longrightarrow> is_float lo' \<Longrightarrow> is_float hi'
   \<Longrightarrow> between lo' hi' (fsub s w)"
  by (auto simp: between_def intro!: fsub_le fsub_ge)

lemma between_weaken: "between lo hi s \<Longrightarrow> lo' \<le> lo \<Longrightarrow> hi \<le> hi' \<Longrightarrow> between lo' hi' s"
  by (auto simp: between_def)

lemma between_opt_add:
  "between lo hi s \<Longrightarrow> (\<And>x. m = Some x \<Longrightarrow> between l h (f x)) \<Longrightarrow> lo' \<le> lo \<Longrightarrow> lo' \<le> lo + l
   \<Longrightarrow> hi \<le> hi' \<Longrightarrow> hi + h \<le> hi' \<Longrightarrow> is_float lo' \<Longrightarrow> is_float hi' \<Longrightarrow> between lo' hi' (opt_add s m f)"
  by (auto simp: opt_add_def split: option.splits intro: between_fadd between_weaken)

lemma between_opt_sub:
  "between lo hi s \<Longrightarrow> (\<And>x. m = Some x \<Longrightarrow> between l h (f x)) \<Longrightarrow> lo' \<le> lo \<Longrightarrow> lo' \<le> lo - h
   \<Longrightarrow> hi \<le> hi' \<Longrightarrow> hi - l \<le> hi' \<Longrightarrow> is_float lo' \<Longrightarrow> is_float hi' \<Longrightarrow> between lo' hi' (opt_sub s m f)"
  by (auto simp: opt_sub_def split: option.splits intro: between_fsub between_weaken)

lemma between_when_add:
  "between lo hi s \<Longrightarrow> lo' \<le> lo \<Longrightarrow> lo' \<le> lo + w \<Longrightarrow> hi \<le> hi' \<Longrightarrow> hi + w \<le> hi'
   \<Longrightarrow> is_float lo' \<Longrightarrow> is_float hi' \<Longrightarrow> between lo' hi' (when_add c s w)"
  by (auto simp: when_add_def between_def intro!: fadd_le fadd_ge)

lemma between_when_sub:
  "between lo hi s \<Longrightarrow> lo' \<le> lo \<Longrightarrow> lo' \<le> lo - w \<Longrightarrow> hi \<le> hi' \<Longrightarrow> hi - w \<le> hi'
   \<Longrightarrow> is_float lo' \<Longrightarrow> is_float hi' \<Longrightarrow> between lo' hi' (when_sub c s w)"
  by (auto simp: when_sub_def between_def intro!: fsub_le fsub_ge)

lemma opt_add_mono: "s \<le> s' \<Longrightarrow> (\<And>x. f x \<le> g x) \<Longrightarrow> opt_add s m f \<le> opt_add s' m g"
  by (auto simp: opt_add_def fadd_mono split: option.splits)

lemma opt_sub_mono: "s \<le> s' \<Longrightarrow> opt_sub s m f \<le> opt_sub s' m f"
  by (auto simp: opt_sub_def fsub_mono split: option.splits)

lemma when_add_mono: "s \<le> s' \<Longrightarrow> when_add c s w \<le> when_add c s' w"
  and when_sub_mono: "s \<le> s' \<Longrightarrow> when_sub c s w \<le> when_sub c s' w"
  by (auto simp: when_add_def when_sub_def fadd_mono fsub_mono)

lemmas chain_mono = opt_add_mono opt_sub_mono when_add_mono when_sub_mono fadd_mono fsub_mono

section \<open>The terms of the deadline score\<close>

definition deadline_term :: "int \<Rightarrow> pyfloat" where
  "deadline_term d = fdiv (max 0 (fsub 10000 (int_to_float d))) 20"

definition slack_term :: "int \<Rightarrow> pyfloat" where
  "slack_term d = fdiv (max 0 (fsub 5000 (int_to_float d))) 10"

definition target_term :: "int \<Rightarrow> int \<Rightarrow> pyfloat" where
  "target_term current_step target =
     max 0 (fsub 64 (int_to_float (max (target - current_step) 0)))"

definition phase_term :: "pyfloat \<Rightarrow> phase \<Rightarrow> pyfloat" where
  "phase_term s p = (if p = DECODE then fadd s 120 else if p = VERIFY then fadd s 30 else s)"

definition priority_term :: "pyfloat \<Rightarrow> priority \<Rightarrow> pyfloat" where
  "priority_term s p =
     (if p = DECODE_CRITICAL then fadd s 300 else if p = HOT then fadd s 80
      else if p = WARM then fadd s 30 else s)"

definition recompute_term :: "int \<Rightarrow> pyfloat" where
  "recompute_term c = min (fdiv (int_to_float c) 25) 250"

definition timing_score :: "mintent \<Rightarrow> int \<Rightarrow> pyfloat" where
  "timing_score i current_step =
     opt_add (opt_add (opt_add 0 (deadline_us i) deadline_term) (slack_us i) slack_term)
       (target_decode_step i) (target_term current_step)"

definition effective_deadline_score :: "mintent \<Rightarrow> int \<Rightarrow> pyfloat" where
  "effective_deadline_score i current_step =
     (let score = timing_score i current_step;
          score = fadd score (fmul (int_to_float (request_priority i)) 2);
          score = phase_term score (phase i);
          score = priority_term score (priority i);
          score = opt_add score (recompute_cost_us i) recompute_term
      in when_add (pin_requested i) score 400)"

definition reuse_term :: "int \<Rightarrow> pyfloat" where
  "reuse_term r = min (fdiv (int_to_float r) 8) 80"

definition risk_adjust :: "mintent \<Rightarrow> pyfloat \<Rightarrow> pyfloat" where
  "risk_adjust i risk =
     (let risk = fadd risk (fmul (recency_score i) 40);
          risk = when_add (is_committed i) risk 15;
          risk = when_sub (is_draft i \<and> \<not> is_committed i) risk 35;
          risk = when_sub (recompute_ok i) risk 25;
          risk = when_sub (compression_ok i) risk 15;
          risk = opt_sub risk (expected_reuse_window_tokens i) reuse_term
      in if phase i = DONE then fsub risk 140 else when_sub (phase i = IDLE) risk 60)"

definition eviction_risk_score :: "mintent \<Rightarrow> int \<Rightarrow> pyfloat" where
  "eviction_risk_score i current_step = risk_adjust i (effective_deadline_score i current_step)"

section \<open>Bounds\<close>

text \<open>
  The timing fields are not validated by the class; these are the values the generators and
  importers produce.
\<close>

definition timing_nonneg :: "mintent \<Rightarrow> bool" where
  "timing_nonneg i \<longleftrightarrow>
     (\<forall>d \<in> set_option (deadline_us i). 0 \<le> d) \<and> (\<forall>d \<in> set_option (slack_us i). 0 \<le> d)
     \<and> (\<forall>c \<in> set_option (recompute_cost_us i). 0 \<le> c)
     \<and> (\<forall>r \<in> set_option (expected_reuse_window_tokens i). 0 \<le> r)"

lemma int_to_float_nonneg: "0 \<le> n \<Longrightarrow> 0 \<le> int_to_float n"
  by (rule int_to_float_ge) simp_all

lemma between_max_fsub:
  "is_float c \<Longrightarrow> 0 \<le> c \<Longrightarrow> 0 \<le> n \<Longrightarrow> between 0 c (max 0 (fsub c (int_to_float n)))"
  by (auto simp: between_def int_to_float_nonneg intro!: fsub_le)

lemma between_fdiv:
  "between 0 c x \<Longrightarrow> 0 < d \<Longrightarrow> c / d \<le> h \<Longrightarrow> is_float h \<Longrightarrow> between 0 h (fdiv x d)"
  using divide_right_mono [of x c d] by (auto simp: between_def intro!: fdiv_le fdiv_ge)

lemma between_fmul:
  "between 0 c x \<Longrightarrow> 0 \<le> d \<Longrightarrow> c * d \<le> h \<Longrightarrow> is_float h \<Longrightarrow> between 0 h (fmul x d)"
  using mult_right_mono [of x c d] by (auto simp: between_def intro!: fmul_le fmul_ge)

lemma deadline_term_between: "0 \<le> d \<Longrightarrow> between 0 500 (deadline_term d)"
  unfolding deadline_term_def by (rule between_fdiv [OF between_max_fsub]) simp_all

lemma slack_term_between: "0 \<le> d \<Longrightarrow> between 0 500 (slack_term d)"
  unfolding slack_term_def by (rule between_fdiv [OF between_max_fsub]) simp_all

lemma target_term_between: "between 0 64 (target_term t g)"
  unfolding target_term_def by (rule between_max_fsub) simp_all

lemma recompute_term_between: "0 \<le> c \<Longrightarrow> between 0 250 (recompute_term c)"
  by (auto simp: between_def recompute_term_def int_to_float_nonneg intro!: fdiv_ge)

lemma reuse_term_between: "0 \<le> r \<Longrightarrow> between 0 80 (reuse_term r)"
  by (auto simp: between_def reuse_term_def int_to_float_nonneg intro!: fdiv_ge)

lemma priority_product_between:
  "0 \<le> p \<Longrightarrow> p \<le> 100 \<Longrightarrow> between 0 200 (fmul (int_to_float p) 2)"
  by (rule between_fmul [of 100]) (simp_all add: between_def int_to_float_exact)

lemma phase_term_between:
  assumes "between lo hi s" "is_float lo" "is_float hi" "is_float (hi + 120)"
  shows "between lo (hi + 120) (phase_term s p)"
  using assms by (auto simp: phase_term_def between_def intro!: fadd_le fadd_ge)

lemma priority_term_between:
  assumes "between lo hi s" "is_float lo" "is_float hi" "is_float (hi + 300)"
  shows "between lo (hi + 300) (priority_term s p)"
  using assms by (auto simp: priority_term_def between_def intro!: fadd_le fadd_ge)

lemma timing_score_between: "timing_nonneg i \<Longrightarrow> between 0 1064 (timing_score i t)"
  unfolding timing_score_def timing_nonneg_def
  by (rule between_opt_add [of 0 1000 _ _ 0 64]
      , rule between_opt_add [of 0 500 _ _ 0 500]
      , rule between_opt_add [of 0 0 _ _ 0 500])
    (auto simp: deadline_term_between slack_term_between target_term_between, simp add: between_def)

lemma effective_deadline_score_between:
  assumes "valid_intent i" "timing_nonneg i"
  shows "between 0 2334 (effective_deadline_score i t)"
proof -
  define s1 where "s1 = fadd (timing_score i t) (fmul (int_to_float (request_priority i)) 2)"
  define s3 where "s3 = priority_term (phase_term s1 (phase i)) (priority i)"
  define s4 where "s4 = opt_add s3 (recompute_cost_us i) recompute_term"
  have p: "0 \<le> request_priority i" "request_priority i \<le> 100"
    using assms(1) by (auto simp: valid_intent_def intent_ranges_def)
  have "between 0 1264 s1" unfolding s1_def
    by (rule between_fadd [OF timing_score_between priority_product_between]) (use assms p in simp_all)
  then have "between 0 1684 s3" unfolding s3_def
    using priority_term_between [OF phase_term_between [of 0 1264 s1 "phase i"], of "priority i"]
    by simp
  then have "between 0 1934 s4" unfolding s4_def
    by (rule between_opt_add [of 0 1684 _ _ 0 250])
      (use assms(2) in \<open>auto simp: timing_nonneg_def recompute_term_between\<close>)
  then have "between 0 2334 (when_add (pin_requested i) s4 400)"
    by (rule between_when_add) simp_all
  then show ?thesis
    by (simp add: effective_deadline_score_def Let_def s1_def s3_def s4_def)
qed

lemma risk_adjust_between:
  assumes "valid_intent i" "timing_nonneg i" "between lo hi s"
    and "is_float (lo - 295)" "is_float (hi + 55)"
    and rep: "is_float lo" "is_float (lo - 35)" "is_float (lo - 60)" "is_float (lo - 75)"
      "is_float (lo - 155)" "is_float (hi + 40)"
  shows "between (lo - 295) (hi + 55) (risk_adjust i s)"
proof -
  define r1 where "r1 = fadd s (fmul (recency_score i) 40)"
  define r2 where "r2 = when_add (is_committed i) r1 15"
  define r3 where "r3 = when_sub (is_draft i \<and> \<not> is_committed i) r2 35"
  define r4 where "r4 = when_sub (recompute_ok i) r3 25"
  define r5 where "r5 = when_sub (compression_ok i) r4 15"
  define r6 where "r6 = opt_sub r5 (expected_reuse_window_tokens i) reuse_term"
  have rec: "between 0 40 (fmul (recency_score i) 40)"
    using assms(1) by (intro between_fmul [of 1]) (auto simp: valid_intent_def intent_ranges_def between_def)
  have "between lo (hi + 40) r1" unfolding r1_def
    by (rule between_fadd [OF assms(3) rec]) (use assms in simp_all)
  then have "between lo (hi + 55) r2" unfolding r2_def
    by (rule between_when_add) (use assms in simp_all)
  then have "between (lo - 35) (hi + 55) r3" unfolding r3_def
    by (rule between_when_sub) (use assms in simp_all)
  then have "between (lo - 60) (hi + 55) r4" unfolding r4_def
    by (rule between_when_sub) (use assms in simp_all)
  then have "between (lo - 75) (hi + 55) r5" unfolding r5_def
    by (rule between_when_sub) (use assms in simp_all)
  then have "between (lo - 155) (hi + 55) r6" unfolding r6_def
    by (rule between_opt_sub [where l = 0 and h = 80])
      (use assms in \<open>auto simp: timing_nonneg_def reuse_term_between\<close>)
  then have "between (lo - 295) (hi + 55) (if phase i = DONE then fsub r6 140 else when_sub (phase i = IDLE) r6 60)"
    using assms(4,5) by (auto simp: between_def when_sub_def intro!: fsub_le fsub_ge)
  then show ?thesis
    unfolding risk_adjust_def Let_def r1_def r2_def r3_def r4_def r5_def r6_def .
qed

lemma eviction_risk_score_between:
  assumes "valid_intent i" "timing_nonneg i"
  shows "between (-295) 2389 (eviction_risk_score i t)"
  using risk_adjust_between [OF assms effective_deadline_score_between [OF assms, of t]]
  by (simp add: eviction_risk_score_def)

section \<open>Monotonicity\<close>

lemma deadline_term_antimono: "d \<le> d' \<Longrightarrow> deadline_term d' \<le> deadline_term d"
  and slack_term_antimono: "d \<le> d' \<Longrightarrow> slack_term d' \<le> slack_term d"
  unfolding deadline_term_def slack_term_def
  by (intro fdiv_mono max.mono order_refl fsub_mono int_to_float_mono; simp)+

lemma risk_adjust_mono: "s \<le> s' \<Longrightarrow> risk_adjust i s \<le> risk_adjust i s'"
  by (auto simp: risk_adjust_def Let_def intro!: chain_mono)

lemma risk_adjust_frame [simp]:
  "risk_adjust (i\<lparr>deadline_us := m\<rparr>) s = risk_adjust i s"
  "risk_adjust (i\<lparr>slack_us := m\<rparr>) s = risk_adjust i s"
  "risk_adjust (i\<lparr>request_priority := p\<rparr>) s = risk_adjust i s"
  by (simp_all add: risk_adjust_def cong: if_cong)

lemma phase_term_mono: "s \<le> s' \<Longrightarrow> phase_term s p \<le> phase_term s' p"
  and priority_term_mono: "s \<le> s' \<Longrightarrow> priority_term s q \<le> priority_term s' q"
  by (auto simp: phase_term_def priority_term_def intro!: chain_mono)

lemma int_product_mono: "p \<le> q \<Longrightarrow> fmul (int_to_float p) 2 \<le> fmul (int_to_float q) 2"
  unfolding fmul_def by (intro fl_mono mult_right_mono int_to_float_mono) simp_all

lemma effective_deadline_score_mono:
  assumes "timing_score i t \<le> timing_score j t" "request_priority i \<le> request_priority j"
    and "phase i = phase j" "priority i = priority j" "recompute_cost_us i = recompute_cost_us j"
    and "pin_requested i = pin_requested j"
  shows "effective_deadline_score i t \<le> effective_deadline_score j t"
  using assms unfolding effective_deadline_score_def Let_def
  by (auto intro!: chain_mono phase_term_mono priority_term_mono int_product_mono)

lemma timing_score_deadline:
  "deadline_us i = Some d \<Longrightarrow> d' \<le> d \<Longrightarrow> timing_score i t \<le> timing_score (i\<lparr>deadline_us := Some d'\<rparr>) t"
  unfolding timing_score_def
  by (auto intro!: opt_add_mono) (auto simp: opt_add_def intro!: fadd_mono deadline_term_antimono)

lemma timing_score_slack:
  "slack_us i = Some d \<Longrightarrow> d' \<le> d \<Longrightarrow> timing_score i t \<le> timing_score (i\<lparr>slack_us := Some d'\<rparr>) t"
  unfolding timing_score_def
  by (auto intro!: opt_add_mono) (auto simp: opt_add_def intro!: fadd_mono slack_term_antimono)

lemma risk_nearer_deadline:
  assumes "deadline_us i = Some d" "d' \<le> d"
  shows "eviction_risk_score i t \<le> eviction_risk_score (i\<lparr>deadline_us := Some d'\<rparr>) t"
proof -
  have "effective_deadline_score i t \<le> effective_deadline_score (i\<lparr>deadline_us := Some d'\<rparr>) t"
    by (rule effective_deadline_score_mono [OF timing_score_deadline [OF assms]]) simp_all
  then show ?thesis by (simp add: eviction_risk_score_def risk_adjust_mono)
qed

lemma risk_request_priority:
  assumes "request_priority i \<le> p"
  shows "eviction_risk_score i t \<le> eviction_risk_score (i\<lparr>request_priority := p\<rparr>) t"
proof -
  have "effective_deadline_score i t \<le> effective_deadline_score (i\<lparr>request_priority := p\<rparr>) t"
    by (rule effective_deadline_score_mono) (simp_all add: assms timing_score_def)
  then show ?thesis by (simp add: eviction_risk_score_def risk_adjust_mono)
qed

section \<open>Properties\<close>

lemma sample_timing [simp]: "timing_nonneg (sample_intent name)"
  by (simp add: sample_intent_def timing_nonneg_def)

text \<open>For a valid block with non-negative timing fields the deadline score lies in 0..2334 and the
  eviction risk in -295..2389, with every float operation rounded.\<close>

theorem score_bounds:
  assumes "valid_intent i" "timing_nonneg i"
  shows "0 \<le> effective_deadline_score i t \<and> effective_deadline_score i t \<le> 2334
    \<and> -295 \<le> eviction_risk_score i t \<and> eviction_risk_score i t \<le> 2389"
  using effective_deadline_score_between [OF assms] eviction_risk_score_between [OF assms]
  by (simp add: between_def)

theorem score_bounds_witness:
  "effective_deadline_score (sample_intent ''a'') 3 = 130
   \<and> effective_deadline_score (sample_intent ''a'') 3 \<le> 2334"
proof
  show "effective_deadline_score (sample_intent ''a'') 3 = 130" by code_simp
  show "effective_deadline_score (sample_intent ''a'') 3 \<le> 2334"
    using score_bounds [OF sample_intent_valid sample_timing, of "''a''" 3] by simp
qed

end
