(* ===== verification/Policies.thy ===== *)
theory Policies
  imports IntentScore
begin

text \<open>
  \<open>src/kv_memory_intent/policies.py\<close>, with the two subclasses of \<open>DeadlineAwarePolicy\<close> that the
  speculative and the disaggregated packages add. A policy object is a value of \<open>policy\<close>; the
  method calls dispatch on it as the classes do: the access-based policies minimise a key, the
  intent family maximises \<open>eviction_score\<close> over the unpinned candidates (over all candidates when
  every one is pinned).

  The interpretations at the end give every policy the contract \<open>ranked_selection\<close> and the intent
  family the contract \<open>pin_ranked\<close>.
\<close>

section \<open>Policies\<close>

datatype intent_policy = IntentAwarePolicy | DeadlineAwarePolicy | SpeculativeIntentPolicy
  | RemoteAwarePolicy

datatype policy = LRUPolicy | HotColdPolicy | PredictiveHotnessPolicy | IntentFamily intent_policy

fun policy_name :: "policy \<Rightarrow> string" where
  "policy_name LRUPolicy = ''LRU''"
| "policy_name HotColdPolicy = ''HotCold''"
| "policy_name PredictiveHotnessPolicy = ''PredictiveHotness''"
| "policy_name (IntentFamily IntentAwarePolicy) = ''IntentAware''"
| "policy_name (IntentFamily DeadlineAwarePolicy) = ''KVDeadline''"
| "policy_name (IntentFamily SpeculativeIntentPolicy) = ''SpeculativeIntent''"
| "policy_name (IntentFamily RemoteAwarePolicy) = ''RemoteAware''"

text \<open>\<open>isinstance(policy, (IntentAwarePolicy, DeadlineAwarePolicy))\<close>\<close>

fun is_intent_family :: "policy \<Rightarrow> bool" where
  "is_intent_family (IntentFamily p) = True"
| "is_intent_family _ = False"

definition policy_from_name :: "string \<Rightarrow> policy result" where
  "policy_from_name name =
     (let normalized = py_lower (py_strip name)
      in if normalized = ''lru'' then Inr LRUPolicy
         else if normalized = ''hotcold'' then Inr HotColdPolicy
         else if normalized = ''predictive'' then Inr PredictiveHotnessPolicy
         else if normalized = ''intent'' then Inr (IntentFamily IntentAwarePolicy)
         else if normalized = ''deadline'' then Inr (IntentFamily DeadlineAwarePolicy)
         else Inl (ValueError (''Unknown policy: '' @ name)))"

section \<open>Access-based policies\<close>

definition lru_key :: "mintent \<Rightarrow> int \<times> int \<times> string" where
  "lru_key b = (last_access_step b, - size_bytes b, object_id b)"

definition hotcold_key :: "mintent \<Rightarrow> pyfloat \<times> int \<times> int \<times> string" where
  "hotcold_key b = (recency_score b, last_access_step b, - size_bytes b, object_id b)"

definition predicted_hotness :: "mintent \<Rightarrow> pyfloat" where
  "predicted_hotness b =
     (let reuse_signal =
        (case expected_reuse_window_tokens b of None \<Rightarrow> 0
         | Some r \<Rightarrow> fdiv (max 0 (fsub 64 (int_to_float r))) 64)
      in fadd (fmul (recency_score b) (fl (7 / 10))) (fmul reuse_signal (fl (3 / 10))))"

definition predictive_key :: "mintent \<Rightarrow> pyfloat \<times> int \<times> int \<times> string" where
  "predictive_key b = (predicted_hotness b, last_access_step b, - size_bytes b, object_id b)"

definition lru_choose :: "mintent list \<Rightarrow> mintent option" where
  "lru_choose blocks = min_by lru_key blocks"

definition hotcold_choose :: "mintent list \<Rightarrow> mintent option" where
  "hotcold_choose blocks = min_by hotcold_key blocks"

definition predictive_choose :: "mintent list \<Rightarrow> mintent option" where
  "predictive_choose blocks = min_by predictive_key blocks"

section \<open>The intent-aware score\<close>

fun priority_weight :: "priority \<Rightarrow> pyfloat" where
  "priority_weight COLD = 110"
| "priority_weight WARM = 55"
| "priority_weight HOT = 15"
| "priority_weight DECODE_CRITICAL = -900"

definition score_static :: "mintent \<Rightarrow> pyfloat \<Rightarrow> pyfloat" where
  "score_static b score =
     (let score = (if phase b = DONE then fadd score 120 else when_add (phase b = IDLE) score 50);
          score = fadd score (int_to_float (100 - request_priority b));
          score = opt_add score (expected_reuse_window_tokens b)
                    (\<lambda>r. min (fdiv (int_to_float r) 6) 120);
          score = when_add (recompute_ok b) score 30;
          score = when_add (compression_ok b) score 20
      in when_add (is_draft b \<and> \<not> is_committed b) score 45)"

definition score_dynamic :: "mintent \<Rightarrow> int \<Rightarrow> pyfloat \<Rightarrow> pyfloat \<Rightarrow> pyfloat" where
  "score_dynamic b current_step risk score =
     (let score = opt_sub score (recompute_cost_us b) (\<lambda>c. min (fdiv (int_to_float c) 40) 180);
          score = fsub score (fmul (recency_score b) 60);
          access_age = max (current_step - last_access_step b) 0;
          score = fadd score (min (fdiv (int_to_float access_age) 4) 35)
      in fsub score (fdiv (max risk 0) 40))"

definition intent_eviction_score :: "mintent \<Rightarrow> int \<Rightarrow> pyfloat" where
  "intent_eviction_score b current_step =
     (let score = fadd 0 (priority_weight (priority b));
          score = when_sub (pin_requested b) score 900
      in score_dynamic b current_step (eviction_risk_score b current_step) (score_static b score))"

section \<open>The deadline-aware score\<close>

definition deadline_protection :: "mintent \<Rightarrow> pyfloat \<Rightarrow> pyfloat" where
  "deadline_protection b score =
     (let score = opt_sub score (deadline_us b)
                    (\<lambda>d. if d \<le> 1000 then 320 else if d \<le> 5000 then 140 else 25);
          score = (case slack_us b of None \<Rightarrow> score
                   | Some s \<Rightarrow> if s \<le> 500 then fsub score 260 else when_sub (s \<le> 2000) score 120);
          score = when_sub (80 \<le> request_priority b) score 90;
          score = when_sub (case recompute_cost_us b of None \<Rightarrow> False | Some c \<Rightarrow> 4000 \<le> c) score 80;
          score = when_sub (phase b = DECODE) score 110
      in when_sub (priority b = DECODE_CRITICAL) score 400)"

definition deadline_eviction_score :: "mintent \<Rightarrow> int \<Rightarrow> pyfloat" where
  "deadline_eviction_score b current_step =
     (let score = intent_eviction_score b current_step;
          risk = eviction_risk_score b current_step;
          score = deadline_protection b score;
          score = fsub score (fdiv risk 18);
          score = when_add (phase b = DONE) score 40
      in when_add (priority b = COLD \<and> deadline_us b = None) score 35)"

text \<open>
  \<open>RemoteAwarePolicy\<close> reads three attributes with \<open>getattr(block, name, default)\<close>. A
  \<open>MemoryIntent\<close> has none of them (its class declares slots), so the simulator's calls see the
  defaults.
\<close>

record remote_attrs =
  network_rtt_us :: int
  migration_in_flight :: bool
  home_node_id :: "int option"

definition no_remote_attrs :: remote_attrs where
  "no_remote_attrs = \<lparr>network_rtt_us = 0, migration_in_flight = False, home_node_id = Some 0\<rparr>"

definition remote_late :: "remote_attrs \<Rightarrow> mintent \<Rightarrow> bool" where
  "remote_late a b \<longleftrightarrow>
     (case deadline_us b of None \<Rightarrow> False
      | Some d \<Rightarrow> of_int d < fmul (int_to_float (network_rtt_us a)) (3 / 2))"

definition remote_eviction_score :: "remote_attrs \<Rightarrow> mintent \<Rightarrow> int \<Rightarrow> pyfloat" where
  "remote_eviction_score a b current_step =
     (let score = deadline_eviction_score b current_step
      in if migration_in_flight a then -10000
         else if home_node_id a \<notin> {Some 0, None} then
           when_sub (remote_late a b)
             (fsub score (min (fdiv (int_to_float (network_rtt_us a)) 10) 300)) 500
         else score)"

definition classify_retrieval :: "remote_attrs \<Rightarrow> mintent \<Rightarrow> string" where
  "classify_retrieval a b =
     (if migration_in_flight a then ''MIGRATION_IN_FLIGHT''
      else if remote_late a b then ''UNREACHABLE_IN_TIME''
      else ''FETCH_REMOTE'')"

fun eviction_score :: "intent_policy \<Rightarrow> mintent \<Rightarrow> int \<Rightarrow> pyfloat" where
  "eviction_score IntentAwarePolicy b t = intent_eviction_score b t"
| "eviction_score DeadlineAwarePolicy b t = deadline_eviction_score b t"
| "eviction_score SpeculativeIntentPolicy b t = deadline_eviction_score b t"
| "eviction_score RemoteAwarePolicy b t = remote_eviction_score no_remote_attrs b t"

section \<open>Method dispatch\<close>

definition intent_key :: "(mintent \<Rightarrow> pyfloat) \<Rightarrow> mintent \<Rightarrow> pyfloat \<times> int \<times> string" where
  "intent_key score b = (score b, size_bytes b, object_id b)"

definition intent_choose :: "(mintent \<Rightarrow> pyfloat) \<Rightarrow> mintent list \<Rightarrow> mintent option" where
  "intent_choose score blocks =
     (if blocks = [] then None
      else let non_pinned = filter (\<lambda>b. \<not> pin_requested b) blocks;
               candidates = (if non_pinned \<noteq> [] then non_pinned else blocks)
           in max_by (intent_key score) candidates)"

fun choose_victim :: "policy \<Rightarrow> mintent list \<Rightarrow> int \<Rightarrow> int \<Rightarrow> mintent option" where
  "choose_victim LRUPolicy blocks capacity_bytes current_step = lru_choose blocks"
| "choose_victim HotColdPolicy blocks capacity_bytes current_step = hotcold_choose blocks"
| "choose_victim PredictiveHotnessPolicy blocks capacity_bytes current_step = predictive_choose blocks"
| "choose_victim (IntentFamily p) blocks capacity_bytes current_step =
     intent_choose (\<lambda>b. eviction_score p b current_step) blocks"

definition deadline_should_prefetch :: "mintent \<Rightarrow> bool" where
  "deadline_should_prefetch b =
     (if \<not> prefetch_ok b \<or> current_tier b = HBM then False
      else let urgent_deadline = (case deadline_us b of None \<Rightarrow> False | Some d \<Rightarrow> d \<le> 5000);
               urgent_slack = (case slack_us b of None \<Rightarrow> False | Some s \<Rightarrow> s \<le> 2000);
               near_reuse = (case expected_reuse_window_tokens b of None \<Rightarrow> False | Some r \<Rightarrow> r \<le> 8);
               important = (priority b \<in> {HOT, DECODE_CRITICAL} \<or> phase b = DECODE)
           in important \<and> (urgent_deadline \<or> urgent_slack \<or> near_reuse))"

fun should_prefetch :: "policy \<Rightarrow> mintent \<Rightarrow> int \<Rightarrow> bool" where
  "should_prefetch (IntentFamily IntentAwarePolicy) b current_step = False"
| "should_prefetch (IntentFamily _) b current_step = deadline_should_prefetch b"
| "should_prefetch _ b current_step = False"

section \<open>Explanations\<close>

definition long_reuse :: "mintent \<Rightarrow> bool" where
  "long_reuse b \<longleftrightarrow> (case expected_reuse_window_tokens b of None \<Rightarrow> False | Some r \<Rightarrow> 32 \<le> r)"

definition risky_others :: "mintent \<Rightarrow> mintent list \<Rightarrow> int \<Rightarrow> mintent list" where
  "risky_others victim candidates current_step =
     filter (\<lambda>b. object_id b \<noteq> object_id victim \<and> 250 < eviction_risk_score b current_step) candidates"

definition reason_list :: "(bool \<times> string) list \<Rightarrow> string list" where
  "reason_list rs = map snd (filter fst rs)"

definition intent_explain :: "mintent \<Rightarrow> mintent list \<Rightarrow> int \<Rightarrow> string" where
  "intent_explain victim candidates current_step =
     (let protected = risky_others victim candidates current_step;
          reasons = reason_list
            [(phase victim = DONE, ''DONE phase''), (priority victim = COLD, ''COLD''),
             (request_priority victim \<le> 25, ''low priority''),
             (recompute_ok victim, ''recompute-friendly''),
             (compression_ok victim, ''compressible''),
             (is_draft victim \<and> \<not> is_committed victim, ''uncommitted draft''),
             (long_reuse victim, ''long reuse window'')];
          summary = (if reasons \<noteq> [] then py_join '', '' reasons
                     else ''lowest semantic protection score'');
          selected = ''Selected '' @ object_id victim @ '' because it is '' @ summary @ ''.''
      in case protected of [] \<Rightarrow> selected
         | avoided # _ \<Rightarrow> selected @ '' Avoided '' @ object_id avoided
             @ '' because it is more urgent or more expensive to evict.'')"

definition deadline_explain :: "mintent \<Rightarrow> mintent list \<Rightarrow> int \<Rightarrow> string" where
  "deadline_explain victim candidates current_step =
     (let protected = risky_others victim candidates current_step;
          reasons = reason_list
            [(priority victim = COLD, ''COLD''), (phase victim = DONE, ''DONE phase''),
             (request_priority victim \<le> 25, ''low request priority''),
             (deadline_us victim = None, ''no deadline''),
             (slack_us victim = None, ''no slack protection''),
             (recompute_ok victim, ''recompute-friendly''),
             (compression_ok victim, ''spillable/compressible''),
             (long_reuse victim, ''long reuse window'')];
          reason_text = (if reasons \<noteq> [] then py_join '', '' reasons else ''lowest deadline protection'');
          selected = ''Selected '' @ object_id victim @ '' because it is '' @ reason_text @ ''.''
      in case protected of [] \<Rightarrow> selected
         | avoided # _ \<Rightarrow> selected @ '' Avoided '' @ object_id avoided @ '' because it is ''
             @ priority_value (priority avoided) @ '', phase '' @ phase_value (phase avoided)
             @ '', and near a decode deadline.'')"

fun explain_victim_choice :: "policy \<Rightarrow> mintent \<Rightarrow> mintent list \<Rightarrow> int \<Rightarrow> string" where
  "explain_victim_choice (IntentFamily IntentAwarePolicy) victim candidates t =
     intent_explain victim candidates t"
| "explain_victim_choice (IntentFamily _) victim candidates t = deadline_explain victim candidates t"
| "explain_victim_choice p victim candidates t =
     ''Selected '' @ object_id victim @ '' for eviction under '' @ policy_name p @ ''.''"

end
