(* ===== verification/PolicyLaws.thy ===== *)
theory PolicyLaws
  imports Policies
begin

text \<open>
  The laws of the placement policies: every policy is a \<open>ranked_selection\<close> (so a victim exists
  whenever there is a candidate, is one of them, is a best one, and does not depend on the order
  in which Python's set iteration lists the candidates), the intent family is \<open>pin_ranked\<close>, and
  the bounds and monotonicity of the eviction scores.
\<close>

section \<open>Selection\<close>

lemma min_choice_ranked:
  assumes "inj_on k UNIV \<or> (\<forall>b c. ident b \<noteq> ident c \<longrightarrow> k b \<noteq> k c)"
  shows "ranked_selection (min_by k) (\<lambda>b c. k b < (k c :: 'k::linorder)) ident"
proof
  show "min_by k [] = None" by simp
  show "bs \<noteq> [] \<Longrightarrow> \<exists>v. min_by k bs = Some v" for bs by (rule min_by_total)
  show "min_by k bs = Some v \<Longrightarrow> v \<in> set bs" for bs v
    by (auto dest: min_by_SomeD)
  show "min_by k bs = Some v \<Longrightarrow> b \<in> set bs \<Longrightarrow> \<not> k b < k v" for bs v b
    using min_by_SomeD [of k bs v] by (simp add: not_less)
  show "ident b \<noteq> ident c \<Longrightarrow> k b < k c \<or> k c < k b" for b c
    using assms by (metis UNIV_I inj_onD linorder_less_linear)
qed

definition intent_better :: "(mintent \<Rightarrow> pyfloat) \<Rightarrow> mintent \<Rightarrow> mintent \<Rightarrow> bool" where
  "intent_better score b c \<longleftrightarrow>
     (\<not> pin_requested b \<and> pin_requested c)
     \<or> (pin_requested b = pin_requested c \<and> intent_key score c < intent_key score b)"

lemma intent_choose_SomeD:
  assumes "intent_choose score bs = Some v"
  shows "v \<in> set bs" and "b \<in> set bs \<Longrightarrow> \<not> intent_better score b v"
proof -
  define np where "np = filter (\<lambda>b. \<not> pin_requested b) bs"
  have sel: "max_by (intent_key score) (if np \<noteq> [] then np else bs) = Some v"
    using assms by (simp add: intent_choose_def np_def Let_def split: if_splits)
  note max = max_by_SomeD [OF sel]
  show "v \<in> set bs" using max by (auto simp: np_def split: if_splits)
  show "\<not> intent_better score b v" if "b \<in> set bs"
  proof (cases "np = []")
    case True
    with that max show ?thesis
      by (auto simp: intent_better_def np_def filter_empty_conv not_less split: if_splits)
  next
    case False
    with that max show ?thesis by (auto simp: intent_better_def np_def not_less)
  qed
qed

interpretation intent: pin_ranked "intent_choose score" "intent_better score" object_id pin_requested
  for score
proof
  show "intent_choose score [] = None" by (simp add: intent_choose_def)
  show "\<exists>v. intent_choose score bs = Some v" if "bs \<noteq> []" for bs
    using that by (auto simp: intent_choose_def Let_def intro!: max_by_total)
  show "intent_choose score bs = Some v \<Longrightarrow> v \<in> set bs" for bs v
    by (rule intent_choose_SomeD)
  show "intent_choose score bs = Some v \<Longrightarrow> b \<in> set bs \<Longrightarrow> \<not> intent_better score b v" for bs v b
    by (rule intent_choose_SomeD)
  show "intent_better score b c \<or> intent_better score c b" if "object_id b \<noteq> object_id c" for b c
  proof -
    have "intent_key score b \<noteq> intent_key score c" using that by (auto simp: intent_key_def)
    then show ?thesis by (auto simp: intent_better_def neq_iff)
  qed
  show "\<not> pin_requested b \<Longrightarrow> pin_requested c \<Longrightarrow> intent_better score b c" for b c
    by (simp add: intent_better_def)
qed

interpretation lru: ranked_selection "min_by lru_key" "\<lambda>b c. lru_key b < lru_key c" object_id
  by (rule min_choice_ranked) (auto simp: lru_key_def)

interpretation hotcold: ranked_selection "min_by hotcold_key" "\<lambda>b c. hotcold_key b < hotcold_key c"
  object_id
  by (rule min_choice_ranked) (auto simp: hotcold_key_def)

interpretation predictive: ranked_selection "min_by predictive_key"
  "\<lambda>b c. predictive_key b < predictive_key c" object_id
  by (rule min_choice_ranked) (auto simp: predictive_key_def)

text \<open>The preference of a policy at a step, and the contract every policy satisfies.\<close>

fun policy_better :: "policy \<Rightarrow> int \<Rightarrow> mintent \<Rightarrow> mintent \<Rightarrow> bool" where
  "policy_better LRUPolicy t b c = (lru_key b < lru_key c)"
| "policy_better HotColdPolicy t b c = (hotcold_key b < hotcold_key c)"
| "policy_better PredictiveHotnessPolicy t b c = (predictive_key b < predictive_key c)"
| "policy_better (IntentFamily p) t b c = intent_better (\<lambda>x. eviction_score p x t) b c"

interpretation policy: ranked_selection "\<lambda>bs. choose_victim p bs capacity t" "policy_better p t"
  object_id for p capacity t
proof
  show "choose_victim p [] capacity t = None"
    by (cases p) (simp_all add: lru_choose_def hotcold_choose_def predictive_choose_def
        intent.select_Nil)
  show "\<exists>v. choose_victim p bs capacity t = Some v" if "bs \<noteq> []" for bs
    using that by (cases p) (simp_all add: lru_choose_def hotcold_choose_def predictive_choose_def
        min_by_total intent.select_total)
  show "choose_victim p bs capacity t = Some v \<Longrightarrow> v \<in> set bs" for bs v
    by (cases p) (auto simp: lru_choose_def hotcold_choose_def predictive_choose_def
        dest: min_by_SomeD intent.select_member)
  show "choose_victim p bs capacity t = Some v \<Longrightarrow> b \<in> set bs \<Longrightarrow> \<not> policy_better p t b v" for bs v b
    by (cases p) (auto simp: lru_choose_def hotcold_choose_def predictive_choose_def not_less
        dest: min_by_SomeD intent.select_best)
  show "object_id b \<noteq> object_id c \<Longrightarrow> policy_better p t b c \<or> policy_better p t c b" for b c
    by (cases p) (auto dest: lru.better_total hotcold.better_total predictive.better_total
        intent.better_total)
qed

lemma intent_family_pinned_last:
  assumes "choose_victim p bs capacity t = Some v" "is_intent_family p" "pin_requested v" "b \<in> set bs"
  shows "pin_requested b"
  using assms intent.pinned_last by (cases p) auto

section \<open>Bounds of the eviction scores\<close>

lemma score_static_between:
  assumes "valid_intent b" "timing_nonneg b" "between lo hi s"
    and rep: "is_float lo" "is_float (hi + 120)" "is_float (hi + 220)" "is_float (hi + 340)"
      "is_float (hi + 370)" "is_float (hi + 390)" "is_float (hi + 435)"
  shows "between lo (hi + 435) (score_static b s)"
proof -
  define s1 where "s1 = (if phase b = DONE then fadd s 120 else when_add (phase b = IDLE) s 50)"
  define s2 where "s2 = fadd s1 (int_to_float (100 - request_priority b))"
  define s3 where "s3 = opt_add s2 (expected_reuse_window_tokens b)
                          (\<lambda>r. min (fdiv (int_to_float r) 6) 120)"
  define s4 where "s4 = when_add (recompute_ok b) s3 30"
  define s5 where "s5 = when_add (compression_ok b) s4 20"
  have "between lo (hi + 120) s1" unfolding s1_def
    using assms(3) rep by (auto simp: between_def when_add_def intro!: fadd_le fadd_ge)
  moreover have "between 0 100 (int_to_float (100 - request_priority b))"
    using assms(1) by (auto simp: between_def valid_intent_def intent_ranges_def int_to_float_exact)
  ultimately have "between lo (hi + 220) s2" unfolding s2_def
    by (rule between_fadd) (use rep in simp_all)
  moreover have "between 0 120 (min (fdiv (int_to_float r) 6) 120)" if "0 \<le> r" for r
    using that by (auto simp: between_def int_to_float_nonneg intro!: fdiv_ge)
  ultimately have "between lo (hi + 340) s3" unfolding s3_def
    by (intro between_opt_add [where l = 0 and h = 120])
      (use rep assms(2) in \<open>auto simp: timing_nonneg_def\<close>)
  then have "between lo (hi + 370) s4" unfolding s4_def
    by (rule between_when_add) (use rep in simp_all)
  then have "between lo (hi + 390) s5" unfolding s5_def
    by (rule between_when_add) (use rep in simp_all)
  then have "between lo (hi + 435) (when_add (is_draft b \<and> \<not> is_committed b) s5 45)"
    by (rule between_when_add) (use rep in simp_all)
  then show ?thesis unfolding score_static_def Let_def s1_def s2_def s3_def s4_def s5_def .
qed

lemma score_dynamic_between:
  assumes "valid_intent b" "timing_nonneg b" "between lo hi s" "between (-295) 2389 risk"
    and rep: "is_float hi" "is_float (hi + 35)" "is_float (lo - 180)" "is_float (lo - 240)"
      "is_float (lo - 300)"
  shows "between (lo - 300) (hi + 35) (score_dynamic b t risk s)"
proof -
  define s1 where "s1 = opt_sub s (recompute_cost_us b) (\<lambda>c. min (fdiv (int_to_float c) 40) 180)"
  define s2 where "s2 = fsub s1 (fmul (recency_score b) 60)"
  define age where "age = max (t - last_access_step b) 0"
  define s3 where "s3 = fadd s2 (min (fdiv (int_to_float age) 4) 35)"
  have "between 0 180 (min (fdiv (int_to_float c) 40) 180)" if "0 \<le> c" for c
    using that by (auto simp: between_def int_to_float_nonneg intro!: fdiv_ge)
  then have "between (lo - 180) hi s1" unfolding s1_def
    by (intro between_opt_sub [OF assms(3), where l = 0 and h = 180])
      (use rep assms(2) in \<open>auto simp: timing_nonneg_def\<close>)
  moreover have "between 0 60 (fmul (recency_score b) 60)"
    using assms(1) by (intro between_fmul [of 1]) (auto simp: valid_intent_def intent_ranges_def between_def)
  ultimately have "between (lo - 240) hi s2" unfolding s2_def
    by (rule between_fsub) (use rep in simp_all)
  moreover have "between 0 35 (min (fdiv (int_to_float age) 4) 35)"
    by (auto simp: between_def age_def int_to_float_nonneg intro!: fdiv_ge)
  ultimately have "between (lo - 240) (hi + 35) s3" unfolding s3_def
    by (rule between_fadd) (use rep in simp_all)
  moreover have "between 0 60 (fdiv (max risk 0) 40)"
    using assms(4) by (intro between_fdiv [of 2389]) (auto simp: between_def)
  ultimately have "between (lo - 300) (hi + 35) (fsub s3 (fdiv (max risk 0) 40))"
    by (rule between_fsub) (use rep in simp_all)
  then show ?thesis unfolding score_dynamic_def Let_def s1_def s2_def s3_def age_def .
qed

lemma intent_score_critical:
  assumes "valid_intent b" "timing_nonneg b" "priority b = DECODE_CRITICAL"
  shows "between (-2100) (-1330) (intent_eviction_score b t)"
proof -
  have pin: "pin_requested b" using assms by (simp add: valid_intent_def)
  have "fadd 0 (-900) = (-900 :: pyfloat)" "fsub (-900) 900 = (-1800 :: pyfloat)"
    using fl_of_int [of "-900"] fl_of_int [of "-1800"] by (simp_all add: fadd_def fsub_def)
  then have start: "intent_eviction_score b t
      = score_dynamic b t (eviction_risk_score b t) (score_static b (-1800))"
    using assms(3) pin by (simp add: intent_eviction_score_def when_sub_def)
  have "between (-1800) (-1365) (score_static b (-1800))"
    using score_static_between [OF assms(1,2), of "-1800" "-1800" "-1800"] by (simp add: between_def)
  from score_dynamic_between [OF assms(1,2) this eviction_risk_score_between [OF assms(1,2)]]
  show ?thesis unfolding start by simp
qed

lemma intent_score_unpinned:
  assumes "valid_intent b" "timing_nonneg b" "\<not> pin_requested b"
  shows "between (-285) 580 (intent_eviction_score b t)"
proof -
  have "priority b \<noteq> DECODE_CRITICAL" using assms(1,3) by (auto simp: valid_intent_def)
  then have w: "between 15 110 (fadd 0 (priority_weight (priority b)))"
    by (cases "priority b") (simp_all add: between_def)
  have start: "intent_eviction_score b t = score_dynamic b t (eviction_risk_score b t)
      (score_static b (fadd 0 (priority_weight (priority b))))"
    using assms(3) by (simp add: intent_eviction_score_def when_sub_def)
  have "between 15 545 (score_static b (fadd 0 (priority_weight (priority b))))"
    using score_static_between [OF assms(1,2) w] by simp
  from score_dynamic_between [OF assms(1,2) this eviction_risk_score_between [OF assms(1,2)]]
  show ?thesis unfolding start by simp
qed

lemma deadline_protection_between:
  assumes "between lo hi s"
    and rep: "is_float hi" "is_float (lo - 320)" "is_float (lo - 580)" "is_float (lo - 670)"
      "is_float (lo - 750)" "is_float (lo - 860)" "is_float (lo - 1260)" "is_float (hi - 400)"
  shows "between (if priority b = DECODE_CRITICAL then lo - 1260 else lo - 860)
           (if priority b = DECODE_CRITICAL then hi - 400 else hi) (deadline_protection b s)"
proof -
  define s1 where "s1 = opt_sub s (deadline_us b)
                          (\<lambda>d. if d \<le> 1000 then 320 else if d \<le> 5000 then 140 else 25)"
  define s2 where "s2 = (case slack_us b of None \<Rightarrow> s1
                   | Some s \<Rightarrow> if s \<le> 500 then fsub s1 260 else when_sub (s \<le> 2000) s1 120)"
  define s3 where "s3 = when_sub (80 \<le> request_priority b) s2 90"
  define s4 where
    "s4 = when_sub (case recompute_cost_us b of None \<Rightarrow> False | Some c \<Rightarrow> 4000 \<le> c) s3 80"
  define s5 where "s5 = when_sub (phase b = DECODE) s4 110"
  have "between (lo - 320) hi s1" unfolding s1_def
    by (rule between_opt_sub [OF assms(1), where l = 0 and h = 320])
      (use rep in \<open>auto simp: between_def\<close>)
  then have "between (lo - 580) hi s2" unfolding s2_def
    using rep by (auto simp: between_def when_sub_def split: option.splits intro!: fsub_le fsub_ge)
  then have "between (lo - 670) hi s3" unfolding s3_def
    by (rule between_when_sub) (use rep in simp_all)
  then have "between (lo - 750) hi s4" unfolding s4_def
    by (rule between_when_sub) (use rep in simp_all)
  then have "between (lo - 860) hi s5" unfolding s5_def
    by (rule between_when_sub) (use rep in simp_all)
  then have "between (if priority b = DECODE_CRITICAL then lo - 1260 else lo - 860)
      (if priority b = DECODE_CRITICAL then hi - 400 else hi)
      (when_sub (priority b = DECODE_CRITICAL) s5 400)"
    using rep by (auto simp: between_def when_sub_def intro!: fsub_le fsub_ge)
  then show ?thesis
    unfolding deadline_protection_def Let_def s1_def s2_def s3_def s4_def s5_def .
qed

lemma deadline_tail_between:
  assumes "between lo hi s" "between (-295) 2389 risk"
    and rep: "is_float (lo - 133)" "is_float (hi + 17)" "is_float (hi + 57)" "is_float (hi + 92)"
  shows "between (lo - 133) (hi + 92)
    (when_add (priority b = COLD \<and> deadline_us b = None)
       (when_add (phase b = DONE) (fsub s (fdiv risk 18)) 40) 35)"
proof -
  have "between (-17) 133 (fdiv risk 18)"
    using assms(2) by (auto simp: between_def intro!: fdiv_le fdiv_ge)
  from between_fsub [OF assms(1) this, of "lo - 133" "hi + 17"]
  have "between (lo - 133) (hi + 17) (fsub s (fdiv risk 18))" using rep by simp
  then have "between (lo - 133) (hi + 57) (when_add (phase b = DONE) (fsub s (fdiv risk 18)) 40)"
    by (rule between_when_add) (use rep in simp_all)
  then show ?thesis by (rule between_when_add) (use rep in simp_all)
qed

lemma deadline_score_critical:
  assumes "valid_intent b" "timing_nonneg b" "priority b = DECODE_CRITICAL"
  shows "deadline_eviction_score b t \<le> -1638"
proof -
  have "between (-3360) (-1730) (deadline_protection b (intent_eviction_score b t))"
    using deadline_protection_between [OF intent_score_critical [OF assms, of t], of b] assms(3)
    by simp
  from deadline_tail_between [OF this eviction_risk_score_between [OF assms(1,2), of t], of b]
  show ?thesis by (simp add: deadline_eviction_score_def Let_def between_def)
qed

lemma deadline_score_unpinned:
  assumes "valid_intent b" "timing_nonneg b" "\<not> pin_requested b"
  shows "-1278 \<le> deadline_eviction_score b t"
proof -
  have np: "priority b \<noteq> DECODE_CRITICAL" using assms(1,3) by (auto simp: valid_intent_def)
  have "between (-1145) 580 (deadline_protection b (intent_eviction_score b t))"
    using deadline_protection_between [OF intent_score_unpinned [OF assms, of t], of b] np
    by simp
  from deadline_tail_between [OF this eviction_risk_score_between [OF assms(1,2), of t], of b]
  show ?thesis by (simp add: deadline_eviction_score_def Let_def between_def)
qed

section \<open>Monotonicity of the eviction scores\<close>

lemma score_frame [simp]:
  "score_static (b\<lparr>deadline_us := m\<rparr>) s = score_static b s"
  "score_dynamic (b\<lparr>deadline_us := m\<rparr>) t r s = score_dynamic b t r s"
  "score_dynamic (b\<lparr>request_priority := p\<rparr>) t r s = score_dynamic b t r s"
  by (simp_all add: score_static_def score_dynamic_def cong: if_cong)

lemma score_dynamic_mono:
  "s' \<le> s \<Longrightarrow> r \<le> r' \<Longrightarrow> score_dynamic b t r' s' \<le> score_dynamic b t r s"
  unfolding score_dynamic_def Let_def
  by (intro fsub_mono fadd_mono opt_sub_mono fdiv_mono max.mono order_refl) simp_all

lemma score_static_priority:
  "s' \<le> s \<Longrightarrow> request_priority b \<le> p \<Longrightarrow> score_static (b\<lparr>request_priority := p\<rparr>) s' \<le> score_static b s"
  by (auto simp: score_static_def Let_def intro!: chain_mono int_to_float_mono)

lemma intent_score_deadline:
  assumes "deadline_us b = Some d" "d' \<le> d"
  shows "intent_eviction_score (b\<lparr>deadline_us := Some d'\<rparr>) t \<le> intent_eviction_score b t"
  using risk_nearer_deadline [OF assms] by (simp add: intent_eviction_score_def Let_def score_dynamic_mono)

lemma intent_score_priority:
  assumes "request_priority b \<le> p"
  shows "intent_eviction_score (b\<lparr>request_priority := p\<rparr>) t \<le> intent_eviction_score b t"
  using risk_request_priority [OF assms] assms
  by (simp add: intent_eviction_score_def Let_def score_dynamic_mono score_static_priority)

lemma opt_sub_deadline:
  assumes "s' \<le> s" "d' \<le> d" "\<And>x y. x \<le> y \<Longrightarrow> f y \<le> f x"
  shows "opt_sub s' (Some d') f \<le> opt_sub s (Some d) f"
  using assms by (simp add: opt_sub_def fsub_mono)

lemma deadline_protection_deadline:
  assumes "s' \<le> s" "deadline_us b = Some d" "d' \<le> d"
  shows "deadline_protection (b\<lparr>deadline_us := Some d'\<rparr>) s' \<le> deadline_protection b s"
proof -
  have "opt_sub s' (Some d') (\<lambda>d. if d \<le> 1000 then 320 else if d \<le> 5000 then 140 else 25)
      \<le> opt_sub s (Some d) (\<lambda>d. if d \<le> 1000 then 320 else if d \<le> 5000 then 140 else 25)"
    using assms(1,3) by (rule opt_sub_deadline) auto
  then show ?thesis
    using assms(2) by (auto simp: deadline_protection_def Let_def split: option.splits intro!: chain_mono)
qed

lemma when_sub_stronger:
  "s' \<le> s \<Longrightarrow> (c \<Longrightarrow> c') \<Longrightarrow> 0 \<le> w \<Longrightarrow> is_float s \<Longrightarrow> when_sub c' s' w \<le> when_sub c s w"
  by (auto simp: when_sub_def intro: fsub_mono fsub_le)

lemma is_float_opt_sub [simp]: "is_float s \<Longrightarrow> is_float (opt_sub s m f)"
  and is_float_when_sub [simp]: "is_float s \<Longrightarrow> is_float (when_sub c s w)"
  by (auto simp: opt_sub_def when_sub_def split: option.splits)

lemma is_float_intent_score [simp]: "is_float (intent_eviction_score b t)"
  by (simp add: intent_eviction_score_def score_dynamic_def Let_def)

lemma deadline_protection_priority:
  assumes "s' \<le> s" "request_priority b \<le> p" "is_float s"
  shows "deadline_protection (b\<lparr>request_priority := p\<rparr>) s' \<le> deadline_protection b s"
  using assms
  by (auto simp: deadline_protection_def Let_def split: option.splits
      intro!: when_sub_mono when_sub_stronger fsub_mono opt_sub_mono)

lemma deadline_tail_mono:
  "s' \<le> s \<Longrightarrow> r \<le> r' \<Longrightarrow> when_add c (when_add d (fsub s' (fdiv r' 18)) 40) 35
     \<le> when_add c (when_add d (fsub s (fdiv r 18)) 40) 35"
  by (intro when_add_mono fsub_mono fdiv_mono) simp_all

lemma deadline_score_deadline:
  assumes "deadline_us b = Some d" "d' \<le> d"
  shows "deadline_eviction_score (b\<lparr>deadline_us := Some d'\<rparr>) t \<le> deadline_eviction_score b t"
  using deadline_tail_mono
    [OF deadline_protection_deadline [OF intent_score_deadline [OF assms] assms]
        risk_nearer_deadline [OF assms]]
  by (simp add: deadline_eviction_score_def Let_def assms(1))

lemma deadline_score_priority:
  assumes "request_priority b \<le> p"
  shows "deadline_eviction_score (b\<lparr>request_priority := p\<rparr>) t \<le> deadline_eviction_score b t"
  using deadline_tail_mono
    [OF deadline_protection_priority [OF intent_score_priority [OF assms] assms]
        risk_request_priority [OF assms]]
  by (simp add: deadline_eviction_score_def Let_def)

lemma remote_score_default: "remote_eviction_score no_remote_attrs b t = deadline_eviction_score b t"
  by (simp add: remote_eviction_score_def no_remote_attrs_def)

lemmas family_score = eviction_score.simps remote_score_default

section \<open>Properties\<close>

definition cold_block :: mintent where
  "cold_block = (sample_intent ''b-2'')\<lparr>priority := COLD, phase := DONE, request_priority := 5\<rparr>"

definition critical_block :: mintent where
  "critical_block = (sample_intent ''b-1'')\<lparr>priority := DECODE_CRITICAL, pin_requested := True\<rparr>"

lemma sample_blocks [simp]:
  "valid_intent cold_block" "timing_nonneg cold_block" "\<not> pin_requested cold_block"
  "valid_intent critical_block" "timing_nonneg critical_block" "priority critical_block = DECODE_CRITICAL"
  "object_id cold_block = ''b-2''" "object_id critical_block = ''b-1''" "pin_requested critical_block"
  by (simp_all add: cold_block_def critical_block_def sample_intent_def valid_intent_def
      intent_ranges_def timing_nonneg_def)

text \<open>C14: Every policy returns a victim exactly when there are candidates, the victim is one of them, and
  no candidate is preferred to it under the policy's own ranking.\<close>

theorem choose_victim_contract:
  "(choose_victim p bs capacity t = None \<longleftrightarrow> bs = [])
   \<and> (\<forall>v. choose_victim p bs capacity t = Some v \<longrightarrow>
        v \<in> set bs \<and> (\<forall>b \<in> set bs. \<not> policy_better p t b v))"
  by (auto simp: policy.select_None_iff dest: policy.select_member policy.select_best)

theorem choose_victim_contract_witness:
  "choose_victim (IntentFamily IntentAwarePolicy) [critical_block, cold_block] 1024 10 \<noteq> None"
  using choose_victim_contract
    [of "IntentFamily IntentAwarePolicy" "[critical_block, cold_block]" 1024 10] by simp

text \<open>C15: When the candidates have pairwise different object ids, the victim of every policy depends
  only on the set of candidates: the iteration order of the resident set (which Python does not
  fix) cannot change the decision.\<close>

theorem victim_order_independent:
  assumes "set bs = set cs" "inj_on object_id (set bs)"
  shows "choose_victim p bs capacity t = choose_victim p cs capacity t"
  using assms by (rule policy.select_order_independent)

theorem victim_order_independent_witness:
  "choose_victim HotColdPolicy [critical_block, cold_block] 0 4
   = choose_victim HotColdPolicy [cold_block, critical_block] 0 4"
  by (rule victim_order_independent) auto

text \<open>A policy of the intent family evicts a pinned block only when every candidate is pinned;
  otherwise its victim has the highest eviction score among the unpinned candidates.\<close>

theorem intent_family_victim:
  assumes "choose_victim (IntentFamily p) bs capacity t = Some v" "b \<in> set bs" "\<not> pin_requested b"
  shows "\<not> pin_requested v \<and> eviction_score p b t \<le> eviction_score p v t"
proof
  show np: "\<not> pin_requested v" using intent_family_pinned_last [OF assms(1) _ _ assms(2)] assms(3) by auto
  have "\<not> intent_better (\<lambda>x. eviction_score p x t) b v"
    using policy.select_best [OF assms(1,2)] by simp
  with np assms(3) show "eviction_score p b t \<le> eviction_score p v t"
    by (auto simp: intent_better_def intent_key_def not_less)
qed

theorem intent_family_victim_witness:
  "choose_victim (IntentFamily DeadlineAwarePolicy) [critical_block, cold_block] 1024 10 = Some cold_block"
proof -
  obtain v where v: "choose_victim (IntentFamily DeadlineAwarePolicy) [critical_block, cold_block] 1024 10
      = Some v" using policy.select_total by blast
  have "\<not> pin_requested v" using intent_family_victim [OF v, of cold_block] by simp
  moreover have "v \<in> {critical_block, cold_block}" using policy.select_member [OF v] by simp
  ultimately show ?thesis using v by auto
qed

text \<open>The scores alone already separate the classes: whatever its phase, age, cost and reuse window,
  a decode-critical block scores strictly below every unpinned block, under each policy of the
  intent family and with all roundings.\<close>

theorem critical_scores_below_unpinned:
  assumes "valid_intent b" "timing_nonneg b" "priority b = DECODE_CRITICAL"
    and "valid_intent c" "timing_nonneg c" "\<not> pin_requested c"
  shows "eviction_score p b t < eviction_score p c t"
proof -
  have "intent_eviction_score b t < intent_eviction_score c t"
    using intent_score_critical [OF assms(1-3), of t] intent_score_unpinned [OF assms(4-6), of t]
    unfolding between_def by linarith
  moreover have "deadline_eviction_score b t < deadline_eviction_score c t"
    using deadline_score_critical [OF assms(1-3), of t] deadline_score_unpinned [OF assms(4-6), of t]
    by linarith
  ultimately show ?thesis by (cases p) (simp_all add: family_score)
qed

theorem critical_scores_below_unpinned_witness:
  "eviction_score RemoteAwarePolicy critical_block 7 < eviction_score RemoteAwarePolicy cold_block 7"
  by (rule critical_scores_below_unpinned) simp_all

text \<open>A nearer deadline never makes a block a better victim of the intent family, all else equal.\<close>

theorem nearer_deadline_protects:
  assumes "deadline_us b = Some d" "d' \<le> d"
  shows "eviction_score p (b\<lparr>deadline_us := Some d'\<rparr>) t \<le> eviction_score p b t"
  using intent_score_deadline [OF assms] deadline_score_deadline [OF assms]
  by (cases p) (simp_all add: family_score)

theorem nearer_deadline_protects_witness:
  "eviction_score DeadlineAwarePolicy (cold_block\<lparr>deadline_us := Some 900\<rparr>) 7
   \<le> eviction_score DeadlineAwarePolicy (cold_block\<lparr>deadline_us := Some 9000\<rparr>) 7"
  using nearer_deadline_protects [of "cold_block\<lparr>deadline_us := Some 9000\<rparr>" 9000 900 DeadlineAwarePolicy 7]
  by simp

text \<open>A higher request priority never makes a block a better victim of the intent family, all else
  equal.\<close>

theorem higher_priority_protects:
  assumes "request_priority b \<le> q"
  shows "eviction_score p (b\<lparr>request_priority := q\<rparr>) t \<le> eviction_score p b t"
  using intent_score_priority [OF assms] deadline_score_priority [OF assms]
  by (cases p) (simp_all add: family_score)

theorem higher_priority_protects_witness:
  "eviction_score IntentAwarePolicy (cold_block\<lparr>request_priority := 90\<rparr>) 7
   \<le> eviction_score IntentAwarePolicy cold_block 7"
  by (rule higher_priority_protects) (simp add: cold_block_def)

text \<open>The LRU victim has the least last access step; among those it is the largest block.\<close>

theorem lru_victim_spec:
  assumes "choose_victim LRUPolicy bs capacity t = Some v" "b \<in> set bs"
  shows "last_access_step v \<le> last_access_step b
    \<and> (last_access_step b = last_access_step v \<longrightarrow> size_bytes b \<le> size_bytes v)"
  using policy.select_best [OF assms] by (auto simp: lru_key_def not_less)

theorem lru_victim_spec_witness:
  "choose_victim LRUPolicy [cold_block\<lparr>last_access_step := 9\<rparr>, critical_block] 1024 10 = Some critical_block"
proof -
  obtain v where v: "choose_victim LRUPolicy [cold_block\<lparr>last_access_step := 9\<rparr>, critical_block] 1024 10
      = Some v" using policy.select_total by blast
  have "last_access_step v \<le> last_access_step critical_block" using lru_victim_spec [OF v] by simp
  moreover have "v \<in> {cold_block\<lparr>last_access_step := 9\<rparr>, critical_block}"
    using policy.select_member [OF v] by simp
  ultimately show ?thesis using v by (auto simp: critical_block_def sample_intent_def)
qed

text \<open>Prefetching: only the deadline-aware policies prefetch, and only a block outside HBM that
  allows prefetching, matters to decoding and is near its deadline, short of slack or about to be
  reused.\<close>

theorem should_prefetch_spec:
  "should_prefetch p b t \<longleftrightarrow>
     (p \<noteq> IntentFamily IntentAwarePolicy \<and> is_intent_family p)
     \<and> prefetch_ok b \<and> current_tier b \<noteq> HBM
     \<and> (priority b = HOT \<or> is_decode_critical b)
     \<and> ((\<exists>d. deadline_us b = Some d \<and> d \<le> 5000) \<or> (\<exists>s. slack_us b = Some s \<and> s \<le> 2000)
        \<or> (\<exists>r. expected_reuse_window_tokens b = Some r \<and> r \<le> 8))"
proof -
  have "should_prefetch p b t \<longleftrightarrow>
      (p \<noteq> IntentFamily IntentAwarePolicy \<and> is_intent_family p) \<and> deadline_should_prefetch b"
    by (cases "(p, b, t)" rule: should_prefetch.cases) auto
  then show ?thesis
    by (cases "prefetch_ok b"; cases "current_tier b = HBM")
      (auto simp: deadline_should_prefetch_def is_decode_critical_def Let_def split: option.splits)
qed

end
