(* ===== verification/Metrics.thy ===== *)
theory Metrics
  imports PyFloat Prelude
begin

text \<open>
  \<open>src/kv_memory_intent/metrics.py\<close>: the interpolated percentile. The arithmetic is the float
  arithmetic of the code; \<open>percentile_ints\<close> is the call on a list of Python ints.
\<close>

definition percentile :: "pyfloat list \<Rightarrow> pyfloat \<Rightarrow> pyfloat result" where
  "percentile values p =
     (if values = [] then Inr 0
      else if p < 0 \<or> 100 < p then Inl (ValueError ''p must be in range 0..100'')
      else let ordered = sort values
           in if length ordered = 1 then py_nth ordered 0
              else let n1 = int (length ordered) - 1;
                       rank = fmul (int_to_float n1) (fdiv p 100);
                       lower = \<lfloor>rank\<rfloor>;
                       upper = min (lower + 1) n1
                   in if lower = upper then py_nth ordered lower
                      else let weight = fsub rank (int_to_float lower)
                           in bind_r (py_nth ordered lower) (\<lambda>lo.
                              bind_r (py_nth ordered upper) (\<lambda>hi.
                              Inr (fadd lo (fmul (fsub hi lo) weight)))))"

definition percentile_ints :: "int list \<Rightarrow> int \<Rightarrow> pyfloat result" where
  "percentile_ints values p = percentile (map int_to_float values) (int_to_float p)"

section \<open>Lemmas\<close>

lemma sort_nth_between:
  assumes "i < length xs" "\<And>x. x \<in> set xs \<Longrightarrow> a \<le> x \<and> x \<le> (b :: 'a::linorder)"
  shows "a \<le> sort xs ! i \<and> sort xs ! i \<le> b"
  using assms by (metis length_sort nth_mem set_sort)

lemma rank_bounds:
  assumes "0 \<le> p" "p \<le> 100" "0 \<le> n" "n \<le> 2 ^ 53"
  shows "0 \<le> fmul (int_to_float n) (fdiv p 100)" "fmul (int_to_float n) (fdiv p 100) \<le> of_int n"
proof -
  have q: "0 \<le> fdiv p 100" "fdiv p 100 \<le> 1" using assms by (auto intro!: fdiv_ge fdiv_le)
  have n: "int_to_float n = of_int n" using assms(3,4) by (simp add: int_to_float_exact)
  show "0 \<le> fmul (int_to_float n) (fdiv p 100)" using q assms(3) by (auto simp: n intro!: fmul_ge)
  have "of_int n * fdiv p 100 \<le> of_int n * 1" using q assms(3) by (intro mult_left_mono) simp_all
  then show "fmul (int_to_float n) (fdiv p 100) \<le> of_int n"
    using assms(3,4) by (auto simp: n intro!: fmul_le is_float_of_int)
qed

text \<open>
  With integer samples the interpolation stays between the two neighbours: the difference of two
  integers of moderate size is exact, so no rounding can push the result past the upper one.
\<close>

lemma interpolation_between:
  assumes "x = of_int a" "y = of_int b" "a \<le> b" "0 \<le> a" "b \<le> 2 ^ 53" "0 \<le> w" "w \<le> 1"
  shows "x \<le> fadd x (fmul (fsub y x) w)" "fadd x (fmul (fsub y x) w) \<le> y"
proof -
  have d: "fsub y x = of_int (b - a)"
    using assms(3-5) fl_of_int [of "b - a"] by (simp add: fsub_def assms(1,2))
  have "of_int (b - a) * w \<le> of_int (b - a) * 1" using assms(3,7) by (intro mult_left_mono) simp_all
  moreover have "is_float (of_int (b - a))" by (rule is_float_of_int) (use assms in simp)
  ultimately have m: "0 \<le> fmul (fsub y x) w" "fmul (fsub y x) w \<le> of_int (b - a)"
    unfolding d using assms(3,6) by (auto intro!: fmul_ge intro: fmul_le)
  have f: "is_float x" "is_float y" using assms by (simp_all add: is_float_of_int)
  show "x \<le> fadd x (fmul (fsub y x) w)" using m f by (intro fadd_ge) simp_all
  show "fadd x (fmul (fsub y x) w) \<le> y" using m f assms(1,2) by (intro fadd_le) simp_all
qed

lemma percentile_ints_between:
  assumes "values \<noteq> []" "\<And>v. v \<in> set values \<Longrightarrow> lo \<le> v \<and> v \<le> hi" "0 \<le> lo" "hi \<le> 2 ^ 53"
    and "0 \<le> p" "p \<le> 100" "int (length values) \<le> 2 ^ 53"
  shows "\<exists>q. percentile_ints values p = Inr q \<and> of_int lo \<le> q \<and> q \<le> of_int hi"
proof -
  define xs where "xs = sort (map int_to_float values)"
  define n1 where "n1 = int (length xs) - 1"
  define rank where "rank = fmul (int_to_float n1) (fdiv (int_to_float p) 100)"
  define lower where "lower = \<lfloor>rank\<rfloor>"
  define upper where "upper = min (lower + 1) n1"
  have len: "length xs = length values" by (simp add: xs_def)
  have p: "int_to_float p = of_int p" using assms(5,6) by (simp add: int_to_float_exact)
  have el: "\<exists>a. xs ! i = of_int a \<and> lo \<le> a \<and> a \<le> hi" if "i < length xs" for i
  proof -
    have "xs ! i \<in> int_to_float ` set values" using nth_mem [OF that] by (simp add: xs_def)
    then obtain v where "v \<in> set values" "xs ! i = int_to_float v" by blast
    then show ?thesis using assms(2) [of v] assms(3,4) by (auto simp: int_to_float_exact)
  qed
  have n1: "0 \<le> n1" "n1 \<le> 2 ^ 53" 
    using assms(1,7) len by (auto simp: n1_def Suc_le_eq)
  note rb = rank_bounds [of "of_int p", OF _ _ n1]
  have r0: "0 \<le> rank" and rn: "rank \<le> of_int n1"
    using rb assms(5,6) by (simp_all add: rank_def p)
  then have l: "0 \<le> lower" "lower \<le> n1"
    unfolding lower_def by (simp_all add: floor_le_iff)
  have u: "0 \<le> upper" "upper \<le> n1" using l n1 by (simp_all add: upper_def)
  have idx: "nat lower < length xs" "nat upper < length xs" using l u by (simp_all add: n1_def)
  obtain a b where ab: "xs ! nat lower = of_int a" "xs ! nat upper = of_int b"
    "lo \<le> a" "a \<le> hi" "lo \<le> b" "b \<le> hi"
    using el [OF idx(1)] el [OF idx(2)] by blast
  have look: "py_nth xs lower = Inr (of_int a)" "py_nth xs upper = Inr (of_int b)"
    using idx l u ab by (simp_all add: py_nth_in_range n1_def)
  have "percentile_ints values p =
      (if length xs = 1 then py_nth xs 0 else if lower = upper then py_nth xs lower
       else bind_r (py_nth xs lower) (\<lambda>lo. bind_r (py_nth xs upper) (\<lambda>hi.
            Inr (fadd lo (fmul (fsub hi lo) (fsub rank (int_to_float lower)))))))"
    using assms(1,5,6)
    by (simp add: percentile_ints_def percentile_def Let_def p xs_def n1_def rank_def lower_def upper_def)
  moreover have "lower = 0" if "length xs = 1" using that l by (simp add: n1_def)
  ultimately have eq: "percentile_ints values p =
      Inr (if length xs = 1 \<or> lower = upper then of_int a
           else fadd (of_int a) (fmul (fsub (of_int b) (of_int a)) (fsub rank (int_to_float lower))))"
    using look by auto
  have "of_int a \<le> fadd (of_int a) (fmul (fsub (of_int b) (of_int a)) (fsub rank (int_to_float lower)))
      \<and> fadd (of_int a) (fmul (fsub (of_int b) (of_int a)) (fsub rank (int_to_float lower))) \<le> of_int b"
    if "\<not> (length xs = 1 \<or> lower = upper)"
  proof -
    have lu: "upper = lower + 1"
      using that l unfolding upper_def by (auto simp: min_def split: if_splits)
    have w: "0 \<le> fsub rank (int_to_float lower)" "fsub rank (int_to_float lower) \<le> 1"
      using l n1 floor_correct [of rank]
      by (auto simp: int_to_float_exact lower_def intro!: fsub_ge fsub_le)
    have "xs ! nat lower \<le> xs ! nat upper"
      using sorted_nth_mono [of xs "nat lower" "nat upper"] idx lu l by (simp add: xs_def)
    then have "a \<le> b" using ab by simp
    from interpolation_between [OF refl refl this _ _ w] show ?thesis
      using ab assms(3,4) by simp
  qed
  then show ?thesis using eq ab by (auto intro: order_trans [of _ "of_int a"] order_trans [of _ "of_int b"])
qed

text \<open>The indices are in range for every sample of feasible length, whatever the values.\<close>

lemma percentile_total:
  assumes "0 \<le> p" "p \<le> 100" "int (length vs) \<le> 2 ^ 53"
  shows "\<exists>q. percentile vs p = Inr q"
proof (cases "length vs \<le> 1")
  case True
  then have "vs = [] \<or> length (sort vs) = 1"
    by (cases vs) auto
  then show ?thesis using assms by (auto simp: percentile_def Let_def py_nth_def)
next
  case False
  have ne: "vs \<noteq> []" using False by (cases vs) auto
  define n1 where "n1 = int (length vs) - 1"
  define rank where "rank = fmul (int_to_float n1) (fdiv p 100)"
  have n1: "0 \<le> n1" "n1 \<le> 2 ^ 53" using False assms(3) ne by (simp_all add: n1_def)
  have "0 \<le> rank" "rank \<le> of_int n1" using rank_bounds [OF assms(1,2) n1] by (simp_all add: rank_def)
  then have l: "0 \<le> \<lfloor>rank\<rfloor>" "\<lfloor>rank\<rfloor> \<le> n1" by (simp_all add: floor_le_iff)
  have n: "\<lfloor>rank\<rfloor> < int (length (sort vs))" "min (\<lfloor>rank\<rfloor> + 1) n1 < int (length (sort vs))"
    "0 \<le> min (\<lfloor>rank\<rfloor> + 1) n1"
    using l n1 by (simp_all add: n1_def)
  show ?thesis
    using assms False ne n l n1(1)
    by (auto simp: percentile_def Let_def n1_def [symmetric] rank_def [symmetric] py_nth_in_range)
qed

lemma percentile_ints_total:
  "0 \<le> p \<Longrightarrow> p \<le> 100 \<Longrightarrow> int (length vs) \<le> 2 ^ 53 \<Longrightarrow> \<exists>q. percentile_ints vs p = Inr q"
  unfolding percentile_ints_def by (rule percentile_total) (simp_all add: int_to_float_exact)

end
