(* ===== verification/Simulator.thy ===== *)
theory Simulator
  imports PolicyLaws Events Metrics
begin

text \<open>
  \<open>KVMemorySimulator\<close> of \<open>src/kv_memory_intent/simulator.py\<close>. \<open>config\<close> holds the constructor
  arguments (never assigned afterwards), \<open>sim\<close> the attributes that change. \<open>live_blocks\<close> is a dict
  from object ids to blocks, \<open>hbm_blocks\<close> and \<open>dram_blocks\<close> are sets of object ids.

  Python does not fix the iteration order of a set. The two places where the code depends on it
  (the list of candidates and the first fallback tier) read it from a parameter \<open>set_order\<close>, a
  function of the whole state, so that two iterations over equal sets may differ; \<open>valid_order\<close>
  says that it lists each element once.

  One definition per handler of \<open>run\<close>; a handler returns the new state and the latency of the
  event. The eviction loop is a \<open>partial_function\<close>: \<open>None\<close> would be a loop that never ends.
\<close>

section \<open>State\<close>

record config =
  cfg_policy :: policy
  hbm_capacity_bytes :: int
  dram_capacity_bytes :: int
  miss_penalty_us :: int
  spill_latency_us :: int
  prefetch_latency_us :: int
  base_step_latency_us :: int

record decision =
  dec_step :: int
  dec_action :: string
  dec_policy :: string
  victim_object_id :: "string option"
  victim_priority :: "priority option"
  victim_phase :: "phase option"
  victim_request_priority :: "int option"
  victim_deadline_us :: "int option"
  dec_reason :: string
  avoided_decode_critical :: bool

record sim =
  live_blocks :: "(string, mintent) dict"
  hbm_blocks :: "string set"
  dram_blocks :: "string set"
  latencies :: "int list"
  decision_log :: "decision list"
  spill_count :: int
  prefetch_count :: int
  miss_count :: int
  eviction_count :: int
  decode_critical_misses :: int
  decode_critical_evictions :: int
  peak_hbm_demand_bytes :: int
  actual_peak_hbm_used_bytes :: int
  capacity_exhaustion_events :: int
  pinned_capacity_exhaustion_events :: int
  last_decay_step :: int

definition init_sim :: sim where
  "init_sim = \<lparr>live_blocks = [], hbm_blocks = {}, dram_blocks = {}, latencies = [], decision_log = [],
     spill_count = 0, prefetch_count = 0, miss_count = 0, eviction_count = 0,
     decode_critical_misses = 0, decode_critical_evictions = 0, peak_hbm_demand_bytes = 0,
     actual_peak_hbm_used_bytes = 0, capacity_exhaustion_events = 0,
     pinned_capacity_exhaustion_events = 0, last_decay_step = -1\<rparr>"

definition default_config :: "policy \<Rightarrow> int \<Rightarrow> int \<Rightarrow> config" where
  "default_config p hbm dram = \<lparr>cfg_policy = p, hbm_capacity_bytes = hbm, dram_capacity_bytes = dram,
     miss_penalty_us = 5000, spill_latency_us = 200, prefetch_latency_us = 100,
     base_step_latency_us = 50\<rparr>"

record set_order =
  order_ids :: "sim \<Rightarrow> string list"
  order_tiers :: "sim \<Rightarrow> mintent \<Rightarrow> tier list"

definition valid_order :: "set_order \<Rightarrow> bool" where
  "valid_order ord \<longleftrightarrow>
     (\<forall>s. finite (hbm_blocks s) \<longrightarrow> set (order_ids ord s) = hbm_blocks s \<and> distinct (order_ids ord s))
     \<and> (\<forall>s b. set (order_tiers ord s b) = allowed_tiers b \<and> distinct (order_tiers ord s b))"

definition sorted_order :: set_order where
  "sorted_order = \<lparr>order_ids = (\<lambda>s. sorted_list_of_set (hbm_blocks s)),
     order_tiers = (\<lambda>s b. sorted_list_of_set (allowed_tiers b))\<rparr>"

section \<open>Usage and logging\<close>

definition block_size :: "(string, mintent) dict \<Rightarrow> string \<Rightarrow> int" where
  "block_size live oid = (case dict_get live oid of None \<Rightarrow> 0 | Some b \<Rightarrow> size_bytes b)"

definition used_bytes :: "(string, mintent) dict \<Rightarrow> string set \<Rightarrow> int" where
  "used_bytes live ids = (\<Sum>oid \<in> ids. block_size live oid)"

definition hbm_used :: "sim \<Rightarrow> int" where "hbm_used s = used_bytes (live_blocks s) (hbm_blocks s)"
definition dram_used :: "sim \<Rightarrow> int" where "dram_used s = used_bytes (live_blocks s) (dram_blocks s)"

definition record_usage :: "sim \<Rightarrow> sim" where
  "record_usage s =
     s\<lparr>actual_peak_hbm_used_bytes := max (actual_peak_hbm_used_bytes s) (hbm_used s)\<rparr>"

definition log_decision :: "config \<Rightarrow> int \<Rightarrow> string \<Rightarrow> mintent \<Rightarrow> string \<Rightarrow> bool \<Rightarrow> sim \<Rightarrow> sim" where
  "log_decision cfg step action victim reason avoided s =
     s\<lparr>decision_log := decision_log s @
       [\<lparr>dec_step = step, dec_action = action, dec_policy = policy_name (cfg_policy cfg),
         victim_object_id = Some (object_id victim), victim_priority = Some (priority victim),
         victim_phase = Some (phase victim), victim_request_priority = Some (request_priority victim),
         victim_deadline_us = deadline_us victim, dec_reason = reason,
         avoided_decode_critical = avoided\<rparr>]\<rparr>"

section \<open>The eviction loop\<close>

definition candidates :: "set_order \<Rightarrow> sim \<Rightarrow> mintent list" where
  "candidates ord s = List.map_filter (dict_get (live_blocks s)) (order_ids ord s)"

definition all_pinned_exhausted :: "config \<Rightarrow> mintent list \<Rightarrow> bool" where
  "all_pinned_exhausted cfg cands \<longleftrightarrow>
     cands \<noteq> [] \<and> list_all pin_requested cands \<and> is_intent_family (cfg_policy cfg)"

definition record_exhausted :: "config \<Rightarrow> int \<Rightarrow> sim \<Rightarrow> sim" where
  "record_exhausted cfg step s =
     s\<lparr>capacity_exhaustion_events := capacity_exhaustion_events s + 1,
       pinned_capacity_exhaustion_events := pinned_capacity_exhaustion_events s + 1,
       decision_log := decision_log s @
         [\<lparr>dec_step = step, dec_action = ''capacity_exhausted'',
           dec_policy = policy_name (cfg_policy cfg), victim_object_id = None,
           victim_priority = None, victim_phase = None, victim_request_priority = None,
           victim_deadline_us = None,
           dec_reason = ''HBM remained over capacity because all resident blocks were pinned.'',
           avoided_decode_critical = False\<rparr>]\<rparr>"

definition target_tier :: "set_order \<Rightarrow> sim \<Rightarrow> mintent \<Rightarrow> tier option" where
  "target_tier ord s victim =
     (case filter (\<lambda>t. t \<noteq> HBM) (order_tiers ord s victim) of [] \<Rightarrow> None | t # _ \<Rightarrow> Some t)"

text \<open>The body of the loop once the victim is chosen: the new state and the added latency.\<close>

definition evict_victim ::
  "set_order \<Rightarrow> config \<Rightarrow> int \<Rightarrow> mintent list \<Rightarrow> mintent \<Rightarrow> sim \<Rightarrow> sim \<times> int" where
  "evict_victim ord cfg step cands victim s =
     (let oid = object_id victim;
          reason = explain_victim_choice (cfg_policy cfg) victim cands step;
          avoided = list_ex (\<lambda>b. object_id b \<noteq> oid \<and> is_decode_critical b) cands;
          s1 = s\<lparr>eviction_count := eviction_count s + 1,
                 decode_critical_evictions :=
                   decode_critical_evictions s + (if is_decode_critical victim then 1 else 0),
                 hbm_blocks := hbm_blocks s - {oid}\<rparr>;
          target = target_tier ord s victim
      in if target = Some DRAM \<and> dram_used s1 + size_bytes victim \<le> dram_capacity_bytes cfg then
           (log_decision cfg step ''spill'' victim reason avoided
              (s1\<lparr>live_blocks := AList.update oid (victim\<lparr>current_tier := DRAM\<rparr>) (live_blocks s),
                  dram_blocks := insert oid (dram_blocks s), spill_count := spill_count s + 1\<rparr>),
            spill_latency_us cfg)
         else
           (log_decision cfg step ''evict'' victim reason avoided
              (s1\<lparr>live_blocks := AList.update oid
                    (victim\<lparr>current_tier := (case target of None \<Rightarrow> NVME | Some t \<Rightarrow> t)\<rparr>) (live_blocks s),
                  dram_blocks := dram_blocks s - {oid}\<rparr>),
            0))"

partial_function (option) ensure_loop ::
  "set_order \<Rightarrow> config \<Rightarrow> int \<Rightarrow> sim \<Rightarrow> int \<Rightarrow> (sim \<times> int) option" where
  "ensure_loop ord cfg step s added_latency =
     (if hbm_used s \<le> hbm_capacity_bytes cfg then Some (s, added_latency)
      else if all_pinned_exhausted cfg (candidates ord s) then
        Some (record_exhausted cfg step s, added_latency)
      else case choose_victim (cfg_policy cfg) (candidates ord s) (hbm_capacity_bytes cfg) step of
          None \<Rightarrow> Some (s\<lparr>capacity_exhaustion_events := capacity_exhaustion_events s + 1\<rparr>, added_latency)
        | Some victim \<Rightarrow>
            ensure_loop ord cfg step (fst (evict_victim ord cfg step (candidates ord s) victim s))
              (added_latency + snd (evict_victim ord cfg step (candidates ord s) victim s)))"

definition ensure_hbm_capacity ::
  "set_order \<Rightarrow> config \<Rightarrow> int \<Rightarrow> sim \<Rightarrow> (sim \<times> int) option" where
  "ensure_hbm_capacity ord cfg step s =
     map_option (\<lambda>(t, added). (record_usage t, added)) (ensure_loop ord cfg step s 0)"

definition move_to_hbm ::
  "set_order \<Rightarrow> config \<Rightarrow> mintent \<Rightarrow> int \<Rightarrow> sim \<Rightarrow> (sim \<times> int) option" where
  "move_to_hbm ord cfg block step s =
     (let oid = object_id block;
          s1 = s\<lparr>live_blocks := AList.update oid (block\<lparr>current_tier := HBM\<rparr>) (live_blocks s),
                 hbm_blocks := insert oid (hbm_blocks s), dram_blocks := dram_blocks s - {oid}\<rparr>
      in map_option (\<lambda>(t, added). (record_usage t, added)) (ensure_hbm_capacity ord cfg step s1))"

section \<open>Merging an event into the live block\<close>

text \<open>The fields each event type copies from the incoming intent; by default all but the id.\<close>

fun merge_update :: "event_type \<Rightarrow> mintent \<Rightarrow> mintent \<Rightarrow> mintent" where
  "merge_update MARKED_DECODE_CRITICAL inc e =
     e\<lparr>priority := priority inc, phase := phase inc, pin_requested := pin_requested inc,
       deadline_us := deadline_us inc, slack_us := slack_us inc,
       target_decode_step := target_decode_step inc,
       expected_reuse_window_tokens := expected_reuse_window_tokens inc,
       request_priority := request_priority inc, recency_score := recency_score inc\<rparr>"
| "merge_update MARKED_COLD inc e =
     e\<lparr>priority := priority inc, phase := phase inc, deadline_us := deadline_us inc,
       slack_us := slack_us inc, compression_ok := compression_ok inc, recompute_ok := recompute_ok inc,
       prefetch_ok := prefetch_ok inc, recency_score := recency_score inc\<rparr>"
| "merge_update ACCESSED inc e =
     e\<lparr>last_access_step := last_access_step inc, recency_score := recency_score inc,
       phase := phase inc, priority := priority inc, deadline_us := deadline_us inc,
       slack_us := slack_us inc, target_decode_step := target_decode_step inc,
       expected_reuse_window_tokens := expected_reuse_window_tokens inc,
       pin_requested := pin_requested inc, prefetch_ok := prefetch_ok inc\<rparr>"
| "merge_update COMMITTED inc e = e\<lparr>is_committed := is_committed inc, is_draft := is_draft inc\<rparr>"
| "merge_update _ inc e = inc\<lparr>object_id := object_id e\<rparr>"

definition merge_intent :: "event_type \<Rightarrow> mintent \<Rightarrow> mintent \<Rightarrow> mintent result" where
  "merge_intent et existing incoming = copy_with (merge_update et incoming) existing"

text \<open>The intent a handler works on: the event's, merged over the live block when there is one.\<close>

definition incoming_intent :: "mevent \<Rightarrow> mintent option \<Rightarrow> mintent result" where
  "incoming_intent ev existing =
     bind_r (copy_with id (ev_intent ev)) (\<lambda>intent.
       case existing of None \<Rightarrow> Inr intent | Some e \<Rightarrow> merge_intent (ev_type ev) e intent)"

section \<open>Handlers\<close>

definition put_block :: "mintent \<Rightarrow> sim \<Rightarrow> sim" where
  "put_block b s = s\<lparr>live_blocks := AList.update (object_id b) b (live_blocks s)\<rparr>"

definition on_allocated ::
  "set_order \<Rightarrow> config \<Rightarrow> int \<Rightarrow> mintent \<Rightarrow> sim \<Rightarrow> (sim \<times> int) outcome" where
  "on_allocated ord cfg step intent s =
     (let s1 = put_block intent s;
          s2 = s1\<lparr>peak_hbm_demand_bytes := max (peak_hbm_demand_bytes s1)
                    (hbm_used s1 + (if current_tier intent = HBM then size_bytes intent else 0))\<rparr>
      in if current_tier intent = HBM then
           map_option (\<lambda>(t, added). Inr (record_usage t, base_step_latency_us cfg + added))
             (ensure_hbm_capacity ord cfg step
                (s2\<lparr>hbm_blocks := insert (object_id intent) (hbm_blocks s2)\<rparr>))
         else if current_tier intent = DRAM then
           Some (Inr (record_usage (s2\<lparr>dram_blocks := insert (object_id intent) (dram_blocks s2)\<rparr>),
                      base_step_latency_us cfg))
         else Some (Inr (record_usage s2, base_step_latency_us cfg)))"

definition access_update :: "int \<Rightarrow> mintent \<Rightarrow> mintent \<Rightarrow> mintent" where
  "access_update step intent b =
     b\<lparr>last_access_step := step, recency_score := max (recency_score intent) 1, phase := phase intent,
       priority := priority intent, deadline_us := deadline_us intent, slack_us := slack_us intent,
       target_decode_step := target_decode_step intent,
       expected_reuse_window_tokens := expected_reuse_window_tokens intent,
       pin_requested := pin_requested intent, prefetch_ok := prefetch_ok intent\<rparr>"

text \<open>A miss moves the accessed block to HBM, a hit only records the usage.\<close>

definition serve_access ::
  "set_order \<Rightarrow> config \<Rightarrow> int \<Rightarrow> mintent \<Rightarrow> sim \<Rightarrow> (sim \<times> int) outcome" where
  "serve_access ord cfg step block s =
     (if object_id block \<notin> hbm_blocks s then
        map_option (\<lambda>(t, added). Inr (t, base_step_latency_us cfg + miss_penalty_us cfg + added))
          (move_to_hbm ord cfg block step
            (s\<lparr>miss_count := miss_count s + 1,
               decode_critical_misses :=
                 decode_critical_misses s + (if is_decode_critical block then 1 else 0)\<rparr>))
      else Some (Inr (record_usage s, base_step_latency_us cfg)))"

definition on_accessed ::
  "set_order \<Rightarrow> config \<Rightarrow> int \<Rightarrow> mintent \<Rightarrow> sim \<Rightarrow> (sim \<times> int) outcome" where
  "on_accessed ord cfg step intent s =
     (let s1 = (if object_id intent \<notin> dict_keys (live_blocks s) then put_block intent s else s)
      in case dict_get (live_blocks s1) (object_id intent) of
           None \<Rightarrow> Some (Inl (KeyError (object_id intent)))
         | Some b \<Rightarrow>
             bind_o (Some (copy_with (access_update step intent) b)) (\<lambda>block.
               serve_access ord cfg step block
                 (s1\<lparr>live_blocks := AList.update (object_id intent) block (live_blocks s1)\<rparr>)))"

definition on_marked_decode_critical ::
  "config \<Rightarrow> mintent option \<Rightarrow> mintent \<Rightarrow> sim \<Rightarrow> (sim \<times> int) outcome" where
  "on_marked_decode_critical cfg existing intent s =
     bind_o (Some (case existing of
         None \<Rightarrow> copy_with (\<lambda>i. i\<lparr>priority := DECODE_CRITICAL, pin_requested := True\<rparr>) intent
       | Some e \<Rightarrow> copy_with (\<lambda>i. i\<lparr>priority := DECODE_CRITICAL, phase := phase intent,
           pin_requested := True, deadline_us := deadline_us intent, slack_us := slack_us intent,
           target_decode_step := target_decode_step intent,
           expected_reuse_window_tokens := expected_reuse_window_tokens intent,
           request_priority := request_priority intent, recency_score := recency_score intent\<rparr>) e))
       (\<lambda>b. Some (Inr (s\<lparr>live_blocks := AList.update (object_id intent) b (live_blocks s)\<rparr>,
                       base_step_latency_us cfg)))"

definition on_marked_cold ::
  "config \<Rightarrow> mintent option \<Rightarrow> mintent \<Rightarrow> sim \<Rightarrow> (sim \<times> int) outcome" where
  "on_marked_cold cfg existing intent s =
     (case existing of
        None \<Rightarrow> Some (Inr (s, base_step_latency_us cfg))
      | Some e \<Rightarrow>
          bind_o (Some (copy_with (\<lambda>i. i\<lparr>priority := COLD, phase := phase intent,
              deadline_us := deadline_us intent, slack_us := slack_us intent,
              compression_ok := compression_ok intent, recompute_ok := recompute_ok intent,
              prefetch_ok := prefetch_ok intent, recency_score := recency_score intent\<rparr>) e))
            (\<lambda>b. Some (Inr (s\<lparr>live_blocks := AList.update (object_id intent) b (live_blocks s)\<rparr>,
                            base_step_latency_us cfg))))"

definition on_committed ::
  "config \<Rightarrow> mintent option \<Rightarrow> mintent \<Rightarrow> sim \<Rightarrow> (sim \<times> int) outcome" where
  "on_committed cfg existing intent s =
     (case existing of
        None \<Rightarrow> Some (Inr (s, base_step_latency_us cfg))
      | Some e \<Rightarrow>
          bind_o (Some (copy_with (\<lambda>i. i\<lparr>is_committed := True, is_draft := False\<rparr>) e))
            (\<lambda>b. Some (Inr (s\<lparr>live_blocks := AList.update (object_id intent) b (live_blocks s)\<rparr>,
                            base_step_latency_us cfg))))"

definition on_spilled :: "config \<Rightarrow> mintent option \<Rightarrow> sim \<Rightarrow> (sim \<times> int) outcome" where
  "on_spilled cfg existing s =
     (case existing of
        None \<Rightarrow> Some (Inr (s, base_step_latency_us cfg))
      | Some e \<Rightarrow>
          if DRAM \<in> allowed_tiers e then
            bind_o (Some (copy_with (\<lambda>i. i\<lparr>current_tier := DRAM\<rparr>) e)) (\<lambda>updated.
              Some (Inr (s\<lparr>hbm_blocks := hbm_blocks s - {object_id e},
                           dram_blocks := insert (object_id e) (dram_blocks s),
                           live_blocks := AList.update (object_id e) updated (live_blocks s),
                           spill_count := spill_count s + 1\<rparr>,
                         base_step_latency_us cfg + spill_latency_us cfg)))
          else Some (Inr (s, base_step_latency_us cfg)))"

definition on_prefetched ::
  "set_order \<Rightarrow> config \<Rightarrow> int \<Rightarrow> mintent \<Rightarrow> sim \<Rightarrow> (sim \<times> int) outcome" where
  "on_prefetched ord cfg step intent s =
     (case dict_get (live_blocks s) (object_id intent) of
        None \<Rightarrow> Some (Inr (s, base_step_latency_us cfg))
      | Some block \<Rightarrow>
          if object_id block \<in> hbm_blocks s then Some (Inr (s, base_step_latency_us cfg))
          else bind_o (Some (merge_intent PREFETCHED block intent)) (\<lambda>merged.
            let s1 = put_block merged s
            in if should_prefetch (cfg_policy cfg) merged step then
                 map_option (\<lambda>(t, added).
                     Inr (log_decision cfg step ''prefetch'' merged
                            (''Prefetched '' @ object_id merged
                             @ '' because it is urgent and prefetchable under ''
                             @ policy_name (cfg_policy cfg) @ ''.'') False t,
                          base_step_latency_us cfg + prefetch_latency_us cfg + added))
                   (move_to_hbm ord cfg merged step (s1\<lparr>prefetch_count := prefetch_count s1 + 1\<rparr>))
               else Some (Inr (s1, base_step_latency_us cfg))))"

definition on_evicted :: "config \<Rightarrow> mintent option \<Rightarrow> sim \<Rightarrow> (sim \<times> int) outcome" where
  "on_evicted cfg existing s =
     (case existing of
        None \<Rightarrow> Some (Inr (s, base_step_latency_us cfg))
      | Some e \<Rightarrow>
          Some (Inr (s\<lparr>hbm_blocks := hbm_blocks s - {object_id e},
                       dram_blocks := dram_blocks s - {object_id e},
                       decode_critical_evictions :=
                         decode_critical_evictions s + (if is_decode_critical e then 1 else 0),
                       eviction_count := eviction_count s + 1\<rparr>,
                     base_step_latency_us cfg)))"

definition on_freed :: "config \<Rightarrow> mintent \<Rightarrow> sim \<Rightarrow> (sim \<times> int) outcome" where
  "on_freed cfg intent s =
     Some (Inr (s\<lparr>live_blocks := AList.delete (object_id intent) (live_blocks s),
                  hbm_blocks := hbm_blocks s - {object_id intent},
                  dram_blocks := dram_blocks s - {object_id intent}\<rparr>,
                base_step_latency_us cfg))"

section \<open>One event, and a run\<close>

text \<open>The recency decay at the first event of a new step.\<close>

definition decay_block :: "mintent \<Rightarrow> mintent result" where
  "decay_block b = copy_with (\<lambda>i. i\<lparr>recency_score := max (fsub (recency_score i) (fl (3 / 100))) 0\<rparr>) b"

definition decay :: "int \<Rightarrow> sim \<Rightarrow> sim result" where
  "decay step s =
     (if step \<noteq> last_decay_step s then
        bind_r (map_r (\<lambda>(k, b). bind_r (decay_block b) (\<lambda>b'. Inr (k, b'))) (live_blocks s))
          (\<lambda>live. Inr (s\<lparr>live_blocks := live, last_decay_step := step\<rparr>))
      else Inr s)"

definition dispatch_event ::
  "set_order \<Rightarrow> config \<Rightarrow> mevent \<Rightarrow> mintent option \<Rightarrow> mintent \<Rightarrow> sim \<Rightarrow> (sim \<times> int) outcome" where
  "dispatch_event ord cfg ev existing intent s =
     (case ev_type ev of
        ALLOCATED \<Rightarrow> on_allocated ord cfg (ev_step ev) intent s
      | ACCESSED \<Rightarrow> on_accessed ord cfg (ev_step ev) intent s
      | MARKED_DECODE_CRITICAL \<Rightarrow> on_marked_decode_critical cfg existing intent s
      | MARKED_COLD \<Rightarrow> on_marked_cold cfg existing intent s
      | COMMITTED \<Rightarrow> on_committed cfg existing intent s
      | SPILLED \<Rightarrow> on_spilled cfg existing s
      | PREFETCHED \<Rightarrow> on_prefetched ord cfg (ev_step ev) intent s
      | EVICTED \<Rightarrow> on_evicted cfg existing s
      | FREED \<Rightarrow> on_freed cfg intent s
      | MISS \<Rightarrow> Some (Inr (s, base_step_latency_us cfg)))"

definition handle_event :: "set_order \<Rightarrow> config \<Rightarrow> mevent \<Rightarrow> sim \<Rightarrow> sim outcome" where
  "handle_event ord cfg ev s =
     (let existing = dict_get (live_blocks s) (object_id (ev_intent ev))
      in bind_o (Some (incoming_intent ev existing)) (\<lambda>intent.
         bind_o (dispatch_event ord cfg ev existing intent s) (\<lambda>(s1, latency).
         bind_o (Some (decay (ev_step ev) s1)) (\<lambda>s2.
         Some (Inr (s2\<lparr>latencies := latencies s2 @ [latency]\<rparr>))))))"

definition run_events :: "set_order \<Rightarrow> config \<Rightarrow> mevent list \<Rightarrow> sim \<Rightarrow> sim outcome" where
  "run_events ord cfg = fold_o (handle_event ord cfg)"

record simulation_result =
  res_policy_name :: string
  total_blocks :: int
  total_steps :: int
  res_hbm_capacity_bytes :: int
  res_dram_capacity_bytes :: int
  res_peak_hbm_demand_bytes :: int
  res_actual_peak_hbm_used_bytes :: int
  hbm_bytes_saved :: int
  res_capacity_exhaustion_events :: int
  res_pinned_capacity_exhaustion_events :: int
  res_spill_count :: int
  res_prefetch_count :: int
  res_miss_count :: int
  res_eviction_count :: int
  total_latency_us :: int
  p50_latency_us :: pyfloat
  p95_latency_us :: pyfloat
  p99_latency_us :: pyfloat
  res_decode_critical_misses :: int
  decode_critical_miss_rate :: pyfloat
  res_decode_critical_evictions :: int
  final_hbm_used_bytes :: int
  final_dram_used_bytes :: int

definition max_step :: "mevent list \<Rightarrow> int" where
  "max_step events = fold max (map ev_step events) (if events = [] then -1 else ev_step (hd events))"

definition simulation_summary :: "config \<Rightarrow> mevent list \<Rightarrow> sim \<Rightarrow> simulation_result result" where
  "simulation_summary cfg events s =
     (let blocks = int (card ((\<lambda>e. object_id (ev_intent e)) ` set events))
      in bind_r (percentile_ints (latencies s) 50) (\<lambda>p50.
         bind_r (percentile_ints (latencies s) 95) (\<lambda>p95.
         bind_r (percentile_ints (latencies s) 99) (\<lambda>p99.
         Inr \<lparr>res_policy_name = policy_name (cfg_policy cfg), total_blocks = blocks,
           total_steps = max_step events + 1, res_hbm_capacity_bytes = hbm_capacity_bytes cfg,
           res_dram_capacity_bytes = dram_capacity_bytes cfg,
           res_peak_hbm_demand_bytes = peak_hbm_demand_bytes s,
           res_actual_peak_hbm_used_bytes = actual_peak_hbm_used_bytes s,
           hbm_bytes_saved = max (peak_hbm_demand_bytes s - actual_peak_hbm_used_bytes s) 0,
           res_capacity_exhaustion_events = capacity_exhaustion_events s,
           res_pinned_capacity_exhaustion_events = pinned_capacity_exhaustion_events s,
           res_spill_count = spill_count s, res_prefetch_count = prefetch_count s,
           res_miss_count = miss_count s, res_eviction_count = eviction_count s,
           total_latency_us = sum_list (latencies s), p50_latency_us = p50, p95_latency_us = p95,
           p99_latency_us = p99, res_decode_critical_misses = decode_critical_misses s,
           decode_critical_miss_rate = min (fl (of_int (decode_critical_misses s) / of_int (max blocks 1))) 1,
           res_decode_critical_evictions = decode_critical_evictions s,
           final_hbm_used_bytes = hbm_used s, final_dram_used_bytes = dram_used s\<rparr>))))"

definition run :: "set_order \<Rightarrow> config \<Rightarrow> mevent list \<Rightarrow> sim \<Rightarrow> (sim \<times> simulation_result) outcome" where
  "run ord cfg events s =
     bind_o (run_events ord cfg events s) (\<lambda>t.
     bind_o (Some (simulation_summary cfg events t)) (\<lambda>r. Some (Inr (t, r))))"

end
