(* ===== verification/Report.thy ===== *)
theory Report
  imports Trace Simulator
begin

text \<open>
  What the program prints and writes about a run: sizes in units, fixed-point numbers, the result and
  the decisions as JSON, the comparison table of \<open>src/kv_memory_intent/metrics.py\<close>, the CSV of a sweep,
  and the trace summary of \<open>trace.py\<close>. A file is its text; \<open>print\<close> ends a text with a newline.
\<close>

section \<open>Numbers\<close>

text \<open>\<open>round(x, n)\<close>: the decimal of \<open>n\<close> digits nearest to the exact value, ties to even, as a float.\<close>

definition py_round :: "nat \<Rightarrow> pyfloat \<Rightarrow> pyfloat" where
  "py_round n x = fl (of_int (round_half_even (x * 10 ^ n)) / 10 ^ n)"

text \<open>\<open>f"{x:.nf}"\<close>: the exact value rounded to \<open>n\<close> decimals, ties to even.\<close>

definition fixed :: "nat \<Rightarrow> pyfloat \<Rightarrow> string" where
  "fixed n x =
     (let digits = nat_str (nat (round_half_even (\<bar>x\<bar> * 10 ^ n)));
          padded = replicate (n + 1 - length digits) (CHR ''0'') @ digits;
          k = length padded - n
      in (if x < 0 then ''-'' else []) @ take k padded @ (if n = 0 then [] else ''.'' @ drop k padded))"

fun scale_bytes :: "string list \<Rightarrow> pyfloat \<Rightarrow> string" where
  "scale_bytes [] x = fixed 1 x @ '' TiB''"
| "scale_bytes (u # us) x =
     (if \<bar>x\<bar> < 1024 \<or> us = [] then fixed 1 x @ '' '' @ u else scale_bytes us (fdiv x 1024))"

definition format_bytes :: "int \<Rightarrow> string" where
  "format_bytes n = scale_bytes [''B'', ''KiB'', ''MiB'', ''GiB'', ''TiB''] (int_to_float n)"

section \<open>JSON with indentation\<close>

text \<open>\<open>json.dumps(v, indent=2)\<close> at a nesting level.\<close>

definition indentation :: "nat \<Rightarrow> string" where
  "indentation level = newline @ replicate (2 * level) (CHR '' '')"

fun json_pretty :: "nat \<Rightarrow> json \<Rightarrow> string" where
  "json_pretty l (JList xs) =
     (if xs = [] then ''[]''
      else ''['' @ indentation (l + 1) @ py_join ('','' @ indentation (l + 1)) (map (json_pretty (l + 1)) xs)
        @ indentation l @ '']'')"
| "json_pretty l (JDict d) =
     (if d = [] then ''{}''
      else ''{'' @ indentation (l + 1) @ py_join ('','' @ indentation (l + 1))
          (map (\<lambda>kv. quote (fst kv) @ '': '' @ json_pretty (l + 1) (snd kv)) d) @ indentation l @ ''}'')"
| "json_pretty l j = json_text j"

section \<open>Results and decisions\<close>

definition result_to_dict :: "simulation_result \<Rightarrow> jdict" where
  "result_to_dict r =
     [(''policy_name'', JStr (res_policy_name r)), (''total_blocks'', JInt (total_blocks r)),
      (''total_steps'', JInt (total_steps r)), (''hbm_capacity_bytes'', JInt (res_hbm_capacity_bytes r)),
      (''dram_capacity_bytes'', JInt (res_dram_capacity_bytes r)),
      (''peak_hbm_demand_bytes'', JInt (res_peak_hbm_demand_bytes r)),
      (''actual_peak_hbm_used_bytes'', JInt (res_actual_peak_hbm_used_bytes r)),
      (''hbm_bytes_saved'', JInt (hbm_bytes_saved r)),
      (''capacity_exhaustion_events'', JInt (res_capacity_exhaustion_events r)),
      (''pinned_capacity_exhaustion_events'', JInt (res_pinned_capacity_exhaustion_events r)),
      (''spill_count'', JInt (res_spill_count r)), (''prefetch_count'', JInt (res_prefetch_count r)),
      (''miss_count'', JInt (res_miss_count r)), (''eviction_count'', JInt (res_eviction_count r)),
      (''total_latency_us'', JInt (total_latency_us r)), (''p50_latency_us'', JFloat (p50_latency_us r)),
      (''p95_latency_us'', JFloat (p95_latency_us r)), (''p99_latency_us'', JFloat (p99_latency_us r)),
      (''decode_critical_misses'', JInt (res_decode_critical_misses r)),
      (''decode_critical_miss_rate'', JFloat (decode_critical_miss_rate r)),
      (''decode_critical_evictions'', JInt (res_decode_critical_evictions r)),
      (''final_hbm_used_bytes'', JInt (final_hbm_used_bytes r)),
      (''final_dram_used_bytes'', JInt (final_dram_used_bytes r))]"

definition json_opt_str :: "string option \<Rightarrow> json" where
  "json_opt_str x = (case x of None \<Rightarrow> JNull | Some s \<Rightarrow> JStr s)"

definition decision_to_dict :: "decision \<Rightarrow> jdict" where
  "decision_to_dict d =
     [(''step'', JInt (dec_step d)), (''action'', JStr (dec_action d)), (''policy'', JStr (dec_policy d)),
      (''victim_object_id'', json_opt_str (victim_object_id d)),
      (''victim_priority'', json_opt_str (map_option priority_value (victim_priority d))),
      (''victim_phase'', json_opt_str (map_option phase_value (victim_phase d))),
      (''victim_request_priority'', json_opt (victim_request_priority d)),
      (''victim_deadline_us'', json_opt (victim_deadline_us d)), (''reason'', JStr (dec_reason d)),
      (''avoided_decode_critical'', JBool (avoided_decode_critical d))]"

definition write_decision_log :: "decision list \<Rightarrow> string" where
  "write_decision_log ds = concat (map (\<lambda>d. json_dumps (JDict (decision_to_dict d)) @ newline) ds)"

section \<open>The comparison table\<close>

definition table_header :: string where
  "table_header = ''| Policy | P50 latency | P95 latency | P99 latency | Misses | Decode-critical misses | ''
     @ ''Decode-critical miss rate | Evictions | Decode-critical evictions | Spills | Prefetches | HBM saved | ''
     @ ''P99 improvement vs LRU | Decode-critical miss reduction vs LRU |''"

definition table_row :: "string list \<Rightarrow> string" where
  "table_row cells = ''| '' @ py_join '' | '' cells @ '' |''"

definition p99_improvement :: "simulation_result \<Rightarrow> simulation_result \<Rightarrow> pyfloat" where
  "p99_improvement baseline r =
     (if p99_latency_us baseline \<noteq> 0
      then fmul (fdiv (fsub (p99_latency_us baseline) (p99_latency_us r)) (p99_latency_us baseline)) 100 else 0)"

definition miss_reduction :: "simulation_result \<Rightarrow> simulation_result \<Rightarrow> pyfloat" where
  "miss_reduction baseline r =
     (let b = res_decode_critical_misses baseline in
      if b \<noteq> 0 then fmul (fl (of_int (b - res_decode_critical_misses r) / of_int b)) 100 else 0)"

definition comparison_cells :: "simulation_result \<Rightarrow> simulation_result \<Rightarrow> string list" where
  "comparison_cells baseline r =
     [res_policy_name r, fixed 1 (p50_latency_us r) @ '' us'', fixed 1 (p95_latency_us r) @ '' us'',
      fixed 1 (p99_latency_us r) @ '' us'', int_str (res_miss_count r),
      int_str (res_decode_critical_misses r), fixed 3 (decode_critical_miss_rate r),
      int_str (res_eviction_count r), int_str (res_decode_critical_evictions r),
      int_str (res_spill_count r), int_str (res_prefetch_count r), format_bytes (hbm_bytes_saved r),
      fixed 1 (p99_improvement baseline r) @ ''%'', fixed 1 (miss_reduction baseline r) @ ''%'']"

definition baseline_of :: "simulation_result list \<Rightarrow> simulation_result" where
  "baseline_of results =
     (case filter (\<lambda>r. res_policy_name r = ''LRU'') results of [] \<Rightarrow> hd results | r # _ \<Rightarrow> r)"

definition compare_results :: "simulation_result list \<Rightarrow> string" where
  "compare_results results =
     (if results = [] then ''No results.''
      else py_join newline ([table_header, ''|'' @ py_join ''|'' (replicate 14 ''---'') @ ''|'']
        @ map (\<lambda>r. table_row (comparison_cells (baseline_of results) r)) results))"

section \<open>CSV\<close>

text \<open>\<open>csv.DictWriter\<close> with minimal quoting: the values of the listed columns, absent ones empty; a key that is no
  column raises.\<close>

definition csv_field :: "string \<Rightarrow> string" where
  "csv_field s =
     (if list_ex (\<lambda>ch. (of_char ch :: nat) \<in> {10, 13, 34, 44}) s
      then [CHR 0x22] @ concat (map (\<lambda>ch. if ch = CHR 0x22 then [ch, ch] else [ch]) s) @ [CHR 0x22] else s)"

definition csv_value :: "conversions \<Rightarrow> json \<Rightarrow> string" where
  "csv_value c j = (if j = JNull then [] else py_str c j)"

definition csv_line :: "string list \<Rightarrow> string" where
  "csv_line cells = py_join '','' (map csv_field cells) @ [char_of (13 :: nat), char_of (10 :: nat)]"

definition csv_row :: "conversions \<Rightarrow> string list \<Rightarrow> jdict \<Rightarrow> string result" where
  "csv_row c columns row =
     (if list_all (\<lambda>kv. fst kv \<in> set columns) row
      then Inr (csv_line (map (\<lambda>k. case dict_get row k of None \<Rightarrow> [] | Some v \<Rightarrow> csv_value c v) columns))
      else Inl (ValueError ''dict contains fields not in fieldnames''))"

definition csv_text :: "conversions \<Rightarrow> string list \<Rightarrow> jdict list \<Rightarrow> string result" where
  "csv_text c columns rows =
     bind_r (map_r (csv_row c columns) rows) (\<lambda>ls. Inr (csv_line columns @ concat ls))"

definition sweep_columns :: "string list" where
  "sweep_columns = [''policy'', ''hbm_mb'', ''p50_latency_us'', ''p95_latency_us'', ''p99_latency_us'',
     ''total_misses'', ''decode_critical_misses'', ''evictions'', ''decode_critical_evictions'', ''spills'',
     ''prefetches'', ''hbm_bytes_saved'']"

definition write_sweep_csv :: "conversions \<Rightarrow> jdict list \<Rightarrow> string result" where
  "write_sweep_csv c rows = csv_text c sweep_columns rows"

section \<open>The trace summary\<close>

definition summary_lines :: "trace_summary \<Rightarrow> string list" where
  "summary_lines s =
     [''## Trace Summary'', [], ''- Total events: '' @ int_str (total_events s),
      ''- Unique blocks: '' @ int_str (total_unique_blocks s),
      ''- Total bytes represented: '' @ format_bytes (total_bytes_represented s),
      ''- Decode-critical bytes: '' @ format_bytes (decode_critical_bytes s),
      ''- Committed blocks: '' @ int_str (committed_blocks s), ''- Draft blocks: '' @ int_str (draft_blocks s),
      ''- Spill events: '' @ int_str (spill_events s), ''- Miss events: '' @ int_str (miss_events s),
      ''- Eviction events: '' @ int_str (eviction_events s),
      ''- Prefetch events: '' @ int_str (prefetch_events s), [], ''### Bytes By Tier'']
     @ map (\<lambda>t. ''- '' @ tier_value t @ '': '' @ format_bytes (count_of (bytes_by_current_tier s) (tier_value t)))
         [HBM, DRAM, CXL, NVME]
     @ [[], ''### Events By Type''] @ map (\<lambda>kn. ''- '' @ fst kn @ '': '' @ int_str (snd kn)) (events_by_type s)"

definition print_summary :: "recorder \<Rightarrow> string" where
  "print_summary r = py_join newline (summary_lines (trace_summary_of r))"

definition counts_json :: "(string, int) dict \<Rightarrow> json" where
  "counts_json d = JDict (map (\<lambda>kn. (fst kn, JInt (snd kn))) d)"

definition summary_to_dict :: "trace_summary \<Rightarrow> jdict" where
  "summary_to_dict s =
     [(''total_events'', JInt (total_events s)), (''events_by_type'', counts_json (events_by_type s)),
      (''total_unique_blocks'', JInt (total_unique_blocks s)),
      (''total_bytes_represented'', JInt (total_bytes_represented s)),
      (''bytes_by_current_tier'', counts_json (bytes_by_current_tier s)),
      (''decode_critical_bytes'', JInt (decode_critical_bytes s)), (''committed_blocks'', JInt (committed_blocks s)),
      (''draft_blocks'', JInt (draft_blocks s)), (''spill_events'', JInt (spill_events s)),
      (''miss_events'', JInt (miss_events s)), (''eviction_events'', JInt (eviction_events s)),
      (''prefetch_events'', JInt (prefetch_events s))]"

end
