(* ===== verification/Emission.thy ===== *)
theory Emission
  imports Events
begin

text \<open>
  The event lists that the importers and the workload generator build: a step counter and the list
  so far, extended one event at a time (\<open>events.append(MemoryIntentEvent(step=step, ...)); step += 1\<close>).
  \<open>well_emitted\<close> is what every such list satisfies: consecutive steps from 0, sound intents, allocations
  in HBM, and no event about an object that was not allocated before.
\<close>

type_synonym emitter = "int \<times> mevent list"

definition emit :: "event_type \<Rightarrow> mintent \<Rightarrow> string \<Rightarrow> emitter \<Rightarrow> emitter result" where
  "emit et i reason st =
     bind_r (mk_event (fst st) et i reason) (\<lambda>e. Inr (fst st + 1, snd st @ [e]))"

definition allocated :: "mevent list \<Rightarrow> string set" where
  "allocated es = (\<lambda>e. object_id (ev_intent e)) ` {e \<in> set es. ev_type e = ALLOCATED}"

fun allocated_first :: "string set \<Rightarrow> mevent list \<Rightarrow> bool" where
  "allocated_first known [] = True"
| "allocated_first known (e # es) =
     ((ev_type e = ALLOCATED \<or> object_id (ev_intent e) \<in> known)
      \<and> allocated_first (insert (object_id (ev_intent e)) known) es)"

definition well_emitted :: "emitter \<Rightarrow> bool" where
  "well_emitted st \<longleftrightarrow> fst st = int (length (snd st)) \<and> map ev_step (snd st) = map int [0..<length (snd st)]
     \<and> (\<forall>e \<in> set (snd st). valid_event e \<and> sound (ev_intent e)
          \<and> (ev_type e = ALLOCATED \<longrightarrow> current_tier (ev_intent e) = HBM)) \<and> allocated_first {} (snd st)"

lemma well_emitted_start [simp]: "well_emitted (0, [])"
  by (simp add: well_emitted_def)

lemma allocated_append: "allocated (es @ [e]) = allocated es \<union> (if ev_type e = ALLOCATED then {object_id (ev_intent e)} else {})"
  by (auto simp: allocated_def)

lemma allocated_first_append:
  "allocated_first known (es @ [e]) \<longleftrightarrow> allocated_first known es
     \<and> (ev_type e = ALLOCATED \<or> object_id (ev_intent e) \<in> known \<union> (\<lambda>e. object_id (ev_intent e)) ` set es)"
  by (induction es arbitrary: known) auto

lemma allocated_subset: "allocated es \<subseteq> (\<lambda>e. object_id (ev_intent e)) ` set es"
  by (auto simp: allocated_def)

lemma emit_mono: "emit et i r st = Inr st' \<Longrightarrow> allocated (snd st) \<subseteq> allocated (snd st')"
  by (auto simp: emit_def bind_r_Inr_iff allocated_append)

text \<open>What an event needs: allocations place the block in HBM, any other event is about a known block.\<close>

definition may_emit :: "emitter \<Rightarrow> event_type \<Rightarrow> mintent \<Rightarrow> bool" where
  "may_emit st et i \<longleftrightarrow> (if et = ALLOCATED then current_tier i = HBM else object_id i \<in> allocated (snd st))"

lemma may_emit_known:
  "object_id i \<in> allocated (snd st) \<Longrightarrow> et \<noteq> ALLOCATED \<Longrightarrow> may_emit st et i"
  by (simp add: may_emit_def)

lemma post_init_sound: "intent_ranges i \<and> routable i \<Longrightarrow> \<exists>j. post_init i = Inr j \<and> sound j \<and> object_id j = object_id i"
  by (simp add: post_init_eq sound_def)

lemma emit_total:
  assumes "well_emitted st" "sound i" "may_emit st et i"
  shows "\<exists>st'. emit et i r st = Inr st' \<and> well_emitted st' \<and> object_id i \<in> allocated (snd st')
    \<and> allocated (snd st) \<subseteq> allocated (snd st')
    \<and> (\<exists>e. snd st' = snd st @ [e] \<and> ev_type e = et \<and> ev_intent e = i)"
proof -
  define e where "e = \<lparr>ev_step = fst st, ev_type = et, ev_intent = i, ev_reason = Some r, ev_latency_us = None\<rparr>"
  have "emit et i r st = Inr (fst st + 1, snd st @ [e])"
    using assms(1) by (simp add: emit_def mk_event_def event_post_init_def well_emitted_def e_def)
  moreover have "valid_event e" using assms(1,2) by (simp add: valid_event_def e_def sound_def well_emitted_def)
  moreover have "allocated_first {} (snd st @ [e])"
    using assms allocated_subset [of "snd st"]
    by (auto simp: allocated_first_append well_emitted_def e_def may_emit_def split: if_splits)
  ultimately show ?thesis
    using assms by (auto simp: well_emitted_def allocated_append e_def may_emit_def split: if_splits)
qed

end
