(* ===== verification/StateResult.thy ===== *)
theory StateResult
  imports Prelude
begin

text \<open>
  Methods of an object that changes its own attributes and may raise: a function from the object's
  state to an exception or a value with the new state. \<open>delivers P m Q\<close> is total correctness: from a
  state satisfying \<open>P\<close> the method raises nothing, and its value and new state satisfy \<open>Q\<close>. The
  rules below take a method apart the way the code composes it.
\<close>

type_synonym ('s, 'a) routine = "'s \<Rightarrow> ('a \<times> 's) result"

definition return_s :: "'a \<Rightarrow> ('s, 'a) routine" where "return_s x s = Inr (x, s)"

definition bind_s :: "('s, 'a) routine \<Rightarrow> ('a \<Rightarrow> ('s, 'b) routine) \<Rightarrow> ('s, 'b) routine" where
  "bind_s m k s = bind_r (m s) (\<lambda>xs. k (fst xs) (snd xs))"

text \<open>An expression that may raise, and an assignment to attributes.\<close>

definition lift_s :: "'a result \<Rightarrow> ('s, 'a) routine" where "lift_s r s = bind_r r (\<lambda>x. Inr (x, s))"

definition read_s :: "('s \<Rightarrow> 'a) \<Rightarrow> ('s, 'a) routine" where "read_s f s = Inr (f s, s)"

definition update_s :: "('s \<Rightarrow> 's) \<Rightarrow> ('s, unit) routine" where "update_s f s = Inr ((), f s)"

text \<open>\<open>for x in xs: out.extend(body(x))\<close>\<close>

fun collect_s :: "('a \<Rightarrow> ('s, 'b list) routine) \<Rightarrow> 'a list \<Rightarrow> ('s, 'b list) routine" where
  "collect_s body [] = return_s []"
| "collect_s body (x # xs) =
     bind_s (body x) (\<lambda>ys. bind_s (collect_s body xs) (\<lambda>zs. return_s (ys @ zs)))"

lemmas method_defs = return_s_def bind_s_def lift_s_def read_s_def update_s_def

section \<open>Total correctness\<close>

definition delivers :: "('s \<Rightarrow> bool) \<Rightarrow> ('s, 'a) routine \<Rightarrow> ('a \<Rightarrow> 's \<Rightarrow> bool) \<Rightarrow> bool" where
  "delivers P m Q \<longleftrightarrow> (\<forall>s. P s \<longrightarrow> (\<exists>x t. m s = Inr (x, t) \<and> Q x t))"

lemma deliversD:
  assumes "delivers P m Q" "P s"
  obtains x t where "m s = Inr (x, t)" "Q x t"
  using assms by (auto simp: delivers_def)

lemma deliversI: "(\<And>s. P s \<Longrightarrow> \<exists>x t. m s = Inr (x, t) \<and> Q x t) \<Longrightarrow> delivers P m Q"
  by (simp add: delivers_def)

lemma delivers_weaken:
  assumes "delivers P m Q" "\<And>s. P' s \<Longrightarrow> P s" "\<And>x s. Q x s \<Longrightarrow> Q' x s"
  shows "delivers P' m Q'"
proof (rule deliversI)
  fix s assume "P' s"
  then have "P s" by (rule assms(2))
  with assms(1) obtain x t where "m s = Inr (x, t)" "Q x t" by (rule deliversD)
  with assms(3) show "\<exists>x t. m s = Inr (x, t) \<and> Q' x t" by blast
qed

lemma delivers_return: "(\<And>s. P s \<Longrightarrow> Q x s) \<Longrightarrow> delivers P (return_s x) Q"
  by (simp add: delivers_def return_s_def)

lemma delivers_read: "(\<And>s. P s \<Longrightarrow> Q (f s) s) \<Longrightarrow> delivers P (read_s f) Q"
  by (simp add: delivers_def read_s_def)

lemma delivers_update: "(\<And>s. P s \<Longrightarrow> Q () (f s)) \<Longrightarrow> delivers P (update_s f) Q"
  by (simp add: delivers_def update_s_def)

lemma delivers_lift: "r = Inr x \<Longrightarrow> (\<And>s. P s \<Longrightarrow> Q x s) \<Longrightarrow> delivers P (lift_s r) Q"
  by (simp add: delivers_def lift_s_def)

lemma delivers_bind:
  assumes "delivers P m R" "\<And>x. delivers (R x) (k x) Q"
  shows "delivers P (bind_s m k) Q"
proof (rule deliversI)
  fix s assume "P s"
  with assms(1) obtain x t where m: "m s = Inr (x, t)" "R x t" by (rule deliversD)
  from assms(2) m(2) obtain y u where "k x t = Inr (y, u)" "Q y u" by (rule deliversD)
  with m show "\<exists>y u. bind_s m k s = Inr (y, u) \<and> Q y u" by (simp add: bind_s_def)
qed

text \<open>
  A loop, with an assertion that also speaks about what was produced so far: each body produces a
  chunk that satisfies \<open>R\<close> for its element, and the loop produces the chunks one after the other.
\<close>

lemma delivers_collect:
  assumes "\<And>x acc. x \<in> set xs \<Longrightarrow> delivers (P acc) (body x) (\<lambda>ys s. P (acc @ ys) s \<and> R x ys)"
  shows "delivers (P acc) (collect_s body xs)
    (\<lambda>zs s. P (acc @ zs) s \<and> (\<exists>yss. zs = concat yss \<and> list_all2 R xs yss))"
  using assms
proof (induction xs arbitrary: acc)
  case Nil
  then show ?case by (simp add: delivers_return)
next
  case (Cons x xs)
  have rest: "delivers (\<lambda>s. P (acc @ ys) s \<and> R x ys) (bind_s (collect_s body xs) (\<lambda>zs. return_s (ys @ zs)))
      (\<lambda>zs s. P (acc @ zs) s \<and> (\<exists>yss. zs = concat yss \<and> list_all2 R (x # xs) yss))" for ys
  proof (rule delivers_bind [where R = "\<lambda>zs s. P ((acc @ ys) @ zs) s \<and> R x ys
      \<and> (\<exists>yss. zs = concat yss \<and> list_all2 R xs yss)"])
    have IH: "delivers (P (acc @ ys)) (collect_s body xs)
        (\<lambda>zs s. P ((acc @ ys) @ zs) s \<and> (\<exists>yss. zs = concat yss \<and> list_all2 R xs yss))"
      by (rule Cons.IH) (use Cons.prems in auto)
    show "delivers (\<lambda>s. P (acc @ ys) s \<and> R x ys) (collect_s body xs)
        (\<lambda>zs s. P ((acc @ ys) @ zs) s \<and> R x ys \<and> (\<exists>yss. zs = concat yss \<and> list_all2 R xs yss))"
      using IH by (auto simp: delivers_def)
    fix zs
    show "delivers (\<lambda>s. P ((acc @ ys) @ zs) s \<and> R x ys \<and> (\<exists>yss. zs = concat yss \<and> list_all2 R xs yss))
        (return_s (ys @ zs)) (\<lambda>zs s. P (acc @ zs) s \<and> (\<exists>yss. zs = concat yss \<and> list_all2 R (x # xs) yss))"
    proof (rule delivers_return)
      fix s assume s: "P ((acc @ ys) @ zs) s \<and> R x ys \<and> (\<exists>yss. zs = concat yss \<and> list_all2 R xs yss)"
      then obtain yss where "zs = concat yss" "list_all2 R xs yss" by blast
      with s have "ys @ zs = concat (ys # yss) \<and> list_all2 R (x # xs) (ys # yss)" by simp
      with s show "P (acc @ ys @ zs) s \<and> (\<exists>yss. ys @ zs = concat yss \<and> list_all2 R (x # xs) yss)"
        by (metis append.assoc)
    qed
  qed
  show ?case
    unfolding collect_s.simps by (rule delivers_bind [OF Cons.prems rest]) simp
qed

end
