(* ===== verification/VllmAdapter.thy ===== *)
theory VllmAdapter
  imports Trace Emission StateResult
begin

text \<open>
  \<open>VLLMIntentAdapter\<close> of \<open>src/kv_memory_intent/adapters/vllm_adapter.py\<close>: the passive adapter that
  turns the lifecycle signals of a serving engine (request scheduled, block allocated, prefill and
  decode steps, commit, cold, free, request finished) into intent events. \<open>adapter\<close> holds its
  attributes; \<open>blocks\<close> is a dict from (request, block) pairs to the last intent of the block. Each
  \<open>on_...\<close> method is a \<open>routine\<close> returning the events it recorded.

  A sequence object of the engine is read by \<open>getattr\<close> only; it is the dictionary of its attributes.
\<close>

section \<open>State\<close>

record request_meta =
  meta_request_priority :: int
  meta_deadline_us :: "int option"
  meta_arrival_step :: "int option"
  meta_last_decode_step :: "int option"

record adapter =
  adapter_recorder :: recorder
  default_block_size_bytes :: int
  default_allowed_tiers :: "tier set"
  blocks :: "(string \<times> int, mintent) dict"
  request_metadata :: "(string, request_meta) dict"

definition new_adapter :: "recorder option \<Rightarrow> int \<Rightarrow> tier set option \<Rightarrow> adapter" where
  "new_adapter rec block_size tiers =
     \<lparr>adapter_recorder = (case rec of None \<Rightarrow> new_recorder | Some r \<Rightarrow> r),
      default_block_size_bytes = block_size,
      default_allowed_tiers = (case tiers of None \<Rightarrow> {HBM, DRAM} | Some ts \<Rightarrow> if ts = {} then {HBM, DRAM} else ts),
      blocks = [], request_metadata = []\<rparr>"

definition adapter_object_id :: "string \<Rightarrow> int \<Rightarrow> string" where
  "adapter_object_id rid bid = tagged_id rid ''kv'' bid"

definition default_meta :: request_meta where
  "default_meta = \<lparr>meta_request_priority = 50, meta_deadline_us = None, meta_arrival_step = None,
     meta_last_decode_step = None\<rparr>"

text \<open>\<open>dict.setdefault\<close>\<close>

definition request_defaults :: "string \<Rightarrow> (adapter, request_meta) routine" where
  "request_defaults rid =
     bind_s (read_s (\<lambda>a. dict_get (request_metadata a) rid)) (\<lambda>found.
       case found of
         Some m \<Rightarrow> return_s m
       | None \<Rightarrow> bind_s (update_s (\<lambda>a. a\<lparr>request_metadata :=
             AList.update rid default_meta (request_metadata a)\<rparr>)) (\<lambda>_. return_s default_meta))"

definition store_block :: "string \<Rightarrow> int \<Rightarrow> mintent \<Rightarrow> (adapter, unit) routine" where
  "store_block rid bid b =
     update_s (\<lambda>a. a\<lparr>blocks := AList.update (rid, bid) b (blocks a)\<rparr>)"

definition adapter_record :: "mevent \<Rightarrow> (adapter, mevent) routine" where
  "adapter_record e =
     bind_s (update_s (\<lambda>a. a\<lparr>adapter_recorder := record_event e (adapter_recorder a)\<rparr>)) (\<lambda>_.
     bind_s (lift_s (copy_with id (ev_intent e))) (\<lambda>b.
     bind_s (store_block (request_id (ev_intent e)) (block_id (ev_intent e)) b) (\<lambda>_. return_s e)))"

definition compute_slack :: "int \<Rightarrow> int \<Rightarrow> int \<Rightarrow> int" where
  "compute_slack deadline offset rprio =
     (let base = max 50 (deadline div 5);
          position_penalty = offset * 40;
          priority_bonus = (rprio div 10) * 10
      in max 50 (base - position_penalty + priority_bonus))"

text \<open>\<open>int(request_meta.get("request_priority") or 50)\<close>: a priority of 0 counts as missing.\<close>

definition priority_or_default :: "request_meta \<Rightarrow> int" where
  "priority_or_default m = (if meta_request_priority m = 0 then 50 else meta_request_priority m)"

section \<open>Building an intent\<close>

record intent_args =
  arg_phase :: phase
  arg_priority :: priority
  arg_request_priority :: "int option"
  arg_deadline_us :: "int option"
  arg_size_bytes :: "int option"
  arg_is_draft :: bool
  arg_prefetch_ok :: bool
  arg_pin_requested :: bool
  arg_expected_reuse :: "int option"
  arg_recency_score :: pyfloat
  arg_step :: int

definition intent_of_args ::
  "string \<Rightarrow> int \<Rightarrow> intent_args \<Rightarrow> request_meta \<Rightarrow> int \<Rightarrow> tier set \<Rightarrow> mintent" where
  "intent_of_args rid bid args meta default_size tiers =
     (let resolved_priority = (case arg_request_priority args of None \<Rightarrow> priority_or_default meta | Some p \<Rightarrow> p);
          resolved_deadline = (case arg_deadline_us args of None \<Rightarrow> meta_deadline_us meta | Some d \<Rightarrow> Some d)
      in (new_intent (adapter_object_id rid bid) rid bid KV_CACHE (arg_phase args) (arg_priority args) tiers HBM
           (case arg_size_bytes args of None \<Rightarrow> default_size | Some n \<Rightarrow> if n = 0 then default_size else n))
         \<lparr>request_priority := resolved_priority, recency_score := arg_recency_score args,
          deadline_us := resolved_deadline,
          slack_us := map_option (\<lambda>d. compute_slack d 0 resolved_priority) resolved_deadline,
          arrival_step := meta_arrival_step meta,
          expected_reuse_window_tokens := arg_expected_reuse args,
          recompute_cost_us := Some (if arg_priority args = DECODE_CRITICAL then 4000 else 250),
          spill_cost_us := Some 200, prefetch_ok := arg_prefetch_ok args,
          pin_requested := arg_pin_requested args, is_draft := arg_is_draft args,
          created_step := arg_step args, last_access_step := arg_step args\<rparr>)"

definition make_intent :: "string \<Rightarrow> int \<Rightarrow> intent_args \<Rightarrow> (adapter, mintent) routine" where
  "make_intent rid bid args =
     bind_s (request_defaults rid) (\<lambda>meta.
     bind_s (read_s (\<lambda>a. (default_block_size_bytes a, default_allowed_tiers a))) (\<lambda>defaults.
     lift_s (post_init (intent_of_args rid bid args meta (fst defaults) (snd defaults)))))"

definition lazy_warning :: "string \<Rightarrow> string" where
  "lazy_warning reason_prefix =
     (let warning = ''block was lazily created by adapter because access arrived before allocation''
      in if reason_prefix \<noteq> [] then reason_prefix @ ''; '' @ warning else warning)"

text \<open>The update of a known block by an access; \<open>None\<close> keeps the block's own priority and deadline.\<close>

definition touch_update ::
  "int \<Rightarrow> phase \<Rightarrow> priority \<Rightarrow> bool \<Rightarrow> int option \<Rightarrow> int option \<Rightarrow> mintent \<Rightarrow> mintent" where
  "touch_update step ph pr critical rprio deadline b =
     (let resolved_priority = (case rprio of None \<Rightarrow> request_priority b | Some p \<Rightarrow> p);
          resolved_deadline = (case deadline of None \<Rightarrow> deadline_us b | Some d \<Rightarrow> Some d)
      in b\<lparr>phase := ph, priority := (if critical then DECODE_CRITICAL else pr),
           request_priority := resolved_priority, deadline_us := resolved_deadline,
           slack_us := (case resolved_deadline of None \<Rightarrow> slack_us b
                        | Some d \<Rightarrow> Some (compute_slack d 0 resolved_priority)),
           prefetch_ok := critical \<or> prefetch_ok b, pin_requested := critical \<or> pin_requested b,
           last_access_step := step\<rparr>)"

definition access_args :: "int \<Rightarrow> phase \<Rightarrow> priority \<Rightarrow> bool \<Rightarrow> int option \<Rightarrow> int option \<Rightarrow> intent_args" where
  "access_args step ph pr critical rprio deadline =
     \<lparr>arg_phase = ph, arg_priority = (if critical then DECODE_CRITICAL else pr),
      arg_request_priority = rprio, arg_deadline_us = deadline, arg_size_bytes = None,
      arg_is_draft = False, arg_prefetch_ok = critical, arg_pin_requested = critical,
      arg_expected_reuse = None, arg_recency_score = 0, arg_step = step\<rparr>"

text \<open>No caller passes \<open>is_draft\<close>, so a known block keeps its flag and a new one is not a draft.\<close>

definition get_or_create_block ::
  "int \<Rightarrow> string \<Rightarrow> int \<Rightarrow> phase \<Rightarrow> priority \<Rightarrow> bool \<Rightarrow> int option \<Rightarrow> int option \<Rightarrow> string
    \<Rightarrow> (adapter, mintent \<times> string option) routine" where
  "get_or_create_block step rid bid ph pr critical rprio deadline reason_prefix =
     bind_s (read_s (\<lambda>a. dict_get (blocks a) (rid, bid))) (\<lambda>known.
       case known of
         Some b \<Rightarrow>
           bind_s (lift_s (copy_with (touch_update step ph pr critical rprio deadline) b)) (\<lambda>b'.
           bind_s (store_block rid bid b') (\<lambda>_. return_s (b', None)))
       | None \<Rightarrow>
           bind_s (make_intent rid bid (access_args step ph pr critical rprio deadline)) (\<lambda>b.
           bind_s (store_block rid bid b) (\<lambda>_. return_s (b, Some (lazy_warning reason_prefix)))))"

text \<open>A handler's last part: copy the block, build the event (\<open>warning or reason\<close>) and record it.\<close>

definition emit_update ::
  "int \<Rightarrow> event_type \<Rightarrow> (mintent \<Rightarrow> mintent) \<Rightarrow> string \<Rightarrow> mintent \<times> string option \<Rightarrow> (adapter, mevent) routine" where
  "emit_update step et f reason found =
     bind_s (lift_s (copy_with f (fst found))) (\<lambda>i.
     bind_s (lift_s (mk_event step et i (case snd found of None \<Rightarrow> reason | Some w \<Rightarrow> w))) adapter_record)"

section \<open>Lifecycle signals\<close>

definition on_request_scheduled :: "int \<Rightarrow> string \<Rightarrow> int \<Rightarrow> int option \<Rightarrow> (adapter, mevent list) routine" where
  "on_request_scheduled step rid rprio deadline =
     bind_s (update_s (\<lambda>a. a\<lparr>request_metadata := AList.update rid
        \<lparr>meta_request_priority = rprio, meta_deadline_us = deadline, meta_arrival_step = Some step,
         meta_last_decode_step = None\<rparr> (request_metadata a)\<rparr>)) (\<lambda>_. return_s [])"

definition allocation_args :: "int \<Rightarrow> phase \<Rightarrow> int option \<Rightarrow> int option \<Rightarrow> int option \<Rightarrow> bool \<Rightarrow> intent_args" where
  "allocation_args step ph rprio deadline size_b draft =
     \<lparr>arg_phase = ph, arg_priority = (if ph = PREFILL then WARM else if draft then COLD else HOT),
      arg_request_priority = rprio, arg_deadline_us = deadline, arg_size_bytes = size_b,
      arg_is_draft = draft, arg_prefetch_ok = False, arg_pin_requested = False,
      arg_expected_reuse = Some (if ph = PREFILL then 32 else 64), arg_recency_score = fl (2 / 10),
      arg_step = step\<rparr>"

definition on_block_allocated ::
  "int \<Rightarrow> string \<Rightarrow> int \<Rightarrow> phase \<Rightarrow> int option \<Rightarrow> int option \<Rightarrow> int option \<Rightarrow> bool \<Rightarrow> (adapter, mevent) routine" where
  "on_block_allocated step rid bid ph rprio deadline size_b draft =
     bind_s (make_intent rid bid (allocation_args step ph rprio deadline size_b draft)) (\<lambda>i.
     bind_s (lift_s (mk_event step ALLOCATED i ''vLLM-style block allocation'')) adapter_record)"

definition on_block_accessed :: "int \<Rightarrow> string \<Rightarrow> int \<Rightarrow> phase \<Rightarrow> bool \<Rightarrow> (adapter, mevent) routine" where
  "on_block_accessed step rid bid ph critical =
     bind_s (get_or_create_block step rid bid ph
         (if critical then DECODE_CRITICAL else if ph = DECODE then HOT else WARM) critical None None [])
       (\<lambda>found. emit_update step ACCESSED (\<lambda>b. b\<lparr>recency_score := 1, last_access_step := step,
            prefetch_ok := critical, pin_requested := critical \<or> pin_requested b\<rparr>)
          ''vLLM-style block access'' found)"

text \<open>The recency of the block at a position of the active list.\<close>

definition position_recency :: "int \<Rightarrow> pyfloat" where
  "position_recency offset = max (fl (8 / 10)) (fsub 1 (fmul (int_to_float offset) (fl (1 / 10))))"

definition critical_update :: "int \<Rightarrow> int \<Rightarrow> int option \<Rightarrow> int \<Rightarrow> mintent \<Rightarrow> mintent" where
  "critical_update step offset deadline rprio b =
     b\<lparr>phase := DECODE, priority := DECODE_CRITICAL, pin_requested := True, prefetch_ok := True,
       deadline_us := (case deadline of None \<Rightarrow> deadline_us b | Some d \<Rightarrow> Some d),
       slack_us := (case deadline of None \<Rightarrow> slack_us b | Some d \<Rightarrow> Some (compute_slack d offset rprio)),
       target_decode_step := Some (step + offset), expected_reuse_window_tokens := Some (1 + offset),
       recency_score := position_recency offset, last_access_step := step\<rparr>"

text \<open>The metadata dictionary is shared: the assignments change the stored one.\<close>

definition note_decode :: "int \<Rightarrow> int option \<Rightarrow> int option \<Rightarrow> request_meta \<Rightarrow> request_meta" where
  "note_decode step deadline rprio m =
     m\<lparr>meta_request_priority := (case rprio of None \<Rightarrow> meta_request_priority m | Some p \<Rightarrow> p),
       meta_deadline_us := (case deadline of None \<Rightarrow> meta_deadline_us m | Some d \<Rightarrow> Some d),
       meta_last_decode_step := Some step\<rparr>"

definition decode_block ::
  "int \<Rightarrow> string \<Rightarrow> int option \<Rightarrow> int option \<Rightarrow> request_meta \<Rightarrow> int \<times> int \<Rightarrow> (adapter, mevent list) routine" where
  "decode_block step rid deadline rprio meta ob =
     bind_s (get_or_create_block step rid (snd ob) DECODE DECODE_CRITICAL True rprio deadline
         (''decode step for '' @ rid)) (\<lambda>found.
     bind_s (emit_update step MARKED_DECODE_CRITICAL
         (critical_update step (fst ob) deadline (priority_or_default meta))
         ''vLLM-style decode-critical marking'' found) (\<lambda>marked.
     bind_s (on_block_accessed step rid (snd ob) DECODE True) (\<lambda>accessed.
     return_s [marked, accessed])))"

definition on_decode_step ::
  "int \<Rightarrow> string \<Rightarrow> int list \<Rightarrow> int option \<Rightarrow> int option \<Rightarrow> (adapter, mevent list) routine" where
  "on_decode_step step rid active deadline rprio =
     bind_s (request_defaults rid) (\<lambda>meta.
     bind_s (update_s (\<lambda>a. a\<lparr>request_metadata :=
         AList.update rid (note_decode step deadline rprio meta) (request_metadata a)\<rparr>)) (\<lambda>_.
     collect_s (decode_block step rid deadline rprio (note_decode step deadline rprio meta))
       (py_enumerate active)))"

definition on_prefill_step :: "int \<Rightarrow> string \<Rightarrow> int list \<Rightarrow> (adapter, mevent list) routine" where
  "on_prefill_step step rid =
     collect_s (\<lambda>bid. bind_s (get_or_create_block step rid bid PREFILL WARM False None None []) (\<lambda>found.
       bind_s (emit_update step ACCESSED (\<lambda>b. b\<lparr>phase := PREFILL, priority := WARM, prefetch_ok := False,
           pin_requested := False, recency_score := fl (7 / 10), last_access_step := step\<rparr>)
           ''vLLM-style prefill access'' found) (\<lambda>e. return_s [e])))"

definition on_block_committed :: "int \<Rightarrow> string \<Rightarrow> int \<Rightarrow> (adapter, mevent) routine" where
  "on_block_committed step rid bid =
     bind_s (get_or_create_block step rid bid VERIFY WARM False None None [])
       (emit_update step COMMITTED (\<lambda>b. b\<lparr>is_committed := True, is_draft := False,
          priority := (if phase b \<noteq> DECODE then WARM else HOT), last_access_step := step\<rparr>)
          ''vLLM-style draft commit'')"

definition on_block_marked_cold :: "int \<Rightarrow> string \<Rightarrow> int \<Rightarrow> int option \<Rightarrow> (adapter, mevent) routine" where
  "on_block_marked_cold step rid bid reuse =
     bind_s (get_or_create_block step rid bid IDLE COLD False None None [])
       (emit_update step MARKED_COLD (\<lambda>b. b\<lparr>phase := IDLE, priority := COLD, compression_ok := True,
          recompute_ok := \<not> is_committed b,
          prefetch_ok := (case reuse of None \<Rightarrow> True | Some r \<Rightarrow> r < 1000),
          expected_reuse_window_tokens := reuse, pin_requested := False, recency_score := 0\<rparr>)
          ''vLLM-style cold marking'')"

definition on_block_freed :: "int \<Rightarrow> string \<Rightarrow> int \<Rightarrow> (adapter, mevent) routine" where
  "on_block_freed step rid bid =
     bind_s (get_or_create_block step rid bid DONE COLD False None None [])
       (emit_update step FREED (\<lambda>b. b\<lparr>phase := DONE, priority := COLD, pin_requested := False,
          prefetch_ok := False,
          current_tier := (if DRAM \<in> allowed_tiers b then DRAM else current_tier b), recency_score := 0\<rparr>)
          ''vLLM-style block free'')"

definition finish_block :: "int \<Rightarrow> string \<Rightarrow> int \<Rightarrow> (adapter, mevent list) routine" where
  "finish_block step rid bid =
     bind_s (get_or_create_block step rid bid DONE COLD False None None []) (\<lambda>found.
     bind_s (emit_update step MARKED_COLD (\<lambda>b. b\<lparr>phase := DONE, priority := COLD, pin_requested := False,
          prefetch_ok := False, compression_ok := True, recompute_ok := False, recency_score := 0\<rparr>)
          ''request finished; block marked done'' found) (\<lambda>cold.
     bind_s (on_block_freed (step + 1) rid bid) (\<lambda>freed.
     bind_s (update_s (\<lambda>a. a\<lparr>blocks := AList.delete (rid, bid) (blocks a)\<rparr>)) (\<lambda>_.
     return_s [cold, freed]))))"

definition on_request_finished :: "int \<Rightarrow> string \<Rightarrow> int list \<Rightarrow> (adapter, mevent list) routine" where
  "on_request_finished step rid bids =
     bind_s (collect_s (finish_block step rid) bids) (\<lambda>events.
     bind_s (update_s (\<lambda>a. a\<lparr>request_metadata := AList.delete rid (request_metadata a)\<rparr>)) (\<lambda>_.
     return_s events))"

section \<open>Sequence objects\<close>

type_synonym sequence = jdict

text \<open>\<open>getattr(sequence, name, None)\<close>\<close>

definition attr :: "sequence \<Rightarrow> string \<Rightarrow> json" where
  "attr sq name = (case dict_get sq name of None \<Rightarrow> JNull | Some v \<Rightarrow> v)"

definition sequence_request_id :: "conversions \<Rightarrow> sequence \<Rightarrow> string result" where
  "sequence_request_id c sq =
     (let rid = (if py_bool (attr sq ''request_id'') then attr sq ''request_id'' else attr sq ''seq_id'')
      in if rid = JNull then Inl (ValueError ''sequence must expose request_id or seq_id'')
         else Inr (py_str c rid))"

definition sequence_block_ids :: "conversions \<Rightarrow> sequence \<Rightarrow> int list result" where
  "sequence_block_ids c sq =
     (let ids = (if attr sq ''active_block_ids'' = JNull then attr sq ''block_ids'' else attr sq ''active_block_ids'')
      in if ids = JNull then Inr [] else bind_r (py_iter ids) (map_r (py_int c)))"

text \<open>\<open>int(getattr(sequence, name, 0) or 0)\<close> and \<open>int(x) if x is not None else None\<close>\<close>

definition attr_int :: "conversions \<Rightarrow> sequence \<Rightarrow> string \<Rightarrow> int result" where
  "attr_int c sq name = (if py_bool (attr sq name) then py_int c (attr sq name) else Inr 0)"

definition attr_opt_int :: "conversions \<Rightarrow> sequence \<Rightarrow> string \<Rightarrow> int option result" where
  "attr_opt_int c sq name =
     (if attr sq name = JNull then Inr None else bind_r (py_int c (attr sq name)) (\<lambda>i. Inr (Some i)))"

definition schedule_unknown :: "conversions \<Rightarrow> sequence \<Rightarrow> string \<Rightarrow> (adapter, unit) routine" where
  "schedule_unknown c sq rid =
     bind_s (read_s (\<lambda>a. dict_get (request_metadata a) rid)) (\<lambda>known.
       if known = None then
         bind_s (lift_s (attr_int c sq ''step'')) (\<lambda>step.
         bind_s (lift_s (attr_opt_int c sq ''request_priority'')) (\<lambda>rprio.
         bind_s (lift_s (attr_opt_int c sq ''deadline_us'')) (\<lambda>deadline.
         bind_s (on_request_scheduled step rid (case rprio of None \<Rightarrow> 50 | Some p \<Rightarrow> p) deadline) (\<lambda>_.
         return_s ()))))
       else return_s ())"

definition emit_sequence_accesses :: "conversions \<Rightarrow> sequence \<Rightarrow> (adapter, mevent list) routine" where
  "emit_sequence_accesses c sq =
     bind_s (lift_s (sequence_request_id c sq)) (\<lambda>rid.
     bind_s (lift_s (sequence_block_ids c sq)) (\<lambda>bids.
     bind_s (lift_s (attr_int c sq ''decode_depth'')) (\<lambda>decode_depth.
     bind_s (schedule_unknown c sq rid) (\<lambda>_.
     bind_s (lift_s (attr_int c sq ''step'')) (\<lambda>step.
       if 0 < decode_depth then
         bind_s (lift_s (attr_opt_int c sq ''deadline_us'')) (\<lambda>deadline.
         bind_s (lift_s (attr_opt_int c sq ''request_priority'')) (\<lambda>rprio.
         on_decode_step step rid bids deadline rprio))
       else on_prefill_step step rid bids)))))"

definition spill_block :: "int \<Rightarrow> string \<Rightarrow> int \<Rightarrow> (adapter, mevent list) routine" where
  "spill_block step rid bid =
     bind_s (read_s (\<lambda>a. dict_get (blocks a) (rid, bid))) (\<lambda>known.
       case known of
         None \<Rightarrow> return_s []
       | Some b \<Rightarrow> bind_s (emit_update step SPILLED (\<lambda>b. b\<lparr>current_tier := DRAM\<rparr>)
           ''sequence preempted; block spilled'' (b, None)) (\<lambda>e. return_s [e]))"

definition emit_sequence_spill :: "conversions \<Rightarrow> sequence \<Rightarrow> (adapter, mevent list) routine" where
  "emit_sequence_spill c sq =
     bind_s (lift_s (sequence_request_id c sq)) (\<lambda>rid.
     bind_s (lift_s (attr_int c sq ''step'')) (\<lambda>step.
     bind_s (lift_s (sequence_block_ids c sq)) (collect_s (spill_block step rid))))"

definition emit_sequence_free :: "conversions \<Rightarrow> sequence \<Rightarrow> (adapter, mevent list) routine" where
  "emit_sequence_free c sq =
     bind_s (lift_s (sequence_request_id c sq)) (\<lambda>rid.
     bind_s (lift_s (attr_int c sq ''step'')) (\<lambda>step.
     bind_s (lift_s (sequence_block_ids c sq)) (on_request_finished step rid)))"

end
