(* ===== verification/VllmLaws.thy ===== *)
theory VllmLaws
  imports VllmAdapter
begin

text \<open>
  What the adapter keeps: every stored intent is sound, may be spilled to DRAM and is stored under its
  own request and block, the request metadata is in range, and the recorder holds sound events. Every
  signal with well-formed arguments keeps this and records exactly the events it returns.
\<close>

section \<open>Invariant\<close>

definition own :: "string \<Rightarrow> int \<Rightarrow> mintent \<Rightarrow> bool" where
  "own rid bid b \<longleftrightarrow> sound b \<and> DRAM \<in> allowed_tiers b \<and> object_id b = adapter_object_id rid bid
     \<and> request_id b = rid \<and> block_id b = bid \<and> is_float (recency_score b)"

definition priority_ok :: "int \<Rightarrow> bool" where "priority_ok p \<longleftrightarrow> 0 \<le> p \<and> p \<le> 100"

definition adapter_ok :: "adapter \<Rightarrow> bool" where
  "adapter_ok a \<longleftrightarrow> 0 < default_block_size_bytes a \<and> {HBM, DRAM} \<subseteq> default_allowed_tiers a
     \<and> (\<forall>rid bid b. dict_get (blocks a) (rid, bid) = Some b \<longrightarrow> own rid bid b)
     \<and> (\<forall>rid m. dict_get (request_metadata a) rid = Some m \<longrightarrow> priority_ok (meta_request_priority m))"

text \<open>\<open>gone\<close> are keys that are not stored, \<open>es\<close> what the recorder holds.\<close>

definition adapter_inv :: "(string \<times> int) set \<Rightarrow> mevent list \<Rightarrow> adapter \<Rightarrow> bool" where
  "adapter_inv gone es a \<longleftrightarrow> adapter_ok a \<and> rec_events (adapter_recorder a) = es
     \<and> (\<forall>e \<in> set es. valid_event e \<and> sound (ev_intent e) \<and> is_float (recency_score (ev_intent e)))
     \<and> (\<forall>k \<in> gone. dict_get (blocks a) k = None)"

lemma adapter_okD:
  assumes "adapter_ok a"
  shows "0 < default_block_size_bytes a" "HBM \<in> default_allowed_tiers a" "DRAM \<in> default_allowed_tiers a"
    and "dict_get (blocks a) (rid, bid) = Some b \<Longrightarrow> own rid bid b"
    and "dict_get (request_metadata a) r = Some m \<Longrightarrow> priority_ok (meta_request_priority m)"
  using assms by (auto simp: adapter_ok_def)

lemma adapter_invD: "adapter_inv gone es a \<Longrightarrow> adapter_ok a" "adapter_inv gone es a \<Longrightarrow> rec_events (adapter_recorder a) = es"
  by (auto simp: adapter_inv_def)

interpretation adapter_blocks: keyed_store "\<lambda>d. dict_get d" AList.update AList.delete
  "\<lambda>b. (request_id b, block_id b)"
  by unfold_locales (simp_all add: dict_simps)

lemma adapter_inv_block:
  "adapter_inv gone es a \<Longrightarrow> own rid bid b \<Longrightarrow> (rid, bid) \<notin> gone
    \<Longrightarrow> adapter_inv gone es (a\<lparr>blocks := AList.update (rid, bid) b (blocks a)\<rparr>)"
  by (auto simp: adapter_inv_def adapter_ok_def dict_simps split: if_splits)

lemma adapter_inv_drop: "adapter_inv gone es a \<Longrightarrow> adapter_inv (insert k gone) es (a\<lparr>blocks := AList.delete k (blocks a)\<rparr>)"
  by (auto simp: adapter_inv_def adapter_ok_def dict_simps split: if_splits)

lemma adapter_inv_meta:
  "adapter_inv gone es a \<Longrightarrow> priority_ok (meta_request_priority m)
    \<Longrightarrow> adapter_inv gone es (a\<lparr>request_metadata := AList.update rid m (request_metadata a)\<rparr>)"
  by (auto simp: adapter_inv_def adapter_ok_def dict_simps split: if_splits)

lemma adapter_inv_forget:
  "adapter_inv gone es a \<Longrightarrow> adapter_inv gone es (a\<lparr>request_metadata := AList.delete rid (request_metadata a)\<rparr>)"
  by (auto simp: adapter_inv_def adapter_ok_def dict_simps split: if_splits)

lemma adapter_inv_event:
  "adapter_inv gone es a \<Longrightarrow> valid_event e \<Longrightarrow> sound (ev_intent e) \<Longrightarrow> is_float (recency_score (ev_intent e))
    \<Longrightarrow> adapter_inv gone (es @ [e]) (a\<lparr>adapter_recorder := record_event e (adapter_recorder a)\<rparr>)"
  by (auto simp: adapter_inv_def adapter_ok_def record_event_def)

section \<open>Copies that keep a block's identity\<close>

definition mild :: "(mintent \<Rightarrow> mintent) \<Rightarrow> mintent \<Rightarrow> bool" where
  "mild f b \<longleftrightarrow> object_id (f b) = object_id b \<and> request_id (f b) = request_id b
     \<and> block_id (f b) = block_id b \<and> object_type (f b) = object_type b
     \<and> allowed_tiers (f b) = allowed_tiers b \<and> size_bytes (f b) = size_bytes b
     \<and> current_tier (f b) \<in> {current_tier b, DRAM} \<and> priority_ok (request_priority (f b))
     \<and> 0 \<le> recency_score (f b) \<and> recency_score (f b) \<le> 1 \<and> is_float (recency_score (f b))"

lemma mild_ranges:
  assumes "intent_ranges b" "DRAM \<in> allowed_tiers b" "mild f b"
  shows "intent_ranges (f b)"
proof -
  have "current_tier (f b) \<in> allowed_tiers (f b)"
  proof (cases "current_tier (f b) = DRAM")
    case True
    with assms(2,3) show ?thesis by (simp add: mild_def)
  next
    case False
    with assms(3) have "current_tier (f b) = current_tier b" "allowed_tiers (f b) = allowed_tiers b"
      unfolding mild_def by blast+
    with assms(1) show ?thesis by (simp add: intent_ranges_def)
  qed
  then show ?thesis using assms(1,3) unfolding intent_ranges_def mild_def priority_ok_def by metis
qed

lemma mild_copy:
  assumes "own rid bid b" "mild f b"
  shows "copy_with f b = Inr (auto_pin (f b)) \<and> own rid bid (auto_pin (f b))"
proof -
  have b: "intent_ranges b" "routable b" "DRAM \<in> allowed_tiers b"
    using assms(1) by (auto simp: own_def sound_def)
  have r: "intent_ranges (f b)" by (rule mild_ranges [OF b(1,3) assms(2)])
  have i: "object_id (f b) = object_id b" "request_id (f b) = request_id b" "block_id (f b) = block_id b"
    "allowed_tiers (f b) = allowed_tiers b" "is_float (recency_score (f b))"
    using assms(2) unfolding mild_def by blast+
  have "routable (f b)" using b(2) i(4) by (simp add: routable_def)
  with r have "sound (auto_pin (f b))" by (simp add: sound_def)
  then show ?thesis using r assms(1) by (simp add: copy_with_def post_init_eq own_def i)
qed

lemma own_event: "own rid bid b \<Longrightarrow> 0 \<le> step \<Longrightarrow> mk_event step et b r
    = Inr \<lparr>ev_step = step, ev_type = et, ev_intent = b, ev_reason = Some r, ev_latency_us = None\<rparr>"
  by (simp add: mk_event_Inr_iff)

text \<open>Recording: the event is appended and its intent becomes the block's last one.\<close>

definition recorded_as :: "int \<Rightarrow> event_type \<Rightarrow> mintent \<Rightarrow> mevent \<Rightarrow> bool" where
  "recorded_as step et b e \<longleftrightarrow> ev_step e = step \<and> ev_type e = et \<and> ev_intent e = b"

lemma record_delivers:
  assumes "own rid bid b" "0 \<le> step" "(rid, bid) \<notin> gone"
  shows "delivers (adapter_inv gone es) (bind_s (lift_s (mk_event step et b r)) adapter_record)
    (\<lambda>e s. adapter_inv gone (es @ [e]) s \<and> recorded_as step et b e)"
proof -
  define e where "e = \<lparr>ev_step = step, ev_type = et, ev_intent = b, ev_reason = Some r, ev_latency_us = None\<rparr>"
  have s: "sound b" "valid_intent b" "request_id b = rid" "block_id b = bid" "is_float (recency_score b)"
    using assms(1) by (auto simp: own_def sound_def)
  have v: "valid_event e" using assms(2) s by (simp add: valid_event_def e_def)
  show ?thesis
  proof (rule deliversI)
    fix a assume a: "adapter_inv gone es a"
    let ?a1 = "a\<lparr>adapter_recorder := record_event e (adapter_recorder a)\<rparr>"
    have inv: "adapter_inv gone (es @ [e]) (?a1\<lparr>blocks := AList.update (rid, bid) b (blocks ?a1)\<rparr>)"
      by (rule adapter_inv_block [OF adapter_inv_event [OF a v] assms(1,3)]) (simp_all add: e_def s)
    have "bind_s (lift_s (mk_event step et b r)) adapter_record a
        = Inr (e, ?a1\<lparr>blocks := AList.update (rid, bid) b (blocks ?a1)\<rparr>)"
      using own_event [OF assms(1,2), of et r] s
      by (simp add: method_defs adapter_record_def store_block_def e_def)
    with inv show "\<exists>x t. bind_s (lift_s (mk_event step et b r)) adapter_record a = Inr (x, t)
        \<and> adapter_inv gone (es @ [x]) t \<and> recorded_as step et b x"
      by (auto simp: recorded_as_def e_def)
  qed
qed

lemma emit_update_delivers:
  assumes "own rid bid (fst found)" "mild f (fst found)" "0 \<le> step" "(rid, bid) \<notin> gone"
  shows "delivers (adapter_inv gone es) (emit_update step et f reason found)
    (\<lambda>e s. adapter_inv gone (es @ [e]) s \<and> recorded_as step et (auto_pin (f (fst found))) e)"
proof -
  note c = mild_copy [OF assms(1,2)]
  have "emit_update step et f reason found
      = bind_s (lift_s (mk_event step et (auto_pin (f (fst found)))
          (case snd found of None \<Rightarrow> reason | Some w \<Rightarrow> w))) adapter_record"
    using c by (simp add: emit_update_def bind_s_def [abs_def] lift_s_def [abs_def])
  with record_delivers [OF conjunct2 [OF c] assms(3,4)] show ?thesis by simp
qed

section \<open>Finding or creating a block\<close>

lemma request_defaults_delivers:
  "delivers (adapter_inv gone es) (request_defaults rid)
    (\<lambda>m s. adapter_inv gone es s \<and> priority_ok (meta_request_priority m))"
proof (rule deliversI)
  fix a assume a: "adapter_inv gone es a"
  show "\<exists>m t. request_defaults rid a = Inr (m, t) \<and> adapter_inv gone es t \<and> priority_ok (meta_request_priority m)"
  proof (cases "dict_get (request_metadata a) rid")
    case None
    then show ?thesis
      using adapter_inv_meta [OF a, of default_meta rid]
      by (simp add: request_defaults_def method_defs default_meta_def priority_ok_def)
  next
    case (Some m)
    then show ?thesis
      using adapter_okD(5) [OF adapter_invD(1) [OF a] Some] a by (simp add: request_defaults_def method_defs)
  qed
qed

lemma priority_or_default_ok: "priority_ok (meta_request_priority m) \<Longrightarrow> priority_ok (priority_or_default m)"
  by (simp add: priority_or_default_def priority_ok_def)

definition args_ok :: "intent_args \<Rightarrow> bool" where
  "args_ok args \<longleftrightarrow> (\<forall>p \<in> set_option (arg_request_priority args). priority_ok p)
     \<and> (\<forall>n \<in> set_option (arg_size_bytes args). 0 \<le> n)
     \<and> 0 \<le> arg_recency_score args \<and> arg_recency_score args \<le> 1 \<and> is_float (arg_recency_score args)"

lemma make_intent_delivers:
  assumes "rid \<noteq> []" "0 \<le> bid" "args_ok args"
  shows "delivers (adapter_inv gone es) (make_intent rid bid args)
    (\<lambda>b s. adapter_inv gone es s \<and> own rid bid b \<and> phase b = arg_phase args \<and> priority b = arg_priority args)"
proof -
  have built: "\<exists>b. post_init (intent_of_args rid bid args m n ts) = Inr b \<and> own rid bid b
      \<and> phase b = arg_phase args \<and> priority b = arg_priority args"
    if "priority_ok (meta_request_priority m)" "0 < n" "HBM \<in> ts" "DRAM \<in> ts" for m n ts
  proof -
    let ?i = "intent_of_args rid bid args m n ts"
    have ranges: "intent_ranges ?i"
      using assms that priority_or_default_ok [OF that(1)]
      by (auto simp: intent_of_args_def Let_def new_intent_def intent_ranges_def args_ok_def priority_ok_def
          adapter_object_id_def split: option.splits)
    have "routable ?i" "DRAM \<in> allowed_tiers ?i" "object_id ?i = adapter_object_id rid bid"
      "request_id ?i = rid" "block_id ?i = bid" "phase ?i = arg_phase args" "priority ?i = arg_priority args"
      "is_float (recency_score ?i)"
      using that assms(3) by (auto simp: intent_of_args_def Let_def new_intent_def routable_def args_ok_def)
    then show ?thesis using ranges by (simp add: post_init_eq own_def sound_def)
  qed
  show ?thesis
    unfolding make_intent_def
  proof (rule delivers_bind [OF request_defaults_delivers])
    fix m
    show "delivers (\<lambda>s. adapter_inv gone es s \<and> priority_ok (meta_request_priority m))
      (bind_s (read_s (\<lambda>a. (default_block_size_bytes a, default_allowed_tiers a)))
        (\<lambda>defaults. lift_s (post_init (intent_of_args rid bid args m (fst defaults) (snd defaults)))))
      (\<lambda>b s. adapter_inv gone es s \<and> own rid bid b \<and> phase b = arg_phase args \<and> priority b = arg_priority args)"
    proof (rule deliversI, elim conjE)
      fix a assume a: "adapter_inv gone es a" and m: "priority_ok (meta_request_priority m)"
      note d = adapter_okD(1-3) [OF adapter_invD(1) [OF a]]
      from built [OF m d] obtain b where
        "post_init (intent_of_args rid bid args m (default_block_size_bytes a) (default_allowed_tiers a)) = Inr b"
        "own rid bid b" "phase b = arg_phase args" "priority b = arg_priority args" by blast
      with a show "\<exists>x t. bind_s (read_s (\<lambda>a. (default_block_size_bytes a, default_allowed_tiers a)))
          (\<lambda>defaults. lift_s (post_init (intent_of_args rid bid args m (fst defaults) (snd defaults)))) a
            = Inr (x, t) \<and> adapter_inv gone es t \<and> own rid bid x \<and> phase x = arg_phase args
              \<and> priority x = arg_priority args"
        by (simp add: method_defs)
    qed
  qed
qed

definition range_ok :: "int option \<Rightarrow> bool" where "range_ok p \<longleftrightarrow> (\<forall>x \<in> set_option p. priority_ok x)"

lemma own_ranges: "own rid bid b \<Longrightarrow> priority_ok (request_priority b) \<and> 0 \<le> recency_score b \<and> recency_score b \<le> 1 \<and> is_float (recency_score b)"
  by (auto simp: own_def sound_def valid_intent_def intent_ranges_def priority_ok_def)

lemma touch_mild:
  assumes "own rid bid b" "range_ok rprio"
  shows "mild (touch_update step ph pr critical rprio deadline) b"
  using own_ranges [OF assms(1)] assms(2)
  by (cases rprio) (simp_all add: touch_update_def Let_def mild_def range_ok_def)

text \<open>The stored block after an access of \<open>ph\<close> and \<open>pr\<close>.\<close>

definition found_ok :: "string \<Rightarrow> int \<Rightarrow> phase \<Rightarrow> priority \<Rightarrow> mintent \<times> string option \<Rightarrow> bool" where
  "found_ok rid bid ph pr found \<longleftrightarrow> own rid bid (fst found) \<and> phase (fst found) = ph \<and> priority (fst found) = pr"

lemma store_delivers:
  assumes "own rid bid b" "Q (b, w)" "(rid, bid) \<notin> gone"
  shows "delivers (adapter_inv gone es) (bind_s (store_block rid bid b) (\<lambda>_. return_s (b, w)))
    (\<lambda>found s. adapter_inv gone es s \<and> Q found)"
  using assms adapter_inv_block [OF _ assms(1,3)] by (simp add: delivers_def method_defs store_block_def)

lemma get_or_create_delivers:
  assumes "rid \<noteq> []" "0 \<le> bid" "range_ok rprio" "(rid, bid) \<notin> gone"
  shows "delivers (adapter_inv gone es) (get_or_create_block step rid bid ph pr critical rprio deadline prefix)
    (\<lambda>found s. adapter_inv gone es s \<and> found_ok rid bid ph (if critical then DECODE_CRITICAL else pr) found)"
proof (rule deliversI)
  fix a assume a: "adapter_inv gone es a"
  let ?pr = "if critical then DECODE_CRITICAL else pr"
  let ?goal = "\<lambda>m. \<exists>found t. m a = Inr (found, t) \<and> adapter_inv gone es t \<and> found_ok rid bid ph ?pr found"
  show "?goal (get_or_create_block step rid bid ph pr critical rprio deadline prefix)"
  proof (cases "dict_get (blocks a) (rid, bid)")
    case (Some b)
    let ?u = "touch_update step ph pr critical rprio deadline"
    have b: "own rid bid b" using adapter_okD(4) [OF adapter_invD(1) [OF a] Some] .
    note c = mild_copy [OF b touch_mild [OF b assms(3), of step ph pr critical deadline]]
    have "found_ok rid bid ph ?pr (auto_pin (?u b), None)"
      using conjunct2 [OF c] by (simp add: found_ok_def touch_update_def Let_def)
    from store_delivers [of rid bid _ "found_ok rid bid ph ?pr", OF conjunct2 [OF c] this assms(4)] a
    have "?goal (bind_s (store_block rid bid (auto_pin (?u b))) (\<lambda>_. return_s (auto_pin (?u b), None)))"
      by (simp add: delivers_def)
    with Some conjunct1 [OF c] show ?thesis by (simp add: get_or_create_block_def method_defs)
  next
    case None
    let ?args = "access_args step ph pr critical rprio deadline"
    have "args_ok ?args" using assms(3) by (simp add: args_ok_def access_args_def range_ok_def)
    from make_intent_delivers [OF assms(1,2) this, of gone es] a obtain b t where
      b: "make_intent rid bid ?args a = Inr (b, t)" "adapter_inv gone es t" "own rid bid b" "phase b = ph" "priority b = ?pr"
      by (auto simp: delivers_def access_args_def)
    have "found_ok rid bid ph ?pr (b, Some (lazy_warning prefix))" using b by (simp add: found_ok_def)
    from store_delivers [of rid bid _ "found_ok rid bid ph ?pr", OF b(3) this assms(4)] b(2)
    have "\<exists>found u. bind_s (store_block rid bid b) (\<lambda>_. return_s (b, Some (lazy_warning prefix))) t = Inr (found, u)
        \<and> adapter_inv gone es u \<and> found_ok rid bid ph ?pr found" by (simp add: delivers_def)
    with None b(1) show ?thesis by (simp add: get_or_create_block_def method_defs)
  qed
qed

section \<open>Signals\<close>

text \<open>A handler that looks the block up and emits one update.\<close>

lemma lookup_emit_delivers:
  assumes "rid \<noteq> []" "0 \<le> bid" "range_ok rprio" "(rid, bid) \<notin> gone" "0 \<le> step"
    and "\<And>b. own rid bid b \<Longrightarrow> mild f b"
  shows "delivers (adapter_inv gone es)
    (bind_s (get_or_create_block step' rid bid ph pr critical rprio deadline prefix) (emit_update step et f reason))
    (\<lambda>e s. adapter_inv gone (es @ [e]) s
       \<and> (\<exists>b. own rid bid b \<and> phase b = ph \<and> priority b = (if critical then DECODE_CRITICAL else pr)
            \<and> recorded_as step et (auto_pin (f b)) e))"
proof (rule delivers_bind [OF get_or_create_delivers [OF assms(1-4)]])
  fix found :: "mintent \<times> string option"
  let ?pr = "if critical then DECODE_CRITICAL else pr"
  show "delivers (\<lambda>s. adapter_inv gone es s \<and> found_ok rid bid ph ?pr found) (emit_update step et f reason found)
    (\<lambda>e s. adapter_inv gone (es @ [e]) s \<and> (\<exists>b. own rid bid b \<and> phase b = ph \<and> priority b = ?pr
            \<and> recorded_as step et (auto_pin (f b)) e))"
  proof (cases "found_ok rid bid ph ?pr found")
    case True
    then have b: "own rid bid (fst found)" "phase (fst found) = ph" "priority (fst found) = ?pr"
      by (auto simp: found_ok_def)
    from emit_update_delivers [OF b(1) assms(6) [OF b(1)] assms(5,4)] show ?thesis
      by (rule delivers_weaken) (use b in auto)
  qed (simp add: delivers_def)
qed

text \<open>What the events of one signal about one block look like.\<close>

definition about :: "string \<Rightarrow> int \<Rightarrow> int \<Rightarrow> event_type \<Rightarrow> mevent \<Rightarrow> bool" where
  "about rid bid step et e \<longleftrightarrow> ev_step e = step \<and> ev_type e = et \<and> own rid bid (ev_intent e)"

lemma recorded_about:
  "own rid bid b \<Longrightarrow> mild f b \<Longrightarrow> recorded_as step et (auto_pin (f b)) e \<Longrightarrow> about rid bid step et e"
  using mild_copy by (simp add: about_def recorded_as_def)

lemma mild_field_updates:
  assumes "own rid bid b"
  shows "mild (\<lambda>b. b\<lparr>recency_score := 1, last_access_step := step, prefetch_ok := c, pin_requested := c \<or> pin_requested b\<rparr>) b"
    and "mild (\<lambda>b. b\<lparr>phase := PREFILL, priority := WARM, prefetch_ok := False, pin_requested := False,
           recency_score := fl (7 / 10), last_access_step := step\<rparr>) b"
    and "mild (\<lambda>b. b\<lparr>is_committed := True, is_draft := False,
           priority := (if phase b \<noteq> DECODE then WARM else HOT), last_access_step := step\<rparr>) b"
    and "mild (\<lambda>b. b\<lparr>phase := IDLE, priority := COLD, compression_ok := True, recompute_ok := \<not> is_committed b,
           prefetch_ok := pf, expected_reuse_window_tokens := reuse, pin_requested := False, recency_score := 0\<rparr>) b"
    and "mild (\<lambda>b. b\<lparr>phase := DONE, priority := COLD, pin_requested := False, prefetch_ok := False,
           current_tier := (if DRAM \<in> allowed_tiers b then DRAM else current_tier b), recency_score := 0\<rparr>) b"
    and "mild (\<lambda>b. b\<lparr>phase := DONE, priority := COLD, pin_requested := False, prefetch_ok := False,
           compression_ok := True, recompute_ok := False, recency_score := 0\<rparr>) b"
    and "mild (\<lambda>b. b\<lparr>current_tier := DRAM\<rparr>) b"
  using own_ranges [OF assms] by (simp_all add: mild_def fl_ge fl_le)

lemma position_recency_range: "0 \<le> position_recency offset"  "0 \<le> offset \<Longrightarrow> position_recency offset \<le> 1"
proof -
  show "0 \<le> position_recency offset" by (auto simp: position_recency_def max_def fl_ge intro: order_trans [of _ "fl (8 / 10)"])
  assume "0 \<le> offset"
  then have "0 \<le> fmul (int_to_float offset) (fl (1 / 10))"
    by (auto simp: fmul_def int_to_float_def intro!: fl_nonneg mult_nonneg_nonneg)
  then have "fsub 1 (fmul (int_to_float offset) (fl (1 / 10))) \<le> 1"
    by (auto simp: fsub_def intro!: fl_le)
  moreover have "fl (8 / 10) \<le> 1" by (rule fl_le) simp_all
  ultimately show "position_recency offset \<le> 1" by (simp add: position_recency_def)
qed

lemma critical_mild:
  "own rid bid b \<Longrightarrow> 0 \<le> offset \<Longrightarrow> mild (critical_update step offset deadline rprio) b"
  using own_ranges position_recency_range by (simp add: mild_def critical_update_def position_recency_def)

end
