(* ===== verification/VllmSignals.thy ===== *)
theory VllmSignals
  imports VllmLaws
begin

text \<open>
  The calls an engine makes on the adapter, as one type of signals, and what a sequence of them does:
  nothing is raised, the recorder holds exactly the returned events, decode steps protect their blocks
  and a finished request is forgotten.
\<close>

section \<open>Signals\<close>

datatype signal =
    RequestScheduled int string int "int option"
  | BlockAllocated int string int phase "int option" "int option" "int option" bool
  | BlockAccessed int string int phase bool
  | DecodeStep int string "int list" "int option" "int option"
  | PrefillStep int string "int list"
  | BlockCommitted int string int
  | BlockMarkedCold int string int "int option"
  | BlockFreed int string int
  | RequestFinished int string "int list"

definition one_event :: "(adapter, mevent) routine \<Rightarrow> (adapter, mevent list) routine" where
  "one_event m = bind_s m (\<lambda>e. return_s [e])"

fun send_signal :: "signal \<Rightarrow> (adapter, mevent list) routine" where
  "send_signal (RequestScheduled step rid p d) = on_request_scheduled step rid p d"
| "send_signal (BlockAllocated step rid bid ph p d n draft) = one_event (on_block_allocated step rid bid ph p d n draft)"
| "send_signal (BlockAccessed step rid bid ph c) = one_event (on_block_accessed step rid bid ph c)"
| "send_signal (DecodeStep step rid bids d p) = on_decode_step step rid bids d p"
| "send_signal (PrefillStep step rid bids) = on_prefill_step step rid bids"
| "send_signal (BlockCommitted step rid bid) = one_event (on_block_committed step rid bid)"
| "send_signal (BlockMarkedCold step rid bid r) = one_event (on_block_marked_cold step rid bid r)"
| "send_signal (BlockFreed step rid bid) = one_event (on_block_freed step rid bid)"
| "send_signal (RequestFinished step rid bids) = on_request_finished step rid bids"

definition ref_ok :: "int \<Rightarrow> string \<Rightarrow> int \<Rightarrow> bool" where
  "ref_ok step rid bid \<longleftrightarrow> 0 \<le> step \<and> rid \<noteq> [] \<and> 0 \<le> bid"

fun signal_ok :: "signal \<Rightarrow> bool" where
  "signal_ok (RequestScheduled step rid p d) = priority_ok p"
| "signal_ok (BlockAllocated step rid bid ph p d n draft) =
     (ref_ok step rid bid \<and> range_ok p \<and> (\<forall>k \<in> set_option n. 0 \<le> k))"
| "signal_ok (BlockAccessed step rid bid ph c) = ref_ok step rid bid"
| "signal_ok (DecodeStep step rid bids d p) = (list_all (ref_ok step rid) bids \<and> range_ok p)"
| "signal_ok (PrefillStep step rid bids) = list_all (ref_ok step rid) bids"
| "signal_ok (BlockCommitted step rid bid) = ref_ok step rid bid"
| "signal_ok (BlockMarkedCold step rid bid r) = ref_ok step rid bid"
| "signal_ok (BlockFreed step rid bid) = ref_ok step rid bid"
| "signal_ok (RequestFinished step rid bids) = list_all (ref_ok step rid) bids"

section \<open>Each handler\<close>

lemma one_event_delivers:
  "delivers P m (\<lambda>e s. adapter_inv gone (es @ [e]) s \<and> Q e)
    \<Longrightarrow> delivers P (one_event m) (\<lambda>ys s. adapter_inv gone (es @ ys) s \<and> (\<exists>e. ys = [e] \<and> Q e))"
  unfolding one_event_def by (rule delivers_bind) (auto intro: delivers_return)

lemma about_delivers:
  assumes "ref_ok step rid bid" "range_ok rprio" "(rid, bid) \<notin> gone" "\<And>b. own rid bid b \<Longrightarrow> mild f b"
  shows "delivers (adapter_inv gone es)
    (bind_s (get_or_create_block step' rid bid ph pr critical rprio deadline prefix) (emit_update step et f reason))
    (\<lambda>e s. adapter_inv gone (es @ [e]) s \<and> about rid bid step et e)"
proof (rule delivers_weaken [OF lookup_emit_delivers])
  show "rid \<noteq> []" "0 \<le> bid" "0 \<le> step" using assms(1) by (auto simp: ref_ok_def)
  show "range_ok rprio" "(rid, bid) \<notin> gone" by (rule assms)+
  show "\<And>b. own rid bid b \<Longrightarrow> mild f b" by (rule assms)
qed (use assms(4) in \<open>auto intro: recorded_about\<close>)

lemma range_ok_None [simp]: "range_ok None"
  by (simp add: range_ok_def)

lemma accessed_delivers:
  assumes "ref_ok step rid bid" "(rid, bid) \<notin> gone"
  shows "delivers (adapter_inv gone es) (on_block_accessed step rid bid ph c)
    (\<lambda>e s. adapter_inv gone (es @ [e]) s \<and> about rid bid step ACCESSED e
       \<and> (c \<longrightarrow> pin_requested (ev_intent e) \<and> priority (ev_intent e) = DECODE_CRITICAL))"
proof -
  let ?f = "\<lambda>b. b\<lparr>recency_score := 1, last_access_step := step, prefetch_ok := c, pin_requested := c \<or> pin_requested b\<rparr>"
  have "delivers (adapter_inv gone es) (on_block_accessed step rid bid ph c) (\<lambda>e s. adapter_inv gone (es @ [e]) s
    \<and> (\<exists>b. own rid bid b \<and> phase b = ph
        \<and> priority b = (if c then DECODE_CRITICAL else if c then DECODE_CRITICAL else if ph = DECODE then HOT else WARM)
        \<and> recorded_as step ACCESSED (auto_pin (?f b)) e))"
    unfolding on_block_accessed_def
    using assms mild_field_updates(1) by (intro lookup_emit_delivers) (auto simp: ref_ok_def)
  then show ?thesis
  proof (rule delivers_weaken)
    fix e s
    assume "adapter_inv gone (es @ [e]) s \<and> (\<exists>b. own rid bid b \<and> phase b = ph
        \<and> priority b = (if c then DECODE_CRITICAL else if c then DECODE_CRITICAL else if ph = DECODE then HOT else WARM)
        \<and> recorded_as step ACCESSED (auto_pin (?f b)) e)"
    then obtain b where b: "adapter_inv gone (es @ [e]) s" "own rid bid b" "c \<longrightarrow> priority b = DECODE_CRITICAL"
      "recorded_as step ACCESSED (auto_pin (?f b)) e" by (auto split: if_splits)
    with recorded_about [OF b(2) mild_field_updates(1) [OF b(2)] b(4)]
    show "adapter_inv gone (es @ [e]) s \<and> about rid bid step ACCESSED e
       \<and> (c \<longrightarrow> pin_requested (ev_intent e) \<and> priority (ev_intent e) = DECODE_CRITICAL)"
      by (auto simp: recorded_as_def auto_pin_def)
  qed simp
qed

lemma simple_handlers_deliver:
  assumes "ref_ok step rid bid" "(rid, bid) \<notin> gone"
  shows "delivers (adapter_inv gone es) (on_block_committed step rid bid)
      (\<lambda>e s. adapter_inv gone (es @ [e]) s \<and> about rid bid step COMMITTED e)"
    and "delivers (adapter_inv gone es) (on_block_marked_cold step rid bid r)
      (\<lambda>e s. adapter_inv gone (es @ [e]) s \<and> about rid bid step MARKED_COLD e)"
    and "delivers (adapter_inv gone es) (on_block_freed step rid bid)
      (\<lambda>e s. adapter_inv gone (es @ [e]) s \<and> about rid bid step FREED e)"
  unfolding on_block_committed_def on_block_marked_cold_def on_block_freed_def
  by (rule about_delivers [OF assms(1) range_ok_None assms(2)], erule mild_field_updates)+

lemma allocated_delivers:
  assumes "ref_ok step rid bid" "(rid, bid) \<notin> gone" "range_ok p" "\<forall>k \<in> set_option n. 0 \<le> k"
  shows "delivers (adapter_inv gone es) (on_block_allocated step rid bid ph p d n draft)
      (\<lambda>e s. adapter_inv gone (es @ [e]) s \<and> about rid bid step ALLOCATED e)"
  unfolding on_block_allocated_def
proof (rule delivers_bind)
  have "args_ok (allocation_args step ph p d n draft)"
    using assms(3,4) by (auto simp: args_ok_def allocation_args_def range_ok_def intro!: fl_nonneg fl_le)
  with assms(1) show "delivers (adapter_inv gone es) (make_intent rid bid (allocation_args step ph p d n draft))
     (\<lambda>b s. adapter_inv gone es s \<and> own rid bid b \<and> phase b = arg_phase (allocation_args step ph p d n draft)
        \<and> priority b = arg_priority (allocation_args step ph p d n draft))"
    by (intro make_intent_delivers) (auto simp: ref_ok_def)
  fix b
  show "delivers (\<lambda>s. adapter_inv gone es s \<and> own rid bid b \<and> phase b = arg_phase (allocation_args step ph p d n draft)
        \<and> priority b = arg_priority (allocation_args step ph p d n draft))
     (bind_s (lift_s (mk_event step ALLOCATED b ''vLLM-style block allocation'')) adapter_record)
     (\<lambda>e s. adapter_inv gone (es @ [e]) s \<and> about rid bid step ALLOCATED e)"
  proof (cases "own rid bid b")
    case True
    have "0 \<le> step" using assms(1) by (simp add: ref_ok_def)
    from record_delivers [OF True this assms(2), of es ALLOCATED] show ?thesis
      by (rule delivers_weaken) (use True in \<open>auto simp: about_def recorded_as_def\<close>)
  qed (simp add: delivers_def)
qed

section \<open>Decode steps\<close>

text \<open>
  The two events of an active block: it is marked decode-critical for the step it is needed at, with a
  slack that shrinks along the list, and then accessed; both events carry it pinned.
\<close>

definition protects :: "mevent \<Rightarrow> bool" where
  "protects e \<longleftrightarrow> pin_requested (ev_intent e) \<and> priority (ev_intent e) = DECODE_CRITICAL"

definition decode_pair :: "int \<Rightarrow> string \<Rightarrow> int option \<Rightarrow> int \<Rightarrow> int \<times> int \<Rightarrow> mevent list \<Rightarrow> bool" where
  "decode_pair step rid deadline p ob ys \<longleftrightarrow> (\<exists>m e. ys = [m, e]
     \<and> about rid (snd ob) step MARKED_DECODE_CRITICAL m \<and> about rid (snd ob) step ACCESSED e
     \<and> protects m \<and> protects e \<and> target_decode_step (ev_intent m) = Some (step + fst ob)
     \<and> (\<forall>d \<in> set_option deadline. slack_us (ev_intent m) = Some (compute_slack d (fst ob) p)))"

lemma slack_bounds: "50 \<le> compute_slack d offset p"
  and slack_antimono: "offset \<le> offset' \<Longrightarrow> compute_slack d offset' p \<le> compute_slack d offset p"
  by (auto simp: compute_slack_def Let_def)

lemma marked_delivers:
  assumes "ref_ok step rid bid" "0 \<le> off" "found_ok rid bid ph pr found" "(rid, bid) \<notin> gone"
  shows "delivers (adapter_inv gone es)
    (emit_update step MARKED_DECODE_CRITICAL (critical_update step off deadline p) reason found)
    (\<lambda>m s. adapter_inv gone (es @ [m]) s \<and> about rid bid step MARKED_DECODE_CRITICAL m \<and> protects m
       \<and> target_decode_step (ev_intent m) = Some (step + off)
       \<and> (\<forall>d \<in> set_option deadline. slack_us (ev_intent m) = Some (compute_slack d off p)))"
proof -
  have b: "own rid bid (fst found)" using assms(3) by (simp add: found_ok_def)
  note m = critical_mild [OF b assms(2), of step deadline p]
  have "0 \<le> step" using assms(1) by (simp add: ref_ok_def)
  from emit_update_delivers [OF b m this assms(4)] show ?thesis
  proof (rule delivers_weaken)
    fix e s
    assume e: "adapter_inv gone (es @ [e]) s
      \<and> recorded_as step MARKED_DECODE_CRITICAL (auto_pin (critical_update step off deadline p (fst found))) e"
    then have i: "ev_intent e = critical_update step off deadline p (fst found)"
      by (simp add: recorded_as_def auto_pin_def critical_update_def)
    from e recorded_about [OF b m] i
    show "adapter_inv gone (es @ [e]) s \<and> about rid bid step MARKED_DECODE_CRITICAL e \<and> protects e
       \<and> target_decode_step (ev_intent e) = Some (step + off)
       \<and> (\<forall>d \<in> set_option deadline. slack_us (ev_intent e) = Some (compute_slack d off p))"
      by (auto simp: protects_def critical_update_def)
  qed simp
qed

lemma decode_block_delivers:
  assumes "ref_ok step rid (snd ob)" "0 \<le> fst ob" "range_ok rprio" "(rid, snd ob) \<notin> gone"
  shows "delivers (adapter_inv gone es) (decode_block step rid deadline rprio meta ob)
    (\<lambda>ys s. adapter_inv gone (es @ ys) s \<and> decode_pair step rid deadline (priority_or_default meta) ob ys)"
  unfolding decode_block_def
proof (rule delivers_bind [OF get_or_create_delivers])
  show "rid \<noteq> []" "0 \<le> snd ob" using assms(1) by (auto simp: ref_ok_def)
  show "range_ok rprio" "(rid, snd ob) \<notin> gone" by (rule assms)+
  fix found
  let ?p = "priority_or_default meta"
  let ?M = "\<lambda>m. about rid (snd ob) step MARKED_DECODE_CRITICAL m \<and> protects m
     \<and> target_decode_step (ev_intent m) = Some (step + fst ob)
     \<and> (\<forall>d \<in> set_option deadline. slack_us (ev_intent m) = Some (compute_slack d (fst ob) ?p))"
  let ?rest = "bind_s (emit_update step MARKED_DECODE_CRITICAL (critical_update step (fst ob) deadline ?p)
      ''vLLM-style decode-critical marking'' found)
     (\<lambda>marked. bind_s (on_block_accessed step rid (snd ob) DECODE True) (\<lambda>accessed. return_s [marked, accessed]))"
  let ?post = "\<lambda>ys s. adapter_inv gone (es @ ys) s \<and> decode_pair step rid deadline ?p ob ys"
  show "delivers (\<lambda>s. adapter_inv gone es s
      \<and> found_ok rid (snd ob) DECODE (if True then DECODE_CRITICAL else DECODE_CRITICAL) found) ?rest ?post"
  proof (cases "found_ok rid (snd ob) DECODE DECODE_CRITICAL found")
    case True
    have second: "delivers (\<lambda>s. adapter_inv gone (es @ [m]) s \<and> ?M m)
        (bind_s (on_block_accessed step rid (snd ob) DECODE True) (\<lambda>e. return_s [m, e])) ?post" for m
    proof (cases "?M m")
      case True
      have "delivers (adapter_inv gone (es @ [m])) (bind_s (on_block_accessed step rid (snd ob) DECODE True)
          (\<lambda>e. return_s [m, e])) ?post"
        by (rule delivers_bind [OF accessed_delivers [OF assms(1,4)]])
          (use True in \<open>auto intro!: delivers_return simp: decode_pair_def protects_def\<close>)
      then show ?thesis by (auto simp: delivers_def)
    next
      case False
      then show ?thesis by (simp only: delivers_def False simp_thms)
    qed
    have "delivers (adapter_inv gone es) ?rest ?post"
      by (rule delivers_bind [OF marked_delivers [OF assms(1,2) True assms(4)] second])
    then show ?thesis by (auto simp: delivers_def)
  qed (simp add: delivers_def)
qed

lemma note_decode_ok: "priority_ok (meta_request_priority m) \<Longrightarrow> range_ok rprio
    \<Longrightarrow> priority_ok (meta_request_priority (note_decode step deadline rprio m))"
  by (cases rprio) (simp_all add: note_decode_def range_ok_def)

text \<open>The priority the slack is computed with: the given one, else the one the request was scheduled with; 0 and an
  unknown request count as 50.\<close>

definition decode_priority :: "int option \<Rightarrow> string \<Rightarrow> adapter \<Rightarrow> int" where
  "decode_priority rprio rid a =
     (let p = (case rprio of Some q \<Rightarrow> q | None \<Rightarrow>
        (case dict_get (request_metadata a) rid of None \<Rightarrow> 50 | Some m \<Rightarrow> meta_request_priority m))
      in if p = 0 then 50 else p)"

lemma request_defaults_stored: "request_defaults rid a = Inr (m, b)
    \<Longrightarrow> m = (case dict_get (request_metadata a) rid of None \<Rightarrow> default_meta | Some m \<Rightarrow> m)"
  by (auto simp: request_defaults_def method_defs split: option.splits)

lemma noted_priority: "request_defaults rid a = Inr (m, b)
    \<Longrightarrow> priority_or_default (note_decode step deadline rprio m) = decode_priority rprio rid a"
  by (auto dest!: request_defaults_stored simp: decode_priority_def priority_or_default_def note_decode_def
      default_meta_def Let_def split: option.splits)

lemma decode_step_from:
  assumes "list_all (ref_ok step rid) bids" "range_ok rprio" "\<forall>b \<in> set bids. (rid, b) \<notin> gone" "adapter_inv gone es a"
  shows "\<exists>yss b. on_decode_step step rid bids deadline rprio a = Inr (concat yss, b)
    \<and> adapter_inv gone (es @ concat yss) b
    \<and> list_all2 (decode_pair step rid deadline (decode_priority rprio rid a)) (py_enumerate bids) yss"
proof -
  obtain m c where m: "request_defaults rid a = Inr (m, c)" "adapter_inv gone es c"
    "priority_ok (meta_request_priority m)"
    using deliversD [OF request_defaults_delivers [of gone es rid] assms(4)] by blast
  let ?m = "note_decode step deadline rprio m"
  let ?c = "c\<lparr>request_metadata := AList.update rid ?m (request_metadata c)\<rparr>"
  have c: "adapter_inv gone es ?c" by (rule adapter_inv_meta [OF m(2) note_decode_ok [OF m(3) assms(2)]])
  have "delivers (adapter_inv gone es) (collect_s (decode_block step rid deadline rprio ?m) (py_enumerate bids))
      (\<lambda>ys s. adapter_inv gone (es @ ys) s \<and> (\<exists>yss. ys = concat yss
         \<and> list_all2 (decode_pair step rid deadline (priority_or_default ?m)) (py_enumerate bids) yss))"
    using assms(1-3) by (intro delivers_collect decode_block_delivers) (auto dest: py_enumerate_member simp: list_all_iff)
  then have loop: "delivers (adapter_inv gone es) (collect_s (decode_block step rid deadline rprio ?m) (py_enumerate bids))
      (\<lambda>ys s. adapter_inv gone (es @ ys) s \<and> (\<exists>yss. ys = concat yss
         \<and> list_all2 (decode_pair step rid deadline (decode_priority rprio rid a)) (py_enumerate bids) yss))"
    by (simp add: noted_priority [OF m(1)])
  obtain yss b where
    "collect_s (decode_block step rid deadline rprio ?m) (py_enumerate bids) ?c = Inr (concat yss, b)"
    "adapter_inv gone (es @ concat yss) b"
    "list_all2 (decode_pair step rid deadline (decode_priority rprio rid a)) (py_enumerate bids) yss"
    by (rule deliversD [OF loop c]) blast
  then show ?thesis using m(1) by (auto simp: on_decode_step_def method_defs)
qed

lemma decode_step_delivers:
  assumes "list_all (ref_ok step rid) bids" "range_ok rprio" "\<forall>b \<in> set bids. (rid, b) \<notin> gone"
  shows "delivers (adapter_inv gone es) (on_decode_step step rid bids deadline rprio)
    (\<lambda>ys s. adapter_inv gone (es @ ys) s \<and> (\<exists>p yss. ys = concat yss
       \<and> (\<forall>q \<in> set_option rprio. p = (if q = 0 then 50 else q))
       \<and> list_all2 (decode_pair step rid deadline p) (py_enumerate bids) yss))"
proof (rule deliversI)
  fix a assume "adapter_inv gone es a"
  moreover have "\<forall>q \<in> set_option rprio. decode_priority rprio rid a = (if q = 0 then 50 else q)"
    by (auto simp: decode_priority_def)
  ultimately show "\<exists>ys s. on_decode_step step rid bids deadline rprio a = Inr (ys, s) \<and> adapter_inv gone (es @ ys) s
      \<and> (\<exists>p yss. ys = concat yss \<and> (\<forall>q \<in> set_option rprio. p = (if q = 0 then 50 else q))
         \<and> list_all2 (decode_pair step rid deadline p) (py_enumerate bids) yss)"
    using decode_step_from [OF assms, of es a deadline] by blast
qed

section \<open>Prefill and the end of a request\<close>

lemma prefill_step_delivers:
  assumes "list_all (ref_ok step rid) bids" "\<forall>b \<in> set bids. (rid, b) \<notin> gone"
  shows "delivers (adapter_inv gone es) (on_prefill_step step rid bids)
    (\<lambda>ys s. adapter_inv gone (es @ ys) s \<and> (\<exists>yss. ys = concat yss
       \<and> list_all2 (\<lambda>bid ys. \<exists>e. ys = [e] \<and> about rid bid step ACCESSED e) bids yss))"
  unfolding on_prefill_step_def
proof (rule delivers_collect)
  fix bid es assume bid: "bid \<in> set bids"
  let ?f = "\<lambda>b. b\<lparr>phase := PREFILL, priority := WARM, prefetch_ok := False, pin_requested := False,
      recency_score := fl (7 / 10), last_access_step := step\<rparr>"
  let ?emit = "emit_update step ACCESSED ?f ''vLLM-style prefill access''"
  let ?look = "get_or_create_block step rid bid PREFILL WARM False None None []"
  have assoc: "bind_s ?look (\<lambda>found. bind_s (?emit found) (\<lambda>e. return_s [e])) = one_event (bind_s ?look ?emit)"
    by (rule ext) (simp add: one_event_def bind_s_def bind_r_assoc)
  have "ref_ok step rid bid" "(rid, bid) \<notin> gone" using assms bid by (auto simp: list_all_iff)
  then have "delivers (adapter_inv gone es) (bind_s ?look ?emit)
      (\<lambda>e s. adapter_inv gone (es @ [e]) s \<and> about rid bid step ACCESSED e)"
    by (intro about_delivers) (auto intro: mild_field_updates)
  from one_event_delivers [OF this]
  show "delivers (adapter_inv gone es) (bind_s ?look (\<lambda>found. bind_s (?emit found) (\<lambda>e. return_s [e])))
     (\<lambda>ys s. adapter_inv gone (es @ ys) s \<and> (\<exists>e. ys = [e] \<and> about rid bid step ACCESSED e))"
    unfolding assoc .
qed

text \<open>The events that end a block.\<close>

definition finish_pair :: "int \<Rightarrow> string \<Rightarrow> int \<Rightarrow> mevent list \<Rightarrow> bool" where
  "finish_pair step rid bid ys \<longleftrightarrow> (\<exists>c f. ys = [c, f] \<and> about rid bid step MARKED_COLD c
     \<and> about rid bid (step + 1) FREED f)"

lemma adapter_inv_fewer: "adapter_inv gone es a \<Longrightarrow> gone' \<subseteq> gone \<Longrightarrow> adapter_inv gone' es a"
  by (auto simp: adapter_inv_def)

lemma finish_block_delivers:
  assumes "ref_ok step rid bid"
  shows "delivers (adapter_inv gone es) (finish_block step rid bid)
    (\<lambda>ys s. adapter_inv (insert (rid, bid) gone) (es @ ys) s \<and> finish_pair step rid bid ys)"
proof -
  let ?g = "gone - {(rid, bid)}"
  let ?f = "\<lambda>b. b\<lparr>phase := DONE, priority := COLD, pin_requested := False, prefetch_ok := False,
      compression_ok := True, recompute_ok := False, recency_score := 0\<rparr>"
  let ?look = "get_or_create_block step rid bid DONE COLD False None None []"
  let ?emit = "emit_update step MARKED_COLD ?f ''request finished; block marked done''"
  let ?tail = "\<lambda>cold. bind_s (on_block_freed (step + 1) rid bid) (\<lambda>freed.
     bind_s (update_s (\<lambda>a. a\<lparr>blocks := AList.delete (rid, bid) (blocks a)\<rparr>)) (\<lambda>_. return_s [cold, freed]))"
  let ?post = "\<lambda>ys s. adapter_inv (insert (rid, bid) gone) (es @ ys) s \<and> finish_pair step rid bid ys"
  have later: "ref_ok (step + 1) rid bid" and free: "(rid, bid) \<notin> ?g" using assms by (auto simp: ref_ok_def)
  have assoc: "finish_block step rid bid = bind_s (bind_s ?look ?emit) ?tail"
    by (rule ext) (simp add: finish_block_def bind_s_def bind_r_assoc)
  have drop: "delivers (\<lambda>s. adapter_inv ?g ((es @ [c]) @ [f]) s \<and> about rid bid (step + 1) FREED f)
      (bind_s (update_s (\<lambda>a. a\<lparr>blocks := AList.delete (rid, bid) (blocks a)\<rparr>)) (\<lambda>_. return_s [c, f])) ?post"
    if "about rid bid step MARKED_COLD c" for c f
    using that adapter_inv_drop [of ?g _ _ "(rid, bid)"]
    by (auto simp: delivers_def method_defs finish_pair_def)
  have tail: "delivers (\<lambda>s. adapter_inv ?g (es @ [c]) s \<and> about rid bid step MARKED_COLD c) (?tail c) ?post" for c
  proof (cases "about rid bid step MARKED_COLD c")
    case True
    have "delivers (adapter_inv ?g (es @ [c])) (?tail c) ?post"
      by (rule delivers_bind [OF simple_handlers_deliver(3) [OF later free] drop [OF True]])
    then show ?thesis by (auto simp: delivers_def)
  qed (simp add: delivers_def)
  have "delivers (adapter_inv ?g es) (bind_s ?look ?emit)
      (\<lambda>e s. adapter_inv ?g (es @ [e]) s \<and> about rid bid step MARKED_COLD e)"
    by (rule about_delivers [OF assms range_ok_None free]) (erule mild_field_updates)
  from delivers_bind [OF this tail] have "delivers (adapter_inv ?g es) (finish_block step rid bid) ?post"
    unfolding assoc .
  then show ?thesis by (rule delivers_weaken) (auto elim: adapter_inv_fewer)
qed

lemma finish_loop:
  assumes "list_all (ref_ok step rid) bids"
  shows "delivers (adapter_inv gone es) (collect_s (finish_block step rid) bids)
    (\<lambda>ys s. adapter_inv (Pair rid ` set bids \<union> gone) (es @ ys) s
       \<and> (\<exists>yss. ys = concat yss \<and> list_all2 (finish_pair step rid) bids yss))"
  using assms
proof (induction bids arbitrary: gone es)
  case Nil
  then show ?case by (simp add: delivers_return)
next
  case (Cons bid bids)
  let ?post = "\<lambda>ys s. adapter_inv (Pair rid ` set (bid # bids) \<union> gone) (es @ ys) s
       \<and> (\<exists>yss. ys = concat yss \<and> list_all2 (finish_pair step rid) (bid # bids) yss)"
  have rest: "delivers (\<lambda>s. adapter_inv (insert (rid, bid) gone) (es @ ys) s \<and> finish_pair step rid bid ys)
     (bind_s (collect_s (finish_block step rid) bids) (\<lambda>zs. return_s (ys @ zs))) ?post" for ys
  proof (cases "finish_pair step rid bid ys")
    case True
    have "?post (ys @ zs) s" if "adapter_inv (Pair rid ` set bids \<union> insert (rid, bid) gone) ((es @ ys) @ zs) s
        \<and> (\<exists>yss. zs = concat yss \<and> list_all2 (finish_pair step rid) bids yss)" for zs s
    proof -
      from that obtain yss where "zs = concat yss" "list_all2 (finish_pair step rid) bids yss" by blast
      then have "ys @ zs = concat (ys # yss)" "list_all2 (finish_pair step rid) (bid # bids) (ys # yss)"
        using True by simp_all
      with that show ?thesis by (metis Un_insert_left Un_insert_right append_assoc image_insert list.simps(15))
    qed
    then have ret: "delivers (\<lambda>s. adapter_inv (Pair rid ` set bids \<union> insert (rid, bid) gone) ((es @ ys) @ zs) s
        \<and> (\<exists>yss. zs = concat yss \<and> list_all2 (finish_pair step rid) bids yss)) (return_s (ys @ zs)) ?post" for zs
      by (rule delivers_return)
    from Cons.prems have "list_all (ref_ok step rid) bids" by simp
    from delivers_bind [OF Cons.IH [OF this] ret]
    show ?thesis by (auto simp: delivers_def)
  qed (simp add: delivers_def)
  show ?case
    unfolding collect_s.simps
    by (rule delivers_bind [OF finish_block_delivers rest]) (use Cons.prems in simp)
qed

lemma finished_delivers:
  assumes "list_all (ref_ok step rid) bids"
  shows "delivers (adapter_inv {} es) (on_request_finished step rid bids)
    (\<lambda>ys s. adapter_inv (Pair rid ` set bids) (es @ ys) s \<and> dict_get (request_metadata s) rid = None
       \<and> (\<exists>yss. ys = concat yss \<and> list_all2 (finish_pair step rid) bids yss))"
  unfolding on_request_finished_def
proof (rule delivers_bind [OF finish_loop [OF assms]])
  fix ys
  show "delivers (\<lambda>s. adapter_inv (Pair rid ` set bids \<union> {}) (es @ ys) s
       \<and> (\<exists>yss. ys = concat yss \<and> list_all2 (finish_pair step rid) bids yss))
     (bind_s (update_s (\<lambda>a. a\<lparr>request_metadata := AList.delete rid (request_metadata a)\<rparr>)) (\<lambda>_. return_s ys))
     (\<lambda>ys s. adapter_inv (Pair rid ` set bids) (es @ ys) s \<and> dict_get (request_metadata s) rid = None
       \<and> (\<exists>yss. ys = concat yss \<and> list_all2 (finish_pair step rid) bids yss))"
    using adapter_inv_forget by (fastforce simp: delivers_def method_defs dict_get_delete)
qed

section \<open>Any sequence of signals\<close>

lemma send_signal_delivers:
  assumes "signal_ok sig"
  shows "delivers (adapter_inv {} es) (send_signal sig) (\<lambda>ys s. adapter_inv {} (es @ ys) s)"
proof -
  have keep: "delivers P m (\<lambda>ys s. adapter_inv gone (es @ ys) s \<and> Q ys s)
      \<Longrightarrow> delivers P m (\<lambda>ys s. adapter_inv {} (es @ ys) s)" for P Q gone and m :: "(adapter, mevent list) routine"
    by (erule delivers_weaken) (auto elim: adapter_inv_fewer)
  show ?thesis
  proof (cases sig)
    case (RequestScheduled step rid p d)
    then show ?thesis
      using assms by (auto simp: on_request_scheduled_def delivers_def method_defs intro: adapter_inv_meta)
  next
    case (BlockAllocated step rid bid ph p d n draft)
    then show ?thesis
      using assms by (auto intro!: keep one_event_delivers allocated_delivers)
  next
    case (BlockAccessed step rid bid ph c)
    then show ?thesis using assms by (auto intro!: keep one_event_delivers accessed_delivers)
  next
    case (DecodeStep step rid bids d p)
    then show ?thesis
      using assms keep [OF decode_step_delivers [of step rid bids p "{}" es d]] by simp
  next
    case (PrefillStep step rid bids)
    then show ?thesis using assms keep [OF prefill_step_delivers [of step rid bids "{}" es]] by simp
  next
    case (BlockCommitted step rid bid)
    then show ?thesis using assms by (auto intro!: keep one_event_delivers simple_handlers_deliver)
  next
    case (BlockMarkedCold step rid bid r)
    then show ?thesis using assms by (auto intro!: keep one_event_delivers simple_handlers_deliver)
  next
    case (BlockFreed step rid bid)
    then show ?thesis using assms by (auto intro!: keep one_event_delivers simple_handlers_deliver)
  next
    case (RequestFinished step rid bids)
    then show ?thesis using assms keep [OF finished_delivers [of step rid bids es]] by simp
  qed
qed

lemma new_adapter_inv:
  "0 < n \<Longrightarrow> {HBM, DRAM} \<subseteq> ts \<Longrightarrow> adapter_inv {} [] (new_adapter None n (Some ts))"
  by (auto simp: adapter_inv_def adapter_ok_def new_adapter_def new_recorder_def)

lemma signals_deliver:
  assumes "list_all signal_ok sigs"
  shows "delivers (adapter_inv {} es) (collect_s send_signal sigs) (\<lambda>ys s. adapter_inv {} (es @ ys) s)"
proof -
  have "delivers (adapter_inv {} es) (collect_s send_signal sigs)
      (\<lambda>ys s. adapter_inv {} (es @ ys) s \<and> (\<exists>yss. ys = concat yss \<and> list_all2 (\<lambda>_ _. True) sigs yss))"
    using assms send_signal_delivers by (intro delivers_collect) (auto simp: list_all_iff)
  then show ?thesis by (rule delivers_weaken) auto
qed

definition sends :: "int \<Rightarrow> tier set \<Rightarrow> signal list \<Rightarrow> mevent list \<Rightarrow> adapter \<Rightarrow> bool" where
  "sends n ts sigs es a \<longleftrightarrow> 0 < n \<and> {HBM, DRAM} \<subseteq> ts \<and> list_all signal_ok sigs
     \<and> collect_s send_signal sigs (new_adapter None n (Some ts)) = Inr (es, a)"

lemma sends_inv: "sends n ts sigs es a \<Longrightarrow> adapter_inv {} es a"
  using signals_deliver [of sigs "[]"] new_adapter_inv [of n ts] by (auto simp: sends_def delivers_def)

section \<open>Properties\<close>

text \<open>C11: An adapter whose blocks may live in HBM and DRAM handles every sequence of well-formed engine signals
  without raising, whatever their order (accesses to unknown blocks included). The recorder then holds
  exactly the events the calls returned, in that order; each is valid and its intent may live in HBM
  and a tier below; and every remembered block is stored under its own request and block number.\<close>

theorem adapter_handles_signals:
  assumes "0 < n" "{HBM, DRAM} \<subseteq> ts" "list_all signal_ok sigs"
  shows "\<exists>es a. collect_s send_signal sigs (new_adapter None n (Some ts)) = Inr (es, a)
    \<and> rec_events (adapter_recorder a) = es \<and> (\<forall>e \<in> set es. valid_event e \<and> sound (ev_intent e))
    \<and> (\<forall>rid bid b. dict_get (blocks a) (rid, bid) = Some b
         \<longrightarrow> valid_intent b \<and> object_id b = adapter_object_id rid bid \<and> request_id b = rid \<and> block_id b = bid)"
proof -
  from signals_deliver [OF assms(3), of "[]"] new_adapter_inv [OF assms(1,2)]
  obtain es a where run: "collect_s send_signal sigs (new_adapter None n (Some ts)) = Inr (es, a)"
    and inv: "adapter_inv {} es a" by (auto simp: delivers_def)
  have "own rid bid b" if "dict_get (blocks a) (rid, bid) = Some b" for rid bid b
    using adapter_okD(4) [OF adapter_invD(1) [OF inv] that] .
  with run inv show ?thesis by (fastforce simp: adapter_inv_def own_def sound_def)
qed

definition sample_signals :: "signal list" where
  "sample_signals = [RequestScheduled 0 ''req-1'' 90 (Some 900), BlockAllocated 1 ''req-1'' 0 PREFILL None None None False,
     PrefillStep 2 ''req-1'' [0, 1], DecodeStep 3 ''req-1'' [0, 1] (Some 900) (Some 90), BlockCommitted 4 ''req-1'' 1]"

lemma sample_signals_ok: "list_all signal_ok sample_signals"
  by (simp add: sample_signals_def ref_ok_def priority_ok_def range_ok_def)

theorem adapter_handles_signals_witness:
  "\<exists>es a. collect_s send_signal sample_signals (new_adapter None 16384 (Some {HBM, DRAM})) = Inr (es, a)
    \<and> rec_events (adapter_recorder a) = es \<and> (\<forall>e \<in> set es. valid_event e)"
  using adapter_handles_signals [of 16384 "{HBM, DRAM}" sample_signals] sample_signals_ok by fastforce

lemma sample_sends: "\<exists>es a. sends 16384 {HBM, DRAM} sample_signals es a"
  using signals_deliver [OF sample_signals_ok, of "[]"] new_adapter_inv [of 16384 "{HBM, DRAM}"] sample_signals_ok
  by (auto simp: sends_def delivers_def)

text \<open>C12: A decode step, after any signals, emits for each active block in order a MARKED_DECODE_CRITICAL and
  an ACCESSED event, both carrying the block pinned and decode-critical, and nothing else; the recorder holds them
  after what it held. The mark names the decode step the block is needed at. This holds with and without
  a deadline and a priority (the request id is not empty, step and block ids are not negative, a given priority is
  between 0 and 100). When the step is given a deadline, the slack of the mark is computed from it, the position
  and the priority (the given one, else the one the request was scheduled with; 0 or none counts as 50), is at least
  50 us and never grows along the list; without a deadline the block keeps its own slack, of which nothing is said.\<close>

theorem decode_step_protects:
  assumes "sends n ts sigs es a" "list_all (ref_ok step rid) bids" "range_ok rprio"
  shows "\<exists>yss b. on_decode_step step rid bids deadline rprio a = Inr (concat yss, b)
    \<and> rec_events (adapter_recorder b) = es @ concat yss
    \<and> list_all2 (decode_pair step rid deadline (decode_priority rprio rid a)) (py_enumerate bids) yss
    \<and> (deadline \<noteq> None \<longrightarrow> (\<forall>ys \<in> set yss. \<exists>s. slack_us (ev_intent (hd ys)) = Some s \<and> 50 \<le> s)
         \<and> sorted_wrt (\<lambda>xs ys. the (slack_us (ev_intent (hd ys))) \<le> the (slack_us (ev_intent (hd xs)))) yss)"
proof -
  let ?p = "decode_priority rprio rid a"
  from decode_step_from [OF assms(2,3) _ sends_inv [OF assms(1)], of deadline]
  obtain yss b where run: "on_decode_step step rid bids deadline rprio a = Inr (concat yss, b)"
    "rec_events (adapter_recorder b) = es @ concat yss"
    and pairs: "list_all2 (decode_pair step rid deadline ?p) (py_enumerate bids) yss"
    by (auto simp: adapter_inv_def)
  have "(\<forall>ys \<in> set yss. \<exists>s. slack_us (ev_intent (hd ys)) = Some s \<and> 50 \<le> s)
      \<and> sorted_wrt (\<lambda>xs ys. the (slack_us (ev_intent (hd ys))) \<le> the (slack_us (ev_intent (hd xs)))) yss"
    if "deadline = Some d" for d
  proof -
    have slack: "slack_us (ev_intent (hd (yss ! i))) = Some (compute_slack d (int i) ?p)" if "i < length yss" for i
      using list_all2_nthD2 [OF pairs that] list_all2_lengthD [OF pairs] that \<open>deadline = Some d\<close>
      by (auto simp: decode_pair_def)
    have "\<forall>ys \<in> set yss. \<exists>s. slack_us (ev_intent (hd ys)) = Some s \<and> 50 \<le> s"
      using slack slack_bounds by (auto simp: in_set_conv_nth)
    moreover have "sorted_wrt (\<lambda>xs ys. the (slack_us (ev_intent (hd ys))) \<le> the (slack_us (ev_intent (hd xs)))) yss"
      by (auto simp: sorted_wrt_iff_nth_less slack intro: slack_antimono)
    ultimately show ?thesis by blast
  qed
  with run pairs show ?thesis by blast
qed

theorem decode_step_protects_witness:
  "\<exists>a yss b zss c. on_decode_step 9 ''req-1'' [0, 7] (Some 900) (Some 90) a = Inr (concat yss, b)
    \<and> list_all2 (decode_pair 9 ''req-1'' (Some 900) 90) [(0, 0), (1, 7)] yss
    \<and> on_decode_step 9 ''req-1'' [0, 7] None None a = Inr (concat zss, c)
    \<and> list_all2 (decode_pair 9 ''req-1'' None (decode_priority None ''req-1'' a)) [(0, 0), (1, 7)] zss"
proof -
  obtain es a where a: "sends 16384 {HBM, DRAM} sample_signals es a" using sample_sends by blast
  have bids: "list_all (ref_ok 9 ''req-1'') [0, 7]" by (simp add: ref_ok_def)
  have p: "range_ok (Some 90)" by (simp add: range_ok_def priority_ok_def)
  have enum: "py_enumerate [0, 7 :: int] = [(0, 0), (1, 7)]" by (simp add: py_enumerate_def)
  have "decode_priority (Some 90) ''req-1'' a = 90" by (simp add: decode_priority_def)
  then obtain yss b where "on_decode_step 9 ''req-1'' [0, 7] (Some 900) (Some 90) a = Inr (concat yss, b)"
    "list_all2 (decode_pair 9 ''req-1'' (Some 900) 90) [(0, 0), (1, 7)] yss"
    using decode_step_protects [OF a bids p, of "Some 900"] enum by auto
  moreover obtain zss c where "on_decode_step 9 ''req-1'' [0, 7] None None a = Inr (concat zss, c)"
    "list_all2 (decode_pair 9 ''req-1'' None (decode_priority None ''req-1'' a)) [(0, 0), (1, 7)] zss"
    using decode_step_protects [OF a bids range_ok_None, of None] enum by auto
  ultimately show ?thesis by blast
qed

text \<open>C13: When a request finishes, after any signals, each listed block gets a MARKED_COLD event at the step and
  a FREED event at the next one, and the adapter forgets the blocks and the request's metadata.\<close>

theorem finished_request_forgotten:
  assumes "sends n ts sigs es a" "list_all (ref_ok step rid) bids"
  shows "\<exists>yss b. on_request_finished step rid bids a = Inr (concat yss, b)
    \<and> list_all2 (finish_pair step rid) bids yss \<and> rec_events (adapter_recorder b) = es @ concat yss
    \<and> dict_get (request_metadata b) rid = None \<and> (\<forall>bid \<in> set bids. dict_get (blocks b) (rid, bid) = None)"
  using finished_delivers [OF assms(2), of es] sends_inv [OF assms(1)]
  by (fastforce simp: delivers_def adapter_inv_def)

theorem finished_request_forgotten_witness:
  "\<exists>a yss b. on_request_finished 9 ''req-1'' [0, 1] a = Inr (concat yss, b)
    \<and> list_all2 (finish_pair 9 ''req-1'') [0, 1] yss \<and> dict_get (blocks b) (''req-1'', 1) = None"
proof -
  obtain es a where "sends 16384 {HBM, DRAM} sample_signals es a" using sample_sends by blast
  from finished_request_forgotten [OF this, of 9 "''req-1''" "[0, 1]"] show ?thesis by (auto simp: ref_ok_def)
qed

end
