(* ===== verification/Workload.thy ===== *)
theory Workload
  imports Emission
begin

text \<open>
  The synthetic workload generator of \<open>src/kv_memory_intent/simulator.py\<close>. The pseudo-random
  generator of the standard library is the parameter \<open>draw\<close>: \<open>draw i\<close> is the result of the i-th
  call of \<open>rng.randint(10, 60)\<close>, of which the code relies on \<open>10 \<le> draw i \<le> 60\<close> (\<open>valid_draws\<close>).
\<close>

datatype workload_profile = balanced | deadline_pressure | rag_mixed_priority | speculative_decode
  | long_context_extreme

fun profile_value :: "workload_profile \<Rightarrow> string" where
  "profile_value balanced = ''balanced''"
| "profile_value deadline_pressure = ''deadline_pressure''"
| "profile_value rag_mixed_priority = ''rag_mixed_priority''"
| "profile_value speculative_decode = ''speculative_decode''"
| "profile_value long_context_extreme = ''long_context_extreme''"

record profile_settings =
  long_context_fraction :: pyfloat
  draft_fraction :: pyfloat
  high_priority_fraction :: pyfloat
  deadline_ratio :: pyfloat
  reuse_scale :: pyfloat

definition default_settings :: profile_settings where
  "default_settings = \<lparr>long_context_fraction = fl (3 / 10), draft_fraction = fl (2 / 10),
     high_priority_fraction = fl (2 / 10), deadline_ratio = fl (25 / 100), reuse_scale = 1\<rparr>"

fun profile_settings_of :: "workload_profile \<Rightarrow> profile_settings" where
  "profile_settings_of balanced = default_settings"
| "profile_settings_of deadline_pressure =
     default_settings\<lparr>long_context_fraction := fl (4 / 10), high_priority_fraction := fl (45 / 100),
       deadline_ratio := fl (65 / 100), reuse_scale := fl (7 / 10)\<rparr>"
| "profile_settings_of rag_mixed_priority =
     default_settings\<lparr>long_context_fraction := fl (5 / 10), high_priority_fraction := fl (15 / 100),
       deadline_ratio := fl (2 / 10), reuse_scale := fl (16 / 10)\<rparr>"
| "profile_settings_of speculative_decode =
     default_settings\<lparr>draft_fraction := fl (45 / 100), deadline_ratio := fl (3 / 10),
       reuse_scale := fl (9 / 10)\<rparr>"
| "profile_settings_of long_context_extreme =
     default_settings\<lparr>long_context_fraction := fl (75 / 100), high_priority_fraction := fl (1 / 10),
       deadline_ratio := fl (15 / 100), reuse_scale := fl (28 / 10)\<rparr>"

record workload_options =
  num_requests :: int
  blocks_per_request :: int
  wl_block_size :: int
  decode_steps :: int
  profile :: workload_profile

record request_state =
  rs_request_id :: string
  block_ids :: "string list"
  rs_priority :: int
  is_high :: bool
  hot_span :: int

section \<open>Prefill\<close>

text \<open>\<open>f"req-{i:03d}"\<close>\<close>

definition pad3 :: "int \<Rightarrow> string" where
  "pad3 i = (let s = int_str i in replicate (3 - length s) (CHR ''0'') @ s)"

definition workload_id :: "string \<Rightarrow> int \<Rightarrow> string" where
  "workload_id rid b = tagged_id rid ''block'' b"

definition base_deadline :: "workload_profile \<Rightarrow> bool \<Rightarrow> bool \<Rightarrow> int option" where
  "base_deadline prof high tail =
     (if prof = deadline_pressure \<and> tail then Some 700
      else if prof = rag_mixed_priority \<and> \<not> high then Some 15000
      else if prof = long_context_extreme \<and> \<not> tail then None
      else Some (if high \<and> tail then 900 else 10000))"

definition prefill_intent ::
  "workload_options \<Rightarrow> request_state \<Rightarrow> int \<Rightarrow> int \<Rightarrow> int \<Rightarrow> mintent" where
  "prefill_intent w rq block_count b step =
     (let settings = profile_settings_of (profile w);
          tail = (block_count - hot_span rq \<le> b);
          dl = base_deadline (profile w) (is_high rq) tail
      in (new_intent (workload_id (rs_request_id rq) b) (rs_request_id rq) b KV_CACHE PREFILL
            (if tail then HOT else WARM) {HBM, DRAM} HBM (wl_block_size w))
           \<lparr>request_priority := rs_priority rq, recency_score := (if tail then fl (7 / 10) else fl (15 / 100)),
            deadline_us := dl, slack_us := map_option (\<lambda>d. d - 200) dl, arrival_step := Some step,
            target_decode_step := Some (step + block_count + max 2 (b div 2)),
            expected_reuse_window_tokens :=
              Some (if tail then 2 else float_to_int (fmul (int_to_float (24 + b)) (reuse_scale settings))),
            recompute_cost_us := Some (if tail then 5000 else 200), spill_cost_us := Some 200,
            compression_ok := \<not> tail, recompute_ok := \<not> tail, prefetch_ok := \<not> tail,
            is_draft := b < max 1 (float_to_int (fmul (int_to_float block_count) (draft_fraction settings)))
              \<and> profile w \<in> {speculative_decode, balanced} \<and> \<not> is_high rq,
            created_step := step, last_access_step := step\<rparr>)"

definition prefill_step ::
  "workload_options \<Rightarrow> request_state \<Rightarrow> int \<Rightarrow> int \<Rightarrow> emitter \<Rightarrow> emitter result" where
  "prefill_step w rq block_count b st =
     bind_r (post_init (prefill_intent w rq block_count b (fst st))) (\<lambda>i.
     emit ALLOCATED i (''initial kv allocation ('' @ profile_value (profile w) @ '')'') st)"

record prefill_state =
  out :: emitter
  requests :: "request_state list"
  draws :: nat

definition request_count_below :: "workload_options \<Rightarrow> pyfloat \<Rightarrow> int" where
  "request_count_below w fraction = max 1 (float_to_int (fmul (int_to_float (num_requests w)) fraction))"

definition high_request :: "workload_options \<Rightarrow> int \<Rightarrow> bool" where
  "high_request w index \<longleftrightarrow>
     index < request_count_below w (high_priority_fraction (profile_settings_of (profile w)))"

definition block_count_of :: "workload_options \<Rightarrow> int \<Rightarrow> int" where
  "block_count_of w index =
     (let long = index < request_count_below w (long_context_fraction (profile_settings_of (profile w)))
      in blocks_per_request w * (if profile w = long_context_extreme \<and> long then 3 else if long then 2 else 1))"

definition request_of :: "(nat \<Rightarrow> int) \<Rightarrow> workload_options \<Rightarrow> int \<Rightarrow> nat \<Rightarrow> request_state" where
  "request_of draw w index drawn =
     (let rid = ''req-'' @ pad3 index; high = high_request w index
      in \<lparr>rs_request_id = rid, block_ids = map (workload_id rid) [0..block_count_of w index - 1],
          rs_priority = (if high then 92 else draw drawn), is_high = high,
          hot_span = (if high \<or> profile w = deadline_pressure then 3 else 2)\<rparr>)"

definition prefill_request ::
  "(nat \<Rightarrow> int) \<Rightarrow> workload_options \<Rightarrow> int \<Rightarrow> prefill_state \<Rightarrow> prefill_state result" where
  "prefill_request draw w index s =
     (let rq = request_of draw w index (draws s); n = block_count_of w index
      in bind_r (fold_r (prefill_step w rq n) [0..n - 1] (out s)) (\<lambda>st.
         Inr \<lparr>out = st, requests = requests s @ [rq],
              draws = draws s + (if high_request w index then 0 else 1)\<rparr>))"

section \<open>Decode\<close>

definition decode_intent ::
  "workload_options \<Rightarrow> request_state \<Rightarrow> nat \<Rightarrow> string \<Rightarrow> int \<Rightarrow> int \<Rightarrow> mintent" where
  "decode_intent w rq offset oid b step =
     (let dp = (profile w = deadline_pressure)
      in (new_intent oid (rs_request_id rq) b KV_CACHE DECODE DECODE_CRITICAL {HBM, DRAM} HBM (wl_block_size w))
           \<lparr>request_priority := rs_priority rq,
            recency_score := fsub 1 (fmul (int_to_float (int offset)) (fl (1 / 10))),
            deadline_us := Some (if dp \<or> is_high rq then 700 else 2500),
            slack_us := Some (if dp then 250 else if is_high rq then 1500 else 3500),
            arrival_step := Some 0, target_decode_step := Some (step + int offset),
            expected_reuse_window_tokens := Some (1 + int offset),
            recompute_cost_us := Some (if is_high rq \<or> dp then 6000 else 2000), spill_cost_us := Some 250,
            pin_requested := True, is_committed := True, last_access_step := step\<rparr>)"

definition decode_hot_step ::
  "workload_options \<Rightarrow> request_state \<Rightarrow> nat \<times> string \<Rightarrow> emitter \<Rightarrow> emitter result" where
  "decode_hot_step w rq ob st =
     bind_r (int_after_colon (snd ob)) (\<lambda>b.
     bind_r (post_init (decode_intent w rq (fst ob) (snd ob) b (fst st))) (\<lambda>i.
     bind_r (emit MARKED_DECODE_CRITICAL i ''decode hot set'' st) (\<lambda>st1.
     emit ACCESSED i ''token decode access'' st1)))"

definition stale_intent ::
  "workload_options \<Rightarrow> request_state \<Rightarrow> int \<Rightarrow> string \<Rightarrow> int \<Rightarrow> int \<Rightarrow> mintent" where
  "stale_intent w rq decode_step oid b step =
     (let settings = profile_settings_of (profile w)
      in (new_intent oid (rs_request_id rq) b KV_CACHE (if decode_step mod 7 = 0 then DONE else VERIFY) COLD
            {HBM, DRAM} HBM (wl_block_size w))
           \<lparr>request_priority := max (rs_priority rq - (if profile w = rag_mixed_priority then 45 else 20)) 0,
            recency_score := (if profile w = long_context_extreme then fl (5 / 100) else 0),
            deadline_us := (if profile w = deadline_pressure
              then Some (float_to_int (fdiv 6000 (max (deadline_ratio settings) (fl (1 / 10))))) else None),
            arrival_step := Some 0, target_decode_step := Some (step + 512),
            expected_reuse_window_tokens := Some (float_to_int (fmul 48 (reuse_scale settings))),
            recompute_cost_us := Some 80, spill_cost_us := Some 100, compression_ok := True,
            recompute_ok := True, prefetch_ok := True,
            is_draft := profile w = speculative_decode \<and> decode_step mod 2 = 0,
            last_access_step := max (step - 20) 0\<rparr>)"

definition prefetch_target :: "workload_options \<Rightarrow> request_state \<Rightarrow> mintent \<Rightarrow> mintent" where
  "prefetch_target w rq i =
     i\<lparr>current_tier := DRAM, prefetch_ok := True, priority := (if is_high rq then HOT else WARM),
       deadline_us := (if is_high rq then Some 4000 else None),
       slack_us := (if is_high rq then Some 1200 else None),
       expected_reuse_window_tokens := Some (if profile w = long_context_extreme then 12 else 4)\<rparr>"

definition decode_cold_step ::
  "workload_options \<Rightarrow> request_state \<Rightarrow> string list \<Rightarrow> int \<Rightarrow> emitter \<Rightarrow> emitter result" where
  "decode_cold_step w rq cold decode_step st =
     (let stale_id = cold ! nat (decode_step mod int (length cold)) in
      bind_r (int_after_colon stale_id) (\<lambda>b.
      bind_r (post_init (stale_intent w rq decode_step stale_id b (fst st))) (\<lambda>i.
      bind_r (emit MARKED_COLD i ''aging old kv block'' st) (\<lambda>st1.
      bind_r (if is_draft i \<and> decode_step mod 5 = 0
              then bind_r (copy_with (\<lambda>x. x\<lparr>is_committed := True, is_draft := False\<rparr>) i)
                (\<lambda>c. emit COMMITTED c ''draft accepted'' st1)
              else Inr st1) (\<lambda>st2.
      if decode_step mod 5 = 0
      then bind_r (copy_with (prefetch_target w rq) i) (\<lambda>p. emit PREFETCHED p ''anticipated reuse'' st2)
      else Inr st2)))))"

text \<open>\<open>xs[-k:]\<close> and \<open>xs[:-k]\<close> for positive \<open>k\<close>.\<close>

definition last_items :: "int \<Rightarrow> 'a list \<Rightarrow> 'a list" where "last_items k xs = drop (length xs - nat k) xs"
definition but_last_items :: "int \<Rightarrow> 'a list \<Rightarrow> 'a list" where "but_last_items k xs = take (length xs - nat k) xs"

definition decode_one_step ::
  "workload_options \<Rightarrow> request_state list \<Rightarrow> int \<Rightarrow> emitter \<Rightarrow> emitter result" where
  "decode_one_step w reqs decode_step st =
     (if reqs = [] then Inl ZeroDivisionError
      else let rq = reqs ! nat (decode_step mod int (length reqs));
               hot = last_items (hot_span rq) (block_ids rq);
               cold = but_last_items (hot_span rq) (block_ids rq)
           in bind_r (fold_r (decode_hot_step w rq) (enumerate 0 hot) st) (\<lambda>st1.
              if cold \<noteq> [] then decode_cold_step w rq cold decode_step st1 else Inr st1))"

definition generate_synthetic_kv_workload ::
  "(nat \<Rightarrow> int) \<Rightarrow> workload_options \<Rightarrow> mevent list result" where
  "generate_synthetic_kv_workload draw w =
     bind_r (fold_r (prefill_request draw w) [0..num_requests w - 1]
        \<lparr>out = (0, []), requests = [], draws = 0\<rparr>) (\<lambda>s.
     bind_r (fold_r (decode_one_step w (requests s)) [0..decode_steps w - 1] (out s)) (\<lambda>st.
     Inr (snd st)))"

section \<open>Every intent is sound\<close>

definition valid_draws :: "(nat \<Rightarrow> int) \<Rightarrow> bool" where
  "valid_draws draw \<longleftrightarrow> (\<forall>i. 10 \<le> draw i \<and> draw i \<le> 60)"

definition request_ok :: "request_state \<Rightarrow> bool" where
  "request_ok rq \<longleftrightarrow> rs_request_id rq \<noteq> [] \<and> 0 \<le> rs_priority rq \<and> rs_priority rq \<le> 100
     \<and> hot_span rq \<in> {2, 3} \<and> (\<forall>oid \<in> set (block_ids rq). \<exists>b \<ge> 0. oid = workload_id (rs_request_id rq) b)"

definition ready :: "request_state list \<Rightarrow> emitter \<Rightarrow> bool" where
  "ready reqs st \<longleftrightarrow> well_emitted st
     \<and> (\<forall>rq \<in> set reqs. request_ok rq \<and> set (block_ids rq) \<subseteq> allocated (snd st))"

lemma valid_drawsD: "valid_draws draw \<Longrightarrow> 0 \<le> draw i \<and> draw i \<le> 100"
  by (auto simp: valid_draws_def intro: order_trans [of _ 10] order_trans [of _ 60])

lemma workload_id_nonempty [simp]: "workload_id p n \<noteq> []"
  by (simp add: workload_id_def)

lemmas workload_defs = new_intent_def intent_ranges_def routable_def request_ok_def

lemma fl_unit [simp]: "0 \<le> x \<Longrightarrow> 0 \<le> fl x" "x \<le> 1 \<Longrightarrow> fl x \<le> 1"
  by (auto intro: fl_ge fl_le)

lemma prefill_intent_ok:
  assumes "0 \<le> rs_priority rq" "rs_priority rq \<le> 100" "rs_request_id rq \<noteq> []" "0 < wl_block_size w" "0 \<le> b"
  shows "intent_ranges (prefill_intent w rq n b step) \<and> routable (prefill_intent w rq n b step)"
  using assms by (simp add: prefill_intent_def Let_def workload_defs)

lemma tenth: "0 \<le> fl (1 / 10)" "fl (1 / 10) \<le> 1 / 3"
  by (rule fl_ge, simp_all, code_simp)

lemma decode_intent_ok:
  assumes "request_ok rq" "0 < wl_block_size w" "0 \<le> b" "oid \<noteq> []" "n \<le> 3"
  shows "intent_ranges (decode_intent w rq n oid b step) \<and> routable (decode_intent w rq n oid b step)"
proof -
  have f: "int_to_float (int n) = of_nat n" using assms(5) by (simp add: int_to_float_exact)
  have "of_nat n * fl (1 / 10) \<le> 3 * (1 / 3)" using assms(5) tenth by (intro mult_mono) simp_all
  then have "0 \<le> fmul (int_to_float (int n)) (fl (1 / 10))" "fmul (int_to_float (int n)) (fl (1 / 10)) \<le> 1"
    using tenth by (auto simp: f intro!: fmul_ge fmul_le)
  then have "0 \<le> fsub 1 (fmul (int_to_float (int n)) (fl (1 / 10)))"
    "fsub 1 (fmul (int_to_float (int n)) (fl (1 / 10))) \<le> 1"
    by (auto intro!: fsub_ge fsub_le)
  then show ?thesis using assms by (auto simp: decode_intent_def Let_def workload_defs)
qed

lemma stale_intent_ok:
  "request_ok rq \<Longrightarrow> 0 < wl_block_size w \<Longrightarrow> 0 \<le> b \<Longrightarrow> oid \<noteq> []
   \<Longrightarrow> intent_ranges (stale_intent w rq d oid b step) \<and> routable (stale_intent w rq d oid b step)"
  by (auto simp: stale_intent_def Let_def workload_defs)

lemma workload_intent_ids [simp]:
  "object_id (prefill_intent w rq n b step) = workload_id (rs_request_id rq) b"
  "object_id (decode_intent w rq k oid b step) = oid" "object_id (stale_intent w rq d oid b step) = oid"
  by (simp_all add: prefill_intent_def decode_intent_def stale_intent_def Let_def new_intent_def)

lemma readyD:
  assumes "ready reqs st"
  shows "well_emitted st" "rq \<in> set reqs \<Longrightarrow> request_ok rq"
    "rq \<in> set reqs \<Longrightarrow> oid \<in> set (block_ids rq) \<Longrightarrow> oid \<in> allocated (snd st)"
  using assms by (auto simp: ready_def)

text \<open>Emitting about an allocated block keeps everything ready.\<close>

lemma ready_emit:
  assumes "ready reqs st" "sound i" "object_id i \<in> allocated (snd st)" "et \<noteq> ALLOCATED"
  shows "\<exists>st'. emit et i m st = Inr st' \<and> ready reqs st' \<and> allocated (snd st) \<subseteq> allocated (snd st')"
proof -
  obtain st' where "emit et i m st = Inr st'" "well_emitted st'" "allocated (snd st) \<subseteq> allocated (snd st')"
    using emit_total [OF readyD(1) [OF assms(1)] assms(2) may_emit_known [OF assms(3,4)]] by blast
  then show ?thesis using assms(1) by (auto simp: ready_def)
qed

section \<open>The loops\<close>

lemma prefill_loop:
  assumes rq: "0 \<le> rs_priority rq" "rs_priority rq \<le> 100" "rs_request_id rq \<noteq> []" and w: "0 < wl_block_size w"
    and st: "ready reqs st"
  shows "\<exists>st'. fold_r (prefill_step w rq n) [0..n - 1] st = Inr st' \<and> ready reqs st'
    \<and> (\<forall>b \<in> set [0..n - 1]. workload_id (rs_request_id rq) b \<in> allocated (snd st'))"
proof (rule fold_r_each [where P = "ready reqs"
      and Q = "\<lambda>b st. workload_id (rs_request_id rq) b \<in> allocated (snd st)"])
  fix b u assume b: "b \<in> set [0..n - 1]" and u: "ready reqs u"
  obtain j where j: "post_init (prefill_intent w rq n b (fst u)) = Inr j" "sound j"
    "object_id j = workload_id (rs_request_id rq) b"
    using post_init_sound [OF prefill_intent_ok [OF rq w, of b n "fst u"]] b by auto
  have "current_tier j = HBM"
    using j(1) prefill_intent_ok [OF rq w, of b n "fst u"] b
    by (auto simp: post_init_eq prefill_intent_def Let_def new_intent_def)
  then have may: "may_emit u ALLOCATED j" by (simp add: may_emit_def)
  obtain v where v: "emit ALLOCATED j (''initial kv allocation ('' @ profile_value (profile w) @ '')'') u = Inr v"
    "well_emitted v" "object_id j \<in> allocated (snd v)" "allocated (snd u) \<subseteq> allocated (snd v)"
    using emit_total [OF readyD(1) [OF u] j(2) may] by blast
  moreover have "ready reqs v" using u v(2,4) by (auto simp: ready_def)
  ultimately show "\<exists>v. prefill_step w rq n b u = Inr v \<and> ready reqs v
      \<and> workload_id (rs_request_id rq) b \<in> allocated (snd v)"
    by (simp add: prefill_step_def j)
next
  fix b c u v
  assume a: "workload_id (rs_request_id rq) b \<in> allocated (snd u)" and "prefill_step w rq n c u = Inr v"
  then obtain i m where "emit ALLOCATED i m u = Inr v" by (auto simp: prefill_step_def bind_r_Inr_iff)
  from emit_mono [OF this] a show "workload_id (rs_request_id rq) b \<in> allocated (snd v)" by blast
qed (rule st)

lemma prefill_request_total:
  assumes d: "valid_draws draw" and w: "0 < wl_block_size w" and s: "ready (requests s) (out s)"
  shows "\<exists>t. prefill_request draw w index s = Inr t \<and> ready (requests t) (out t) \<and> requests t \<noteq> []
    \<and> (1 \<le> blocks_per_request w \<longrightarrow> (\<exists>rq \<in> set (requests t). block_ids rq \<noteq> []))"
proof -
  define rq n where "rq = request_of draw w index (draws s)" and "n = block_count_of w index"
  have ids: "block_ids rq = map (workload_id (rs_request_id rq)) [0..n - 1]"
    and rq: "0 \<le> rs_priority rq" "rs_priority rq \<le> 100" "rs_request_id rq \<noteq> []" "hot_span rq \<in> {2, 3}"
    using valid_drawsD [OF d] by (auto simp: rq_def n_def request_of_def Let_def)
  obtain st where st: "fold_r (prefill_step w rq n) [0..n - 1] (out s) = Inr st" "ready (requests s) st"
    "\<forall>b \<in> set [0..n - 1]. workload_id (rs_request_id rq) b \<in> allocated (snd st)"
    using prefill_loop [OF rq(1-3) w s, of n] by blast
  have "request_ok rq" using rq by (auto simp: request_ok_def ids)
  moreover have "set (block_ids rq) \<subseteq> allocated (snd st)" using st(3) by (auto simp: ids)
  ultimately have "ready (requests s @ [rq]) st" using st(2) by (auto simp: ready_def)
  moreover have "1 \<le> blocks_per_request w \<longrightarrow> block_ids rq \<noteq> []" by (simp add: ids n_def block_count_of_def Let_def)
  ultimately show ?thesis by (simp add: prefill_request_def Let_def rq_def [symmetric] n_def [symmetric] st(1))
qed

lemma hot_step_total:
  assumes rq: "rq \<in> set reqs" and w: "0 < wl_block_size w" and st: "ready reqs st"
    and o: "oid \<in> set (block_ids rq)" and n: "n \<le> 3"
  shows "\<exists>v. decode_hot_step w rq (n, oid) st = Inr v \<and> ready reqs v"
proof -
  have ok: "request_ok rq" by (rule readyD(2) [OF st rq])
  then obtain b where b: "0 \<le> b" "oid = workload_id (rs_request_id rq) b" using o by (auto simp: request_ok_def)
  have known: "oid \<in> allocated (snd st)" by (rule readyD(3) [OF st rq o])
  obtain j where j: "post_init (decode_intent w rq n oid b (fst st)) = Inr j" "sound j" "object_id j = oid"
    using post_init_sound [OF decode_intent_ok [OF ok w b(1) _ n, of oid "fst st"]] b(2) by auto
  obtain u where u: "emit MARKED_DECODE_CRITICAL j ''decode hot set'' st = Inr u" "ready reqs u"
    "allocated (snd st) \<subseteq> allocated (snd u)"
    using ready_emit [OF st j(2)] known event_type.distinct unfolding j(3) by blast
  obtain v where v: "emit ACCESSED j ''token decode access'' u = Inr v" "ready reqs v"
    using ready_emit [OF u(2) j(2)] known u(3) event_type.distinct unfolding j(3) by blast
  have "int_after_colon oid = Inr b" using b by (simp add: workload_id_def int_after_colon_tagged)
  then show ?thesis using v(2) by (simp add: decode_hot_step_def j(1) u(1) v(1))
qed

lemma cold_step_total:
  assumes rq: "rq \<in> set reqs" and w: "0 < wl_block_size w" and st: "ready reqs st"
    and cold: "cold \<noteq> []" "set cold \<subseteq> set (block_ids rq)"
  shows "\<exists>v. decode_cold_step w rq cold d st = Inr v \<and> ready reqs v"
proof -
  define oid where "oid = cold ! nat (d mod int (length cold))"
  have "nat (d mod int (length cold)) < length cold" using cold(1) by (simp add: nat_less_iff)
  then have o: "oid \<in> set (block_ids rq)" using cold(2) by (auto simp: oid_def)
  have ok: "request_ok rq" by (rule readyD(2) [OF st rq])
  then obtain b where b: "0 \<le> b" "oid = workload_id (rs_request_id rq) b" using o by (auto simp: request_ok_def)
  have parse: "int_after_colon oid = Inr b" using b by (simp add: workload_id_def int_after_colon_tagged)
  have known: "oid \<in> allocated (snd st)" by (rule readyD(3) [OF st rq o])
  obtain i where i: "post_init (stale_intent w rq d oid b (fst st)) = Inr i" "sound i" "object_id i = oid"
    "allowed_tiers i = {HBM, DRAM}"
    using post_init_eq [OF conjunct1 [OF stale_intent_ok [OF ok w b(1), of oid d "fst st"]]]
      post_init_sound [OF stale_intent_ok [OF ok w b(1), of oid d "fst st"]] b(2)
    by (auto simp: stale_intent_def Let_def new_intent_def)
  obtain s1 where s1: "emit MARKED_COLD i ''aging old kv block'' st = Inr s1" "ready reqs s1"
    "allocated (snd st) \<subseteq> allocated (snd s1)"
    using ready_emit [OF st i(2)] known event_type.distinct unfolding i(3) by blast
  have commit: "\<exists>c. copy_with (\<lambda>x. x\<lparr>is_committed := True, is_draft := False\<rparr>) i = Inr c \<and> sound c \<and> object_id c = oid"
    using sound_copy [of "\<lambda>x. x\<lparr>is_committed := True, is_draft := False\<rparr>" i] i(2,3)
    by (auto simp: sound_def valid_intent_def intent_ranges_def routable_def)
  have fetch: "\<exists>p. copy_with (prefetch_target w rq) i = Inr p \<and> sound p \<and> object_id p = oid"
    using sound_copy [of "prefetch_target w rq" i] i(2-4)
    by (auto simp: sound_def valid_intent_def intent_ranges_def routable_def prefetch_target_def)
  have "\<exists>s2. (if is_draft i \<and> d mod 5 = 0
              then bind_r (copy_with (\<lambda>x. x\<lparr>is_committed := True, is_draft := False\<rparr>) i)
                (\<lambda>c. emit COMMITTED c ''draft accepted'' s1)
              else Inr s1) = Inr s2 \<and> ready reqs s2 \<and> allocated (snd s1) \<subseteq> allocated (snd s2)"
  proof (cases "is_draft i \<and> d mod 5 = 0")
    case True
    obtain c where c: "copy_with (\<lambda>x. x\<lparr>is_committed := True, is_draft := False\<rparr>) i = Inr c" "sound c" "object_id c = oid"
      using commit by blast
    have "object_id c \<in> allocated (snd s1)" using known s1(3) by (auto simp: c(3))
    then show ?thesis using True c(1) ready_emit [OF s1(2) c(2)] by simp
  next
    case False
    then show ?thesis using s1(2) by (simp only: if_False) blast
  qed
  then obtain s2 where s2: "(if is_draft i \<and> d mod 5 = 0
              then bind_r (copy_with (\<lambda>x. x\<lparr>is_committed := True, is_draft := False\<rparr>) i)
                (\<lambda>c. emit COMMITTED c ''draft accepted'' s1)
              else Inr s1) = Inr s2" "ready reqs s2" "allocated (snd s1) \<subseteq> allocated (snd s2)" by blast
  have "\<exists>s3. (if d mod 5 = 0 then bind_r (copy_with (prefetch_target w rq) i) (\<lambda>p. emit PREFETCHED p ''anticipated reuse'' s2)
      else Inr s2) = Inr s3 \<and> ready reqs s3"
  proof (cases "d mod 5 = 0")
    case True
    obtain p where p: "copy_with (prefetch_target w rq) i = Inr p" "sound p" "object_id p = oid" using fetch by blast
    have "object_id p \<in> allocated (snd s2)" using known s1(3) s2(3) by (auto simp: p(3))
    then have "\<exists>s3. emit PREFETCHED p ''anticipated reuse'' s2 = Inr s3 \<and> ready reqs s3"
      using ready_emit [OF s2(2) p(2)] event_type.distinct by blast
    then show ?thesis using True p(1) by simp
  next
    case False
    then show ?thesis using s2(2) by (simp only: if_False) blast
  qed
  then show ?thesis
    unfolding decode_cold_step_def Let_def oid_def [symmetric] parse bind_r_simps i(1) s1(1) s2(1) by blast
qed

lemma decode_one_total:
  assumes w: "0 < wl_block_size w" and st: "ready reqs st" and ne: "reqs \<noteq> []"
  shows "\<exists>v. decode_one_step w reqs d st = Inr v \<and> ready reqs v"
proof -
  define rq where "rq = reqs ! nat (d mod int (length reqs))"
  have "nat (d mod int (length reqs)) < length reqs" using ne by (simp add: nat_less_iff)
  then have rq: "rq \<in> set reqs" by (simp add: rq_def)
  define hot cold where "hot = last_items (hot_span rq) (block_ids rq)"
    and "cold = but_last_items (hot_span rq) (block_ids rq)"
  have sub: "set hot \<subseteq> set (block_ids rq)" "set cold \<subseteq> set (block_ids rq)"
    by (auto simp: hot_def cold_def last_items_def but_last_items_def dest: in_set_dropD in_set_takeD)
  have "hot_span rq \<in> {2, 3}" using readyD(2) [OF st rq] by (simp add: request_ok_def)
  then have len: "length hot \<le> 3" by (auto simp: hot_def last_items_def)
  have "\<exists>u. fold_r (decode_hot_step w rq) (enumerate 0 hot) st = Inr u \<and> ready reqs u"
  proof (rule fold_r_total [where P = "ready reqs", OF st])
    fix x u assume x: "x \<in> set (enumerate 0 hot)" and u: "ready reqs u"
    obtain n oid where xn: "x = (n, oid)" by (cases x) simp
    have "n < length hot" "hot ! n = oid" using x by (simp_all add: xn in_set_enumerate_eq)
    moreover from this have "oid \<in> set hot" using nth_mem by blast
    moreover note xn
    ultimately have "x = (n, oid)" "n < length hot" "oid \<in> set hot" by simp_all
    then show "\<exists>v. decode_hot_step w rq x u = Inr v \<and> ready reqs v"
      using hot_step_total [OF rq w u, of oid n] sub(1) len by auto
  qed
  then obtain u where u: "fold_r (decode_hot_step w rq) (enumerate 0 hot) st = Inr u" "ready reqs u" by blast
  obtain v where v: "(if cold \<noteq> [] then decode_cold_step w rq cold d u else Inr u) = Inr v" "ready reqs v"
  proof (cases "cold = []")
    case True
    with u(2) that show ?thesis by simp
  next
    case False
    with cold_step_total [OF rq w u(2) False sub(2), of d] that show ?thesis by auto
  qed
  have "decode_one_step w reqs d st = Inr v"
    using ne u(1) v(1)
    by (auto simp: decode_one_step_def Let_def rq_def [symmetric] hot_def [symmetric] cold_def [symmetric] split: if_splits)
  with v(2) show ?thesis by blast
qed

lemma generate_total:
  assumes d: "valid_draws draw" and w: "0 < wl_block_size w" and n: "1 \<le> num_requests w \<or> decode_steps w \<le> 0"
  shows "\<exists>es. generate_synthetic_kv_workload draw w = Inr es \<and> well_emitted (int (length es), es)
    \<and> (1 \<le> num_requests w \<longrightarrow> 1 \<le> blocks_per_request w \<longrightarrow> es \<noteq> [])"
proof -
  let ?s0 = "\<lparr>out = (0, []), requests = [], draws = 0\<rparr> :: prefill_state"
  have start: "ready (requests ?s0) (out ?s0)" by (simp add: ready_def)
  have "\<exists>s. fold_r (prefill_request draw w) [0..num_requests w - 1] ?s0 = Inr s
      \<and> ready (requests s) (out s) \<and> (\<forall>i \<in> set [0..num_requests w - 1]. requests s \<noteq> []
        \<and> (1 \<le> blocks_per_request w \<longrightarrow> (\<exists>rq \<in> set (requests s). block_ids rq \<noteq> [])))"
    by (rule fold_r_each [where P = "\<lambda>s. ready (requests s) (out s)" and Q = "\<lambda>_ s. requests s \<noteq> []
        \<and> (1 \<le> blocks_per_request w \<longrightarrow> (\<exists>rq \<in> set (requests s). block_ids rq \<noteq> []))", OF start])
      (use prefill_request_total [OF d w] in \<open>auto simp: prefill_request_def Let_def bind_r_Inr_iff\<close>)
  then obtain s where s: "fold_r (prefill_request draw w) [0..num_requests w - 1] ?s0 = Inr s"
    "ready (requests s) (out s)" "\<forall>i \<in> set [0..num_requests w - 1]. requests s \<noteq> []
      \<and> (1 \<le> blocks_per_request w \<longrightarrow> (\<exists>rq \<in> set (requests s). block_ids rq \<noteq> []))" by blast
  have "\<exists>st. fold_r (decode_one_step w (requests s)) [0..decode_steps w - 1] (out s) = Inr st \<and> ready (requests s) st"
  proof (rule fold_r_total [where P = "ready (requests s)", OF s(2)])
    fix k u assume k: "k \<in> set [0..decode_steps w - 1]" and u: "ready (requests s) u"
    have "requests s \<noteq> []" using s(3) n k by (cases "1 \<le> num_requests w") auto
    then show "\<exists>v. decode_one_step w (requests s) k u = Inr v \<and> ready (requests s) v"
      by (rule decode_one_total [OF w u])
  qed
  then obtain st where st: "fold_r (decode_one_step w (requests s)) [0..decode_steps w - 1] (out s) = Inr st"
    "ready (requests s) st" by blast
  have we: "well_emitted st" by (rule readyD(1) [OF st(2)])
  have "generate_synthetic_kv_workload draw w = Inr (snd st)"
    by (simp add: generate_synthetic_kv_workload_def s(1) st(1))
  moreover have "st = (int (length (snd st)), snd st)" using we by (simp add: well_emitted_def prod_eq_iff)
  then have "well_emitted (int (length (snd st)), snd st)" using we by simp
  moreover have "snd st \<noteq> []" if nr: "1 \<le> num_requests w" and bp: "1 \<le> blocks_per_request w"
  proof -
    have "0 \<in> set [0..num_requests w - 1]" using nr by simp
    then obtain rq where rq: "rq \<in> set (requests s)" "block_ids rq \<noteq> []" using s(3) bp by blast
    then have "set (block_ids rq) \<subseteq> allocated (snd st)" using st(2) by (simp add: ready_def)
    with rq(2) show ?thesis by (auto simp: allocated_def)
  qed
  ultimately show ?thesis by blast
qed

section \<open>Properties\<close>

text \<open>For every profile and every stream of random priorities, the synthetic workload is generated without
  failing (given a positive block size and at least one request when there are decode steps): its
  events are numbered 0, 1, 2, ..., carry valid intents that may live in HBM and DRAM, and never name
  a block before its allocation.\<close>

theorem workload_well_formed:
  assumes "valid_draws draw" "0 < wl_block_size w" "1 \<le> num_requests w \<or> decode_steps w \<le> 0"
  shows "\<exists>es. generate_synthetic_kv_workload draw w = Inr es
    \<and> map ev_step es = map int [0..<length es] \<and> allocated_first {} es
    \<and> (\<forall>e \<in> set es. valid_event e \<and> sound (ev_intent e))"
  using generate_total [OF assms] by (auto simp: well_emitted_def)

definition sample_workload :: workload_options where
  "sample_workload = \<lparr>num_requests = 2, blocks_per_request = 4, wl_block_size = 1024, decode_steps = 3,
     profile = speculative_decode\<rparr>"

theorem workload_well_formed_witness:
  "\<exists>es. generate_synthetic_kv_workload (\<lambda>i. 10 + int i mod 51) sample_workload = Inr es \<and> allocated_first {} es"
proof -
  have "valid_draws (\<lambda>i. 10 + int i mod 51)"
    unfolding valid_draws_def
  proof
    fix i :: nat
    have "int i mod 51 < 51" by simp
    then have "int i mod 51 \<le> 50" by linarith
    then show "10 \<le> 10 + int i mod 51 \<and> 10 + int i mod 51 \<le> 60" by simp
  qed
  from workload_well_formed [OF this, of sample_workload] show ?thesis by (auto simp: sample_workload_def)
qed

text \<open>Without requests, any decode step divides by zero: the generator raises instead of returning an
  empty workload.\<close>

theorem workload_without_requests_raises:
  assumes "num_requests w \<le> 0" "0 < decode_steps w"
  shows "generate_synthetic_kv_workload draw w = Inl ZeroDivisionError"
proof -
  have "[0..decode_steps w - 1] = 0 # [1..decode_steps w - 1]" using assms(2) by (simp add: upto_rec1)
  then show ?thesis using assms(1) by (simp add: generate_synthetic_kv_workload_def decode_one_step_def)
qed

theorem workload_without_requests_raises_witness:
  "generate_synthetic_kv_workload (\<lambda>i. 0) (sample_workload\<lparr>num_requests := 0\<rparr>) = Inl ZeroDivisionError"
  by (rule workload_without_requests_raises) (simp_all add: sample_workload_def)

end
