(* ===== verification/VllmMock.thy ===== *)
theory VllmMock
  imports VllmSignals Workload
begin

text \<open>
  \<open>generate_mock_vllm_trace\<close> of \<open>src/kv_memory_intent/adapters/vllm_adapter.py\<close>: the synthetic client of
  the adapter. The random generator is the parameter \<open>draw\<close>: \<open>draw i n\<close> is the result of the i-th
  call of \<open>rng.randrange(n)\<close>, of which the code relies on \<open>0 \<le> draw i n < n\<close>.
\<close>

section \<open>The generator\<close>

record mock_state =
  mock_adapter :: adapter
  mock_step :: int
  block_counts :: "(string, int) dict"
  mock_draws :: nat

text \<open>A call on the adapter, and the step counter.\<close>

definition call_adapter :: "(adapter, 'a) routine \<Rightarrow> mock_state \<Rightarrow> mock_state result" where
  "call_adapter m s = bind_r (m (mock_adapter s)) (\<lambda>xa. Inr (s\<lparr>mock_adapter := snd xa\<rparr>))"

definition ticks :: "int \<Rightarrow> mock_state \<Rightarrow> mock_state result" where
  "ticks n s = Inr (s\<lparr>mock_step := mock_step s + n\<rparr>)"

definition mock_id :: "int \<Rightarrow> string" where "mock_id index = ''req-'' @ pad3 index"

record mock_profile =
  mp_priority :: int
  mp_deadline :: int
  mp_count :: int
  mp_speculative :: bool

definition mock_profile_of :: "int \<Rightarrow> int \<Rightarrow> mock_profile" where
  "mock_profile_of n_requests index =
     (let high = index < max 1 (n_requests div 4); rag = index mod 4 = 1
      in \<lparr>mp_priority = (if high then 90 else if rag then 20 else 55),
          mp_deadline = (if high then 900 else if rag then 8000 else 2500),
          mp_count = (if high then 18 else if rag then 44 else 36),
          mp_speculative = (index mod 3 = 0)\<rparr>)"

definition mock_allocate :: "string \<Rightarrow> mock_profile \<Rightarrow> int \<Rightarrow> mock_state \<Rightarrow> mock_state result" where
  "mock_allocate rid mp bid s =
     bind_r (call_adapter (on_block_allocated (mock_step s) rid bid PREFILL (Some (mp_priority mp))
        (Some (mp_deadline mp)) None (mp_speculative mp \<and> bid < 2)) s) (ticks 1)"

definition mock_request :: "int \<Rightarrow> int \<Rightarrow> mock_state \<Rightarrow> mock_state result" where
  "mock_request n_requests index s =
     (let mp = mock_profile_of n_requests index; rid = mock_id index
      in bind_r (call_adapter (on_request_scheduled (mock_step s) rid (mp_priority mp) (Some (mp_deadline mp))) s) (\<lambda>s1.
         bind_r (fold_r (mock_allocate rid mp) [0..mp_count mp - 1]
             (s1\<lparr>block_counts := AList.update rid (mp_count mp) (block_counts s1)\<rparr>)) (\<lambda>s2.
         bind_r (call_adapter (on_prefill_step (mock_step s2) rid [0..min 3 (mp_count mp) - 1]) s2) (ticks 1))))"

definition count_of_request :: "string \<Rightarrow> mock_state \<Rightarrow> int result" where
  "count_of_request rid s = (case dict_get (block_counts s) rid of None \<Rightarrow> Inl (KeyError rid) | Some n \<Rightarrow> Inr n)"

text \<open>\<open>request_ids[i % len(request_ids)]\<close>\<close>

definition cyclic :: "string list \<Rightarrow> int \<Rightarrow> string result" where
  "cyclic ids i = (if ids = [] then Inl ZeroDivisionError else py_nth ids (i mod int (length ids)))"

text \<open>\<open>int(request_meta.get(...) or default)\<close> on the metadata of a request that may be unknown.\<close>

definition meta_deadline_or :: "int \<Rightarrow> request_meta option \<Rightarrow> int" where
  "meta_deadline_or fallback found =
     (case found of None \<Rightarrow> fallback | Some m \<Rightarrow>
        (case meta_deadline_us m of None \<Rightarrow> fallback | Some d \<Rightarrow> if d = 0 then fallback else d))"

definition meta_priority_or :: "int \<Rightarrow> request_meta option \<Rightarrow> int" where
  "meta_priority_or fallback found =
     (case found of None \<Rightarrow> fallback
      | Some m \<Rightarrow> if meta_request_priority m = 0 then fallback else meta_request_priority m)"

definition mock_decode :: "string \<Rightarrow> int \<Rightarrow> mock_state \<Rightarrow> mock_state result" where
  "mock_decode rid decode_step s =
     bind_r (count_of_request rid s) (\<lambda>count.
     let meta = dict_get (request_metadata (mock_adapter s)) rid
     in bind_r (call_adapter (on_decode_step (mock_step s) rid [max (count - 2) 0, count - 1]
          (Some (meta_deadline_or 2500 meta)) (Some (meta_priority_or 50 meta))) s) (\<lambda>s1.
        bind_r (ticks 1 s1) (\<lambda>s2.
        let seen = (if meta = None then None else dict_get (request_metadata (mock_adapter s2)) rid);
            reuse = (case seen of None \<Rightarrow> 64 | Some m \<Rightarrow> if meta_request_priority m = 20 then 256 else 64)
        in bind_r (call_adapter (on_block_marked_cold (mock_step s2) rid (decode_step mod max 1 (count - 2))
             (Some reuse)) s2) (ticks 1))))"

definition mock_commit :: "string list \<Rightarrow> int \<Rightarrow> mock_state \<Rightarrow> mock_state result" where
  "mock_commit ids decode_step s =
     (if decode_step mod 7 = 0 then
        bind_r (cyclic ids (decode_step + 1)) (\<lambda>rid.
        bind_r (count_of_request rid s) (\<lambda>count.
          if 1 < count then bind_r (call_adapter (on_block_committed (mock_step s) rid 1) s) (ticks 1)
          else Inr s))
      else Inr s)"

definition mock_extra :: "(nat \<Rightarrow> int \<Rightarrow> int) \<Rightarrow> string list \<Rightarrow> int \<Rightarrow> mock_state \<Rightarrow> mock_state result" where
  "mock_extra draw ids decode_step s =
     (if decode_step mod 11 = 0 then
        bind_r (py_nth ids (draw (mock_draws s) (int (length ids)))) (\<lambda>rid.
        bind_r (count_of_request rid s) (\<lambda>count.
        bind_r (call_adapter (on_block_accessed (mock_step s) rid (draw (mock_draws s + 1) count) PREFILL False)
            (s\<lparr>mock_draws := mock_draws s + 2\<rparr>)) (ticks 1)))
      else Inr s)"

definition mock_decode_step ::
  "(nat \<Rightarrow> int \<Rightarrow> int) \<Rightarrow> string list \<Rightarrow> int \<Rightarrow> mock_state \<Rightarrow> mock_state result" where
  "mock_decode_step draw ids decode_step s =
     bind_r (cyclic ids decode_step) (\<lambda>rid.
     bind_r (mock_decode rid decode_step s) (\<lambda>s1.
     bind_r (mock_commit ids decode_step s1) (mock_extra draw ids decode_step)))"

definition mock_finish :: "string \<Rightarrow> mock_state \<Rightarrow> mock_state result" where
  "mock_finish rid s =
     bind_r (count_of_request rid s) (\<lambda>count.
     bind_r (call_adapter (on_request_finished (mock_step s) rid [0..count - 1]) s) (ticks 2))"

definition generate_mock_vllm_trace ::
  "(nat \<Rightarrow> int \<Rightarrow> int) \<Rightarrow> int \<Rightarrow> int \<Rightarrow> recorder option \<Rightarrow> recorder result" where
  "generate_mock_vllm_trace draw n_requests n_steps rec =
     (let ids = map mock_id [0..n_requests - 1];
          start = \<lparr>mock_adapter = new_adapter rec (256 * 1024) None, mock_step = 0, block_counts = [], mock_draws = 0\<rparr>
      in bind_r (fold_r (mock_request n_requests) [0..n_requests - 1] start) (\<lambda>s1.
         bind_r (fold_r (mock_decode_step draw ids) [0..n_steps - 1] s1) (\<lambda>s2.
         bind_r (fold_r mock_finish ids s2) (\<lambda>s3. Inr (adapter_recorder (mock_adapter s3))))))"

section \<open>The generator never raises\<close>

definition healthy :: "adapter \<Rightarrow> bool" where "healthy a \<longleftrightarrow> (\<exists>es. adapter_inv {} es a)"

definition harmless :: "(adapter, 'a) routine \<Rightarrow> bool" where
  "harmless m \<longleftrightarrow> delivers healthy m (\<lambda>_. healthy)"

lemma harmlessI:
  assumes "\<And>es. delivers (adapter_inv {} es) m (\<lambda>y s. adapter_inv (gone y) (f es y) s \<and> Q y s)"
  shows "harmless m"
  unfolding harmless_def
proof (rule deliversI)
  fix s assume "healthy s"
  then obtain es where "adapter_inv {} es s" by (auto simp: healthy_def)
  with assms [of es] obtain y t where "m s = Inr (y, t)" "adapter_inv (gone y) (f es y) t"
    by (auto simp: delivers_def)
  then show "\<exists>y t. m s = Inr (y, t) \<and> healthy t"
    by (auto simp: healthy_def intro: adapter_inv_fewer)
qed

lemma signal_harmless: "signal_ok sig \<Longrightarrow> harmless (send_signal sig)"
  using send_signal_delivers by (intro harmlessI [where Q = "\<lambda>_ _. True" and gone = "\<lambda>_. {}" and f = "(@)"]) simp

definition counted :: "mock_state \<Rightarrow> string \<Rightarrow> bool" where
  "counted s rid \<longleftrightarrow> (\<exists>n. dict_get (block_counts s) rid = Some n \<and> 2 < n)"

definition mock_ok :: "string list \<Rightarrow> mock_state \<Rightarrow> bool" where
  "mock_ok ids s \<longleftrightarrow> healthy (mock_adapter s) \<and> 0 \<le> mock_step s \<and> (\<forall>rid \<in> set ids. counted s rid)"

text \<open>The step after which the state is as good as before.\<close>

definition goes_on :: "string list \<Rightarrow> mock_state result \<Rightarrow> bool" where
  "goes_on ids r \<longleftrightarrow> (\<exists>s. r = Inr s \<and> mock_ok ids s)"

lemma goes_on_Inr [simp]: "goes_on ids (Inr s) = mock_ok ids s"
  by (simp add: goes_on_def)

lemma goes_on_bind: "goes_on ids r \<Longrightarrow> (\<And>s. mock_ok ids s \<Longrightarrow> goes_on ids (f s)) \<Longrightarrow> goes_on ids (bind_r r f)"
  by (auto simp: goes_on_def)

lemma goes_on_ticks: "mock_ok ids s \<Longrightarrow> 0 \<le> n \<Longrightarrow> goes_on ids (ticks n s)"
  by (simp add: ticks_def mock_ok_def counted_def)

lemma goes_on_call: "mock_ok ids s \<Longrightarrow> harmless m \<Longrightarrow> goes_on ids (call_adapter m s)"
  by (fastforce simp: mock_ok_def harmless_def delivers_def call_adapter_def goes_on_def counted_def)

lemma goes_on_fold:
  assumes "mock_ok ids s" "\<And>x u. x \<in> set xs \<Longrightarrow> mock_ok ids u \<Longrightarrow> goes_on ids (f x u)"
  shows "goes_on ids (fold_r f xs s)"
  using fold_r_total [of "mock_ok ids" s xs f] assms by (auto simp: goes_on_def)

lemma goes_on_one:
  assumes "mock_ok ids s" "harmless m" "0 \<le> n"
  shows "goes_on ids (bind_r (call_adapter m s) (ticks n))"
  using goes_on_bind [OF goes_on_call [OF assms(1,2)]] goes_on_ticks assms(3) by blast

lemma one_event_call: "call_adapter (one_event m) s = call_adapter m s"
  by (cases "m (mock_adapter s)") (auto simp: call_adapter_def one_event_def method_defs)

lemma signal_goes_on: "mock_ok ids s \<Longrightarrow> signal_ok sig \<Longrightarrow> 0 \<le> n
    \<Longrightarrow> goes_on ids (bind_r (call_adapter (send_signal sig) s) (ticks n))"
  by (rule goes_on_one [OF _ signal_harmless])

lemma mock_id_nonempty [simp]: "mock_id i \<noteq> []"
  by (simp add: mock_id_def)

lemma profile_fields:
  "priority_ok (mp_priority (mock_profile_of n i))" "2 < mp_count (mock_profile_of n i)"
  by (simp_all add: mock_profile_of_def Let_def priority_ok_def)

lemma mock_request_goes_on:
  assumes "mock_ok ids s"
  shows "goes_on (mock_id i # ids) (mock_request n i s)"
proof -
  let ?mp = "mock_profile_of n i" and ?rid = "mock_id i"
  have "goes_on ids (call_adapter (send_signal (RequestScheduled (mock_step s) ?rid (mp_priority ?mp)
      (Some (mp_deadline ?mp)))) s)"
    by (rule goes_on_call [OF assms signal_harmless]) (simp add: profile_fields)
  then obtain s1 where s1: "call_adapter (on_request_scheduled (mock_step s) ?rid (mp_priority ?mp)
      (Some (mp_deadline ?mp))) s = Inr s1" "mock_ok ids s1"
    by (auto simp: goes_on_def)
  let ?s1 = "s1\<lparr>block_counts := AList.update ?rid (mp_count ?mp) (block_counts s1)\<rparr>"
  have ok: "mock_ok (?rid # ids) ?s1"
    using s1(2) profile_fields by (auto simp: mock_ok_def counted_def dict_simps)
  have alloc: "goes_on (?rid # ids) (fold_r (mock_allocate ?rid ?mp) [0..mp_count ?mp - 1] ?s1)"
  proof (rule goes_on_fold [OF ok])
    fix b u assume b: "b \<in> set [0..mp_count ?mp - 1]" and u: "mock_ok (?rid # ids) u"
    have "signal_ok (BlockAllocated (mock_step u) ?rid b PREFILL (Some (mp_priority ?mp)) (Some (mp_deadline ?mp))
        None (mp_speculative ?mp \<and> b < 2))"
      using b u profile_fields by (simp add: ref_ok_def range_ok_def mock_ok_def)
    from signal_goes_on [OF u this, of 1] show "goes_on (?rid # ids) (mock_allocate ?rid ?mp b u)"
      by (simp add: mock_allocate_def one_event_call)
  qed
  have "goes_on (?rid # ids) (bind_r (call_adapter (on_prefill_step (mock_step u) ?rid
      [0..min 3 (mp_count ?mp) - 1]) u) (ticks 1))" if u: "mock_ok (?rid # ids) u" for u
  proof -
    have "signal_ok (PrefillStep (mock_step u) ?rid [0..min 3 (mp_count ?mp) - 1])"
      using u by (auto simp: list_all_iff ref_ok_def mock_ok_def)
    from signal_goes_on [OF u this, of 1] show ?thesis by simp
  qed
  from goes_on_bind [OF alloc this] s1(1) show ?thesis by (simp add: mock_request_def Let_def)
qed

lemma requests_go_on:
  assumes "mock_ok ids s"
  shows "goes_on (map mock_id (rev is) @ ids) (fold_r (mock_request n) is s)"
  using assms
proof (induction "is" arbitrary: s ids)
  case (Cons i "is")
  obtain u where u: "mock_request n i s = Inr u" "mock_ok (mock_id i # ids) u"
    using mock_request_goes_on [OF Cons.prems, of i n] by (auto simp: goes_on_def)
  from Cons.IH [OF u(2)] u(1) show ?case by simp
qed simp

lemma meta_priority_ok: "mock_ok ids s
    \<Longrightarrow> priority_ok (meta_priority_or 50 (dict_get (request_metadata (mock_adapter s)) rid))"
  by (cases "dict_get (request_metadata (mock_adapter s)) rid")
    (auto simp: meta_priority_or_def mock_ok_def healthy_def priority_ok_def dest!: adapter_invD(1) adapter_okD(5))

lemma mock_decode_goes_on:
  assumes "mock_ok ids s" "rid \<in> set ids" "rid \<noteq> []" "0 \<le> k"
  shows "goes_on ids (mock_decode rid k s)"
proof -
  obtain n where n: "count_of_request rid s = Inr n" "2 < n"
    using assms(1,2) by (auto simp: mock_ok_def counted_def count_of_request_def)
  let ?meta = "dict_get (request_metadata (mock_adapter s)) rid"
  have "signal_ok (DecodeStep (mock_step s) rid [max (n - 2) 0, n - 1] (Some (meta_deadline_or 2500 ?meta))
      (Some (meta_priority_or 50 ?meta)))"
    using assms n(2) meta_priority_ok [OF assms(1)] by (simp add: ref_ok_def range_ok_def mock_ok_def)
  from goes_on_call [OF assms(1) signal_harmless [OF this]]
  have first: "goes_on ids (call_adapter (on_decode_step (mock_step s) rid [max (n - 2) 0, n - 1]
      (Some (meta_deadline_or 2500 ?meta)) (Some (meta_priority_or 50 ?meta))) s)" by simp
  have cold: "goes_on ids (bind_r (call_adapter (on_block_marked_cold (mock_step u) rid (k mod max 1 (n - 2)) r) u)
      (ticks 1))" if u: "mock_ok ids u" for u r
  proof -
    have "signal_ok (BlockMarkedCold (mock_step u) rid (k mod max 1 (n - 2)) r)"
      using u assms n(2) by (simp add: ref_ok_def mock_ok_def)
    from signal_goes_on [OF u this, of 1] show ?thesis by (simp add: one_event_call)
  qed
  show ?thesis
    unfolding mock_decode_def n(1) bind_r_simps Let_def
    using first by (rule goes_on_bind, intro goes_on_bind [OF goes_on_ticks] cold) simp_all
qed

lemma cyclic_member: "ids \<noteq> [] \<Longrightarrow> \<exists>rid \<in> set ids. cyclic ids i = Inr rid"
  by (auto simp: cyclic_def py_nth_in_range nat_less_iff intro!: nth_mem)

lemma mock_commit_goes_on:
  assumes "mock_ok ids s" "ids \<noteq> []" "[] \<notin> set ids"
  shows "goes_on ids (mock_commit ids k s)"
proof -
  obtain rid where rid: "cyclic ids (k + 1) = Inr rid" "rid \<in> set ids" using cyclic_member [OF assms(2)] by blast
  obtain n where n: "count_of_request rid s = Inr n"
    using assms(1) rid(2) by (auto simp: mock_ok_def counted_def count_of_request_def)
  have "signal_ok (BlockCommitted (mock_step s) rid 1)" using assms rid by (auto simp: ref_ok_def mock_ok_def)
  from signal_goes_on [OF assms(1) this, of 1] show ?thesis
    using assms(1) rid(1) n by (simp add: mock_commit_def one_event_call)
qed

definition valid_randrange :: "(nat \<Rightarrow> int \<Rightarrow> int) \<Rightarrow> bool" where
  "valid_randrange draw \<longleftrightarrow> (\<forall>i n. 0 < n \<longrightarrow> 0 \<le> draw i n \<and> draw i n < n)"

lemma mock_extra_goes_on:
  assumes "mock_ok ids s" "ids \<noteq> []" "[] \<notin> set ids" "valid_randrange draw"
  shows "goes_on ids (mock_extra draw ids k s)"
proof -
  let ?i = "draw (mock_draws s) (int (length ids))"
  have i: "0 \<le> ?i" "?i < int (length ids)" using assms(2,4) by (auto simp: valid_randrange_def)
  then have rid: "py_nth ids ?i = Inr (ids ! nat ?i)" "ids ! nat ?i \<in> set ids"
    by (simp_all add: py_nth_in_range nat_less_iff)
  obtain n where n: "count_of_request (ids ! nat ?i) s = Inr n" "2 < n"
    using assms(1) rid(2) by (auto simp: mock_ok_def counted_def count_of_request_def)
  let ?u = "s\<lparr>mock_draws := mock_draws s + 2\<rparr>"
  have u: "mock_ok ids ?u" using assms(1) by (simp add: mock_ok_def counted_def)
  have "signal_ok (BlockAccessed (mock_step s) (ids ! nat ?i) (draw (mock_draws s + 1) n) PREFILL False)"
    using assms n(2) rid(2) by (auto simp: ref_ok_def mock_ok_def valid_randrange_def)
  from signal_goes_on [OF u this, of 1] show ?thesis
    using assms(1) rid(1) n(1) by (simp add: mock_extra_def one_event_call)
qed

lemma decode_steps_go_on:
  assumes "mock_ok ids s" "ids \<noteq> []" "[] \<notin> set ids" "valid_randrange draw" "0 \<le> k"
  shows "goes_on ids (mock_decode_step draw ids k s)"
proof -
  obtain rid where rid: "cyclic ids k = Inr rid" "rid \<in> set ids" using cyclic_member [OF assms(2)] by blast
  with assms(3) have "rid \<noteq> []" by auto
  from mock_decode_goes_on [OF assms(1) rid(2) this assms(5)] show ?thesis
    unfolding mock_decode_step_def rid(1) bind_r_simps
    by (intro goes_on_bind mock_commit_goes_on mock_extra_goes_on) (use assms in auto)
qed

lemma mock_finish_goes_on:
  assumes "mock_ok ids s" "rid \<in> set ids" "rid \<noteq> []"
  shows "goes_on ids (mock_finish rid s)"
proof -
  obtain n where n: "count_of_request rid s = Inr n"
    using assms(1,2) by (auto simp: mock_ok_def counted_def count_of_request_def)
  have "signal_ok (RequestFinished (mock_step s) rid [0..n - 1])"
    using assms by (auto simp: list_all_iff ref_ok_def mock_ok_def)
  from signal_goes_on [OF assms(1) this, of 2] n show ?thesis by (simp add: mock_finish_def)
qed

lemma mock_trace_total:
  assumes "valid_randrange draw" "1 \<le> n"
  shows "\<exists>a. generate_mock_vllm_trace draw n k None = Inr (adapter_recorder a) \<and> healthy a"
proof -
  let ?ids = "map mock_id [0..n - 1]"
  let ?s0 = "\<lparr>mock_adapter = new_adapter None (256 * 1024) None, mock_step = 0, block_counts = [], mock_draws = 0\<rparr>"
  have ids: "?ids \<noteq> []" "[] \<notin> set ?ids" using assms(2) by (auto simp: mock_id_def)
  have "new_adapter None (256 * 1024) None = new_adapter None (256 * 1024) (Some {HBM, DRAM})"
    by (simp add: new_adapter_def)
  then have "mock_ok [] ?s0"
    using new_adapter_inv [of "256 * 1024" "{HBM, DRAM}"] by (auto simp: mock_ok_def healthy_def)
  from requests_go_on [OF this, of "[0..n - 1]" n]
  have start0: "goes_on (map mock_id (rev [0..n - 1]) @ []) (fold_r (mock_request n) [0..n - 1] ?s0)" .
  have start: "goes_on ?ids (fold_r (mock_request n) [0..n - 1] ?s0)" using start0 by (auto simp: goes_on_def mock_ok_def)
  have "goes_on ?ids (bind_r (fold_r (mock_decode_step draw ?ids) [0..k - 1] s1) (fold_r mock_finish ?ids))"
    if "mock_ok ?ids s1" for s1
    by (intro goes_on_bind goes_on_fold decode_steps_go_on mock_finish_goes_on) (use that assms(1) ids in auto)
  from goes_on_bind [OF start this] have "goes_on ?ids (bind_r (fold_r (mock_request n) [0..n - 1] ?s0) (\<lambda>s1.
     bind_r (fold_r (mock_decode_step draw ?ids) [0..k - 1] s1) (fold_r mock_finish ?ids)))" .
  then obtain s3 where "bind_r (fold_r (mock_request n) [0..n - 1] ?s0) (\<lambda>s1.
     bind_r (fold_r (mock_decode_step draw ?ids) [0..k - 1] s1) (fold_r mock_finish ?ids)) = Inr s3"
     "mock_ok ?ids s3" by (auto simp: goes_on_def)
  then show ?thesis
    by (auto simp: generate_mock_vllm_trace_def Let_def bind_r_Inr_iff mock_ok_def)
qed

end
