(* ===== verification/RequestTrace.thy ===== *)
theory RequestTrace
  imports Trace
begin

text \<open>
  \<open>src/kv_memory_intent/request_trace.py\<close>: the external request record, its validation and its JSON
  forms. Loading and writing a trace work on the text of the file.
\<close>

record request_record =
  rr_request_id :: string
  arrival_ms :: int
  start_ms :: "int option"
  end_ms :: "int option"
  prompt_tokens :: int
  generated_tokens :: int
  rr_priority :: int
  deadline_ms :: "int option"
  rr_model_name :: "string option"
  status :: string

definition record_post_init :: "request_record \<Rightarrow> request_record result" where
  "record_post_init r =
     (if rr_request_id r = [] then Inl (ValueError ''request_id must not be empty'')
      else if arrival_ms r < 0 then Inl (ValueError ''arrival_ms must be >= 0'')
      else if prompt_tokens r < 0 then Inl (ValueError ''prompt_tokens must be >= 0'')
      else if generated_tokens r < 0 then Inl (ValueError ''generated_tokens must be >= 0'')
      else if \<not> (0 \<le> rr_priority r \<and> rr_priority r \<le> 100)
        then Inl (ValueError ''request_priority must be in range 0..100'')
      else if (case deadline_ms r of None \<Rightarrow> False | Some d \<Rightarrow> d \<le> 0)
        then Inl (ValueError ''deadline_ms must be > 0 when provided'')
      else Inr r)"

definition json_str_opt :: "string option \<Rightarrow> json" where
  "json_str_opt x = (case x of None \<Rightarrow> JNull | Some s \<Rightarrow> JStr s)"

definition record_to_dict :: "request_record \<Rightarrow> jdict" where
  "record_to_dict r =
     [(''request_id'', JStr (rr_request_id r)), (''arrival_ms'', JInt (arrival_ms r)),
      (''start_ms'', json_opt (start_ms r)), (''end_ms'', json_opt (end_ms r)),
      (''prompt_tokens'', JInt (prompt_tokens r)), (''generated_tokens'', JInt (generated_tokens r)),
      (''request_priority'', JInt (rr_priority r)), (''deadline_ms'', json_opt (deadline_ms r)),
      (''model_name'', json_str_opt (rr_model_name r)), (''status'', JStr (status r))]"

definition record_from_dict :: "conversions \<Rightarrow> jdict \<Rightarrow> request_record result" where
  "record_from_dict c d =
     bind_r (req_str c d ''request_id'') (\<lambda>rid. bind_r (req_int c d ''arrival_ms'') (\<lambda>arr.
     bind_r (opt_int c d ''start_ms'') (\<lambda>st. bind_r (opt_int c d ''end_ms'') (\<lambda>en.
     bind_r (req_int c d ''prompt_tokens'') (\<lambda>pt. bind_r (req_int c d ''generated_tokens'') (\<lambda>gt.
     bind_r (default_int c d ''request_priority'' 50) (\<lambda>pr. bind_r (opt_int c d ''deadline_ms'') (\<lambda>dl.
     record_post_init \<lparr>rr_request_id = rid, arrival_ms = arr, start_ms = st, end_ms = en,
       prompt_tokens = pt, generated_tokens = gt, rr_priority = pr, deadline_ms = dl,
       rr_model_name = opt_str c d ''model_name'',
       status = (case dict_get d ''status'' of None \<Rightarrow> ''completed'' | Some v \<Rightarrow> py_str c v)\<rparr>))))))))"

definition record_to_json :: "request_record \<Rightarrow> string" where
  "record_to_json r = json_dumps (JDict (record_to_dict r))"

definition record_from_json :: "conversions \<Rightarrow> string \<Rightarrow> request_record result" where
  "record_from_json c s = bind_r (json_loads s) (\<lambda>j. bind_r (as_mapping j) (record_from_dict c))"

definition write_request_trace :: "request_record list \<Rightarrow> string" where
  "write_request_trace rs = py_join newline (map (record_to_json) rs) @ newline"

definition load_request_trace :: "conversions \<Rightarrow> string \<Rightarrow> request_record list result" where
  "load_request_trace c text =
     fold_r (\<lambda>line rs. if py_strip line \<noteq> []
         then bind_r (record_from_json c line) (\<lambda>r. Inr (rs @ [r])) else Inr rs)
       (py_splitlines text) []"

definition valid_record :: "request_record \<Rightarrow> bool" where
  "valid_record r \<longleftrightarrow> rr_request_id r \<noteq> [] \<and> 0 \<le> arrival_ms r \<and> 0 \<le> prompt_tokens r
     \<and> 0 \<le> generated_tokens r \<and> 0 \<le> rr_priority r \<and> rr_priority r \<le> 100
     \<and> (case deadline_ms r of None \<Rightarrow> True | Some d \<Rightarrow> 0 < d)"

lemma record_post_init_iff: "record_post_init r = Inr r' \<longleftrightarrow> valid_record r \<and> r' = r"
  by (auto simp: record_post_init_def valid_record_def split: option.splits if_splits)

lemma record_values_sorted: "dict_get (record_to_dict r) k = Some v \<Longrightarrow> json_sorted v = v"
  by (auto simp: record_to_dict_def json_str_opt_def split: if_splits option.splits)

lemma record_from_sorted:
  assumes v: "valid_record r" and d: "json_sorted (JDict (record_to_dict r)) = JDict d"
  shows "record_from_dict c d = Inr r"
proof -
  have wf: "dict_wf (record_to_dict r)" by (simp add: record_to_dict_def)
  have look: "dict_get d k = dict_get (record_to_dict r) k" for k
    using d dict_get_json_sorted [OF wf, of k] record_values_sorted [of r k]
    by (cases "dict_get (record_to_dict r) k") auto
  have vals: "dict_get d ''request_id'' = Some (JStr (rr_request_id r))"
    "dict_get d ''arrival_ms'' = Some (JInt (arrival_ms r))"
    "dict_get d ''start_ms'' = Some (json_opt (start_ms r))" "dict_get d ''end_ms'' = Some (json_opt (end_ms r))"
    "dict_get d ''prompt_tokens'' = Some (JInt (prompt_tokens r))"
    "dict_get d ''generated_tokens'' = Some (JInt (generated_tokens r))"
    "dict_get d ''request_priority'' = Some (JInt (rr_priority r))"
    "dict_get d ''deadline_ms'' = Some (json_opt (deadline_ms r))"
    "dict_get d ''model_name'' = Some (json_str_opt (rr_model_name r))"
    "dict_get d ''status'' = Some (JStr (status r))"
    by (simp_all add: look) (simp_all add: record_to_dict_def)
  have "opt_str c d ''model_name'' = rr_model_name r"
    by (simp add: opt_str_def opt_value_def vals(9) json_str_opt_def split: option.splits)
  then have "record_from_dict c d = record_post_init r"
    by (simp add: record_from_dict_def vals reader_simps) (cases r, simp)
  then show ?thesis using v by (simp add: record_post_init_iff)
qed

lemma record_json_back:
  assumes "valid_record r"
  shows "record_from_json c (record_to_json r) = Inr r"
proof -
  obtain d where d: "json_sorted (JDict (record_to_dict r)) = JDict d" by simp
  have "json_ok (JDict (record_to_dict r))"
    by (auto simp: record_to_dict_def json_str_opt_def split: option.splits)
  then have "json_loads (record_to_json r) = Inr (JDict d)"
    using json_loads_dumps d by (simp add: record_to_json_def)
  then show ?thesis using record_from_sorted [OF assms d] by (simp add: record_from_json_def as_mapping_def)
qed

lemma fold_r_collect:
  assumes "\<And>x. x \<in> set xs \<Longrightarrow> py_strip (line x) \<noteq> [] \<and> parse (line x) = Inr x"
  shows "fold_r (\<lambda>l rs. if py_strip l \<noteq> [] then bind_r (parse l) (\<lambda>r. Inr (rs @ [r])) else Inr rs)
      (map line xs) acc = Inr (acc @ xs)"
  using assms by (induction xs arbitrary: acc) simp_all

section \<open>Properties\<close>

definition sample_record :: request_record where
  "sample_record = \<lparr>rr_request_id = ''r-1'', arrival_ms = 0, start_ms = None, end_ms = Some 40,
     prompt_tokens = 100, generated_tokens = 20, rr_priority = 50, deadline_ms = Some 30,
     rr_model_name = None, status = ''completed''\<rparr>"

lemma sample_record_valid [simp]: "valid_record sample_record"
  by (simp add: valid_record_def sample_record_def)

lemma request_trace_back:
  assumes "\<forall>r \<in> set rs. valid_record r"
  shows "load_request_trace c (write_request_trace rs) = Inr rs"
proof (cases "rs = []")
  case True
  have "py_splitlines (write_request_trace rs) = [[]]"
    using splitlines_line [of "[]" "[]"] by (simp add: write_request_trace_def True py_splitlines.simps)
  then show ?thesis using True by (simp add: load_request_trace_def py_strip_def)
next
  case False
  have "py_splitlines (write_request_trace rs) = map record_to_json rs"
    unfolding write_request_trace_def using json_one_line False
    by (intro splitlines_join) (auto simp: record_to_json_def)
  moreover have "fold_r (\<lambda>l rs. if py_strip l \<noteq> [] then bind_r (record_from_json c l) (\<lambda>r. Inr (rs @ [r]))
      else Inr rs) (map record_to_json rs) [] = Inr ([] @ rs)"
    using assms record_json_back json_one_line(2) by (intro fold_r_collect) (auto simp: record_to_json_def)
  ultimately show ?thesis by (simp add: load_request_trace_def)
qed

text \<open>Writing a request trace and loading it back gives the same records in the same order, optional
  fields included, through the printed and parsed JSON text.\<close>

theorem request_trace_roundtrip:
  assumes "\<forall>r \<in> set rs. valid_record r"
  shows "load_request_trace c (write_request_trace rs) = Inr rs"
  using assms by (rule request_trace_back)

theorem request_trace_roundtrip_witness:
  "\<forall>c. load_request_trace c (write_request_trace [sample_record, sample_record]) = Inr [sample_record, sample_record]"
  by (rule allI, rule request_trace_roundtrip) simp

end
