(* ===== verification/KvEstimator.thy ===== *)
theory KvEstimator
  imports Prelude
begin

text \<open>
  \<open>src/kv_memory_intent/kv_estimator.py\<close>: the shape of a model's KV cache, its validation with the
  inferred head dimension and KV heads, the presets, and the footprint in bytes.
\<close>

record model_config =
  cfg_model_name :: string
  num_layers :: int
  hidden_size :: int
  num_attention_heads :: int
  num_kv_heads :: "int option"
  head_dim :: "int option"
  dtype_bytes :: int

definition config_post_init :: "model_config \<Rightarrow> model_config result" where
  "config_post_init m =
     (if cfg_model_name m = [] then Inl (ValueError ''model_name must not be empty'')
      else if num_layers m \<le> 0 then Inl (ValueError ''num_layers must be > 0'')
      else if hidden_size m \<le> 0 then Inl (ValueError ''hidden_size must be > 0'')
      else if num_attention_heads m \<le> 0 then Inl (ValueError ''num_attention_heads must be > 0'')
      else if (case num_kv_heads m of None \<Rightarrow> False | Some n \<Rightarrow> n \<le> 0)
        then Inl (ValueError ''num_kv_heads must be > 0 when provided'')
      else if dtype_bytes m \<le> 0 then Inl (ValueError ''dtype_bytes must be > 0'')
      else let inferred = hidden_size m div num_attention_heads m;
               d = (case head_dim m of None \<Rightarrow> inferred | Some h \<Rightarrow> h)
           in if d \<le> 0 then Inl (ValueError ''head_dim must be > 0'')
              else Inr (m\<lparr>head_dim := Some d,
                     num_kv_heads := Some (case num_kv_heads m of None \<Rightarrow> num_attention_heads m | Some n \<Rightarrow> n)\<rparr>))"

definition preset :: "string \<Rightarrow> int \<Rightarrow> int \<Rightarrow> int \<Rightarrow> model_config" where
  "preset name layers hidden heads =
     \<lparr>cfg_model_name = name, num_layers = layers, hidden_size = hidden, num_attention_heads = heads,
      num_kv_heads = Some 8, head_dim = Some 128, dtype_bytes = 2\<rparr>"

definition model_presets :: "(string, model_config) dict" where
  "model_presets =
     [(''llama-3-8b'', preset ''llama-3-8b'' 32 4096 32),
      (''llama-3-70b'', preset ''llama-3-70b'' 80 8192 64),
      (''mistral-7b'', preset ''mistral-7b'' 32 4096 32)]"

text \<open>\<open>int(None)\<close> raises; a validated configuration has both fields set.\<close>

definition int_of_option :: "int option \<Rightarrow> int result" where
  "int_of_option x = (case x of
     None \<Rightarrow> Inl (TypeError ''int() argument must not be NoneType'') | Some i \<Rightarrow> Inr i)"

definition kv_bytes_per_token :: "model_config \<Rightarrow> int result" where
  "kv_bytes_per_token m =
     bind_r (int_of_option (num_kv_heads m)) (\<lambda>kv. bind_r (int_of_option (head_dim m)) (\<lambda>hd.
     Inr (num_layers m * kv * hd * 2 * dtype_bytes m)))"

definition estimate_kv_bytes :: "model_config \<Rightarrow> int \<Rightarrow> int \<Rightarrow> int result" where
  "estimate_kv_bytes m tokens batch_size =
     (if tokens < 0 then Inl (ValueError ''tokens must be >= 0'')
      else if batch_size \<le> 0 then Inl (ValueError ''batch_size must be > 0'')
      else bind_r (kv_bytes_per_token m) (\<lambda>b. Inr (b * tokens * batch_size)))"

definition estimate_request_kv_bytes :: "model_config \<Rightarrow> int \<Rightarrow> int \<Rightarrow> int result" where
  "estimate_request_kv_bytes m prompt_tokens generated_tokens =
     (if prompt_tokens < 0 then Inl (ValueError ''prompt_tokens must be >= 0'')
      else if generated_tokens < 0 then Inl (ValueError ''generated_tokens must be >= 0'')
      else estimate_kv_bytes m (prompt_tokens + generated_tokens) 1)"

definition valid_config :: "model_config \<Rightarrow> bool" where
  "valid_config m \<longleftrightarrow> 0 < num_layers m \<and> 0 < dtype_bytes m
     \<and> (\<exists>n. num_kv_heads m = Some n \<and> 0 < n) \<and> (\<exists>h. head_dim m = Some h \<and> 0 < h)"

lemma config_post_init_valid: "config_post_init m = Inr m' \<Longrightarrow> valid_config m'"
  by (auto simp: config_post_init_def valid_config_def Let_def split: if_splits option.splits)

lemma preset_config [simp]:
  "name \<noteq> [] \<Longrightarrow> 0 < l \<Longrightarrow> 0 < h \<Longrightarrow> 0 < a \<Longrightarrow> config_post_init (preset name l h a) = Inr (preset name l h a)"
  by (simp add: config_post_init_def preset_def Let_def)

lemma kv_bytes_per_token_valid:
  assumes "valid_config m" shows "\<exists>b. kv_bytes_per_token m = Inr b \<and> 0 < b"
  using assms by (auto simp: valid_config_def kv_bytes_per_token_def int_of_option_def)

lemma estimate_valid:
  assumes "valid_config m" "0 \<le> p" "0 \<le> g"
  shows "\<exists>b. 0 < b \<and> estimate_request_kv_bytes m p g = Inr (b * (p + g))"
  using kv_bytes_per_token_valid [OF assms(1)] assms(2,3)
  by (auto simp: estimate_request_kv_bytes_def estimate_kv_bytes_def)

section \<open>Properties\<close>

text \<open>For every configuration the constructor accepts, the footprint of a request is a positive number of
  bytes per token times its tokens: it never fails on non-negative token counts, is additive in
  them, and is zero only for a request without tokens.\<close>

theorem estimate_linear:
  assumes "config_post_init m0 = Inr m" "0 \<le> p" "0 \<le> g" "0 \<le> p'" "0 \<le> g'"
  shows "\<exists>x y. estimate_request_kv_bytes m p g = Inr x \<and> estimate_request_kv_bytes m p' g' = Inr y
    \<and> estimate_request_kv_bytes m (p + p') (g + g') = Inr (x + y) \<and> (x = 0 \<longleftrightarrow> p = 0 \<and> g = 0)"
proof -
  obtain b where b: "kv_bytes_per_token m = Inr b" "0 < b"
    using kv_bytes_per_token_valid [OF config_post_init_valid [OF assms(1)]] by blast
  have est: "0 \<le> q \<Longrightarrow> 0 \<le> h \<Longrightarrow> estimate_request_kv_bytes m q h = Inr (b * (q + h))" for q h
    by (simp add: estimate_request_kv_bytes_def estimate_kv_bytes_def b)
  have "b * (p + p' + (g + g')) = b * (p + g) + b * (p' + g')" by (simp add: algebra_simps)
  moreover have "b * (p + g) = 0 \<longleftrightarrow> p = 0 \<and> g = 0" using b(2) assms(2,3) by auto
  ultimately show ?thesis using assms(2-5) by (simp add: est)
qed

theorem estimate_linear_witness:
  "\<exists>x y. estimate_request_kv_bytes (preset ''llama-3-8b'' 32 4096 32) 100 28 = Inr x
     \<and> estimate_request_kv_bytes (preset ''llama-3-8b'' 32 4096 32) 5 0 = Inr y
     \<and> estimate_request_kv_bytes (preset ''llama-3-8b'' 32 4096 32) 105 28 = Inr (x + y)"
  using estimate_linear [of "preset ''llama-3-8b'' 32 4096 32" "preset ''llama-3-8b'' 32 4096 32" 100 28 5 0]
  by auto

end
