(* ===== verification/TraceImporter.thy ===== *)
theory TraceImporter
  imports RequestTrace KvEstimator Emission
begin

text \<open>
  \<open>src/kv_memory_intent/trace_importer.py\<close>: an external request trace becomes a sequence of events.
  One definition per kind of intent the loop body builds, one per loop, and the loop over the
  sorted records. Divisions are float divisions, as in the code.
\<close>

record import_options =
  block_size_bytes :: int
  decode_block_tokens :: int
  max_blocks_per_request :: "int option"

text \<open>The sizes computed at the head of the loop body.\<close>

record layout =
  num_blocks :: int
  logical_block_size :: int
  decode_hot_blocks :: int

definition ceil_div :: "int \<Rightarrow> int \<Rightarrow> int" where
  "ceil_div a b = \<lceil>fl (of_int a / of_int b)\<rceil>"

definition layout_of :: "import_options \<Rightarrow> int \<Rightarrow> request_record \<Rightarrow> layout" where
  "layout_of opts total_kv_bytes r =
     (let n0 = max 1 (ceil_div total_kv_bytes (block_size_bytes opts));
          capped = (case max_blocks_per_request opts of None \<Rightarrow> None | Some m \<Rightarrow> if m < n0 then Some m else None);
          n = (case capped of None \<Rightarrow> n0 | Some m \<Rightarrow> m)
      in \<lparr>num_blocks = n,
          logical_block_size = (case capped of None \<Rightarrow> block_size_bytes opts | Some m \<Rightarrow> ceil_div total_kv_bytes m),
          decode_hot_blocks =
            min (max 1 (ceil_div (max (generated_tokens r) 1) (decode_block_tokens opts))) n\<rparr>)"

definition deadline_us_of :: "request_record \<Rightarrow> int option" where
  "deadline_us_of r = map_option (\<lambda>d. d * 1000) (deadline_ms r)"

text \<open>\<open>(x or y)\<close> on an optional integer: zero counts as missing.\<close>

definition int_or :: "int option \<Rightarrow> int \<Rightarrow> int" where
  "int_or x y = (case x of None \<Rightarrow> y | Some v \<Rightarrow> if v = 0 then y else v)"

definition import_id :: "request_record \<Rightarrow> int \<Rightarrow> string" where
  "import_id r b = tagged_id (rr_request_id r) ''import'' b"

definition import_base :: "request_record \<Rightarrow> layout \<Rightarrow> int \<Rightarrow> phase \<Rightarrow> priority \<Rightarrow> tier \<Rightarrow> mintent" where
  "import_base r lay b ph pr ct =
     (new_intent (import_id r b) (rr_request_id r) b KV_CACHE ph pr {HBM, DRAM} ct (logical_block_size lay))
       \<lparr>arrival_step := Some (arrival_ms r), is_committed := True\<rparr>"

definition alloc_intent :: "request_record \<Rightarrow> layout \<Rightarrow> int \<Rightarrow> int \<Rightarrow> mintent" where
  "alloc_intent r lay b step =
     (let is_hot_tail = num_blocks lay - decode_hot_blocks lay \<le> b;
          age_fraction = fl (of_int b / of_int (max (num_blocks lay - 1) 1));
          pr = (if is_hot_tail then HOT else if 1 / 2 < age_fraction then WARM else COLD);
          dl = deadline_us_of r;
          expected_reuse = (if \<not> is_hot_tail then max 1 (float_to_int (fmul (fsub 1 age_fraction) 512)) else 2)
      in (import_base r lay b PREFILL pr HBM)
           \<lparr>request_priority := (if is_hot_tail then rr_priority r else max (rr_priority r - 15) 0),
            recency_score := (if is_hot_tail then fl (7 / 10) else max 0 (fsub (fl (6 / 10)) age_fraction)),
            deadline_us := (if is_hot_tail then dl else None),
            slack_us := (if is_hot_tail then map_option (\<lambda>d. d - 5000) dl else None),
            target_decode_step := Some (int_or (start_ms r) (arrival_ms r) + b),
            expected_reuse_window_tokens := Some expected_reuse,
            recompute_cost_us := Some (if is_hot_tail then 5000 else 200), spill_cost_us := Some 200,
            compression_ok := \<not> is_hot_tail, recompute_ok := \<not> is_hot_tail, prefetch_ok := \<not> is_hot_tail,
            created_step := step, last_access_step := step\<rparr>)"

definition hot_intent :: "request_record \<Rightarrow> layout \<Rightarrow> int \<Rightarrow> int \<Rightarrow> mintent" where
  "hot_intent r lay offset step =
     (let b = num_blocks lay - decode_hot_blocks lay + offset; dl = deadline_us_of r
      in (import_base r lay b DECODE DECODE_CRITICAL HBM)
           \<lparr>request_priority := rr_priority r,
            recency_score := max (fl (8 / 10)) (fsub 1 (fmul (int_to_float offset) (fl (1 / 10)))),
            deadline_us := dl, slack_us := map_option (\<lambda>d. d - offset * 2000) dl,
            target_decode_step := Some (int_or (start_ms r) (arrival_ms r) + offset),
            expected_reuse_window_tokens := Some (1 + offset), recompute_cost_us := Some 6000,
            spill_cost_us := Some 250, prefetch_ok := True, pin_requested := True,
            created_step := step, last_access_step := step\<rparr>)"

definition cold_intent :: "request_record \<Rightarrow> layout \<Rightarrow> int \<Rightarrow> int \<Rightarrow> mintent" where
  "cold_intent r lay b step =
     (import_base r lay b IDLE COLD HBM)
       \<lparr>request_priority := max (rr_priority r - 20) 0,
        target_decode_step := Some (int_or (end_ms r) (arrival_ms r) + 1000),
        expected_reuse_window_tokens := Some (256 + b), recompute_cost_us := Some 100,
        spill_cost_us := Some 100, compression_ok := True, recompute_ok := True, prefetch_ok := True,
        created_step := step, last_access_step := max (step - 5) 0\<rparr>"

definition freed_intent :: "request_record \<Rightarrow> layout \<Rightarrow> int \<Rightarrow> int \<Rightarrow> mintent" where
  "freed_intent r lay b step =
     (import_base r lay b DONE COLD DRAM)
       \<lparr>request_priority := rr_priority r, recompute_cost_us := Some 0, spill_cost_us := Some 0,
        compression_ok := True, created_step := step, last_access_step := step\<rparr>"

text \<open>The bodies of the four loops.\<close>

definition alloc_step :: "request_record \<Rightarrow> layout \<Rightarrow> int \<Rightarrow> emitter \<Rightarrow> emitter result" where
  "alloc_step r lay b st =
     bind_r (post_init (alloc_intent r lay b (fst st))) (\<lambda>i.
     emit ALLOCATED i ''approximate allocation imported from external request trace'' st)"

definition hot_step :: "request_record \<Rightarrow> layout \<Rightarrow> int \<Rightarrow> emitter \<Rightarrow> emitter result" where
  "hot_step r lay offset st =
     bind_r (post_init (hot_intent r lay offset (fst st))) (\<lambda>i.
     bind_r (emit MARKED_DECODE_CRITICAL i
       ''approximate decode-critical block reconstructed from external request trace'' st) (\<lambda>st1.
     bind_r (copy_with (\<lambda>x. x\<lparr>last_access_step := fst st1\<rparr>) i) (\<lambda>j.
     emit ACCESSED j ''approximate decode access reconstructed from external request trace'' st1)))"

definition cold_step :: "request_record \<Rightarrow> layout \<Rightarrow> int \<Rightarrow> emitter \<Rightarrow> emitter result" where
  "cold_step r lay b st =
     bind_r (post_init (cold_intent r lay b (fst st))) (\<lambda>i.
     emit MARKED_COLD i ''approximate cold block reconstructed from external request trace'' st)"

definition free_step :: "request_record \<Rightarrow> layout \<Rightarrow> int \<Rightarrow> emitter \<Rightarrow> emitter result" where
  "free_step r lay b st =
     bind_r (post_init (freed_intent r lay b (fst st))) (\<lambda>i.
     emit FREED i ''approximate free reconstructed from external request trace'' st)"

definition import_record ::
  "import_options \<Rightarrow> model_config \<Rightarrow> request_record \<Rightarrow> emitter \<Rightarrow> emitter result" where
  "import_record opts m r st =
     bind_r (estimate_request_kv_bytes m (prompt_tokens r) (generated_tokens r)) (\<lambda>total.
       let lay = layout_of opts total r in
       bind_r (fold_r (alloc_step r lay) [0..num_blocks lay - 1] st) (\<lambda>st1.
       bind_r (fold_r (hot_step r lay) [0..decode_hot_blocks lay - 1] st1) (\<lambda>st2.
       bind_r (fold_r (cold_step r lay) [0..max 0 (num_blocks lay - decode_hot_blocks lay) - 1] st2) (\<lambda>st3.
       if status r = ''completed'' then fold_r (free_step r lay) [0..num_blocks lay - 1] st3
       else Inr st3))))"

definition request_trace_to_intent_events ::
  "import_options \<Rightarrow> model_config \<Rightarrow> request_record list \<Rightarrow> mevent list result" where
  "request_trace_to_intent_events opts m records =
     (if block_size_bytes opts \<le> 0 then Inl (ValueError ''block_size_bytes must be > 0'')
      else if decode_block_tokens opts \<le> 0 then Inl (ValueError ''decode_block_tokens must be > 0'')
      else if (case max_blocks_per_request opts of None \<Rightarrow> False | Some n \<Rightarrow> n \<le> 0)
        then Inl (ValueError ''max_blocks_per_request must be > 0 when provided'')
      else bind_r (fold_r (import_record opts m)
             (sort_key (\<lambda>r. (arrival_ms r, rr_request_id r)) records) (0, [])) (\<lambda>st. Inr (snd st)))"

section \<open>The layout\<close>

definition options_ok :: "import_options \<Rightarrow> bool" where
  "options_ok opts \<longleftrightarrow> 0 < block_size_bytes opts \<and> 0 < decode_block_tokens opts
     \<and> (case max_blocks_per_request opts of None \<Rightarrow> True | Some n \<Rightarrow> 0 < n)"

lemma ceil_div_ge:
  assumes "0 < b" "0 \<le> k" "k \<le> 2 ^ 53" "k * b \<le> a" shows "k \<le> ceil_div a b"
proof -
  have "(of_int (k * b) :: rat) \<le> of_int a" using assms(4) by (simp only: of_int_le_iff)
  then have "(of_int k :: rat) \<le> of_int a / of_int b" using assms(1) by (simp add: field_simps)
  then have "of_int k \<le> fl (of_int a / of_int b)" using assms(2,3) by (intro fl_ge is_float_of_int) simp_all
  then show ?thesis by (simp add: ceil_div_def le_ceiling_iff order_less_le_trans)
qed

lemma ceil_div_le:
  assumes "0 < b" "0 \<le> a" "a \<le> 2 ^ 53" shows "ceil_div a b \<le> a"
proof -
  have "(of_int a :: rat) / of_int b \<le> of_int a / 1"
    using assms(1,2) by (intro divide_left_mono) simp_all
  then have "fl (of_int a / of_int b) \<le> of_int a" using assms by (intro fl_le is_float_of_int) simp_all
  then show ?thesis by (simp add: ceil_div_def ceiling_le_iff)
qed

lemma layout_bounds:
  assumes "options_ok opts" "0 \<le> kv" "kv \<le> 2 ^ 53"
  shows "1 \<le> num_blocks (layout_of opts kv r)" "0 < logical_block_size (layout_of opts kv r)"
    "1 \<le> decode_hot_blocks (layout_of opts kv r)"
    "decode_hot_blocks (layout_of opts kv r) \<le> num_blocks (layout_of opts kv r)"
proof -
  let ?n0 = "max 1 (ceil_div kv (block_size_bytes opts))"
  have pos: "0 < ceil_div kv m" if "m < ?n0" "0 < m" for m
  proof -
    have "m \<le> kv" using that ceil_div_le [of "block_size_bytes opts" kv] assms by (auto simp: options_ok_def)
    then have "1 \<le> ceil_div kv m" using that(2) by (intro ceil_div_ge) simp_all
    then show ?thesis by simp
  qed
  show "1 \<le> num_blocks (layout_of opts kv r)" "0 < logical_block_size (layout_of opts kv r)"
    using assms(1) pos by (auto simp: layout_of_def Let_def options_ok_def split: option.splits)
  then show "1 \<le> decode_hot_blocks (layout_of opts kv r)"
    "decode_hot_blocks (layout_of opts kv r) \<le> num_blocks (layout_of opts kv r)"
    by (auto simp: layout_of_def Let_def)
qed

section \<open>Every intent is sound\<close>

definition layout_ok :: "layout \<Rightarrow> bool" where
  "layout_ok lay \<longleftrightarrow> 0 < logical_block_size lay \<and> 1 \<le> decode_hot_blocks lay \<and> decode_hot_blocks lay \<le> num_blocks lay"

lemmas intent_sound_defs = import_base_def new_intent_def intent_ranges_def routable_def valid_record_def
  layout_ok_def import_id_def

lemma alloc_intent_ok:
  assumes "valid_record r" "layout_ok lay" "0 \<le> b"
  shows "intent_ranges (alloc_intent r lay b step) \<and> routable (alloc_intent r lay b step)"
proof -
  let ?age = "fl (of_int b / of_int (max (num_blocks lay - 1) 1))"
  have age: "0 \<le> ?age" using assms(3) by (intro fl_ge) simp_all
  have "0 \<le> fl (7 / 10)" "fl (7 / 10) \<le> 1" by (auto intro: fl_ge fl_le)
  moreover have "fl (6 / 10) \<le> 1" by (rule fl_le) simp_all
  then have "fsub (fl (6 / 10)) ?age \<le> 1" using age by (intro fsub_le) simp_all
  ultimately show ?thesis using assms by (auto simp: alloc_intent_def Let_def intent_sound_defs)
qed

lemma hot_intent_ok:
  assumes "valid_record r" "layout_ok lay" "0 \<le> offset"
  shows "intent_ranges (hot_intent r lay offset step) \<and> routable (hot_intent r lay offset step)"
proof -
  have "0 \<le> fl (8 / 10)" "fl (8 / 10) \<le> 1" by (auto intro: fl_ge fl_le)
  moreover have "0 \<le> int_to_float offset" using assms(3) by (auto simp: int_to_float_def intro: fl_ge)
  then have "0 \<le> fmul (int_to_float offset) (fl (1 / 10))"
    by (intro fmul_ge mult_nonneg_nonneg fl_ge) simp_all
  then have "fsub 1 (fmul (int_to_float offset) (fl (1 / 10))) \<le> 1" by (intro fsub_le) simp_all
  ultimately show ?thesis using assms by (auto simp: hot_intent_def Let_def intent_sound_defs)
qed

lemma cold_intent_ok:
  "valid_record r \<Longrightarrow> layout_ok lay \<Longrightarrow> 0 \<le> b
   \<Longrightarrow> intent_ranges (cold_intent r lay b step) \<and> routable (cold_intent r lay b step)"
  by (auto simp: cold_intent_def intent_sound_defs)

lemma freed_intent_ok:
  "valid_record r \<Longrightarrow> layout_ok lay \<Longrightarrow> 0 \<le> b
   \<Longrightarrow> intent_ranges (freed_intent r lay b step) \<and> routable (freed_intent r lay b step)"
  by (auto simp: freed_intent_def intent_sound_defs)

lemma intent_ids [simp]:
  "object_id (alloc_intent r lay b step) = import_id r b" "object_id (cold_intent r lay b step) = import_id r b"
  "object_id (freed_intent r lay b step) = import_id r b"
  "object_id (hot_intent r lay k step) = import_id r (num_blocks lay - decode_hot_blocks lay + k)"
  by (simp_all add: alloc_intent_def cold_intent_def freed_intent_def hot_intent_def Let_def import_base_def new_intent_def)

section \<open>The loops\<close>

text \<open>What the loops after the allocation loop keep: all blocks of the request are allocated.\<close>

definition request_allocated :: "request_record \<Rightarrow> layout \<Rightarrow> emitter \<Rightarrow> bool" where
  "request_allocated r lay st \<longleftrightarrow> well_emitted st
     \<and> (\<forall>b \<in> set [0..num_blocks lay - 1]. import_id r b \<in> allocated (snd st))"

lemma post_emit_total:
  assumes "well_emitted st" "intent_ranges i \<and> routable i" "may_emit st et i"
  shows "\<exists>st'. bind_r (post_init i) (\<lambda>j. emit et j m st) = Inr st' \<and> well_emitted st'
    \<and> object_id i \<in> allocated (snd st') \<and> allocated (snd st) \<subseteq> allocated (snd st')"
proof -
  obtain j where j: "post_init i = Inr j" "sound j" "object_id j = object_id i" "current_tier j = current_tier i"
    using assms(2) by (auto simp: post_init_eq sound_def)
  then have may: "may_emit st et j" using assms(3) by (simp add: may_emit_def)
  obtain st' where "emit et j m st = Inr st'" "well_emitted st'" "object_id j \<in> allocated (snd st')"
    "allocated (snd st) \<subseteq> allocated (snd st')"
    using emit_total [OF assms(1) j(2) may] by blast
  then show ?thesis by (simp add: j)
qed

lemma alloc_loop:
  assumes r: "valid_record r" "layout_ok lay" and st: "well_emitted st"
  shows "\<exists>st'. fold_r (alloc_step r lay) [0..num_blocks lay - 1] st = Inr st' \<and> request_allocated r lay st'"
  unfolding request_allocated_def
proof (rule fold_r_each [where P = well_emitted and Q = "\<lambda>b st. import_id r b \<in> allocated (snd st)"])
  fix b u assume b: "b \<in> set [0..num_blocks lay - 1]" and u: "well_emitted u"
  have "may_emit u ALLOCATED (alloc_intent r lay b (fst u))"
    by (simp add: may_emit_def alloc_intent_def Let_def import_base_def new_intent_def)
  from post_emit_total [OF u alloc_intent_ok [OF r] this] b
  show "\<exists>v. alloc_step r lay b u = Inr v \<and> well_emitted v \<and> import_id r b \<in> allocated (snd v)"
    unfolding alloc_step_def by fastforce
next
  fix b c u v assume "import_id r b \<in> allocated (snd u)" "alloc_step r lay c u = Inr v"
  then obtain i m where "emit ALLOCATED i m u = Inr v" by (auto simp: alloc_step_def bind_r_Inr_iff)
  from emit_mono [OF this] \<open>import_id r b \<in> allocated (snd u)\<close> show "import_id r b \<in> allocated (snd v)" by blast
qed (rule st)

lemma request_allocated_mono:
  "request_allocated r lay st \<Longrightarrow> well_emitted st' \<Longrightarrow> allocated (snd st) \<subseteq> allocated (snd st')
   \<Longrightarrow> request_allocated r lay st'"
  by (auto simp: request_allocated_def)

lemma request_allocatedD:
  "request_allocated r lay st \<Longrightarrow> 0 \<le> b \<Longrightarrow> b < num_blocks lay \<Longrightarrow> import_id r b \<in> allocated (snd st)"
  "request_allocated r lay st \<Longrightarrow> well_emitted st"
  by (simp_all add: request_allocated_def)

lemma later_step:
  assumes "request_allocated r lay u" "intent_ranges i \<and> routable i" "object_id i \<in> allocated (snd u)" "et \<noteq> ALLOCATED"
  shows "\<exists>v. bind_r (post_init i) (\<lambda>j. emit et j m u) = Inr v \<and> request_allocated r lay v"
  using post_emit_total [OF request_allocatedD(2) [OF assms(1)] assms(2) may_emit_known [OF assms(3,4)]]
    assms(1) request_allocated_mono by blast

lemma hot_loop:
  assumes r: "valid_record r" "layout_ok lay" and st: "request_allocated r lay st"
  shows "\<exists>st'. fold_r (hot_step r lay) [0..decode_hot_blocks lay - 1] st = Inr st' \<and> request_allocated r lay st'"
proof (rule fold_r_total [where P = "request_allocated r lay", OF st])
  fix k u assume k: "k \<in> set [0..decode_hot_blocks lay - 1]" and u: "request_allocated r lay u"
  let ?i = "hot_intent r lay k (fst u)"
  have known: "object_id ?i \<in> allocated (snd u)"
    using k r(2) by (auto simp: layout_ok_def intro!: request_allocatedD(1) [OF u])
  have ok: "intent_ranges ?i \<and> routable ?i" using hot_intent_ok [OF r] k by auto
  then obtain j where j: "post_init ?i = Inr j" "sound j" "object_id j = object_id ?i" using post_init_sound by blast
  obtain u1 where u1: "emit MARKED_DECODE_CRITICAL j
      ''approximate decode-critical block reconstructed from external request trace'' u = Inr u1"
    "well_emitted u1" "allocated (snd u) \<subseteq> allocated (snd u1)"
    using emit_total [OF request_allocatedD(2) [OF u] j(2) may_emit_known] known event_type.distinct unfolding j(3)
    by blast
  have "intent_ranges (j\<lparr>last_access_step := fst u1\<rparr>)" "routable (j\<lparr>last_access_step := fst u1\<rparr>)"
    using j(2) by (auto simp: sound_def valid_intent_def intent_ranges_def routable_def)
  then obtain j' where j': "copy_with (\<lambda>x. x\<lparr>last_access_step := fst u1\<rparr>) j = Inr j'" "sound j'" "object_id j' = object_id j"
    using sound_copy [of "\<lambda>x. x\<lparr>last_access_step := fst u1\<rparr>" j] by auto
  have known1: "object_id j' \<in> allocated (snd u1)" using known u1(3) by (auto simp: j'(3) j(3))
  obtain u2 where u2: "emit ACCESSED j' ''approximate decode access reconstructed from external request trace'' u1 = Inr u2"
    "well_emitted u2" "allocated (snd u1) \<subseteq> allocated (snd u2)"
    using emit_total [OF u1(2) j'(2) may_emit_known [OF known1]] event_type.distinct by blast
  have "hot_step r lay k u = Inr u2" by (simp add: hot_step_def j(1) u1(1) j'(1) u2(1))
  then show "\<exists>v. hot_step r lay k u = Inr v \<and> request_allocated r lay v"
    using request_allocated_mono [OF u u2(2)] u1(3) u2(3) by blast
qed

lemma cold_loop:
  assumes r: "valid_record r" "layout_ok lay" and st: "request_allocated r lay st"
  shows "\<exists>st'. fold_r (cold_step r lay) [0..max 0 (num_blocks lay - decode_hot_blocks lay) - 1] st = Inr st'
    \<and> request_allocated r lay st'"
proof (rule fold_r_total [where P = "request_allocated r lay", OF st])
  fix b u assume b: "b \<in> set [0..max 0 (num_blocks lay - decode_hot_blocks lay) - 1]" and u: "request_allocated r lay u"
  have "0 \<le> b" "b < num_blocks lay" using b r(2) by (auto simp: layout_ok_def)
  then show "\<exists>v. cold_step r lay b u = Inr v \<and> request_allocated r lay v"
    unfolding cold_step_def using cold_intent_ok [OF r] request_allocatedD(1) [OF u] by (intro later_step [OF u]) auto
qed

lemma free_loop:
  assumes r: "valid_record r" "layout_ok lay" and st: "request_allocated r lay st"
  shows "\<exists>st'. fold_r (free_step r lay) [0..num_blocks lay - 1] st = Inr st' \<and> request_allocated r lay st'"
proof (rule fold_r_total [where P = "request_allocated r lay", OF st])
  fix b u assume b: "b \<in> set [0..num_blocks lay - 1]" and u: "request_allocated r lay u"
  then show "\<exists>v. free_step r lay b u = Inr v \<and> request_allocated r lay v"
    unfolding free_step_def using freed_intent_ok [OF r] request_allocatedD(1) [OF u] by (intro later_step [OF u]) auto
qed

text \<open>The footprint of each record is within the exact range of float division.\<close>

definition footprint_ok :: "model_config \<Rightarrow> request_record \<Rightarrow> bool" where
  "footprint_ok m r \<longleftrightarrow> (\<exists>kv. estimate_request_kv_bytes m (prompt_tokens r) (generated_tokens r) = Inr kv
     \<and> 0 \<le> kv \<and> kv \<le> 2 ^ 53)"

lemma import_record_total:
  assumes "options_ok opts" "valid_record r" "footprint_ok m r" "well_emitted st"
  shows "\<exists>st'. import_record opts m r st = Inr st' \<and> well_emitted st'"
proof -
  obtain kv where kv: "estimate_request_kv_bytes m (prompt_tokens r) (generated_tokens r) = Inr kv" "0 \<le> kv" "kv \<le> 2 ^ 53"
    using assms(3) by (auto simp: footprint_ok_def)
  define lay where "lay = layout_of opts kv r"
  have lay: "layout_ok lay" using layout_bounds [OF assms(1) kv(2,3)] by (simp add: layout_ok_def lay_def)
  obtain s1 where s1: "fold_r (alloc_step r lay) [0..num_blocks lay - 1] st = Inr s1" "request_allocated r lay s1"
    using alloc_loop [OF assms(2) lay assms(4)] by blast
  obtain s2 where s2: "fold_r (hot_step r lay) [0..decode_hot_blocks lay - 1] s1 = Inr s2" "request_allocated r lay s2"
    using hot_loop [OF assms(2) lay s1(2)] by blast
  obtain s3 where s3: "fold_r (cold_step r lay) [0..max 0 (num_blocks lay - decode_hot_blocks lay) - 1] s2 = Inr s3"
    "request_allocated r lay s3" using cold_loop [OF assms(2) lay s2(2)] by blast
  obtain s4 where s4: "fold_r (free_step r lay) [0..num_blocks lay - 1] s3 = Inr s4" "request_allocated r lay s4"
    using free_loop [OF assms(2) lay s3(2)] by blast
  have "import_record opts m r st = Inr (if status r = ''completed'' then s4 else s3)"
    by (simp add: import_record_def kv(1) Let_def lay_def [symmetric] s1(1) s2(1) s3(1) s4(1))
  moreover have "well_emitted s3" "well_emitted s4" using request_allocatedD(2) s3(2) s4(2) by blast+
  ultimately show ?thesis by simp
qed

lemma import_total:
  assumes "options_ok opts" "\<forall>r \<in> set records. valid_record r \<and> footprint_ok m r"
  shows "\<exists>es. request_trace_to_intent_events opts m records = Inr es \<and> well_emitted (int (length es), es)"
proof -
  let ?rs = "sort_key (\<lambda>r. (arrival_ms r, rr_request_id r)) records"
  have "\<exists>st. fold_r (import_record opts m) ?rs (0, []) = Inr st \<and> well_emitted st"
    by (rule fold_r_total [where P = well_emitted]) (use import_record_total [OF assms(1)] assms(2) in auto)
  then obtain st where st: "fold_r (import_record opts m) ?rs (0, []) = Inr st" "well_emitted st" by blast
  have "request_trace_to_intent_events opts m records = Inr (snd st)"
    using assms(1) st(1) by (auto simp: request_trace_to_intent_events_def options_ok_def split: option.splits)
  moreover have "st = (int (length (snd st)), snd st)" using st(2) by (simp add: well_emitted_def prod_eq_iff)
  ultimately show ?thesis using st(2) by metis
qed

section \<open>Properties\<close>

text \<open>Importing valid request records never fails. The events are numbered 0, 1, 2, ... without gaps, each
  carries a valid intent that may live in HBM and DRAM, and no event names a block before its
  allocation.\<close>

theorem imported_events_well_formed:
  assumes "options_ok opts" "\<forall>r \<in> set records. valid_record r \<and> footprint_ok m r"
  shows "\<exists>es. request_trace_to_intent_events opts m records = Inr es
    \<and> map ev_step es = map int [0..<length es] \<and> allocated_first {} es
    \<and> (\<forall>e \<in> set es. valid_event e \<and> sound (ev_intent e))"
  using import_total [OF assms] by (auto simp: well_emitted_def)

definition sample_options :: import_options where
  "sample_options = \<lparr>block_size_bytes = 1048576, decode_block_tokens = 16, max_blocks_per_request = Some 4\<rparr>"

lemma sample_footprint [simp]: "footprint_ok (preset ''llama-3-8b'' 32 4096 32) sample_record"
  by (simp add: footprint_ok_def estimate_request_kv_bytes_def estimate_kv_bytes_def kv_bytes_per_token_def
      int_of_option_def preset_def sample_record_def)

lemma sample_options_ok [simp]: "options_ok sample_options"
  by (simp add: options_ok_def sample_options_def)

theorem imported_events_well_formed_witness:
  "\<exists>es. request_trace_to_intent_events sample_options (preset ''llama-3-8b'' 32 4096 32) [sample_record] = Inr es
     \<and> allocated_first {} es"
  using imported_events_well_formed [of sample_options "[sample_record]" "preset ''llama-3-8b'' 32 4096 32"] by auto

end
