(* ===== verification/Telemetry.thy ===== *)
theory Telemetry
  imports TraceImporter Trace
begin

text \<open>
  \<open>openai_proxy_adapter.py\<close> and \<open>prometheus_adapter.py\<close> of \<open>src/kv_memory_intent/adapters\<close>: proxy logs and
  GPU memory samples, given as parsed JSON dictionaries, become lists of events. The files are read
  as in the trace recorder: the loaders take the text.
\<close>

section \<open>Shared steps\<close>

text \<open>\<open>sorted(xs, key=...)\<close>: the keys are computed first, and the sort is stable.\<close>

definition sorted_by :: "('a \<Rightarrow> 'k::linorder result) \<Rightarrow> 'a list \<Rightarrow> 'a list result" where
  "sorted_by key xs = bind_r (map_r key xs) (\<lambda>ks. Inr (map snd (sort_key fst (zip ks xs))))"

text \<open>Constructing an intent and appending the event.\<close>

definition append_event :: "int \<Rightarrow> event_type \<Rightarrow> string \<Rightarrow> mintent \<Rightarrow> mevent list \<Rightarrow> mevent list result" where
  "append_event step et reason i es =
     bind_r (post_init i) (\<lambda>j. bind_r (mk_event step et j reason) (\<lambda>e. Inr (es @ [e])))"

text \<open>\<open>for line in text.splitlines(): if line.strip(): entries.append(json.loads(line))\<close>\<close>

definition load_json_lines :: "string \<Rightarrow> json list result" where
  "load_json_lines text = map_r json_loads (filter (\<lambda>l. py_strip l \<noteq> []) (py_splitlines text))"

section \<open>Proxy logs\<close>

definition resolve_model_config :: "string \<Rightarrow> model_config result" where
  "resolve_model_config name =
     config_post_init (case dict_get model_presets name of
       Some m \<Rightarrow> if name \<noteq> [] then m else preset ''llama-3-8b'' 32 4096 32
     | None \<Rightarrow> preset ''llama-3-8b'' 32 4096 32)"

text \<open>\<open>str(entry.get(key) or default)\<close>\<close>

definition str_or :: "conversions \<Rightarrow> jdict \<Rightarrow> string \<Rightarrow> string \<Rightarrow> string" where
  "str_or c d key fallback =
     (case dict_get d key of None \<Rightarrow> fallback | Some v \<Rightarrow> if py_bool v then py_str c v else fallback)"

definition log_key :: "conversions \<Rightarrow> jdict \<Rightarrow> (int \<times> string) result" where
  "log_key c d = bind_r (default_int c d ''created'' 0) (\<lambda>t.
     Inr (t, case dict_get d ''id'' of None \<Rightarrow> [] | Some v \<Rightarrow> py_str c v))"

record proxy_entry =
  pe_request_id :: string
  pe_completion :: int
  pe_total :: int
  pe_bytes :: int
  pe_blocks :: int

definition read_entry ::
  "conversions \<Rightarrow> int \<Rightarrow> string option \<Rightarrow> int \<Rightarrow> jdict \<Rightarrow> proxy_entry result" where
  "read_entry c block_tokens override step entry =
     bind_r (case dict_get entry ''usage'' of None \<Rightarrow> Inr [] | Some v \<Rightarrow> py_dict c v) (\<lambda>usage.
     bind_r (default_int c usage ''prompt_tokens'' 0) (\<lambda>prompt.
     bind_r (default_int c usage ''completion_tokens'' 0) (\<lambda>completion.
     bind_r (default_int c usage ''total_tokens'' (prompt + completion)) (\<lambda>whole.
     let named = str_or c entry ''model'' [];
         model_name = (case override of None \<Rightarrow> named | Some m \<Rightarrow> if m \<noteq> [] then m else named)
     in bind_r (resolve_model_config model_name) (\<lambda>cfg.
        bind_r (kv_bytes_per_token cfg) (\<lambda>per_token.
        Inr \<lparr>pe_request_id = str_or c entry ''id'' (''request-'' @ int_str step), pe_completion = completion,
          pe_total = whole, pe_bytes = per_token * block_tokens,
          pe_blocks = max 1 (ceil_div prompt block_tokens)\<rparr>))))))"

definition proxy_base :: "proxy_entry \<Rightarrow> int \<Rightarrow> int \<Rightarrow> phase \<Rightarrow> priority \<Rightarrow> tier \<Rightarrow> mintent" where
  "proxy_base p step b ph pr ct =
     (new_intent (tagged_id (pe_request_id p) ''proxy'' b) (pe_request_id p) b KV_CACHE ph pr {HBM, DRAM} ct (pe_bytes p))
       \<lparr>request_priority := 50, arrival_step := Some step, is_committed := True\<rparr>"

definition proxy_alloc_intent :: "proxy_entry \<Rightarrow> int \<Rightarrow> int \<Rightarrow> mintent" where
  "proxy_alloc_intent p step b =
     (proxy_base p step b PREFILL WARM HBM)
       \<lparr>recency_score := fl (2 / 10), target_decode_step := Some (step + 1),
        expected_reuse_window_tokens := Some (max 1 (pe_total p div max (pe_blocks p) 1)),
        recompute_cost_us := Some 250, spill_cost_us := Some 200, compression_ok := True, recompute_ok := True,
        created_step := step, last_access_step := step\<rparr>"

definition proxy_hot_intent :: "proxy_entry \<Rightarrow> int \<Rightarrow> int \<Rightarrow> mintent" where
  "proxy_hot_intent p step b =
     (proxy_base p step b DECODE DECODE_CRITICAL HBM)
       \<lparr>recency_score := 1, deadline_us := Some 2000, slack_us := Some 800, target_decode_step := Some (step + 1),
        expected_reuse_window_tokens := Some 1, recompute_cost_us := Some 6000, spill_cost_us := Some 250,
        prefetch_ok := True, pin_requested := True, created_step := step + 1, last_access_step := step + 1\<rparr>"

definition proxy_free_intent :: "proxy_entry \<Rightarrow> int \<Rightarrow> int \<Rightarrow> int \<Rightarrow> mintent" where
  "proxy_free_intent p step free b =
     (proxy_base p step b DONE COLD DRAM)
       \<lparr>recompute_cost_us := Some 0, spill_cost_us := Some 0, compression_ok := True,
        created_step := free, last_access_step := free\<rparr>"

definition free_step_of :: "proxy_entry \<Rightarrow> int \<Rightarrow> int" where
  "free_step_of p step = step + ceil_div (max (pe_completion p) 1) 64"

definition proxy_entry_events :: "proxy_entry \<Rightarrow> int \<Rightarrow> mevent list \<Rightarrow> mevent list result" where
  "proxy_entry_events p step es =
     bind_r (fold_r (\<lambda>b. append_event step ALLOCATED ''imported from OpenAI-compatible proxy log''
         (proxy_alloc_intent p step b)) [0..pe_blocks p - 1] es) (\<lambda>es1.
     bind_r (fold_r (\<lambda>b. append_event (step + 1) MARKED_DECODE_CRITICAL
         ''decode-critical block inferred from proxy completion log''
         (proxy_hot_intent p step b)) [max 0 (pe_blocks p - 2)..pe_blocks p - 1] es1)
       (fold_r (\<lambda>b. append_event (free_step_of p step) FREED ''request completion inferred from proxy log''
         (proxy_free_intent p step (free_step_of p step) b)) [0..pe_blocks p - 1]))"

definition proxy_step ::
  "conversions \<Rightarrow> int \<Rightarrow> string option \<Rightarrow> int \<times> jdict \<Rightarrow> mevent list \<Rightarrow> mevent list result" where
  "proxy_step c block_tokens override se es =
     bind_r (read_entry c block_tokens override (fst se) (snd se)) (\<lambda>p. proxy_entry_events p (fst se) es)"

definition openai_proxy_logs_to_intent_events ::
  "conversions \<Rightarrow> jdict list \<Rightarrow> int \<Rightarrow> string option \<Rightarrow> mevent list result" where
  "openai_proxy_logs_to_intent_events c entries block_tokens override =
     (if block_tokens \<le> 0 then Inl (ValueError ''logical_block_tokens must be > 0'')
      else bind_r (sorted_by (log_key c) entries) (\<lambda>ordered.
           fold_r (proxy_step c block_tokens override) (py_enumerate ordered) []))"

definition load_openai_proxy_logs :: "string \<Rightarrow> json list result" where
  "load_openai_proxy_logs text = load_json_lines text"

definition write_openai_proxy_logs :: "json list \<Rightarrow> string" where
  "write_openai_proxy_logs entries = py_join [CHR 0x0A] (map json_dumps entries) @ [CHR 0x0A]"

section \<open>GPU memory samples\<close>

text \<open>\<open>sample["value"][i]\<close>\<close>

definition value_at :: "jdict \<Rightarrow> int \<Rightarrow> json result" where
  "value_at sample i = bind_r (get_item sample ''value'') (\<lambda>v.
     case v of
       JList xs \<Rightarrow> py_nth xs i
     | JStr s \<Rightarrow> bind_r (py_nth s i) (\<lambda>ch. Inr (JStr [ch]))
     | JDict d \<Rightarrow> Inl (KeyError (int_str i))
     | _ \<Rightarrow> Inl (TypeError ''object is not subscriptable''))"

definition sample_time :: "conversions \<Rightarrow> jdict \<Rightarrow> pyfloat result" where
  "sample_time c sample = bind_r (value_at sample 0) (py_float c)"

definition sample_memory :: "conversions \<Rightarrow> jdict \<Rightarrow> int result" where
  "sample_memory c sample =
     bind_r (value_at sample 1) (\<lambda>v. bind_r (py_float c v) (\<lambda>x. py_int c (JFloat x)))"

definition pressure_high :: "int \<Rightarrow> int \<Rightarrow> bool" where
  "pressure_high max_memory used \<longleftrightarrow> fmul (fl (85 / 100)) (int_to_float max_memory) < of_int used"

definition pressure_intent :: "bool \<Rightarrow> int \<Rightarrow> int \<Rightarrow> mintent" where
  "pressure_intent high step used =
     (new_intent ''pressure-monitor:block:0'' ''pressure-monitor'' 0 KV_CACHE (if high then DECODE else IDLE)
        (if high then DECODE_CRITICAL else COLD) {HBM, DRAM} HBM (if used = 0 then 1 else used))
       \<lparr>request_priority := (if high then 100 else 10), recency_score := (if high then 1 else 0),
        deadline_us := (if high then Some 1000 else None), slack_us := (if high then Some 300 else None),
        arrival_step := Some step, target_decode_step := Some step,
        expected_reuse_window_tokens := Some (if high then 1 else 1024),
        recompute_cost_us := Some (if high then 5000 else 100), spill_cost_us := Some (if high then 250 else 100),
        compression_ok := \<not> high, recompute_ok := \<not> high, prefetch_ok := high, pin_requested := high,
        is_committed := True, created_step := step, last_access_step := step\<rparr>"

definition pressure_step :: "conversions \<Rightarrow> int \<Rightarrow> int \<times> jdict \<Rightarrow> mevent list \<Rightarrow> mevent list result" where
  "pressure_step c max_memory ss es =
     bind_r (sample_memory c (snd ss)) (\<lambda>used.
     let high = pressure_high max_memory used
     in append_event (fst ss) (if high then MARKED_DECODE_CRITICAL else MARKED_COLD)
          ''synthetic pressure signal imported from Prometheus GPU memory telemetry''
          (pressure_intent high (fst ss) used) es)"

definition prometheus_samples_to_intent_events :: "conversions \<Rightarrow> jdict list \<Rightarrow> int \<Rightarrow> mevent list result" where
  "prometheus_samples_to_intent_events c samples max_memory =
     (if max_memory \<le> 0 then Inl (ValueError ''max_memory_bytes must be > 0'')
      else bind_r (sorted_by (sample_time c) samples) (\<lambda>ordered.
           fold_r (pressure_step c max_memory) (py_enumerate ordered) []))"

definition load_prometheus_samples :: "string \<Rightarrow> json list result" where
  "load_prometheus_samples text =
     (let data = py_strip text
      in if data = [] then Inr []
         else if hd data = CHR ''['' then bind_r (json_loads data) py_iter
         else load_json_lines data)"

end
