(* ===== verification/Cli.thy ===== *)
theory Cli
  imports Report VllmMock TraceImporter Workload Telemetry
begin

text \<open>
  The commands of \<open>src/kv_memory_intent/cli.py\<close> over the files and the standard output of the process. A
  command is a function of the world: it may not return, it may raise, and it returns the world with what
  it wrote. A file is its text under its path; a path is written in its normal form, and its directories
  exist. Arguments arrive parsed, with the choices of the parser already enforced. \<open>environment\<close> holds what
  is not decided by the program: the iteration order of sets, conversions, and the draws of a seed.
\<close>

section \<open>The process\<close>

record world =
  files :: "string \<Rightarrow> string option"
  stdout :: string

type_synonym 'a command = "world \<Rightarrow> ('a result \<times> world) option"

definition return_c :: "'a \<Rightarrow> 'a command" where "return_c x w = Some (Inr x, w)"

definition bind_c :: "'a command \<Rightarrow> ('a \<Rightarrow> 'b command) \<Rightarrow> 'b command" where
  "bind_c m k w = (case m w of None \<Rightarrow> None | Some (Inl e, v) \<Rightarrow> Some (Inl e, v) | Some (Inr x, v) \<Rightarrow> k x v)"

definition compute :: "'a outcome \<Rightarrow> 'a command" where
  "compute m w = (case m of None \<Rightarrow> None | Some r \<Rightarrow> Some (r, w))"

definition read_file :: "string \<Rightarrow> string command" where
  "read_file path w = (case files w path of None \<Rightarrow> Some (Inl (OSError path), w) | Some t \<Rightarrow> Some (Inr t, w))"

definition write_file :: "string \<Rightarrow> string \<Rightarrow> unit command" where
  "write_file path t w = Some (Inr (), w\<lparr>files := (files w)(path \<mapsto> t)\<rparr>)"

definition print_line :: "string \<Rightarrow> unit command" where
  "print_line t w = Some (Inr (), w\<lparr>stdout := stdout w @ t @ newline\<rparr>)"

fun print_lines :: "string list \<Rightarrow> unit command" where
  "print_lines [] = return_c ()"
| "print_lines (l # ls) = bind_c (print_line l) (\<lambda>_. print_lines ls)"

fun collect_c :: "('a \<Rightarrow> 'b command) \<Rightarrow> 'a list \<Rightarrow> 'b list command" where
  "collect_c f [] = return_c []"
| "collect_c f (x # xs) = bind_c (f x) (\<lambda>y. bind_c (collect_c f xs) (\<lambda>ys. return_c (y # ys)))"

record environment =
  env_order :: set_order
  env_conv :: conversions
  workload_draws :: "int \<Rightarrow> nat \<Rightarrow> int"
  mock_draws_of :: "int \<Rightarrow> nat \<Rightarrow> int \<Rightarrow> int"

section \<open>Helpers\<close>

definition policy_order :: "string list" where
  "policy_order = [''lru'', ''hotcold'', ''predictive'', ''intent'', ''deadline'']"

definition mb_to_bytes :: "int \<Rightarrow> int" where "mb_to_bytes v = v * 1024 * 1024"

fun scale_decimal :: "string list \<Rightarrow> pyfloat \<Rightarrow> string" where
  "scale_decimal [] x = fixed 2 x @ '' TB''"
| "scale_decimal (u # us) x =
     (if x < 1000 \<or> us = [] then fixed 2 x @ '' '' @ u else scale_decimal us (fdiv x 1000))"

definition format_bytes_decimal :: "int \<Rightarrow> string" where
  "format_bytes_decimal n = scale_decimal [''B'', ''KB'', ''MB'', ''GB'', ''TB''] (int_to_float n)"

text \<open>\<open>ModelKVConfig(**asdict(config))\<close> runs the checks again.\<close>

definition clone_model_config :: "model_config \<Rightarrow> model_config result" where
  "clone_model_config m = config_post_init m"

record estimate_args =
  es_model :: "string option"
  es_num_layers :: "int option"
  es_hidden_size :: "int option"
  es_num_attention_heads :: "int option"
  es_num_kv_heads :: "int option"
  es_head_dim :: "int option"
  es_dtype_bytes :: int
  es_prompt_tokens :: int
  es_generated_tokens :: int
  es_batch_size :: int
  es_json :: bool

definition given :: "string option \<Rightarrow> bool" where
  "given s \<longleftrightarrow> (case s of None \<Rightarrow> False | Some t \<Rightarrow> t \<noteq> [])"

definition manual_model_config :: "estimate_args \<Rightarrow> model_config result" where
  "manual_model_config a =
     (case (es_num_layers a, es_hidden_size a, es_num_attention_heads a) of
        (Some l, Some h, Some n) \<Rightarrow>
          config_post_init \<lparr>cfg_model_name = (if given (es_model a) then the (es_model a) else ''custom''), num_layers = l,
            hidden_size = h, num_attention_heads = n, num_kv_heads = es_num_kv_heads a, head_dim = es_head_dim a,
            dtype_bytes = (if es_dtype_bytes a \<noteq> 0 then es_dtype_bytes a else 2)\<rparr>
      | (l, h, n) \<Rightarrow> Inl (ValueError (''manual model config requires --num-layers, --hidden-size, and --num-attention-heads (missing: ''
          @ py_join '', '' ((if l = None then [''num_layers''] else []) @ (if h = None then [''hidden_size''] else [])
              @ (if n = None then [''num_attention_heads''] else [])) @ '')'')))"

definition cli_model_config :: "estimate_args \<Rightarrow> model_config result" where
  "cli_model_config a =
     (if given (es_model a) then
        (case dict_get model_presets (the (es_model a)) of
           None \<Rightarrow> Inl (ValueError (''unknown model preset: '' @ the (es_model a)))
         | Some m \<Rightarrow>
             if es_num_layers a = None \<and> es_hidden_size a = None \<and> es_num_attention_heads a = None
                \<and> es_num_kv_heads a = None \<and> es_head_dim a = None \<and> es_dtype_bytes a = 2
             then clone_model_config m else manual_model_config a)
      else manual_model_config a)"

definition default_workload :: "workload_profile \<Rightarrow> bool \<Rightarrow> workload_options" where
  "default_workload prof small =
     \<lparr>num_requests = (if small then 12 else 24), blocks_per_request = (if small then 8 else 12),
      wl_block_size = 16 * 1024, decode_steps = (if small then 90 else 180), profile = prof\<rparr>"

definition generated :: "environment \<Rightarrow> int \<Rightarrow> workload_options \<Rightarrow> recorder result" where
  "generated env seed w =
     bind_r (generate_synthetic_kv_workload (workload_draws env seed) w) (\<lambda>es. Inr (extend_events es new_recorder))"

definition default_trace :: "environment \<Rightarrow> workload_profile \<Rightarrow> int \<Rightarrow> bool \<Rightarrow> recorder result" where
  "default_trace env prof seed small = generated env seed (default_workload prof small)"

definition result_markdown :: "conversions \<Rightarrow> jdict \<Rightarrow> string" where
  "result_markdown c d =
     py_join newline ([''## Simulation Result'', []] @ map (\<lambda>kv. ''- '' @ fst kv @ '': '' @ py_str c (snd kv)) d)"

text \<open>\<open>xs[:n]\<close>\<close>

definition py_prefix :: "int \<Rightarrow> 'a list \<Rightarrow> 'a list" where
  "py_prefix n xs = take (nat (if 0 \<le> n then n else int (length xs) + n)) xs"

definition inspect_head :: "mevent list \<Rightarrow> int \<Rightarrow> string" where
  "inspect_head es n =
     py_join newline ([''## Trace Head'', []] @ map (\<lambda>e. json_dumps (JDict (event_to_dict e))) (py_prefix n es))"

definition simulate_bytes ::
  "environment \<Rightarrow> recorder \<Rightarrow> string \<Rightarrow> int \<Rightarrow> int \<Rightarrow> (sim \<times> simulation_result) outcome" where
  "simulate_bytes env tr name hbm dram =
     bind_o (Some (policy_from_name name)) (\<lambda>p. run (env_order env) (default_config p hbm dram) (rec_events tr) init_sim)"

definition simulate ::
  "environment \<Rightarrow> recorder \<Rightarrow> string \<Rightarrow> int \<Rightarrow> int \<Rightarrow> (sim \<times> simulation_result) outcome" where
  "simulate env tr name hbm_mb dram_mb = simulate_bytes env tr name (mb_to_bytes hbm_mb) (mb_to_bytes dram_mb)"

definition load_trace :: "environment \<Rightarrow> string \<Rightarrow> recorder command" where
  "load_trace env path = bind_c (read_file path) (\<lambda>t. compute (Some (from_jsonl (env_conv env) t)))"

definition save_trace :: "recorder \<Rightarrow> string \<Rightarrow> unit command" where
  "save_trace r path = write_file path (to_jsonl r)"

definition show_json :: "jdict \<Rightarrow> string" where
  "show_json d = json_pretty 0 (json_sorted (JDict d))"

section \<open>The example of a decision\<close>

definition eviction_entry :: "sim \<Rightarrow> decision option" where
  "eviction_entry s = (case filter (\<lambda>d. dec_action d \<in> {''evict'', ''spill''}) (decision_log s) of [] \<Rightarrow> None | d # _ \<Rightarrow> Some d)"

definition entry_text :: "conversions \<Rightarrow> jdict \<Rightarrow> string \<Rightarrow> string" where
  "entry_text c d k = (case dict_get d k of None \<Rightarrow> [] | Some v \<Rightarrow> py_str c v)"

definition victim_lines :: "conversions \<Rightarrow> jdict \<Rightarrow> string list" where
  "victim_lines c d =
     [''- '' @ entry_text c d ''victim_object_id'', ''- phase: '' @ entry_text c d ''victim_phase'',
      ''- priority: '' @ entry_text c d ''victim_priority'', ''- deadline_us: '' @ entry_text c d ''victim_deadline_us'']"

definition decision_example :: "conversions \<Rightarrow> sim \<Rightarrow> sim \<Rightarrow> string" where
  "decision_example c lru deadline =
     (case (eviction_entry lru, eviction_entry deadline) of
        (Some l, Some d) \<Rightarrow>
          (let le = decision_to_dict l; de = decision_to_dict d in
           concat (map (\<lambda>x. x @ newline)
             ([''## Example Decision'', [], ''At step '' @ entry_text c de ''step'' @ '':'', [], ''LRU-like decision:'']
              @ victim_lines c le @ [[], ''KVDeadline decision:''] @ victim_lines c de
              @ [''- reason: '' @ entry_text c de ''reason''])))
      | _ \<Rightarrow> ''No decision example was generated.'')"

definition demo_decision_example :: "environment \<Rightarrow> recorder \<Rightarrow> string outcome" where
  "demo_decision_example env tr =
     bind_o (simulate env tr ''lru'' 4 64) (\<lambda>l. bind_o (simulate env tr ''deadline'' 4 64) (\<lambda>d.
     Some (Inr (decision_example (env_conv env) (fst l) (fst d)))))"

section \<open>The sweep\<close>

definition sweep_row :: "int \<Rightarrow> simulation_result \<Rightarrow> jdict" where
  "sweep_row hbm_mb r =
     [(''policy'', JStr (res_policy_name r)), (''hbm_mb'', JInt hbm_mb), (''p50_latency_us'', JFloat (p50_latency_us r)),
      (''p95_latency_us'', JFloat (p95_latency_us r)), (''p99_latency_us'', JFloat (p99_latency_us r)),
      (''total_misses'', JInt (res_miss_count r)), (''decode_critical_misses'', JInt (res_decode_critical_misses r)),
      (''evictions'', JInt (res_eviction_count r)), (''decode_critical_evictions'', JInt (res_decode_critical_evictions r)),
      (''spills'', JInt (res_spill_count r)), (''prefetches'', JInt (res_prefetch_count r)),
      (''hbm_bytes_saved'', JInt (hbm_bytes_saved r))]"

definition sweep_rows :: "environment \<Rightarrow> recorder \<Rightarrow> int list \<Rightarrow> int \<Rightarrow> jdict list outcome" where
  "sweep_rows env tr hbm_values dram_mb =
     fold_o (\<lambda>hbm_mb. fold_o (\<lambda>name rows. bind_o (simulate env tr name hbm_mb dram_mb) (\<lambda>r.
         Some (Inr (rows @ [sweep_row hbm_mb (snd r)])))) policy_order) hbm_values []"

definition even_points :: "int \<Rightarrow> int \<Rightarrow> int \<Rightarrow> int list" where
  "even_points start stop points =
     (if points \<le> 1 then [start]
      else let step = fdiv (int_to_float (stop - start)) (int_to_float (points - 1))
           in map (\<lambda>i. round_half_even (fadd (int_to_float start) (fmul step (int_to_float i)))) [0..points - 1])"

section \<open>The commands\<close>

record generate_args =
  ga_out :: string
  ga_requests :: int
  ga_blocks_per_request :: int
  ga_decode_steps :: int
  ga_block_kb :: int
  ga_profile :: workload_profile
  ga_seed :: int

definition generate_cmd :: "environment \<Rightarrow> generate_args \<Rightarrow> unit command" where
  "generate_cmd env a =
     bind_c (compute (Some (generated env (ga_seed a) \<lparr>num_requests = ga_requests a,
         blocks_per_request = ga_blocks_per_request a, wl_block_size = ga_block_kb a * 1024,
         decode_steps = ga_decode_steps a, profile = ga_profile a\<rparr>))) (\<lambda>r.
     bind_c (save_trace r (ga_out a)) (\<lambda>_. print_line (print_summary r)))"

record simulate_args =
  sa_trace :: string
  sa_policy :: string
  sa_hbm_mb :: int
  sa_dram_mb :: int
  sa_json :: bool
  sa_decision_log :: "string option"

definition simulate_cmd :: "environment \<Rightarrow> simulate_args \<Rightarrow> unit command" where
  "simulate_cmd env a =
     bind_c (load_trace env (sa_trace a)) (\<lambda>tr.
     bind_c (compute (simulate env tr (sa_policy a) (sa_hbm_mb a) (sa_dram_mb a))) (\<lambda>sr.
     bind_c (if given (sa_decision_log a)
        then write_file (the (sa_decision_log a)) (write_decision_log (decision_log (fst sr))) else return_c ()) (\<lambda>_.
     print_line (if sa_json a then show_json (result_to_dict (snd sr))
       else result_markdown (env_conv env) (result_to_dict (snd sr))))))"

text \<open>The five policies on one trace; each writes its decisions where a directory is given.\<close>

definition compare_policies ::
  "environment \<Rightarrow> recorder \<Rightarrow> int \<Rightarrow> int \<Rightarrow> string option \<Rightarrow> simulation_result list command" where
  "compare_policies env tr hbm dram log_dir =
     collect_c (\<lambda>name. bind_c (compute (simulate_bytes env tr name hbm dram)) (\<lambda>sr.
       bind_c (if given log_dir then write_file (the log_dir @ ''/'' @ res_policy_name (snd sr) @ ''.jsonl'')
           (write_decision_log (decision_log (fst sr))) else return_c ()) (\<lambda>_. return_c (snd sr)))) policy_order"

record compare_args =
  ca_trace :: string
  ca_hbm_mb :: int
  ca_dram_mb :: int
  ca_decision_log_dir :: "string option"

definition compare_cmd :: "environment \<Rightarrow> compare_args \<Rightarrow> unit command" where
  "compare_cmd env a =
     bind_c (load_trace env (ca_trace a)) (\<lambda>tr.
     bind_c (compare_policies env tr (mb_to_bytes (ca_hbm_mb a)) (mb_to_bytes (ca_dram_mb a)) (ca_decision_log_dir a)) (\<lambda>rs.
     print_line (compare_results rs)))"

record inspect_args =
  ia_trace :: string
  ia_head :: int
  ia_json :: bool

definition inspect_cmd :: "environment \<Rightarrow> inspect_args \<Rightarrow> unit command" where
  "inspect_cmd env a =
     bind_c (load_trace env (ia_trace a)) (\<lambda>tr.
     if ia_json a then
       print_line (show_json ([(''summary'', JDict (summary_to_dict (trace_summary_of tr)))]
         @ (if ia_head a \<noteq> 0 then [(''head'', JList (map (\<lambda>e. JDict (event_to_dict e)) (py_prefix (ia_head a) (rec_events tr))))]
            else [])))
     else
       bind_c (print_line (print_summary tr)) (\<lambda>_.
       if ia_head a \<noteq> 0 then print_lines [[], inspect_head (rec_events tr) (ia_head a)] else return_c ()))"

definition demo_cmd :: "environment \<Rightarrow> workload_profile \<Rightarrow> int \<Rightarrow> unit command" where
  "demo_cmd env prof seed =
     bind_c (compute (Some (default_trace env prof seed False))) (\<lambda>tr.
     bind_c (print_lines [print_summary tr, []]) (\<lambda>_.
     bind_c (compare_policies env tr (4 * 1024 * 1024) (64 * 1024 * 1024) None) (\<lambda>rs.
     bind_c (print_lines [compare_results rs, []]) (\<lambda>_.
     bind_c (compute (demo_decision_example env tr)) print_line))))"

record mock_args =
  ma_out :: string
  ma_requests :: int
  ma_decode_steps :: int
  ma_compare :: bool
  ma_hbm_mb :: int
  ma_dram_mb :: int
  ma_seed :: int

definition mock_vllm_cmd :: "environment \<Rightarrow> mock_args \<Rightarrow> unit command" where
  "mock_vllm_cmd env a =
     bind_c (compute (Some (generate_mock_vllm_trace (mock_draws_of env (ma_seed a)) (ma_requests a) (ma_decode_steps a) None))) (\<lambda>tr.
     bind_c (save_trace tr (ma_out a)) (\<lambda>_.
     let s = trace_summary_of tr in
     bind_c (print_lines [''Generated mock vLLM trace: '' @ ma_out a, ''Events: '' @ int_str (total_events s),
       ''Unique KV blocks: '' @ int_str (total_unique_blocks s),
       ''Decode-critical bytes: '' @ int_str (decode_critical_bytes s), [], print_summary tr]) (\<lambda>_.
     if ma_compare a then
       bind_c (print_lines [[], ''Running policy comparison...'']) (\<lambda>_.
       bind_c (compare_policies env tr (mb_to_bytes (ma_hbm_mb a)) (mb_to_bytes (ma_dram_mb a)) None) (\<lambda>rs.
       print_line (compare_results rs)))
     else return_c ())))"

definition estimate_cmd :: "estimate_args \<Rightarrow> unit command" where
  "estimate_cmd a =
     bind_c (compute (Some (cli_model_config a))) (\<lambda>m.
     bind_c (compute (Some (kv_bytes_per_token m))) (\<lambda>per_token.
     bind_c (compute (Some (estimate_request_kv_bytes m (es_prompt_tokens a) (es_generated_tokens a)))) (\<lambda>request_kv.
     let batch_kv = request_kv * es_batch_size a in
     if es_json a then
       print_line (show_json
         [(''model_name'', JStr (cfg_model_name m)), (''approx_kv_bytes_per_token'', JInt per_token),
          (''approx_request_kv_bytes'', JInt request_kv), (''approx_batch_kv_bytes'', JInt batch_kv),
          (''prompt_tokens'', JInt (es_prompt_tokens a)), (''generated_tokens'', JInt (es_generated_tokens a)),
          (''batch_size'', JInt (es_batch_size a)),
          (''note'', JStr ''Estimated from model configuration. Results are approximate.'')])
     else print_lines [''Approx KV per token: '' @ format_bytes_decimal per_token,
         ''Approx request KV: '' @ format_bytes_decimal request_kv, ''Approx batch KV: '' @ format_bytes_decimal batch_kv,
         ''Note: estimate/simulation only, not a direct runtime measurement.''])))"

record import_args =
  im_requests :: string
  im_out :: string
  im_model :: string
  im_logical_block_mb :: int
  im_max_blocks :: int
  im_json :: bool

definition preset_config :: "string \<Rightarrow> model_config result" where
  "preset_config name =
     (case dict_get model_presets name of None \<Rightarrow> Inl (KeyError name) | Some m \<Rightarrow> clone_model_config m)"

definition import_cmd :: "environment \<Rightarrow> import_args \<Rightarrow> unit command" where
  "import_cmd env a =
     bind_c (read_file (im_requests a)) (\<lambda>text.
     bind_c (compute (Some (load_request_trace (env_conv env) text))) (\<lambda>records.
     bind_c (compute (Some (preset_config (im_model a)))) (\<lambda>m.
     bind_c (compute (Some (request_trace_to_intent_events \<lparr>block_size_bytes = im_logical_block_mb a * 1024 * 1024,
         decode_block_tokens = 16, max_blocks_per_request = Some (im_max_blocks a)\<rparr> m records))) (\<lambda>events.
     let r = extend_events events new_recorder in
     bind_c (save_trace r (im_out a)) (\<lambda>_.
     if im_json a then
       print_line (show_json [(''request_records'', JInt (int (length records))), (''intent_events'', JInt (int (length events))),
         (''output'', JStr (im_out a)),
         (''note'', JStr ''Imported traces are approximate reconstructions from external request logs.''),
         (''summary'', JDict (summary_to_dict (trace_summary_of r)))])
     else print_lines [''Imported external request trace into approximate MemoryIntentEvent JSONL.'',
         ''Warning: imported traces are approximate and simulator-based.'', ''Input requests: '' @ int_str (int (length records)),
         ''Output trace: '' @ im_out a, [], print_summary r])))))"

text \<open>An entry of a log is used as a dictionary.\<close>

definition as_dict :: "json \<Rightarrow> jdict result" where
  "as_dict j = (case j of JDict d \<Rightarrow> Inr d | _ \<Rightarrow> Inl (AttributeError ''get''))"

definition as_sample :: "json \<Rightarrow> jdict result" where
  "as_sample j = (case j of JDict d \<Rightarrow> Inr d | _ \<Rightarrow> Inl (TypeError ''sample''))"

text \<open>Sorting computes the keys one entry after the other: the first entry that is no dictionary or has no key raises.\<close>

definition keyed_entry :: "(json \<Rightarrow> jdict result) \<Rightarrow> (jdict \<Rightarrow> 'k result) \<Rightarrow> json \<Rightarrow> jdict result" where
  "keyed_entry kind key j = bind_r (kind j) (\<lambda>d. bind_r (key d) (\<lambda>_. Inr d))"

record openai_args =
  oa_requests :: string
  oa_out :: string
  oa_model :: "string option"
  oa_block_tokens :: int

definition import_report :: "string list \<Rightarrow> string \<Rightarrow> int \<Rightarrow> string \<Rightarrow> recorder \<Rightarrow> unit command" where
  "import_report head_lines noun n path r =
     print_lines (head_lines @ [''Input '' @ noun @ '': '' @ int_str n, ''Output trace: '' @ path, [], print_summary r])"

definition import_openai_cmd :: "environment \<Rightarrow> openai_args \<Rightarrow> unit command" where
  "import_openai_cmd env a =
     bind_c (read_file (oa_requests a)) (\<lambda>text.
     bind_c (compute (Some (load_openai_proxy_logs text))) (\<lambda>entries.
     bind_c (compute (Some (if oa_block_tokens a \<le> 0 then Inl (ValueError ''logical_block_tokens must be > 0'')
       else bind_r (map_r (keyed_entry as_dict (log_key (env_conv env))) entries) (\<lambda>ds.
         openai_proxy_logs_to_intent_events (env_conv env) ds (oa_block_tokens a) (oa_model a))))) (\<lambda>events.
     let r = extend_events events new_recorder in
     bind_c (save_trace r (oa_out a)) (\<lambda>_.
     import_report [''Imported OpenAI-compatible proxy log into approximate MemoryIntentEvent JSONL.'',
       ''Warning: imported proxy traces are approximate and simulator-based.''] ''entries'' (int (length entries)) (oa_out a) r))))"

record prometheus_args =
  pa_samples :: string
  pa_out :: string
  pa_max_memory_gb :: pyfloat

definition import_prometheus_cmd :: "environment \<Rightarrow> prometheus_args \<Rightarrow> unit command" where
  "import_prometheus_cmd env a =
     bind_c (read_file (pa_samples a)) (\<lambda>text.
     bind_c (compute (Some (load_prometheus_samples text))) (\<lambda>samples.
     bind_c (compute (Some (let limit = float_to_int (fmul (pa_max_memory_gb a) (1024 ^ 3)) in
       if limit \<le> 0 then Inl (ValueError ''max_memory_bytes must be > 0'')
       else bind_r (map_r (keyed_entry as_sample (sample_time (env_conv env))) samples) (\<lambda>ds.
         prometheus_samples_to_intent_events (env_conv env) ds limit)))) (\<lambda>events.
     let r = extend_events events new_recorder in
     bind_c (save_trace r (pa_out a)) (\<lambda>_.
     import_report [''Imported Prometheus GPU memory telemetry into a synthetic pressure trace.'',
       ''Note: these events are intended to be merged with another trace, not to replace it.''] ''samples''
       (int (length samples)) (pa_out a) r))))"

record sweep_args =
  sw_trace :: "string option"
  sw_demo :: bool
  sw_min_mb :: int
  sw_max_mb :: int
  sw_points :: int
  sw_dram_mb :: int
  sw_out :: string
  sw_profile :: workload_profile
  sw_seed :: int

definition sweep_trace :: "environment \<Rightarrow> sweep_args \<Rightarrow> recorder command" where
  "sweep_trace env a =
     (if sw_demo a then compute (Some (default_trace env (sw_profile a) (sw_seed a) True))
      else if given (sw_trace a) then load_trace env (the (sw_trace a))
      else compute (Some (Inl (SystemExit ''sweep requires --trace or --demo''))))"

definition sweep_cmd :: "environment \<Rightarrow> sweep_args \<Rightarrow> unit command" where
  "sweep_cmd env a =
     bind_c (sweep_trace env a) (\<lambda>tr.
     bind_c (compute (sweep_rows env tr (even_points (sw_min_mb a) (sw_max_mb a) (sw_points a)) (sw_dram_mb a))) (\<lambda>rows.
     bind_c (compute (Some (write_sweep_csv (env_conv env) rows))) (\<lambda>text.
     bind_c (write_file (sw_out a) text) (\<lambda>_.
     print_lines [''Wrote sweep CSV with columns: '' @ py_join '', '' sweep_columns, ''Output: '' @ sw_out a]))))"

datatype command_line =
    Generate generate_args
  | Simulate simulate_args
  | Compare compare_args
  | Inspect inspect_args
  | Demo workload_profile int
  | MockVllm mock_args
  | EstimateKv estimate_args
  | ImportRequestTrace import_args
  | ImportOpenaiLog openai_args
  | ImportPrometheus prometheus_args
  | Sweep sweep_args

definition cli_main :: "environment \<Rightarrow> command_line \<Rightarrow> unit command" where
  "cli_main env cl =
     (case cl of Generate a \<Rightarrow> generate_cmd env a | Simulate a \<Rightarrow> simulate_cmd env a | Compare a \<Rightarrow> compare_cmd env a
      | Inspect a \<Rightarrow> inspect_cmd env a | Demo p s \<Rightarrow> demo_cmd env p s | MockVllm a \<Rightarrow> mock_vllm_cmd env a
      | EstimateKv a \<Rightarrow> estimate_cmd a | ImportRequestTrace a \<Rightarrow> import_cmd env a
      | ImportOpenaiLog a \<Rightarrow> import_openai_cmd env a | ImportPrometheus a \<Rightarrow> import_prometheus_cmd env a
      | Sweep a \<Rightarrow> sweep_cmd env a)"

end
