(* ===== verification/Speculative.thy ===== *)
theory Speculative
  imports Simulator Emission
begin

text \<open>
  \<open>src/kv_memory_intent/speculative\<close>: the draft tree, the policy's reaction to a verification, the draft
  workload (\<open>draft_workload.py\<close>) and the lifecycle trace built on it (\<open>benchmark.py\<close>). The two random
  generators are parameters: \<open>gauss i\<close> is the i-th value of \<open>rng.gauss(acceptance_rate, 0.15)\<close> and
  \<open>unit i\<close> the i-th value of \<open>rng.random()\<close>.

  The walk over the descendants and the two work loops are partial functions: nothing in the code
  keeps the parent links from forming a cycle.
\<close>

section \<open>Draft trees\<close>

record draft_node =
  token_id :: int
  parent_id :: "int option"
  depth :: int
  acceptance_prob :: pyfloat
  kv_object_id :: string

type_synonym draft_tree = "(int, draft_node) dict"

definition with_parent :: "draft_tree \<Rightarrow> int option \<Rightarrow> draft_tree" where
  "with_parent nodes p = filter (\<lambda>kn. parent_id (snd kn) = p) nodes"

text \<open>\<open>_build_children\<close>: the lists of children, by parent. Looking a parent up is \<open>with_parent\<close>.\<close>

definition build_children :: "draft_tree \<Rightarrow> (int option, int list) dict" where
  "build_children nodes =
     fold (\<lambda>kn d. AList.update (parent_id (snd kn))
         ((case dict_get d (parent_id (snd kn)) of None \<Rightarrow> [] | Some ids \<Rightarrow> ids) @ [fst kn]) d) nodes []"

lemma build_children_lookup:
  "(case dict_get (build_children nodes) p of None \<Rightarrow> [] | Some ids \<Rightarrow> ids) = map fst (with_parent nodes p)"
proof (induction nodes rule: rev_induct)
  case (snoc kn nodes)
  then show ?case by (auto simp: build_children_def with_parent_def dict_get_update split: option.splits)
qed (simp add: build_children_def with_parent_def)

text \<open>\<open>pending\<close> is a stack with its top at the end; the children of the popped node are appended.\<close>

partial_function (option) descend ::
  "draft_tree \<Rightarrow> int list \<Rightarrow> draft_node list \<Rightarrow> draft_node list option" where
  "descend nodes pending found =
     (if pending = [] then Some found
      else descend nodes (butlast pending @ map fst (with_parent nodes (Some (last pending))))
             (found @ map snd (with_parent nodes (Some (last pending)))))"

definition descendants :: "draft_tree \<Rightarrow> int \<Rightarrow> draft_node list option" where
  "descendants nodes node_id = descend nodes [node_id] []"

section \<open>Verification\<close>

record spec_policy =
  draft_blocks_freed_on_rejection :: int
  wasted_hbm_mb_on_rejected_drafts :: pyfloat

type_synonym block_table = "(string, mintent) dict"

text \<open>\<open>[tree.nodes.get(node_id), *tree.descendants(node_id)]\<close> without the missing node.\<close>

definition affected :: "draft_tree \<Rightarrow> int \<Rightarrow> draft_node list option" where
  "affected tree node_id =
     map_option (\<lambda>ds. (case dict_get tree node_id of None \<Rightarrow> [] | Some n \<Rightarrow> [n]) @ ds) (descendants tree node_id)"

definition commit_node :: "draft_node \<Rightarrow> block_table \<Rightarrow> block_table result" where
  "commit_node node bs =
     (case dict_get bs (kv_object_id node) of
        None \<Rightarrow> Inr bs
      | Some current \<Rightarrow>
          bind_r (copy_with (\<lambda>b. b\<lparr>priority := DECODE_CRITICAL, phase := DECODE, pin_requested := True,
              is_draft := False, is_committed := True\<rparr>) current)
            (\<lambda>b. Inr (AList.update (kv_object_id node) b bs)))"

definition reject_node :: "draft_node \<Rightarrow> spec_policy \<times> block_table \<Rightarrow> spec_policy \<times> block_table" where
  "reject_node node pb =
     (case dict_get (snd pb) (kv_object_id node) of
        None \<Rightarrow> pb
      | Some current \<Rightarrow>
          ((fst pb)\<lparr>draft_blocks_freed_on_rejection := draft_blocks_freed_on_rejection (fst pb) + 1,
             wasted_hbm_mb_on_rejected_drafts := fadd (wasted_hbm_mb_on_rejected_drafts (fst pb))
               (fl (of_int (size_bytes current) / (1024 * 1024)))\<rparr>,
           AList.delete (kv_object_id node) (snd pb)))"

definition process_verify_event ::
  "mevent \<Rightarrow> draft_tree \<Rightarrow> bool \<Rightarrow> spec_policy \<times> block_table \<Rightarrow> (spec_policy \<times> block_table) outcome" where
  "process_verify_event ev tree accepted pb =
     (case affected tree (block_id (ev_intent ev)) of
        None \<Rightarrow> None
      | Some nodes \<Rightarrow>
          if accepted then Some (bind_r (fold_r commit_node nodes (snd pb)) (\<lambda>bs. Inr (fst pb, bs)))
          else Some (Inr (fold reject_node nodes pb)))"

definition prepare_draft_intent :: "mintent \<Rightarrow> pyfloat \<Rightarrow> mintent result" where
  "prepare_draft_intent intent prob =
     (if \<not> is_draft intent then Inr intent
      else if prob < fl (3 / 10) then copy_with (\<lambda>b. b\<lparr>priority := COLD, phase := VERIFY\<rparr>) intent
      else let expected = max 1 (float_to_int (fmul (fsub 1 prob) 2000))
           in copy_with (\<lambda>b. b\<lparr>deadline_us := Some expected, slack_us := Some (max (expected div 2) 1)\<rparr>) intent)"

section \<open>The draft workload\<close>

record draft_state =
  ds_tree :: draft_tree
  ds_events :: "mevent list"
  ds_node_id :: int
  ds_step :: int
  ds_frontier :: "(int option \<times> int) list"
  ds_draws :: nat

definition draft_id :: "int \<Rightarrow> string" where "draft_id n = ''draft:'' @ int_str n"

definition clamp_prob :: "pyfloat \<Rightarrow> pyfloat" where "clamp_prob g = max (fl (5 / 100)) (min (fl (95 / 100)) g)"

definition draft_intent :: "int \<Rightarrow> int \<Rightarrow> pyfloat \<Rightarrow> int \<Rightarrow> mintent" where
  "draft_intent node_id d prob step =
     (new_intent (draft_id node_id) ''spec-req-0'' node_id KV_CACHE VERIFY
        (if fl (3 / 10) \<le> prob then HOT else COLD) {HBM, DRAM} HBM (256 * 1024))
       \<lparr>request_priority := 80, recency_score := fsub 1 (fmul (int_to_float d) (fl (1 / 10))),
        deadline_us := Some (max 1 (float_to_int (fmul (fsub 1 prob) 2000))),
        slack_us := Some (max 1 (float_to_int (fmul (fsub 1 prob) 1000))),
        recompute_cost_us := Some 1500, spill_cost_us := Some 100, expected_reuse_window_tokens := Some (d + 1),
        is_draft := True, created_step := step, last_access_step := step\<rparr>"

definition draft_child :: "(nat \<Rightarrow> pyfloat) \<Rightarrow> int \<Rightarrow> int option \<Rightarrow> int \<Rightarrow> draft_state \<Rightarrow> draft_state result" where
  "draft_child gauss tree_depth parent d s =
     (let prob = clamp_prob (gauss (ds_draws s)); n = ds_node_id s; step = ds_step s;
          node = \<lparr>token_id = 1000 + n, parent_id = parent, depth = d, acceptance_prob = prob, kv_object_id = draft_id n\<rparr>
      in bind_r (post_init (draft_intent n d prob step)) (\<lambda>intent.
         bind_r (mk_event step ALLOCATED intent ''draft alloc'') (\<lambda>alloc.
         bind_r (copy_with (\<lambda>b. b\<lparr>phase := VERIFY, recency_score := 1\<rparr>) intent) (\<lambda>verified.
         bind_r (mk_event (step + 1) ACCESSED verified ''draft access'') (\<lambda>access.
         Inr (s\<lparr>ds_tree := AList.update n node (ds_tree s), ds_events := ds_events s @ [alloc, access],
                ds_node_id := n + 1, ds_step := step + 2, ds_draws := ds_draws s + 1,
                ds_frontier := ds_frontier s @ (if d + 1 < tree_depth then [(Some n, d + 1)] else [])\<rparr>))))))"

partial_function (option) draft_loop ::
  "(nat \<Rightarrow> pyfloat) \<Rightarrow> int \<Rightarrow> int \<Rightarrow> draft_state \<Rightarrow> draft_state outcome" where
  "draft_loop gauss tree_width tree_depth s =
     (case ds_frontier s of
        [] \<Rightarrow> Some (Inr s)
      | pd # rest \<Rightarrow>
          if tree_depth \<le> snd pd then draft_loop gauss tree_width tree_depth (s\<lparr>ds_frontier := rest\<rparr>)
          else bind_o (Some (fold_r (\<lambda>_. draft_child gauss tree_depth (fst pd) (snd pd)) [0..tree_width - 1]
                 (s\<lparr>ds_frontier := rest\<rparr>))) (draft_loop gauss tree_width tree_depth))"

definition draft_start :: draft_state where
  "draft_start = \<lparr>ds_tree = [], ds_events = [], ds_node_id = 0, ds_step = 0, ds_frontier = [(None, 0)], ds_draws = 0\<rparr>"

definition generate_speculative_workload ::
  "(nat \<Rightarrow> pyfloat) \<Rightarrow> int \<Rightarrow> int \<Rightarrow> (draft_tree \<times> mevent list) outcome" where
  "generate_speculative_workload gauss tree_width tree_depth =
     bind_o (draft_loop gauss tree_width tree_depth draft_start) (\<lambda>s. Some (Inr (ds_tree s, ds_events s)))"

section \<open>The lifecycle trace\<close>

record life_state =
  life_step :: int
  life_events :: "mevent list"
  life_blocks :: block_table
  life_policy :: spec_policy
  life_draws :: nat

text \<open>An event on a copy of the block with the current step, appended to the trace.\<close>

definition life_event :: "event_type \<Rightarrow> string \<Rightarrow> mintent \<Rightarrow> life_state \<Rightarrow> life_state result" where
  "life_event et reason intent s =
     bind_r (copy_with (\<lambda>b. b\<lparr>last_access_step := life_step s\<rparr>) intent) (\<lambda>i.
     bind_r (mk_event (life_step s) et i reason) (\<lambda>e.
     Inr (s\<lparr>life_events := life_events s @ [e], life_step := life_step s + 1\<rparr>)))"

definition free_subtree :: "mintent list \<Rightarrow> life_state \<Rightarrow> life_state result" where
  "free_subtree intents = fold_r (life_event FREED ''speculative draft rejected'') intents"

text \<open>The body of \<open>resolve\<close>; the flag says whether its children are resolved next.\<close>

definition resolve_node :: "(nat \<Rightarrow> pyfloat) \<Rightarrow> draft_tree \<Rightarrow> int \<Rightarrow> life_state \<Rightarrow> (bool \<times> life_state) outcome" where
  "resolve_node unit tree node_id s =
     (case dict_get tree node_id of
        None \<Rightarrow> Some (Inl (KeyError (int_str node_id)))
      | Some node \<Rightarrow>
        (case dict_get (life_blocks s) (kv_object_id node) of
           None \<Rightarrow> Some (Inr (False, s))
         | Some current \<Rightarrow>
             bind_o (Some (copy_with (\<lambda>b. b\<lparr>last_access_step := life_step s\<rparr>) current)) (\<lambda>i.
             bind_o (Some (mk_event (life_step s) ACCESSED i ''speculative verify'')) (\<lambda>verify.
             let accepted = unit (life_draws s) < acceptance_prob node;
                 s1 = s\<lparr>life_draws := life_draws s + 1\<rparr>
             in case descendants tree node_id of
                  None \<Rightarrow> None
                | Some below \<Rightarrow>
                    let doomed = List.map_filter (\<lambda>n. dict_get (life_blocks s) (kv_object_id n)) (node # below)
                    in bind_o (process_verify_event verify tree accepted (life_policy s, life_blocks s)) (\<lambda>pb.
                       let s2 = s1\<lparr>life_policy := fst pb, life_blocks := snd pb\<rparr>
                       in if accepted then
                            (case dict_get (snd pb) (kv_object_id node) of
                               None \<Rightarrow> Some (Inl (KeyError (kv_object_id node)))
                             | Some committed \<Rightarrow>
                                 Some (bind_r (life_event COMMITTED ''speculative draft accepted'' committed s2)
                                   (\<lambda>s3. Inr (True, s3))))
                          else Some (bind_r (free_subtree doomed s2) (\<lambda>s3. Inr (False, s3))))))))"

text \<open>\<open>resolve\<close> calls itself on the children before its caller goes on: the pending calls are a list.\<close>

partial_function (option) resolve_all ::
  "(nat \<Rightarrow> pyfloat) \<Rightarrow> draft_tree \<Rightarrow> int list \<Rightarrow> life_state \<Rightarrow> life_state outcome" where
  "resolve_all unit tree ids s =
     (case ids of
        [] \<Rightarrow> Some (Inr s)
      | i # rest \<Rightarrow>
          bind_o (resolve_node unit tree i s) (\<lambda>gs.
            resolve_all unit tree ((if fst gs then map fst (with_parent tree (Some i)) else []) @ rest) (snd gs)))"

definition latest_intents :: "mevent list \<Rightarrow> block_table" where
  "latest_intents es = fold (\<lambda>e. AList.update (object_id (ev_intent e)) (ev_intent e)) es []"

definition next_step :: "mevent list \<Rightarrow> int" where
  "next_step es = (if es = [] then -1 else Max (ev_step ` set es)) + 1"

definition new_spec_policy :: spec_policy where
  "new_spec_policy = \<lparr>draft_blocks_freed_on_rejection = 0, wasted_hbm_mb_on_rejected_drafts = 0\<rparr>"

definition generate_speculative_lifecycle_trace ::
  "(nat \<Rightarrow> pyfloat) \<Rightarrow> (nat \<Rightarrow> pyfloat) \<Rightarrow> int \<Rightarrow> int \<Rightarrow> (draft_tree \<times> mevent list \<times> spec_policy) outcome" where
  "generate_speculative_lifecycle_trace gauss unit tree_width tree_depth =
     bind_o (generate_speculative_workload gauss tree_width tree_depth) (\<lambda>te.
     let tree = fst te; base = snd te;
         start = \<lparr>life_step = next_step base, life_events = base, life_blocks = latest_intents base,
           life_policy = new_spec_policy, life_draws = 0\<rparr>
     in bind_o (resolve_all unit tree (map fst (with_parent tree None)) start) (\<lambda>s.
        Some (Inr (tree, sort_key ev_step (life_events s), life_policy s))))"

section \<open>The benchmark\<close>

record speculative_result =
  sr_policy_name :: string
  simulation :: simulation_result
  committed_blocks_count :: int
  freed_rejected_blocks :: int
  wasted_mb :: pyfloat

definition count_events :: "event_type \<Rightarrow> mevent list \<Rightarrow> int" where
  "count_events et es = int (length (filter (\<lambda>e. ev_type e = et) es))"

definition speculative_result_of ::
  "set_order \<Rightarrow> int \<Rightarrow> int \<Rightarrow> mevent list \<Rightarrow> spec_policy \<Rightarrow> policy \<Rightarrow> speculative_result outcome" where
  "speculative_result_of ord hbm dram events baseline p =
     bind_o (run ord (default_config p hbm dram) events init_sim) (\<lambda>tr.
     Some (Inr \<lparr>sr_policy_name = policy_name p, simulation = snd tr,
       committed_blocks_count = count_events COMMITTED events, freed_rejected_blocks = count_events FREED events,
       wasted_mb = (if p = IntentFamily SpeculativeIntentPolicy
                    then wasted_hbm_mb_on_rejected_drafts baseline else 0)\<rparr>))"

definition run_speculative_policy_suite ::
  "set_order \<Rightarrow> (nat \<Rightarrow> pyfloat) \<Rightarrow> (nat \<Rightarrow> pyfloat) \<Rightarrow> int \<Rightarrow> int \<Rightarrow> int \<Rightarrow> int \<Rightarrow> speculative_result list outcome" where
  "run_speculative_policy_suite ord gauss unit hbm dram tree_width tree_depth =
     bind_o (generate_speculative_lifecycle_trace gauss unit tree_width tree_depth) (\<lambda>tep.
     bind_o (Some (policy_from_name ''deadline'')) (\<lambda>deadline.
     bind_o (speculative_result_of ord hbm dram (fst (snd tep)) (snd (snd tep)) deadline) (\<lambda>r1.
     bind_o (speculative_result_of ord hbm dram (fst (snd tep)) (snd (snd tep))
        (IntentFamily SpeculativeIntentPolicy)) (\<lambda>r2. Some (Inr [r1, r2])))))"

end
