(* ===== verification/Suite.thy ===== *)
theory Suite
  imports Cli Speculative
begin

text \<open>
  The programs around the library that run it on fixed grids and write reports: \<open>examples/benchmark_sweep.py\<close>,
  \<open>benchmarks/run_reproducible_suite.py\<close>, \<open>examples/speculative_sweep.py\<close>, the demos of \<open>examples\<close>, the telemetry
  parser of \<open>integrations/external_trace/parsers.py\<close>. A configuration is given by its converted
  fields, with profiles among the five of the library; times of day and readings of the clock are arguments.
\<close>

section \<open>The benchmark sweep\<close>

definition sweep_profiles :: "workload_profile list" where
  "sweep_profiles = [balanced, deadline_pressure, rag_mixed_priority, speculative_decode, long_context_extreme]"

record grid_args =
  gr_seed :: int
  gr_requests :: int
  gr_blocks :: int
  gr_block_mb :: int
  gr_decode_steps :: int
  gr_hbm_mb :: int
  gr_dram_mb :: int

definition in_ms :: "pyfloat \<Rightarrow> pyfloat" where "in_ms us = py_round 4 (fdiv us 1000)"

definition benchmark_row :: "workload_profile \<Rightarrow> string \<Rightarrow> simulation_result \<Rightarrow> pyfloat \<Rightarrow> jdict" where
  "benchmark_row prof name r elapsed_sec =
     [(''profile'', JStr (profile_value prof)), (''policy'', JStr name), (''p50_ms'', JFloat (in_ms (p50_latency_us r))),
      (''p95_ms'', JFloat (in_ms (p95_latency_us r))), (''p99_ms'', JFloat (in_ms (p99_latency_us r))),
      (''dc_miss_rate'', JFloat (py_round 5 (decode_critical_miss_rate r))), (''total_blocks'', JInt (total_blocks r)),
      (''evictions'', JInt (res_eviction_count r)), (''sim_sec'', JFloat (py_round 4 elapsed_sec))]"

definition grid_workload :: "grid_args \<Rightarrow> workload_profile \<Rightarrow> workload_options" where
  "grid_workload a prof = \<lparr>num_requests = gr_requests a, blocks_per_request = gr_blocks a,
     wl_block_size = gr_block_mb a * 1024 * 1024, decode_steps = gr_decode_steps a, profile = prof\<rparr>"

text \<open>The clock is read before and after each simulation.\<close>

definition run_sweep :: "environment \<Rightarrow> (nat \<Rightarrow> pyfloat) \<Rightarrow> grid_args \<Rightarrow> jdict list outcome" where
  "run_sweep env clock a =
     fold_o (\<lambda>prof rows. bind_o (Some (generated env (gr_seed a) (grid_workload a prof))) (\<lambda>tr.
         fold_o (\<lambda>name rows. bind_o (simulate env tr name (gr_hbm_mb a) (gr_dram_mb a)) (\<lambda>sr.
             let k = length rows
             in Some (Inr (rows @ [benchmark_row prof name (snd sr) (fsub (clock (2 * k + 1)) (clock (2 * k)))]))))
           policy_order rows))
       sweep_profiles []"

definition benchmark_columns :: "string list" where
  "benchmark_columns = [''profile'', ''policy'', ''p50_ms'', ''p95_ms'', ''p99_ms'', ''dc_miss_rate'', ''total_blocks'', ''evictions'', ''sim_sec'']"

definition write_outputs :: "conversions \<Rightarrow> string \<Rightarrow> jdict \<Rightarrow> jdict list \<Rightarrow> (string \<times> string) command" where
  "write_outputs c here meta rows =
     (let csv_path = here @ ''/results/sweep_summary.csv''; json_path = here @ ''/results/sweep_summary.json''
      in bind_c (compute (Some (csv_text c benchmark_columns rows))) (\<lambda>csv.
         bind_c (write_file csv_path csv) (\<lambda>_.
         bind_c (write_file json_path
           (json_pretty 0 (JDict [(''meta'', JDict meta), (''results'', JList (map JDict rows))]) @ newline)) (\<lambda>_.
         return_c (csv_path, json_path)))))"

definition grouped_row :: "conversions \<Rightarrow> jdict \<Rightarrow> string" where
  "grouped_row c row = table_row (map (\<lambda>k. entry_text c row k)
     [''policy'', ''p50_ms'', ''p95_ms'', ''p99_ms'', ''dc_miss_rate'', ''evictions'', ''sim_sec''])"

definition grouped_table :: "conversions \<Rightarrow> jdict list \<Rightarrow> string list" where
  "grouped_table c rows =
     concat (map (\<lambda>prof. [newline @ ''Profile: '' @ profile_value prof,
         ''| Policy | P50 (ms) | P95 (ms) | P99 (ms) | DC miss rate | Evictions | Sim sec |'', ''|---|---:|---:|---:|---:|---:|---:|'']
         @ map (grouped_row c) (filter (\<lambda>row. dict_get row ''profile'' = Some (JStr (profile_value prof))) rows)) sweep_profiles)"

definition sweep_meta :: "grid_args \<Rightarrow> pyfloat \<Rightarrow> string \<Rightarrow> jdict" where
  "sweep_meta a pressure_ratio now =
     [(''seed'', JInt (gr_seed a)), (''requests'', JInt (gr_requests a)), (''blocks_per_req'', JInt (gr_blocks a)),
      (''block_size_mb'', JInt (gr_block_mb a)), (''decode_steps'', JInt (gr_decode_steps a)), (''hbm_mb'', JInt (gr_hbm_mb a)),
      (''dram_mb'', JInt (gr_dram_mb a)), (''workload_mb'', JInt (gr_requests a * gr_blocks a * gr_block_mb a)),
      (''pressure_ratio'', JFloat (py_round 1 pressure_ratio)), (''generated_at'', JStr now)]"

text \<open>\<open>here\<close> is the directory of the script and \<open>dash\<close> the dash of the warning in the encoding of the output.\<close>

definition benchmark_main ::
  "environment \<Rightarrow> (nat \<Rightarrow> pyfloat) \<Rightarrow> string \<Rightarrow> string \<Rightarrow> string \<Rightarrow> grid_args \<Rightarrow> unit command" where
  "benchmark_main env clock now here dash a =
     (let workload_mb = gr_requests a * gr_blocks a * gr_block_mb a
      in bind_c (compute (Some (if gr_hbm_mb a = 0 then Inl ZeroDivisionError
           else Inr (fl (of_int workload_mb / of_int (gr_hbm_mb a)))))) (\<lambda>ratio.
         bind_c (print_line (''Workload: '' @ int_str workload_mb @ '' MB | HBM: '' @ int_str (gr_hbm_mb a)
           @ '' MB | Pressure: '' @ fixed 1 ratio @ ''x'')) (\<lambda>_.
         bind_c (if workload_mb \<le> gr_hbm_mb a
           then print_lines [''WARNING: workload fits entirely in HBM '' @ dash @ '' no eviction pressure.'',
             ''Increase --requests or --block-size-mb for meaningful results.''] else return_c ()) (\<lambda>_.
         bind_c (compute (run_sweep env clock a)) (\<lambda>rows.
         bind_c (write_outputs (env_conv env) here (sweep_meta a ratio now) rows) (\<lambda>(csv_path, json_path).
         bind_c (print_lines (grouped_table (env_conv env) rows)) (\<lambda>_.
         print_lines [newline @ ''Wrote '' @ csv_path, ''Wrote '' @ json_path])))))))"

section \<open>The reproducible suite\<close>

record suite_workload =
  su_name :: string
  su_options :: workload_options
  su_hbm_bytes :: int
  su_dram_bytes :: int

definition suite_row :: "string \<Rightarrow> string \<Rightarrow> simulation_result \<Rightarrow> jdict" where
  "suite_row workload policy r =
     [(''workload'', JStr workload), (''policy'', JStr policy), (''total_blocks'', JInt (total_blocks r)),
      (''p50_latency_us'', JFloat (p50_latency_us r)), (''p95_latency_us'', JFloat (p95_latency_us r)),
      (''p99_latency_us'', JFloat (p99_latency_us r)), (''decode_critical_misses'', JInt (res_decode_critical_misses r)),
      (''decode_critical_miss_rate'', JFloat (decode_critical_miss_rate r)), (''eviction_count'', JInt (res_eviction_count r)),
      (''spill_count'', JInt (res_spill_count r)), (''prefetch_count'', JInt (res_prefetch_count r)),
      (''capacity_exhaustion_events'', JInt (res_capacity_exhaustion_events r)),
      (''pinned_capacity_exhaustion_events'', JInt (res_pinned_capacity_exhaustion_events r))]"

record dist =
  dist_count :: int
  dist_min :: int
  dist_max :: int
  dist_mean :: pyfloat

definition distribution :: "int list \<Rightarrow> dist" where
  "distribution ls =
     (if ls = [] then \<lparr>dist_count = 0, dist_min = 0, dist_max = 0, dist_mean = 0\<rparr>
      else \<lparr>dist_count = int (length ls), dist_min = Min (set ls), dist_max = Max (set ls),
        dist_mean = py_round 6 (fl (of_int (sum_list ls) / of_int (int (length ls))))\<rparr>)"

definition dist_json :: "dist \<Rightarrow> json" where
  "dist_json d = JDict [(''count'', JInt (dist_count d)), (''min_us'', JInt (dist_min d)), (''max_us'', JInt (dist_max d)),
     (''mean_us'', JFloat (dist_mean d))]"

type_synonym suite_state = "jdict list \<times> (string, dist) dict"

definition run_workload_suite ::
  "environment \<Rightarrow> int \<Rightarrow> suite_workload list \<Rightarrow> string list \<Rightarrow> suite_state outcome" where
  "run_workload_suite env seed workloads names =
     fold_o (\<lambda>w st. bind_o (Some (generated env seed (su_options w))) (\<lambda>tr.
         fold_o (\<lambda>name st. bind_o (simulate_bytes env tr name (su_hbm_bytes w) (su_dram_bytes w)) (\<lambda>sr.
             Some (Inr (fst st @ [suite_row (su_name w) name (snd sr)],
               AList.update (su_name w @ ''::'' @ name) (distribution (latencies (fst sr))) (snd st)))))
           names st))
       workloads ([], [])"

record mock_config =
  mc_enabled :: bool
  mc_requests :: int
  mc_decode_steps :: int
  mc_hbm_bytes :: int
  mc_dram_bytes :: int

definition mock_row :: "string \<Rightarrow> simulation_result \<Rightarrow> jdict" where
  "mock_row name r = [(''policy'', JStr name), (''total_blocks'', JInt (total_blocks r)),
     (''p99_latency_us'', JFloat (p99_latency_us r)), (''decode_critical_miss_rate'', JFloat (decode_critical_miss_rate r))]"

text \<open>The generator's default seed is 42.\<close>

definition run_mock_vllm_suite :: "environment \<Rightarrow> mock_config \<Rightarrow> jdict list outcome" where
  "run_mock_vllm_suite env m =
     (if \<not> mc_enabled m then Some (Inr [])
      else bind_o (Some (generate_mock_vllm_trace (mock_draws_of env 42) (mc_requests m) (mc_decode_steps m) None)) (\<lambda>tr.
           fold_o (\<lambda>name rows. bind_o (simulate_bytes env tr name (mc_hbm_bytes m) (mc_dram_bytes m)) (\<lambda>sr.
               Some (Inr (rows @ [mock_row name (snd sr)])))) [''lru'', ''deadline''] []))"

definition speculative_to_dict :: "speculative_result \<Rightarrow> jdict" where
  "speculative_to_dict r =
     [(''policy_name'', JStr (sr_policy_name r)), (''committed_blocks'', JInt (committed_blocks_count r)),
      (''freed_rejected_blocks'', JInt (freed_rejected_blocks r)),
      (''wasted_hbm_mb_on_rejected_drafts'', JFloat (py_round 6 (wasted_mb r))),
      (''p50_latency_us'', JFloat (p50_latency_us (simulation r))), (''p95_latency_us'', JFloat (p95_latency_us (simulation r))),
      (''p99_latency_us'', JFloat (p99_latency_us (simulation r))),
      (''decode_critical_misses'', JInt (res_decode_critical_misses (simulation r))),
      (''decode_critical_miss_rate'', JFloat (decode_critical_miss_rate (simulation r)))]"

definition suite_columns :: "string list" where
  "suite_columns = [''workload'', ''policy'', ''total_blocks'', ''p50_latency_us'', ''p95_latency_us'', ''p99_latency_us'',
     ''decode_critical_misses'', ''decode_critical_miss_rate'', ''eviction_count'', ''spill_count'', ''prefetch_count'',
     ''capacity_exhaustion_events'', ''pinned_capacity_exhaustion_events'']"

definition suite_summary :: "string \<Rightarrow> int \<Rightarrow> json \<Rightarrow> jdict list \<Rightarrow> jdict list \<Rightarrow> json" where
  "suite_summary now seed configuration rows mock =
     JDict [(''generated_at'', JStr now), (''seed'', JInt seed), (''config'', configuration),
       (''rows'', JList (map JDict rows)), (''mock_vllm'', JList (map JDict mock))]"

record speculative_config =
  sp_acceptance_rate :: pyfloat
  sp_tree_width :: int
  sp_tree_depth :: int
  sp_hbm_bytes :: int
  sp_dram_bytes :: int

text \<open>The draws of the two generators of a seed (the Gaussian one around the acceptance rate) are given by \<open>drafts\<close>.\<close>

type_synonym draft_draws = "pyfloat \<Rightarrow> int \<Rightarrow> (nat \<Rightarrow> pyfloat) \<times> (nat \<Rightarrow> pyfloat)"

definition run_speculative_suite ::
  "environment \<Rightarrow> draft_draws \<Rightarrow> int \<Rightarrow> speculative_config option \<Rightarrow> jdict list outcome" where
  "run_speculative_suite env drafts seed sp =
     (case sp of None \<Rightarrow> Some (Inr [])
      | Some s \<Rightarrow> bind_o (run_speculative_policy_suite (env_order env) (fst (drafts (sp_acceptance_rate s) seed))
            (snd (drafts (sp_acceptance_rate s) seed)) (sp_hbm_bytes s) (sp_dram_bytes s) (sp_tree_width s) (sp_tree_depth s))
          (\<lambda>results. Some (Inr (map speculative_to_dict results))))"

text \<open>The converted fields of the configuration; \<open>sc_speculative\<close> is \<open>None\<close> when it is not enabled.\<close>

record suite_config =
  sc_out_dir :: string
  sc_seed :: int
  sc_workloads :: "suite_workload list"
  sc_policies :: "string list"
  sc_speculative :: "speculative_config option"
  sc_mock :: mock_config

definition distributions_json :: "(string, dist) dict \<Rightarrow> json" where
  "distributions_json ds = json_sorted (JDict (map (\<lambda>kd. (fst kd, dist_json (snd kd))) ds))"

definition suite_main :: "environment \<Rightarrow> draft_draws \<Rightarrow> string \<Rightarrow> json \<Rightarrow> suite_config \<Rightarrow> unit command" where
  "suite_main env drafts now configuration sc =
     bind_c (compute (run_workload_suite env (sc_seed sc) (sc_workloads sc) (sc_policies sc))) (\<lambda>st.
     bind_c (compute (run_speculative_suite env drafts (sc_seed sc) (sc_speculative sc))) (\<lambda>speculative.
     bind_c (compute (run_mock_vllm_suite env (sc_mock sc))) (\<lambda>mock.
     bind_c (compute (Some (csv_text (env_conv env) suite_columns (fst st)))) (\<lambda>csv.
     bind_c (write_file (sc_out_dir sc @ ''/policy_metrics.csv'') csv) (\<lambda>_.
     bind_c (write_file (sc_out_dir sc @ ''/latency_distributions.json'') (json_pretty 0 (distributions_json (snd st)) @ newline)) (\<lambda>_.
     bind_c (write_file (sc_out_dir sc @ ''/speculative_metrics.json'') (json_pretty 0 (JList (map JDict speculative)) @ newline)) (\<lambda>_.
     write_file (sc_out_dir sc @ ''/summary.json'')
       (json_pretty 0 (suite_summary now (sc_seed sc) configuration (fst st) mock) @ newline))))))))"

section \<open>The speculative sweep\<close>

definition speculative_row :: "conversions \<Rightarrow> jdict \<Rightarrow> string" where
  "speculative_row c row = table_row (map (\<lambda>k. entry_text c row k)
     [''policy_name'', ''p50_latency_us'', ''p95_latency_us'', ''p99_latency_us'', ''decode_critical_miss_rate'',
      ''freed_rejected_blocks'', ''wasted_hbm_mb_on_rejected_drafts''])"

record draft_args =
  da_seed :: int
  da_acceptance_rate :: pyfloat
  da_tree_width :: int
  da_tree_depth :: int
  da_hbm_mb :: int
  da_dram_mb :: int

definition draft_meta :: "draft_args \<Rightarrow> string \<Rightarrow> jdict" where
  "draft_meta a now =
     [(''seed'', JInt (da_seed a)), (''acceptance_rate'', JFloat (da_acceptance_rate a)), (''tree_width'', JInt (da_tree_width a)),
      (''tree_depth'', JInt (da_tree_depth a)), (''hbm_mb'', JInt (da_hbm_mb a)), (''dram_mb'', JInt (da_dram_mb a)),
      (''generated_at'', JStr now)]"

definition speculative_sweep :: "environment \<Rightarrow> draft_draws \<Rightarrow> string \<Rightarrow> string \<Rightarrow> draft_args \<Rightarrow> unit command" where
  "speculative_sweep env drafts now here a =
     bind_c (compute (run_speculative_suite env drafts (da_seed a)
         (Some \<lparr>sp_acceptance_rate = da_acceptance_rate a, sp_tree_width = da_tree_width a, sp_tree_depth = da_tree_depth a,
           sp_hbm_bytes = mb_to_bytes (da_hbm_mb a), sp_dram_bytes = mb_to_bytes (da_dram_mb a)\<rparr>))) (\<lambda>rows.
     bind_c (write_file (here @ ''/results/speculative_sweep.json'')
       (json_pretty 0 (JDict [(''meta'', JDict (draft_meta a now)), (''results'', JList (map JDict rows))]) @ newline)) (\<lambda>_.
     print_lines ([''| Policy | P50 (us) | P95 (us) | P99 (us) | DC miss rate | Freed rejected | Wasted HBM MB |'',
         ''|---|---:|---:|---:|---:|---:|---:|''] @ map (speculative_row (env_conv env)) rows
       @ [newline @ ''Wrote '' @ here @ ''/results/speculative_sweep.json''])))"

section \<open>The demos\<close>

definition policy_comparison_demo :: "environment \<Rightarrow> unit command" where
  "policy_comparison_demo env =
     bind_c (compute (Some (generated env 11 \<lparr>num_requests = 16, blocks_per_request = 12, wl_block_size = 16 * 1024,
         decode_steps = 120, profile = deadline_pressure\<rparr>))) (\<lambda>tr.
     bind_c (compare_policies env tr (3 * 1024 * 1024) (32 * 1024 * 1024) None) (\<lambda>rs.
     print_lines [compare_results rs, newline @ ''Deadline-aware policies reduce decode-critical misses by protecting pinned ''
       @ ''decode blocks and evicting cold low-priority blocks first.'']))"

definition synthetic_trace_demo :: "environment \<Rightarrow> int \<Rightarrow> string \<Rightarrow> unit command" where
  "synthetic_trace_demo env seed path =
     bind_c (compute (Some (generated env seed \<lparr>num_requests = 8, blocks_per_request = 8, wl_block_size = 16 * 1024,
         decode_steps = 64, profile = rag_mixed_priority\<rparr>))) (\<lambda>tr.
     bind_c (print_line (print_summary tr)) (\<lambda>_. bind_c (save_trace tr path) (\<lambda>_.
     print_line (newline @ ''Saved trace to '' @ path))))"

definition mock_trace_demo :: "environment \<Rightarrow> int \<Rightarrow> string \<Rightarrow> unit command" where
  "mock_trace_demo env seed path =
     mock_vllm_cmd env \<lparr>ma_out = path, ma_requests = 8, ma_decode_steps = 128, ma_compare = True, ma_hbm_mb = 48, ma_dram_mb = 2048,
       ma_seed = seed\<rparr>"

section \<open>Telemetry records\<close>

definition required_fields :: "string list" where
  "required_fields = [''gpu_id'', ''hbm_total_bytes'', ''hbm_used_bytes'', ''timestamp_ms'']"

definition telemetry_record :: "json \<Rightarrow> jdict result" where
  "telemetry_record j =
     (case j of
        JDict d \<Rightarrow> (let missing = filter (\<lambda>k. k \<notin> dict_keys d) required_fields in
          if missing \<noteq> [] then Inl (ValueError (''telemetry record missing required fields: '' @ py_join '', '' missing)) else Inr d)
      | _ \<Rightarrow> Inl (AttributeError ''keys''))"

definition parse_telemetry_jsonl :: "string \<Rightarrow> jdict list result" where
  "parse_telemetry_jsonl text =
     fold_r (\<lambda>line records. if py_strip line = [] then Inr records
         else bind_r (bind_r (json_loads line) telemetry_record) (\<lambda>d. Inr (records @ [d])))
       (py_splitlines text) []"

definition parse_request_trace_jsonl :: "conversions \<Rightarrow> string \<Rightarrow> request_record list result" where
  "parse_request_trace_jsonl c text = load_request_trace c text"

definition write_prometheus_samples :: "json list \<Rightarrow> string" where
  "write_prometheus_samples samples = json_pretty 0 (JList samples)"

end
