(* ===== verification/TraceShape.thy ===== *)
theory TraceShape
  imports TraceImporter Workload
begin

text \<open>
  The shape of the traces the importer and the workload generator build, beyond what makes them sound: their
  recency scores are floats, so that their text reads back, and how many events they can have, so that the
  percentiles of a run are defined.
\<close>

section \<open>Recency scores of generated traces\<close>

text \<open>A trace can be written and read back when its events are valid and their recency scores are floats.\<close>

definition float_events :: "mevent list \<Rightarrow> bool" where
  "float_events es \<longleftrightarrow> (\<forall>e \<in> set es. is_float (recency_score (ev_intent e)))"

lemma emit_floats: "emit et i m st = Inr st' \<Longrightarrow> float_events (snd st) \<Longrightarrow> is_float (recency_score i) \<Longrightarrow> float_events (snd st')"
  by (auto simp: emit_def bind_r_Inr_iff mk_event_def event_post_init_def float_events_def split: if_splits)

lemma emit_length: "emit et i m st = Inr st' \<Longrightarrow> length (snd st') = Suc (length (snd st))"
  by (auto simp: emit_def bind_r_Inr_iff)

lemma post_init_recency: "post_init i = Inr j \<Longrightarrow> recency_score j = recency_score i"
  by (auto simp: post_init_def Let_def split: if_splits option.splits)

lemma copy_recency: "copy_with f i = Inr j \<Longrightarrow> recency_score j = recency_score (f i)"
  by (auto simp: copy_with_def dest: post_init_recency)

lemma import_recency [simp]:
  "is_float (recency_score (alloc_intent r lay b step))" "is_float (recency_score (hot_intent r lay b step))"
  "is_float (recency_score (cold_intent r lay b step))" "is_float (recency_score (freed_intent r lay b step))"
  by (simp_all add: alloc_intent_def hot_intent_def cold_intent_def freed_intent_def import_base_def new_intent_def Let_def)

lemma import_steps_float:
  "alloc_step r lay b st = Inr st' \<Longrightarrow> float_events (snd st) \<Longrightarrow> float_events (snd st')"
  "hot_step r lay b st = Inr st' \<Longrightarrow> float_events (snd st) \<Longrightarrow> float_events (snd st')"
  "cold_step r lay b st = Inr st' \<Longrightarrow> float_events (snd st) \<Longrightarrow> float_events (snd st')"
  "free_step r lay b st = Inr st' \<Longrightarrow> float_events (snd st) \<Longrightarrow> float_events (snd st')"
  by (auto simp: alloc_step_def hot_step_def cold_step_def free_step_def bind_r_Inr_iff
      dest!: post_init_recency copy_recency emit_floats)

lemma import_record_float:
  "import_record opts m r st = Inr st' \<Longrightarrow> float_events (snd st) \<Longrightarrow> float_events (snd st')"
  by (auto simp: import_record_def bind_r_Inr_iff Let_def split: if_splits
      elim!: fold_r_invariant [where P = "\<lambda>st. float_events (snd st)"] intro: import_steps_float)

lemma import_floats:
  assumes "request_trace_to_intent_events opts m rs = Inr es"
  shows "float_events es"
proof -
  obtain st where st: "fold_r (import_record opts m) (sort_key (\<lambda>r. (arrival_ms r, rr_request_id r)) rs) (0, []) = Inr st" "es = snd st"
    using assms by (auto simp: request_trace_to_intent_events_def bind_r_Inr_iff split: if_splits)
  show ?thesis unfolding st(2)
    by (rule fold_r_invariant [OF st(1), where P = "\<lambda>st. float_events (snd st)"])
      (auto simp: float_events_def [of "[]"] intro: import_record_float)
qed

section \<open>How many events\<close>

lemma fold_r_growth:
  fixes g :: "'s \<Rightarrow> nat"
  assumes "fold_r f xs s = Inr t" "\<And>x u v. x \<in> set xs \<Longrightarrow> f x u = Inr v \<Longrightarrow> g v \<le> g u + c"
  shows "g t \<le> g s + length xs * c"
  using assms
proof (induction xs arbitrary: s)
  case (Cons x xs)
  then obtain u where u: "f x s = Inr u" "fold_r f xs u = Inr t" by (auto simp: bind_r_Inr_iff)
  have "g u \<le> g s + c" using Cons.prems(2) u(1) by auto
  moreover have "g t \<le> g u + length xs * c" using Cons.IH [OF u(2)] Cons.prems(2) by auto
  ultimately show ?case by simp
qed simp

lemma import_steps_length:
  "alloc_step r lay b st = Inr st' \<Longrightarrow> length (snd st') \<le> length (snd st) + 1"
  "hot_step r lay b st = Inr st' \<Longrightarrow> length (snd st') \<le> length (snd st) + 2"
  "cold_step r lay b st = Inr st' \<Longrightarrow> length (snd st') \<le> length (snd st) + 1"
  "free_step r lay b st = Inr st' \<Longrightarrow> length (snd st') \<le> length (snd st) + 1"
  by (auto simp: alloc_step_def hot_step_def cold_step_def free_step_def bind_r_Inr_iff dest!: emit_length)

lemma layout_limited:
  assumes "options_ok opts" "max_blocks_per_request opts = Some n"
  shows "num_blocks (layout_of opts kv r) \<le> n" "decode_hot_blocks (layout_of opts kv r) \<le> num_blocks (layout_of opts kv r)"
    "0 \<le> decode_hot_blocks (layout_of opts kv r)"
  using assms by (auto simp: layout_of_def Let_def options_ok_def)

lemma import_record_length:
  assumes "options_ok opts" "max_blocks_per_request opts = Some n" "import_record opts m r st = Inr st'"
  shows "length (snd st') \<le> length (snd st) + 5 * nat n"
proof -
  obtain kv s1 s2 s3 where kv: "estimate_request_kv_bytes m (prompt_tokens r) (generated_tokens r) = Inr kv"
    and s1: "fold_r (alloc_step r (layout_of opts kv r)) [0..num_blocks (layout_of opts kv r) - 1] st = Inr s1"
    and s2: "fold_r (hot_step r (layout_of opts kv r)) [0..decode_hot_blocks (layout_of opts kv r) - 1] s1 = Inr s2"
    and s3: "fold_r (cold_step r (layout_of opts kv r))
        [0..max 0 (num_blocks (layout_of opts kv r) - decode_hot_blocks (layout_of opts kv r)) - 1] s2 = Inr s3"
    and s4: "(if status r = ''completed'' then fold_r (free_step r (layout_of opts kv r)) [0..num_blocks (layout_of opts kv r) - 1] s3
        else Inr s3) = Inr st'"
    using assms(3) by (auto simp: import_record_def bind_r_Inr_iff Let_def)
  define b h where "b = num_blocks (layout_of opts kv r)" and "h = decode_hot_blocks (layout_of opts kv r)"
  have "b \<le> n" "h \<le> b" "0 \<le> h" using layout_limited [OF assms(1,2)] by (simp_all add: b_def h_def)
  then have bh: "nat b \<le> nat n" "nat h \<le> nat n" "nat (max 0 (b - h)) \<le> nat n" by simp_all
  have "length (snd s1) \<le> length (snd st) + nat b * 1"
    using fold_r_growth [OF s1, of "\<lambda>st. length (snd st)" 1] import_steps_length(1) by (auto simp: b_def)
  moreover have "length (snd s2) \<le> length (snd s1) + nat h * 2"
    using fold_r_growth [OF s2, of "\<lambda>st. length (snd st)" 2] import_steps_length(2) by (auto simp: h_def)
  moreover have "length (snd s3) \<le> length (snd s2) + nat (max 0 (b - h)) * 1"
    using fold_r_growth [OF s3, of "\<lambda>st. length (snd st)" 1] import_steps_length(3) by (auto simp: b_def h_def)
  moreover have "length (snd st') \<le> length (snd s3) + nat b * 1"
  proof (cases "status r = ''completed''")
    case True
    with s4 have "fold_r (free_step r (layout_of opts kv r)) [0..b - 1] s3 = Inr st'" by (simp add: b_def)
    from fold_r_growth [OF this, of "\<lambda>st. length (snd st)" 1] import_steps_length(4) show ?thesis by auto
  qed (use s4 in simp)
  ultimately show ?thesis using bh by linarith
qed

lemma import_length:
  assumes "options_ok opts" "max_blocks_per_request opts = Some n" "request_trace_to_intent_events opts m rs = Inr es"
  shows "length es \<le> length rs * (5 * nat n)"
proof -
  obtain st where st: "fold_r (import_record opts m) (sort_key (\<lambda>r. (arrival_ms r, rr_request_id r)) rs) (0, []) = Inr st" "es = snd st"
    using assms(3) by (auto simp: request_trace_to_intent_events_def bind_r_Inr_iff split: if_splits)
  from fold_r_growth [OF st(1), of "\<lambda>st. length (snd st)"] import_record_length [OF assms(1,2)]
  show ?thesis by (simp add: st(2))
qed

section \<open>Generated workloads\<close>

lemma workload_recency [simp]:
  "is_float (recency_score (prefill_intent w rq n b step))" "is_float (recency_score (decode_intent w rq k oid b step))"
  "is_float (recency_score (stale_intent w rq d oid b step))" "recency_score (prefetch_target w rq i) = recency_score i"
  by (simp_all add: prefill_intent_def decode_intent_def stale_intent_def prefetch_target_def new_intent_def Let_def)

lemma workload_steps_float:
  "prefill_step w rq n b st = Inr st' \<Longrightarrow> float_events (snd st) \<Longrightarrow> float_events (snd st')"
  "decode_hot_step w rq ob st = Inr st' \<Longrightarrow> float_events (snd st) \<Longrightarrow> float_events (snd st')"
  "decode_cold_step w rq cold d st = Inr st' \<Longrightarrow> float_events (snd st) \<Longrightarrow> float_events (snd st')"
  by (auto simp: prefill_step_def decode_hot_step_def decode_cold_step_def bind_r_Inr_iff Let_def split: if_splits
      dest!: post_init_recency copy_recency emit_floats)

lemma float_loop:
  assumes "fold_r f xs st = Inr st'" "float_events (snd st)"
    "\<And>x u v. f x u = Inr v \<Longrightarrow> float_events (snd u) \<Longrightarrow> float_events (snd v)"
  shows "float_events (snd st')"
  by (rule fold_r_invariant [OF assms(1), where P = "\<lambda>st. float_events (snd st)"]) (auto simp: assms(2) intro: assms(3))

lemma prefill_request_float:
  assumes "prefill_request draw w index s = Inr t" "float_events (snd (out s))"
  shows "float_events (snd (out t))"
proof -
  obtain st where st: "fold_r (prefill_step w (request_of draw w index (draws s)) (block_count_of w index))
      [0..block_count_of w index - 1] (out s) = Inr st" "out t = st"
    using assms(1) by (auto simp: prefill_request_def bind_r_Inr_iff Let_def)
  show ?thesis unfolding st(2) by (rule float_loop [OF st(1) assms(2)]) (rule workload_steps_float(1))
qed

lemma decode_step_float:
  assumes "decode_one_step w reqs d st = Inr st'" "float_events (snd st)"
  shows "float_events (snd st')"
proof -
  let ?rq = "reqs ! nat (d mod int (length reqs))"
  obtain st1 where 1: "fold_r (decode_hot_step w ?rq) (enumerate 0 (last_items (hot_span ?rq) (block_ids ?rq))) st = Inr st1"
    and 2: "(if but_last_items (hot_span ?rq) (block_ids ?rq) \<noteq> []
      then decode_cold_step w ?rq (but_last_items (hot_span ?rq) (block_ids ?rq)) d st1 else Inr st1) = Inr st'"
    using assms(1) by (auto simp: decode_one_step_def bind_r_Inr_iff Let_def split: if_splits)
  have "float_events (snd st1)"
    by (rule float_loop [OF 1 assms(2)]) (rule workload_steps_float(2))
  then show ?thesis using 2 by (auto split: if_splits intro: workload_steps_float)
qed

lemma workload_steps_length:
  "prefill_step w rq n b st = Inr st' \<Longrightarrow> length (snd st') \<le> length (snd st) + 1"
  "decode_hot_step w rq ob st = Inr st' \<Longrightarrow> length (snd st') \<le> length (snd st) + 2"
  "decode_cold_step w rq cold d st = Inr st' \<Longrightarrow> length (snd st') \<le> length (snd st) + 3"
  by (auto simp: prefill_step_def decode_hot_step_def decode_cold_step_def bind_r_Inr_iff Let_def split: if_splits
      dest!: emit_length)

lemma prefill_request_length:
  assumes "prefill_request draw w index s = Inr t"
  shows "length (snd (out t)) \<le> length (snd (out s)) + nat (3 * blocks_per_request w)"
proof -
  define n where "n = block_count_of w index"
  obtain st where st: "fold_r (prefill_step w (request_of draw w index (draws s)) n) [0..n - 1] (out s) = Inr st" "out t = st"
    using assms by (auto simp: prefill_request_def bind_r_Inr_iff Let_def n_def)
  have "nat n \<le> nat (3 * blocks_per_request w)" by (auto simp: n_def block_count_of_def Let_def nat_le_eq_zle)
  moreover have "length (snd st) \<le> length (snd (out s)) + length [0..n - 1] * 1"
    by (rule fold_r_growth [OF st(1)]) (rule workload_steps_length(1))
  ultimately show ?thesis by (simp add: st(2))
qed

lemma decode_step_length:
  assumes "decode_one_step w reqs d st = Inr st'" "\<forall>rq \<in> set reqs. hot_span rq \<le> 3"
  shows "length (snd st') \<le> length (snd st) + 9"
proof -
  let ?rq = "reqs ! nat (d mod int (length reqs))"
  let ?hot = "last_items (hot_span ?rq) (block_ids ?rq)"
  have ne: "reqs \<noteq> []" using assms(1) by (auto simp: decode_one_step_def)
  then have "hot_span ?rq \<le> 3" using assms(2) by (simp add: nat_less_iff)
  then have hot: "length ?hot \<le> 3" by (simp add: last_items_def)
  obtain st1 where 1: "fold_r (decode_hot_step w ?rq) (enumerate 0 ?hot) st = Inr st1"
    and 2: "(if but_last_items (hot_span ?rq) (block_ids ?rq) \<noteq> []
      then decode_cold_step w ?rq (but_last_items (hot_span ?rq) (block_ids ?rq)) d st1 else Inr st1) = Inr st'"
    using assms(1) ne by (auto simp: decode_one_step_def bind_r_Inr_iff Let_def)
  have "length (snd st1) \<le> length (snd st) + length (enumerate 0 ?hot) * 2"
    by (rule fold_r_growth [OF 1]) (rule workload_steps_length(2))
  moreover have "length (snd st') \<le> length (snd st1) + 3" using 2 by (auto split: if_splits dest: workload_steps_length(3))
  ultimately show ?thesis using hot by simp
qed

lemma prefill_spans:
  "prefill_request draw w index s = Inr t \<Longrightarrow> \<forall>rq \<in> set (requests s). hot_span rq \<le> 3 \<Longrightarrow> \<forall>rq \<in> set (requests t). hot_span rq \<le> 3"
  by (auto simp: prefill_request_def bind_r_Inr_iff Let_def request_of_def)

lemma workload_shape:
  assumes "generate_synthetic_kv_workload draw w = Inr es"
  shows "float_events es" "length es \<le> nat (num_requests w) * nat (3 * blocks_per_request w) + nat (decode_steps w) * 9"
proof -
  let ?s0 = "\<lparr>out = (0, []), requests = [], draws = 0\<rparr>"
  obtain s st where s: "fold_r (prefill_request draw w) [0..num_requests w - 1] ?s0 = Inr s"
    and st: "fold_r (decode_one_step w (requests s)) [0..decode_steps w - 1] (out s) = Inr st" "es = snd st"
    using assms by (auto simp: generate_synthetic_kv_workload_def bind_r_Inr_iff)
  have "float_events (snd (out s))"
    by (rule fold_r_invariant [OF s, where P = "\<lambda>s. float_events (snd (out s))"])
      (auto simp: float_events_def [of "[]"] intro: prefill_request_float)
  then show "float_events es" unfolding st(2)
    by (rule float_loop [OF st(1)]) (rule decode_step_float)
  have "\<forall>rq \<in> set (requests s). hot_span rq \<le> 3"
    by (rule fold_r_invariant [OF s, where P = "\<lambda>s. \<forall>rq \<in> set (requests s). hot_span rq \<le> 3"]) (auto dest: prefill_spans)
  then have "length (snd st) \<le> length (snd (out s)) + length [0..decode_steps w - 1] * 9"
    by (intro fold_r_growth [OF st(1)]) (rule decode_step_length)
  moreover have "length (snd (out s)) \<le> length (snd (out ?s0)) + length [0..num_requests w - 1] * nat (3 * blocks_per_request w)"
    by (rule fold_r_growth [OF s]) (rule prefill_request_length)
  ultimately show "length es \<le> nat (num_requests w) * nat (3 * blocks_per_request w) + nat (decode_steps w) * 9"
    by (simp add: st(2))
qed

end
