(* ===== verification/SimulatorLaws.thy ===== *)
theory SimulatorLaws
  imports Simulator
begin

text \<open>
  The structural invariant of the simulator, the termination of the eviction loop, and the rule
  from which every property of the loop follows: an assertion kept by each eviction holds when the
  loop returns, and the loop does return.
\<close>

section \<open>The structural invariant\<close>

definition keyed :: "(string, mintent) dict \<Rightarrow> bool" where
  "keyed live \<longleftrightarrow> (\<forall>k b. dict_get live k = Some b \<longrightarrow> object_id b = k)"

definition sim_wf :: "sim \<Rightarrow> bool" where
  "sim_wf s \<longleftrightarrow> dict_wf (live_blocks s) \<and> keyed (live_blocks s)
     \<and> finite (hbm_blocks s) \<and> finite (dram_blocks s)
     \<and> hbm_blocks s \<subseteq> dict_keys (live_blocks s) \<and> dram_blocks s \<subseteq> dict_keys (live_blocks s)"

interpretation live: keyed_store dict_get AList.update AList.delete object_id
  by unfold_locales (simp_all add: dict_simps)

lemma keyed_update: "keyed live \<Longrightarrow> object_id b = k \<Longrightarrow> keyed (AList.update k b live)"
  unfolding keyed_def by (intro allI impI) (rule live.put_keyed [of live b k], auto)

lemma keyed_delete: "keyed live \<Longrightarrow> keyed (AList.delete k live)"
  unfolding keyed_def by (intro allI impI) (rule live.del_keyed [of live k], auto)

lemma sim_wf_init [simp]: "sim_wf init_sim"
  by (simp add: sim_wf_def keyed_def init_sim_def)

lemma sim_wfD:
  assumes "sim_wf s"
  shows "dict_wf (live_blocks s)" "keyed (live_blocks s)" "finite (hbm_blocks s)" "finite (dram_blocks s)"
    "hbm_blocks s \<subseteq> dict_keys (live_blocks s)" "dram_blocks s \<subseteq> dict_keys (live_blocks s)"
  using assms by (simp_all add: sim_wf_def)

lemma keyedD: "keyed live \<Longrightarrow> dict_get live k = Some b \<Longrightarrow> object_id b = k"
  by (simp add: keyed_def)

text \<open>How the state changes of the handlers preserve it.\<close>

lemma sim_wf_cong:
  "sim_wf s \<Longrightarrow> live_blocks t = live_blocks s \<Longrightarrow> hbm_blocks t = hbm_blocks s
   \<Longrightarrow> dram_blocks t = dram_blocks s \<Longrightarrow> sim_wf t"
  by (simp add: sim_wf_def)

lemma sim_wf_put:
  assumes "sim_wf s" "object_id b = k" "live_blocks t = AList.update k b (live_blocks s)"
    and "hbm_blocks t \<subseteq> insert k (hbm_blocks s)" "dram_blocks t \<subseteq> insert k (dram_blocks s)"
  shows "sim_wf t"
proof -
  have "finite (hbm_blocks t)" "finite (dram_blocks t)"
    using assms sim_wfD [OF assms(1)] by (auto intro: finite_subset)
  then show ?thesis
    using assms sim_wfD [OF assms(1)]
    by (auto simp: sim_wf_def keyed_update dict_keys_update simp del: fst_conv)
qed

lemma sim_wf_shrink:
  assumes "sim_wf s" "live_blocks t = live_blocks s" "hbm_blocks t \<subseteq> hbm_blocks s"
    and "dram_blocks t \<subseteq> dram_blocks s"
  shows "sim_wf t"
  using assms by (auto simp: sim_wf_def intro: finite_subset)

lemma sim_wf_record_usage [simp]: "sim_wf (record_usage s) = sim_wf s"
  by (simp add: record_usage_def sim_wf_def)

lemma sim_wf_log [simp]: "sim_wf (log_decision cfg t a v r d s) = sim_wf s"
  by (simp add: log_decision_def sim_wf_def)

section \<open>Candidates\<close>

lemma set_candidates:
  assumes "valid_order ord" "sim_wf s"
  shows "set (candidates ord s) = {b. \<exists>k \<in> hbm_blocks s. dict_get (live_blocks s) k = Some b}"
  using assms by (auto simp: candidates_def valid_order_def sim_wf_def map_filter_def image_iff
      split: option.splits) force

lemma candidate_resident:
  assumes "valid_order ord" "sim_wf s" "v \<in> set (candidates ord s)"
  shows "object_id v \<in> hbm_blocks s" "dict_get (live_blocks s) (object_id v) = Some v"
  using assms keyedD [OF sim_wfD(2)] by (auto simp: set_candidates)

lemma candidates_inj:
  assumes "valid_order ord" "sim_wf s"
  shows "inj_on object_id (set (candidates ord s))"
  using candidate_resident [OF assms] by (metis inj_onI option.inject)

lemma candidates_Nil_iff:
  assumes "valid_order ord" "sim_wf s"
  shows "candidates ord s = [] \<longleftrightarrow> hbm_blocks s = {}"
proof
  assume "candidates ord s = []"
  then have "\<not> (\<exists>k \<in> hbm_blocks s. \<exists>b. dict_get (live_blocks s) k = Some b)"
    using set_candidates [OF assms] by auto
  moreover have "\<exists>b. dict_get (live_blocks s) k = Some b" if "k \<in> hbm_blocks s" for k
    using that sim_wfD(5) [OF assms(2)] dict_key_Some [of k "live_blocks s"] by blast
  ultimately show "hbm_blocks s = {}" by blast
next
  assume "hbm_blocks s = {}"
  then have "set (candidates ord s) = {}" using set_candidates [OF assms] by simp
  then show "candidates ord s = []" by simp
qed

section \<open>One eviction\<close>

text \<open>Where the victim goes: its first non-HBM tier, or NVMe when it has none.\<close>

definition evicted_tier :: "set_order \<Rightarrow> sim \<Rightarrow> mintent \<Rightarrow> tier" where
  "evicted_tier ord s v = (case target_tier ord s v of None \<Rightarrow> NVME | Some t \<Rightarrow> t)"

lemma evict_victim_sets [simp]:
  "hbm_blocks (fst (evict_victim ord cfg step cands v s)) = hbm_blocks s - {object_id v}"
  "live_blocks (fst (evict_victim ord cfg step cands v s))
     = AList.update (object_id v) (v\<lparr>current_tier := evicted_tier ord s v\<rparr>) (live_blocks s)"
  "latencies (fst (evict_victim ord cfg step cands v s)) = latencies s"
  "miss_count (fst (evict_victim ord cfg step cands v s)) = miss_count s"
  "prefetch_count (fst (evict_victim ord cfg step cands v s)) = prefetch_count s"
  "eviction_count (fst (evict_victim ord cfg step cands v s)) = eviction_count s + 1"
  "last_decay_step (fst (evict_victim ord cfg step cands v s)) = last_decay_step s"
  "decode_critical_evictions (fst (evict_victim ord cfg step cands v s))
     = decode_critical_evictions s + (if is_decode_critical v then 1 else 0)"
  by (simp_all add: evict_victim_def Let_def log_decision_def evicted_tier_def)

lemma evict_victim_dram:
  "dram_blocks (fst (evict_victim ord cfg step cands v s)) \<subseteq> insert (object_id v) (dram_blocks s)"
  by (auto simp: evict_victim_def Let_def log_decision_def)

lemma evict_victim_wf:
  assumes "sim_wf s" shows "sim_wf (fst (evict_victim ord cfg step cands v s))"
  by (rule sim_wf_put [OF assms _ evict_victim_sets(2) _ evict_victim_dram]) auto

section \<open>The loop rule\<close>

text \<open>What the loop returns: a state within capacity, or one of the two exhausted states.\<close>

definition loop_exit :: "set_order \<Rightarrow> config \<Rightarrow> int \<Rightarrow> sim \<Rightarrow> sim \<Rightarrow> bool" where
  "loop_exit ord cfg step u t \<longleftrightarrow>
     (t = u \<and> hbm_used u \<le> hbm_capacity_bytes cfg)
     \<or> (t = record_exhausted cfg step u \<and> hbm_capacity_bytes cfg < hbm_used u
        \<and> all_pinned_exhausted cfg (candidates ord u))
     \<or> (t = u\<lparr>capacity_exhaustion_events := capacity_exhaustion_events u + 1\<rparr>
        \<and> hbm_capacity_bytes cfg < hbm_used u \<and> hbm_blocks u = {})"

lemma ensure_loop_rule:
  assumes ord: "valid_order ord" and wf: "sim_wf s" and init: "I s lat"
    and keep: "\<And>u l v. sim_wf u \<Longrightarrow> I u l \<Longrightarrow> hbm_capacity_bytes cfg < hbm_used u
      \<Longrightarrow> \<not> all_pinned_exhausted cfg (candidates ord u) \<Longrightarrow> v \<in> set (candidates ord u)
      \<Longrightarrow> choose_victim (cfg_policy cfg) (candidates ord u) (hbm_capacity_bytes cfg) step = Some v
      \<Longrightarrow> I (fst (evict_victim ord cfg step (candidates ord u) v u))
            (l + snd (evict_victim ord cfg step (candidates ord u) v u))"
  shows "\<exists>t u l. ensure_loop ord cfg step s lat = Some (t, l) \<and> sim_wf u \<and> I u l \<and> loop_exit ord cfg step u t"
  using wf init
proof (induction "card (hbm_blocks s)" arbitrary: s lat rule: less_induct)
  case less
  note unfold = ensure_loop.simps [of ord cfg step s lat]
  show ?case
  proof (cases "hbm_used s \<le> hbm_capacity_bytes cfg \<or> all_pinned_exhausted cfg (candidates ord s)")
    case True
    then show ?thesis using less.prems by (auto simp: unfold loop_exit_def not_le)
  next
    case False
    note go = this
    show ?thesis
    proof (cases "choose_victim (cfg_policy cfg) (candidates ord s) (hbm_capacity_bytes cfg) step")
      case None
      then have "candidates ord s = []" by (simp add: policy.select_None_iff)
      then have "hbm_blocks s = {}" using candidates_Nil_iff [OF ord less.prems(1)] by simp
      then show ?thesis using less.prems go None by (auto simp: unfold loop_exit_def)
    next
      case (Some v)
      then have v: "v \<in> set (candidates ord s)" by (rule policy.select_member)
      define s' where "s' = fst (evict_victim ord cfg step (candidates ord s) v s)"
      define l' where "l' = lat + snd (evict_victim ord cfg step (candidates ord s) v s)"
      have "card (hbm_blocks s') < card (hbm_blocks s)"
        using candidate_resident(1) [OF ord less.prems(1) v] sim_wfD(3) [OF less.prems(1)]
        by (simp add: s'_def card_Diff1_less del: card_Diff_insert)
      moreover have "sim_wf s'" using evict_victim_wf [OF less.prems(1)] by (simp add: s'_def)
      moreover have "I s' l'" unfolding s'_def l'_def
        using go v Some less.prems by (intro keep) auto
      ultimately have "\<exists>t u l. ensure_loop ord cfg step s' l' = Some (t, l) \<and> sim_wf u \<and> I u l
          \<and> loop_exit ord cfg step u t" by (rule less.hyps)
      moreover have "ensure_loop ord cfg step s lat = ensure_loop ord cfg step s' l'"
        using go Some by (simp add: unfold s'_def l'_def)
      ultimately show ?thesis by simp
    qed
  qed
qed

text \<open>The same rule for \<open>_ensure_hbm_capacity\<close> and \<open>_move_to_hbm\<close>, with assertions that look at the
  loop's exit state only through what the exhaustion counters and the peak do not touch.\<close>

lemma ensure_rule:
  assumes ord: "valid_order ord" and wf: "sim_wf s" and init: "I s 0"
    and keep: "\<And>u l v. sim_wf u \<Longrightarrow> I u l \<Longrightarrow> hbm_capacity_bytes cfg < hbm_used u
      \<Longrightarrow> \<not> all_pinned_exhausted cfg (candidates ord u) \<Longrightarrow> v \<in> set (candidates ord u)
      \<Longrightarrow> choose_victim (cfg_policy cfg) (candidates ord u) (hbm_capacity_bytes cfg) step = Some v
      \<Longrightarrow> I (fst (evict_victim ord cfg step (candidates ord u) v u))
            (l + snd (evict_victim ord cfg step (candidates ord u) v u))"
    and finish: "\<And>u l t. sim_wf u \<Longrightarrow> I u l \<Longrightarrow> loop_exit ord cfg step u t \<Longrightarrow> Q (record_usage t) l"
  shows "\<exists>t l. ensure_hbm_capacity ord cfg step s = Some (t, l) \<and> Q t l"
proof -
  from ensure_loop_rule [where I = I, OF ord wf init keep]
  obtain t u l where t: "ensure_loop ord cfg step s 0 = Some (t, l)"
    and u: "sim_wf u" "I u l" "loop_exit ord cfg step u t" by blast
  then have "Q (record_usage t) l" by (intro finish)
  with t show ?thesis by (simp add: ensure_hbm_capacity_def)
qed

lemma loop_exit_wf: "sim_wf u \<Longrightarrow> loop_exit ord cfg step u t \<Longrightarrow> sim_wf t"
  by (auto simp: loop_exit_def record_exhausted_def sim_wf_def)

lemma loop_exit_frame:
  assumes "loop_exit ord cfg step u t"
  shows "live_blocks t = live_blocks u" "hbm_blocks t = hbm_blocks u" "dram_blocks t = dram_blocks u"
    "latencies t = latencies u" "spill_count t = spill_count u" "miss_count t = miss_count u"
    "prefetch_count t = prefetch_count u" "eviction_count t = eviction_count u"
    "last_decay_step t = last_decay_step u" "hbm_used t = hbm_used u"
    "decode_critical_misses t = decode_critical_misses u"
    "decode_critical_evictions t = decode_critical_evictions u"
  using assms by (auto simp: loop_exit_def record_exhausted_def hbm_used_def)

lemma record_usage_frame [simp]:
  "live_blocks (record_usage t) = live_blocks t" "hbm_blocks (record_usage t) = hbm_blocks t"
  "dram_blocks (record_usage t) = dram_blocks t" "latencies (record_usage t) = latencies t"
  "spill_count (record_usage t) = spill_count t" "miss_count (record_usage t) = miss_count t"
  "prefetch_count (record_usage t) = prefetch_count t" "decision_log (record_usage t) = decision_log t"
  "eviction_count (record_usage t) = eviction_count t" "hbm_used (record_usage t) = hbm_used t"
  "last_decay_step (record_usage t) = last_decay_step t"
  "decode_critical_evictions (record_usage t) = decode_critical_evictions t"
  "pinned_capacity_exhaustion_events (record_usage t) = pinned_capacity_exhaustion_events t"
  by (simp_all add: record_usage_def hbm_used_def)

lemma ensure_wf:
  assumes "valid_order ord" "sim_wf s"
  shows "\<exists>t l. ensure_hbm_capacity ord cfg step s = Some (t, l) \<and> sim_wf t"
  by (rule ensure_rule [where I = "\<lambda>_ _. True" and Q = "\<lambda>t _. sim_wf t", OF assms])
    (auto dest: loop_exit_wf)

lemma ensure_wf_result:
  "valid_order ord \<Longrightarrow> sim_wf s \<Longrightarrow> ensure_hbm_capacity ord cfg step s = Some (t, l) \<Longrightarrow> sim_wf t"
  using ensure_wf [of ord s cfg step] by auto

lemma move_to_hbm_start_wf:
  "sim_wf s \<Longrightarrow> sim_wf (s\<lparr>live_blocks := AList.update (object_id b) (b\<lparr>current_tier := HBM\<rparr>) (live_blocks s),
     hbm_blocks := insert (object_id b) (hbm_blocks s), dram_blocks := dram_blocks s - {object_id b}\<rparr>)"
  by (rule sim_wf_put [where k = "object_id b" and b = "b\<lparr>current_tier := HBM\<rparr>"]) auto

lemma move_to_hbm_wf:
  assumes "valid_order ord" "sim_wf s"
  shows "\<exists>t l. move_to_hbm ord cfg b step s = Some (t, l) \<and> sim_wf t"
  using ensure_wf [OF assms(1) move_to_hbm_start_wf [OF assms(2)], of cfg step b]
  by (auto simp: move_to_hbm_def Let_def)

end
