(* ===== verification/EvictionLaws.thy ===== *)
theory EvictionLaws
  imports SimulatorLaws
begin

text \<open>
  The contract of the eviction loop. \<open>evicted_from\<close> relates the state before the loop with every
  state the loop passes through: which blocks left HBM and where they went, what stays untouched,
  and how the counters account for it. \<open>settles\<close> adds what holds when the loop returns. The
  handlers' properties are consequences of \<open>ensure_settles\<close> alone.
\<close>

section \<open>States the loop passes through\<close>

definition left_hbm :: "config \<Rightarrow> sim \<Rightarrow> sim \<Rightarrow> string \<Rightarrow> bool" where
  "left_hbm cfg s u k \<longleftrightarrow>
     (\<exists>b t. dict_get (live_blocks s) k = Some b \<and> dict_get (live_blocks u) k = Some (b\<lparr>current_tier := t\<rparr>)
        \<and> t \<noteq> HBM \<and> (t \<in> allowed_tiers b \<or> (allowed_tiers b \<subseteq> {HBM} \<and> t = NVME))
        \<and> (is_intent_family (cfg_policy cfg) \<longrightarrow> \<not> pin_requested b))"

definition evicted_from :: "config \<Rightarrow> sim \<Rightarrow> sim \<Rightarrow> int \<Rightarrow> bool" where
  "evicted_from cfg s u l \<longleftrightarrow>
     hbm_blocks u \<subseteq> hbm_blocks s
     \<and> dict_keys (live_blocks u) = dict_keys (live_blocks s)
     \<and> (latencies u = latencies s \<and> miss_count u = miss_count s \<and> prefetch_count u = prefetch_count s
        \<and> decode_critical_misses u = decode_critical_misses s \<and> last_decay_step u = last_decay_step s)
     \<and> (l = spill_latency_us cfg * (spill_count u - spill_count s) \<and> spill_count s \<le> spill_count u
        \<and> spill_count u - spill_count s \<le> eviction_count u - eviction_count s)
     \<and> eviction_count u + int (card (hbm_blocks u)) = eviction_count s + int (card (hbm_blocks s))
     \<and> (\<forall>k. k \<notin> hbm_blocks s \<or> k \<in> hbm_blocks u \<longrightarrow>
          dict_get (live_blocks u) k = dict_get (live_blocks s) k
          \<and> (k \<in> dram_blocks u \<longleftrightarrow> k \<in> dram_blocks s))
     \<and> (\<forall>k \<in> hbm_blocks s - hbm_blocks u. left_hbm cfg s u k)"

lemma evicted_fromD:
  assumes "evicted_from cfg s u l"
  shows "hbm_blocks u \<subseteq> hbm_blocks s" "dict_keys (live_blocks u) = dict_keys (live_blocks s)"
    "latencies u = latencies s" "miss_count u = miss_count s" "prefetch_count u = prefetch_count s"
    "decode_critical_misses u = decode_critical_misses s" "last_decay_step u = last_decay_step s"
    "l = spill_latency_us cfg * (spill_count u - spill_count s)"
    "spill_count s \<le> spill_count u" "spill_count u - spill_count s \<le> eviction_count u - eviction_count s"
    "eviction_count u + int (card (hbm_blocks u)) = eviction_count s + int (card (hbm_blocks s))"
    "k \<notin> hbm_blocks s \<or> k \<in> hbm_blocks u \<Longrightarrow> dict_get (live_blocks u) k = dict_get (live_blocks s) k"
    "k \<notin> hbm_blocks s \<or> k \<in> hbm_blocks u \<Longrightarrow> k \<in> dram_blocks u \<longleftrightarrow> k \<in> dram_blocks s"
    "k \<in> hbm_blocks s \<Longrightarrow> k \<notin> hbm_blocks u \<Longrightarrow> left_hbm cfg s u k"
  using assms unfolding evicted_from_def by simp_all

lemma evicted_from_refl: "evicted_from cfg s s 0"
  by (simp add: evicted_from_def)

lemma evict_victim_counts:
  "snd (evict_victim ord cfg step cands v s)
     = spill_latency_us cfg * (spill_count (fst (evict_victim ord cfg step cands v s)) - spill_count s)"
  "spill_count s \<le> spill_count (fst (evict_victim ord cfg step cands v s))"
  "spill_count (fst (evict_victim ord cfg step cands v s)) \<le> spill_count s + 1"
  "decode_critical_misses (fst (evict_victim ord cfg step cands v s)) = decode_critical_misses s"
  by (simp_all add: evict_victim_def Let_def log_decision_def)

lemma evict_victim_dram_other:
  "k \<noteq> object_id v \<Longrightarrow>
     k \<in> dram_blocks (fst (evict_victim ord cfg step cands v s)) \<longleftrightarrow> k \<in> dram_blocks s"
  by (auto simp: evict_victim_def Let_def log_decision_def)

lemma evicted_tier_cases:
  assumes "valid_order ord"
  shows "evicted_tier ord s v \<noteq> HBM"
    "evicted_tier ord s v \<in> allowed_tiers v \<or> (allowed_tiers v \<subseteq> {HBM} \<and> evicted_tier ord s v = NVME)"
proof -
  define ts where "ts = filter (\<lambda>t. t \<noteq> HBM) (order_tiers ord s v)"
  have set: "set ts = allowed_tiers v - {HBM}"
    using assms by (auto simp: ts_def valid_order_def)
  have "evicted_tier ord s v = (case ts of [] \<Rightarrow> NVME | t # _ \<Rightarrow> t)"
    by (simp add: evicted_tier_def target_tier_def ts_def split: list.splits)
  then show "evicted_tier ord s v \<noteq> HBM"
    "evicted_tier ord s v \<in> allowed_tiers v \<or> (allowed_tiers v \<subseteq> {HBM} \<and> evicted_tier ord s v = NVME)"
    using set by (cases ts; auto)+
qed

lemma family_victim_unpinned:
  assumes "\<not> all_pinned_exhausted cfg bs" "choose_victim (cfg_policy cfg) bs c t = Some v"
    and "is_intent_family (cfg_policy cfg)"
  shows "\<not> pin_requested v"
proof
  assume "pin_requested v"
  then have "list_all pin_requested bs"
    using intent_family_pinned_last [OF assms(2,3)] by (simp add: list_all_iff)
  moreover have "bs \<noteq> []" using assms(2) by (auto simp: policy.select_Nil)
  ultimately show False using assms(1,3) by (simp add: all_pinned_exhausted_def)
qed

lemma evicted_from_step:
  assumes ord: "valid_order ord" and wf: "sim_wf u" and fs: "finite (hbm_blocks s)"
    and ev: "evicted_from cfg s u l"
    and np: "\<not> all_pinned_exhausted cfg (candidates ord u)" and v: "v \<in> set (candidates ord u)"
    and sel: "choose_victim (cfg_policy cfg) (candidates ord u) c step = Some v"
    and u': "u' = fst (evict_victim ord cfg step (candidates ord u) v u)"
    and l': "l' = l + snd (evict_victim ord cfg step (candidates ord u) v u)"
  shows "evicted_from cfg s u' l'"
proof -
  let ?k = "object_id v"
  note D = evicted_fromD [OF ev]
  have res: "?k \<in> hbm_blocks u" "dict_get (live_blocks u) ?k = Some v"
    using candidate_resident [OF ord wf v] by auto
  have vs: "dict_get (live_blocks s) ?k = Some v" using D(12) [of ?k] res by simp
  have get: "dict_get (live_blocks u') k
      = (if k = ?k then Some (v\<lparr>current_tier := evicted_tier ord u v\<rparr>) else dict_get (live_blocks u) k)" for k
    by (simp add: u' dict_simps)
  have keys: "dict_keys (live_blocks u') = dict_keys (live_blocks s)"
    using res sim_wfD(5) [OF wf] D(2) by (auto simp: u' dict_keys_update simp del: fst_conv)
  have "card (hbm_blocks u) = Suc (card (hbm_blocks u - {?k}))"
    using res(1) sim_wfD(3) [OF wf] by (metis card_Suc_Diff1)
  then have cards: "eviction_count u' + int (card (hbm_blocks u')) = eviction_count s + int (card (hbm_blocks s))"
    using D(11) by (simp add: u' del: card_Diff_insert)
  have lv: "left_hbm cfg s u' ?k"
    using vs evicted_tier_cases [OF ord, of u v] family_victim_unpinned [OF np sel]
    by (auto simp: left_hbm_def get)
  have lo: "left_hbm cfg s u' k" if "k \<in> hbm_blocks s" "k \<notin> hbm_blocks u" for k
    using D(14) [OF that] that(2) res(1) by (auto simp: left_hbm_def get)
  have left: "\<forall>k \<in> hbm_blocks s - hbm_blocks u'. left_hbm cfg s u' k"
  proof
    fix k assume "k \<in> hbm_blocks s - hbm_blocks u'"
    then have "k = ?k \<or> k \<in> hbm_blocks s \<and> k \<notin> hbm_blocks u" by (auto simp: u')
    then show "left_hbm cfg s u' k" using lv lo by blast
  qed
  have stay: "dict_get (live_blocks u') k = dict_get (live_blocks s) k
      \<and> (k \<in> dram_blocks u' \<longleftrightarrow> k \<in> dram_blocks s)" if "k \<notin> hbm_blocks s \<or> k \<in> hbm_blocks u'" for k
  proof -
    have k: "k \<noteq> ?k" "k \<notin> hbm_blocks s \<or> k \<in> hbm_blocks u" using that res(1) D(1) by (auto simp: u')
    then have "dict_get (live_blocks u') k = dict_get (live_blocks u) k" by (simp add: get)
    moreover have "k \<in> dram_blocks u' \<longleftrightarrow> k \<in> dram_blocks u"
      unfolding u' using k(1) by (rule evict_victim_dram_other)
    ultimately show ?thesis using D(12) [OF k(2)] D(13) [OF k(2)] by simp
  qed
  have spill: "l' = spill_latency_us cfg * (spill_count u' - spill_count s)"
    "spill_count s \<le> spill_count u'" "spill_count u' - spill_count s \<le> eviction_count u' - eviction_count s"
    using D(8-10) evict_victim_counts(1-3) [where ord = ord and cfg = cfg and step = step
        and cands = "candidates ord u" and v = v and s = u]
    by (simp_all add: u' l' algebra_simps)
  have sub: "hbm_blocks u' \<subseteq> hbm_blocks s" using D(1) by (auto simp: u')
  have frame: "latencies u' = latencies s" "miss_count u' = miss_count s" "prefetch_count u' = prefetch_count s"
    "decode_critical_misses u' = decode_critical_misses s" "last_decay_step u' = last_decay_step s"
    using D(3-7) by (simp_all add: u' evict_victim_counts(4))
  show ?thesis unfolding evicted_from_def
    by (intro conjI keys cards sub frame spill left) (use stay in blast)
qed

section \<open>The contract\<close>

definition within_capacity :: "config \<Rightarrow> sim \<Rightarrow> bool" where
  "within_capacity cfg t \<longleftrightarrow> hbm_used t \<le> hbm_capacity_bytes cfg"

text \<open>The only states over capacity: every resident block is pinned, under an intent policy (or
  HBM is empty, which is over capacity only for a negative capacity).\<close>

definition all_residents_pinned :: "sim \<Rightarrow> bool" where
  "all_residents_pinned t \<longleftrightarrow>
     (\<forall>k \<in> hbm_blocks t. \<forall>b. dict_get (live_blocks t) k = Some b \<longrightarrow> pin_requested b)"

definition settled :: "config \<Rightarrow> sim \<Rightarrow> bool" where
  "settled cfg t \<longleftrightarrow> within_capacity cfg t
     \<or> (is_intent_family (cfg_policy cfg) \<and> hbm_blocks t \<noteq> {} \<and> all_residents_pinned t)
     \<or> hbm_blocks t = {}"

definition settles :: "config \<Rightarrow> sim \<Rightarrow> sim \<Rightarrow> int \<Rightarrow> bool" where
  "settles cfg s t l \<longleftrightarrow> sim_wf t \<and> evicted_from cfg s t l \<and> settled cfg t
     \<and> hbm_used t \<le> actual_peak_hbm_used_bytes t"

lemma loop_exit_evicted_from:
  "evicted_from cfg s u l \<Longrightarrow> loop_exit ord cfg step u t \<Longrightarrow> evicted_from cfg s t l"
  by (simp add: evicted_from_def left_hbm_def loop_exit_frame)

lemma loop_exit_settled:
  assumes ord: "valid_order ord" and wf: "sim_wf u" and exit: "loop_exit ord cfg step u t"
  shows "settled cfg t"
proof -
  have same: "live_blocks t = live_blocks u" "hbm_blocks t = hbm_blocks u" "hbm_used t = hbm_used u"
    using loop_exit_frame [OF exit] by simp_all
  consider "hbm_used u \<le> hbm_capacity_bytes cfg" | "all_pinned_exhausted cfg (candidates ord u)"
    | "hbm_blocks u = {}" using exit by (auto simp: loop_exit_def)
  then show ?thesis
  proof cases
    case 2
    then have "is_intent_family (cfg_policy cfg)" "candidates ord u \<noteq> []"
      and all: "\<forall>b \<in> set (candidates ord u). pin_requested b"
      by (simp_all add: all_pinned_exhausted_def list_all_iff)
    moreover have "all_residents_pinned u"
      unfolding all_residents_pinned_def using all set_candidates [OF ord wf] by blast
    ultimately show ?thesis
      using candidates_Nil_iff [OF ord wf] by (simp add: settled_def all_residents_pinned_def same)
  qed (simp_all add: settled_def within_capacity_def same)
qed

lemma evicted_from_record_usage [simp]: "evicted_from cfg s (record_usage t) l = evicted_from cfg s t l"
  by (simp add: evicted_from_def left_hbm_def) (simp add: record_usage_def)

lemma settled_record_usage [simp]: "settled cfg (record_usage t) = settled cfg t"
  by (simp add: settled_def within_capacity_def all_residents_pinned_def)

lemma record_usage_peak: "hbm_used (record_usage t) \<le> actual_peak_hbm_used_bytes (record_usage t)"
  by (simp add: record_usage_def hbm_used_def)

lemma record_usage_idem [simp]: "record_usage (record_usage t) = record_usage t"
  by (simp add: record_usage_def hbm_used_def)

lemma ensure_settles:
  assumes ord: "valid_order ord" and wf: "sim_wf s"
  shows "\<exists>t l. ensure_hbm_capacity ord cfg step s = Some (t, l) \<and> settles cfg s t l"
proof (rule ensure_rule [where I = "evicted_from cfg s" and Q = "settles cfg s", OF ord wf evicted_from_refl])
  fix u l v
  assume "sim_wf u" "evicted_from cfg s u l" "\<not> all_pinned_exhausted cfg (candidates ord u)"
    "v \<in> set (candidates ord u)"
    "choose_victim (cfg_policy cfg) (candidates ord u) (hbm_capacity_bytes cfg) step = Some v"
  then show "evicted_from cfg s (fst (evict_victim ord cfg step (candidates ord u) v u))
      (l + snd (evict_victim ord cfg step (candidates ord u) v u))"
    by (rule evicted_from_step [OF ord _ sim_wfD(3) [OF wf] _ _ _ _ refl refl])
next
  fix u l t
  assume "sim_wf u" "evicted_from cfg s u l" "loop_exit ord cfg step u t"
  then show "settles cfg s (record_usage t) l"
    by (simp add: settles_def loop_exit_wf loop_exit_settled [OF ord] loop_exit_evicted_from
        record_usage_peak del: record_usage_frame(10))
qed

lemma settlesD:
  assumes "settles cfg s t l"
  shows "sim_wf t" "evicted_from cfg s t l" "settled cfg t"
  using assms by (simp_all add: settles_def)

text \<open>\<open>_move_to_hbm\<close> is the insertion of the block followed by the loop.\<close>

definition placed_in_hbm :: "mintent \<Rightarrow> sim \<Rightarrow> sim" where
  "placed_in_hbm b s =
     s\<lparr>live_blocks := AList.update (object_id b) (b\<lparr>current_tier := HBM\<rparr>) (live_blocks s),
       hbm_blocks := insert (object_id b) (hbm_blocks s), dram_blocks := dram_blocks s - {object_id b}\<rparr>"

lemma placed_in_hbm_wf: "sim_wf s \<Longrightarrow> sim_wf (placed_in_hbm b s)"
  unfolding placed_in_hbm_def by (rule move_to_hbm_start_wf)

lemma move_settles:
  assumes "valid_order ord" "sim_wf s"
  shows "\<exists>t l. move_to_hbm ord cfg b step s = Some (t, l) \<and> settles cfg (placed_in_hbm b s) t l"
proof -
  obtain t l where t: "ensure_hbm_capacity ord cfg step (placed_in_hbm b s) = Some (t, l)"
    "settles cfg (placed_in_hbm b s) t l"
    using ensure_settles [OF assms(1) placed_in_hbm_wf [OF assms(2)]] by blast
  have "move_to_hbm ord cfg b step s = Some (record_usage t, l)"
    using t(1) by (simp add: move_to_hbm_def placed_in_hbm_def Let_def)
  moreover have "settles cfg (placed_in_hbm b s) (record_usage t) l"
    using t(2) by (simp add: settles_def record_usage_peak del: record_usage_frame(10))
  ultimately show ?thesis by blast
qed

end
