(* ===== verification/HandlerLaws.thy ===== *)
theory HandlerLaws
  imports EvictionLaws
begin

text \<open>
  What one event does to the simulator. \<open>handled\<close> summarises every handler of \<open>run\<close>: the
  structural invariant, the latency it charges in terms of the counters it moves, and what may
  happen to the blocks the event does not name (nothing, or eviction from HBM). \<open>stepped\<close> extends
  it over the decay and the latency list, that is, over a whole iteration of the loop of \<open>run\<close>.
\<close>

section \<open>Identities\<close>

lemma copy_with_object_id: "copy_with f b = Inr c \<Longrightarrow> object_id c = object_id (f b)"
  by (auto simp: copy_with_Inr_iff)

lemma merge_update_id [simp]: "object_id (merge_update et inc e) = object_id e"
  by (cases et) simp_all

lemma merge_intent_id: "merge_intent et e inc = Inr i \<Longrightarrow> object_id i = object_id e"
  by (auto simp: merge_intent_def dest: copy_with_object_id)

lemma incoming_intent_id:
  assumes "incoming_intent ev existing = Inr i" "existing = dict_get live (object_id (ev_intent ev))"
    and "keyed live"
  shows "object_id i = object_id (ev_intent ev)"
proof (cases existing)
  case None
  with assms(1) show ?thesis by (auto simp: incoming_intent_def bind_r_Inr_iff dest: copy_with_object_id)
next
  case (Some e)
  with assms(1) obtain inc where "merge_intent (ev_type ev) e inc = Inr i"
    by (auto simp: incoming_intent_def bind_r_Inr_iff)
  then have "object_id i = object_id e" by (rule merge_intent_id)
  also have "object_id e = object_id (ev_intent ev)" using keyedD [OF assms(3)] assms(2) Some by simp
  finally show ?thesis .
qed

lemma incoming_intent_valid:
  "incoming_intent ev existing = Inr i \<Longrightarrow> valid_intent i"
  by (auto simp: incoming_intent_def bind_r_Inr_iff merge_intent_def split: option.splits
      dest: copy_with_valid)

section \<open>The summary of a handler\<close>

definition charged :: "config \<Rightarrow> sim \<Rightarrow> sim \<Rightarrow> int" where
  "charged cfg s t = miss_penalty_us cfg * (miss_count t - miss_count s)
     + spill_latency_us cfg * (spill_count t - spill_count s)
     + prefetch_latency_us cfg * (prefetch_count t - prefetch_count s)"

definition same_block :: "sim \<Rightarrow> sim \<Rightarrow> string \<Rightarrow> bool" where
  "same_block s t j \<longleftrightarrow> dict_get (live_blocks t) j = dict_get (live_blocks s) j
     \<and> (j \<in> hbm_blocks t \<longleftrightarrow> j \<in> hbm_blocks s) \<and> (j \<in> dram_blocks t \<longleftrightarrow> j \<in> dram_blocks s)"

definition others_kept :: "config \<Rightarrow> string \<Rightarrow> sim \<Rightarrow> sim \<Rightarrow> bool" where
  "others_kept cfg k s t \<longleftrightarrow> (\<forall>j. j \<noteq> k \<longrightarrow> same_block s t j
     \<or> (j \<in> hbm_blocks s \<and> j \<notin> hbm_blocks t \<and> left_hbm cfg s t j))"

definition handled :: "config \<Rightarrow> string \<Rightarrow> sim \<Rightarrow> sim \<times> int \<Rightarrow> bool" where
  "handled cfg k s r \<longleftrightarrow> (case r of (t, lat) \<Rightarrow>
     sim_wf t \<and> others_kept cfg k s t
     \<and> lat = base_step_latency_us cfg + charged cfg s t
     \<and> latencies t = latencies s \<and> last_decay_step t = last_decay_step s
     \<and> (miss_count s \<le> miss_count t \<and> spill_count s \<le> spill_count t \<and> prefetch_count s \<le> prefetch_count t))"

lemma same_block_refl [simp]: "same_block s s j"
  by (simp add: same_block_def)

lemma others_kept_same:
  assumes "\<And>j. j \<noteq> k \<Longrightarrow> same_block s t j" shows "others_kept cfg k s t"
  using assms by (simp add: others_kept_def)

text \<open>A handler that only touches the block it names.\<close>

lemma handled_local:
  assumes "sim_wf t" "\<And>j. j \<noteq> k \<Longrightarrow> same_block s t j"
    and "lat = base_step_latency_us cfg + charged cfg s t"
    and "latencies t = latencies s" "last_decay_step t = last_decay_step s"
    and "miss_count s \<le> miss_count t" "spill_count s \<le> spill_count t" "prefetch_count s \<le> prefetch_count t"
  shows "handled cfg k s (t, lat)"
  using assms others_kept_same by (simp add: handled_def)

text \<open>A handler that changes the block it names, and then runs the eviction loop.\<close>

lemma settles_handled:
  assumes st: "settles cfg s1 t l" and same: "\<And>j. j \<noteq> k \<Longrightarrow> same_block s s1 j"
    and lat: "lat = base_step_latency_us cfg + charged cfg s s1 + l"
    and frame: "latencies s1 = latencies s" "last_decay_step s1 = last_decay_step s"
    and mono: "miss_count s \<le> miss_count s1" "spill_count s \<le> spill_count s1" "prefetch_count s \<le> prefetch_count s1"
  shows "handled cfg k s (t, lat)"
proof -
  note E = evicted_fromD [OF settlesD(2) [OF st]]
  have "same_block s t j \<or> (j \<in> hbm_blocks s \<and> j \<notin> hbm_blocks t \<and> left_hbm cfg s t j)" if "j \<noteq> k" for j
  proof (cases "j \<notin> hbm_blocks s1 \<or> j \<in> hbm_blocks t")
    case True
    then have "same_block s1 t j" using E(1) E(12,13) [OF True] by (auto simp: same_block_def)
    with same [OF that] show ?thesis by (simp add: same_block_def)
  next
    case False
    then have "left_hbm cfg s1 t j" using E(14) by blast
    then have "left_hbm cfg s t j" using same [OF that] by (simp add: left_hbm_def same_block_def)
    with False same [OF that] show ?thesis by (simp add: same_block_def)
  qed
  then have "others_kept cfg k s t" by (simp add: others_kept_def)
  moreover have "lat = base_step_latency_us cfg + charged cfg s t"
    using E(4,5,8) by (simp add: lat charged_def algebra_simps)
  ultimately show ?thesis
    using settlesD(1) [OF st] E(3-5,7,9) frame mono by (simp add: handled_def)
qed

lemma handled_record_usage [simp]: "handled cfg k s (record_usage t, l) = handled cfg k s (t, l)"
  by (simp add: handled_def others_kept_def same_block_def charged_def left_hbm_def)

lemma handled_log [simp]: "handled cfg k s (log_decision c st a v r d t, l) = handled cfg k s (t, l)"
  by (simp add: handled_def others_kept_def same_block_def charged_def left_hbm_def sim_wf_def log_decision_def)

lemma safely_ensure:
  assumes "valid_order ord" "sim_wf s" "\<And>t l. settles cfg s t l \<Longrightarrow> P (F t l)"
  shows "safely (map_option (\<lambda>(t, l). Inr (F t l)) (ensure_hbm_capacity ord cfg step s)) P"
  using ensure_settles [OF assms(1,2), of cfg step] assms(3) by auto

lemma safely_move:
  assumes "valid_order ord" "sim_wf s" "\<And>t l. settles cfg (placed_in_hbm b s) t l \<Longrightarrow> P (F t l)"
  shows "safely (map_option (\<lambda>(t, l). Inr (F t l)) (move_to_hbm ord cfg b step s)) P"
  using move_settles [OF assms(1,2), of cfg b step] assms(3) by auto

section \<open>Each handler\<close>

lemma put_block_frame [simp]:
  "hbm_blocks (put_block b s) = hbm_blocks s" "dram_blocks (put_block b s) = dram_blocks s"
  "live_blocks (put_block b s) = AList.update (object_id b) b (live_blocks s)"
  "latencies (put_block b s) = latencies s" "last_decay_step (put_block b s) = last_decay_step s"
  "miss_count (put_block b s) = miss_count s" "spill_count (put_block b s) = spill_count s"
  "prefetch_count (put_block b s) = prefetch_count s"
  by (simp_all add: put_block_def)

lemma charged_same [simp]: "charged cfg s s = 0"
  by (simp add: charged_def)

lemma placed_in_hbm_same: "j \<noteq> object_id b \<Longrightarrow> same_block s (placed_in_hbm b s) j"
  by (simp add: same_block_def placed_in_hbm_def dict_simps)

lemma placed_in_hbm_frame [simp]:
  "latencies (placed_in_hbm b s) = latencies s" "last_decay_step (placed_in_hbm b s) = last_decay_step s"
  "miss_count (placed_in_hbm b s) = miss_count s" "spill_count (placed_in_hbm b s) = spill_count s"
  "prefetch_count (placed_in_hbm b s) = prefetch_count s"
  "hbm_blocks (placed_in_hbm b s) = insert (object_id b) (hbm_blocks s)"
  by (simp_all add: placed_in_hbm_def)

lemma put_wf:
  "sim_wf s \<Longrightarrow> live_blocks t = AList.update (object_id b) b (live_blocks s)
   \<Longrightarrow> hbm_blocks t \<subseteq> insert (object_id b) (hbm_blocks s)
   \<Longrightarrow> dram_blocks t \<subseteq> insert (object_id b) (dram_blocks s) \<Longrightarrow> sim_wf t"
  by (rule sim_wf_put [OF _ refl])

lemmas local_simps = same_block_def dict_simps charged_def algebra_simps

lemma on_allocated_handled:
  assumes ord: "valid_order ord" and wf: "sim_wf s"
  shows "safely (on_allocated ord cfg step i s) (handled cfg (object_id i) s)"
proof -
  define s2 where "s2 = put_block i s\<lparr>peak_hbm_demand_bytes := max (peak_hbm_demand_bytes (put_block i s))
      (hbm_used (put_block i s) + (if current_tier i = HBM then size_bytes i else 0))\<rparr>"
  have frame: "live_blocks s2 = AList.update (object_id i) i (live_blocks s)" "hbm_blocks s2 = hbm_blocks s"
    "dram_blocks s2 = dram_blocks s" "latencies s2 = latencies s" "last_decay_step s2 = last_decay_step s"
    "miss_count s2 = miss_count s" "spill_count s2 = spill_count s" "prefetch_count s2 = prefetch_count s"
    by (simp_all add: s2_def)
  define h where "h = s2\<lparr>hbm_blocks := insert (object_id i) (hbm_blocks s2)\<rparr>"
  have "sim_wf h" by (rule put_wf [OF wf, of _ i]) (auto simp: h_def frame)
  then have hbm: "safely (map_option (\<lambda>(t, l). Inr (record_usage t, base_step_latency_us cfg + l))
      (ensure_hbm_capacity ord cfg step h)) (handled cfg (object_id i) s)"
    by (intro safely_ensure [OF ord]) (auto intro!: settles_handled simp: h_def frame local_simps)
  have dram: "handled cfg (object_id i) s
      (s2\<lparr>dram_blocks := insert (object_id i) (dram_blocks s2)\<rparr>, base_step_latency_us cfg)"
    by (rule handled_local) (auto intro: put_wf [OF wf] simp: frame local_simps)
  have other: "handled cfg (object_id i) s (s2, base_step_latency_us cfg)"
    by (rule handled_local) (auto intro: put_wf [OF wf] simp: frame local_simps)
  show ?thesis
    unfolding on_allocated_def Let_def s2_def [symmetric] using hbm [unfolded h_def] dram other by simp
qed

lemma serve_access_handled:
  assumes ord: "valid_order ord" and wf: "sim_wf s"
  shows "safely (serve_access ord cfg step b s) (handled cfg (object_id b) s)"
proof -
  define m where "m = s\<lparr>miss_count := miss_count s + 1,
      decode_critical_misses := decode_critical_misses s + (if is_decode_critical b then 1 else 0)\<rparr>"
  have wfm: "sim_wf m" by (rule sim_wf_cong [OF wf]) (simp_all add: m_def)
  have same: "j \<noteq> object_id b \<Longrightarrow> same_block s (placed_in_hbm b m) j" for j
    by (simp add: m_def placed_in_hbm_def local_simps)
  have "safely (map_option (\<lambda>(t, l). Inr (t, base_step_latency_us cfg + miss_penalty_us cfg + l))
      (move_to_hbm ord cfg b step m)) (handled cfg (object_id b) s)"
    by (rule safely_move [OF ord wfm], rule settles_handled, assumption, rule same)
      (auto simp: m_def charged_def)
  moreover have "handled cfg (object_id b) s (s, base_step_latency_us cfg)"
    by (rule handled_local [OF wf]) simp_all
  ultimately show ?thesis unfolding serve_access_def m_def [symmetric] by simp
qed

text \<open>Changing the named block first does not change what the rest may do.\<close>

lemma handled_put:
  assumes "handled cfg k s1 r" "\<And>j. j \<noteq> k \<Longrightarrow> same_block s s1 j"
    and "latencies s1 = latencies s" "last_decay_step s1 = last_decay_step s" "miss_count s1 = miss_count s"
    "spill_count s1 = spill_count s" "prefetch_count s1 = prefetch_count s"
  shows "handled cfg k s r"
  using assms unfolding handled_def others_kept_def charged_def same_block_def left_hbm_def
  by (auto split: prod.splits)

lemma on_accessed_handled:
  assumes ord: "valid_order ord" and wf: "sim_wf s"
  shows "safely (on_accessed ord cfg step i s) (handled cfg (object_id i) s)"
proof -
  define s1 where "s1 = (if object_id i \<notin> dict_keys (live_blocks s) then put_block i s else s)"
  have wf1: "sim_wf s1" using wf by (auto simp: s1_def intro: put_wf)
  show ?thesis
  proof (cases "dict_get (live_blocks s1) (object_id i)")
    case None
    then show ?thesis by (simp add: on_accessed_def Let_def s1_def [symmetric])
  next
    case (Some b)
    have "safely (serve_access ord cfg step c (s1\<lparr>live_blocks := AList.update (object_id i) c (live_blocks s1)\<rparr>))
        (handled cfg (object_id i) s)" if c: "copy_with (access_update step i) b = Inr c" for c
    proof -
      let ?s2 = "s1\<lparr>live_blocks := AList.update (object_id i) c (live_blocks s1)\<rparr>"
      have id: "object_id c = object_id i"
        using copy_with_object_id [OF c] keyedD [OF sim_wfD(2) [OF wf1] Some] by (simp add: access_update_def)
      have wf2: "sim_wf ?s2" by (rule put_wf [OF wf1, of _ c]) (auto simp: id)
      have "safely (serve_access ord cfg step c ?s2) (handled cfg (object_id i) ?s2)"
        using serve_access_handled [OF ord wf2, of cfg step c] by (simp add: id)
      then show ?thesis
        by (rule safely_mono) (erule handled_put, auto simp: s1_def local_simps)
    qed
    then show ?thesis
      by (simp add: on_accessed_def Let_def s1_def [symmetric] Some)
  qed
qed

text \<open>The handlers that replace the value of the named block and move no data.\<close>

lemma handled_replace:
  assumes wf: "sim_wf s" and id: "object_id b = k"
  shows "handled cfg k s (s\<lparr>live_blocks := AList.update k b (live_blocks s)\<rparr>, base_step_latency_us cfg)"
  by (rule handled_local) (auto simp: id local_simps intro: put_wf [OF wf, of _ b])

lemma handled_idle: "sim_wf s \<Longrightarrow> handled cfg k s (s, base_step_latency_us cfg)"
  by (rule handled_local) simp_all

lemma on_marked_decode_critical_handled:
  assumes wf: "sim_wf s" and ex: "existing = dict_get (live_blocks s) (object_id i)"
  shows "safely (on_marked_decode_critical cfg existing i s) (handled cfg (object_id i) s)"
  using keyedD [OF sim_wfD(2) [OF wf]] ex
  by (auto simp: on_marked_decode_critical_def split: option.splits dest!: copy_with_object_id
      intro!: handled_replace [OF wf])

lemma on_marked_cold_handled:
  assumes wf: "sim_wf s" and ex: "existing = dict_get (live_blocks s) (object_id i)"
  shows "safely (on_marked_cold cfg existing i s) (handled cfg (object_id i) s)"
  using keyedD [OF sim_wfD(2) [OF wf]] ex
  by (auto simp: on_marked_cold_def handled_idle [OF wf] split: option.splits dest!: copy_with_object_id
      intro!: handled_replace [OF wf])

lemma on_committed_handled:
  assumes wf: "sim_wf s" and ex: "existing = dict_get (live_blocks s) (object_id i)"
  shows "safely (on_committed cfg existing i s) (handled cfg (object_id i) s)"
  using keyedD [OF sim_wfD(2) [OF wf]] ex
  by (auto simp: on_committed_def handled_idle [OF wf] split: option.splits dest!: copy_with_object_id
      intro!: handled_replace [OF wf])

lemma on_spilled_handled:
  assumes wf: "sim_wf s" and ex: "existing = dict_get (live_blocks s) k"
  shows "safely (on_spilled cfg existing s) (handled cfg k s)"
proof (cases existing)
  case None
  then show ?thesis by (simp add: on_spilled_def handled_idle [OF wf])
next
  case (Some e)
  then have k: "object_id e = k" using keyedD [OF sim_wfD(2) [OF wf]] ex by simp
  have "handled cfg k s (s\<lparr>hbm_blocks := hbm_blocks s - {k}, dram_blocks := insert k (dram_blocks s),
      live_blocks := AList.update k c (live_blocks s), spill_count := spill_count s + 1\<rparr>,
      base_step_latency_us cfg + spill_latency_us cfg)" if "object_id c = k" for c
    by (rule handled_local) (auto simp: that local_simps intro: put_wf [OF wf, of _ c])
  then show ?thesis
    using Some k by (auto simp: on_spilled_def handled_idle [OF wf] dest!: copy_with_object_id)
qed

lemma handled_remove:
  assumes "sim_wf s" "live_blocks t = live_blocks s" "hbm_blocks t = hbm_blocks s - {k}"
    "dram_blocks t = dram_blocks s - {k}" "latencies t = latencies s" "last_decay_step t = last_decay_step s"
    "miss_count t = miss_count s" "spill_count t = spill_count s" "prefetch_count t = prefetch_count s"
  shows "handled cfg k s (t, base_step_latency_us cfg)"
  by (rule handled_local) (use assms in \<open>auto simp: local_simps intro: sim_wf_shrink\<close>)

lemma on_evicted_handled:
  assumes wf: "sim_wf s" and ex: "existing = dict_get (live_blocks s) k"
  shows "safely (on_evicted cfg existing s) (handled cfg k s)"
  using keyedD [OF sim_wfD(2) [OF wf]] ex
  by (auto simp: on_evicted_def handled_idle [OF wf] split: option.splits intro!: handled_remove [OF wf])

lemma delete_wf:
  "sim_wf s \<Longrightarrow> sim_wf (s\<lparr>live_blocks := AList.delete k (live_blocks s), hbm_blocks := hbm_blocks s - {k},
     dram_blocks := dram_blocks s - {k}\<rparr>)"
  by (auto simp: sim_wf_def dict_keys_delete keyed_delete simp del: fst_conv)

lemma on_freed_handled:
  "sim_wf s \<Longrightarrow> safely (on_freed cfg i s) (handled cfg (object_id i) s)"
  by (simp add: on_freed_def, rule handled_local) (auto simp: delete_wf local_simps)

lemma on_prefetched_handled:
  assumes ord: "valid_order ord" and wf: "sim_wf s"
  shows "safely (on_prefetched ord cfg step i s) (handled cfg (object_id i) s)"
proof (cases "dict_get (live_blocks s) (object_id i)")
  case None
  then show ?thesis by (simp add: on_prefetched_def handled_idle [OF wf])
next
  case (Some b)
  have idb: "object_id b = object_id i" using keyedD [OF sim_wfD(2) [OF wf] Some] .
  have "safely (if should_prefetch (cfg_policy cfg) c step then
        map_option (\<lambda>(t, added). Inr (log_decision cfg step ''prefetch'' c r False t,
            base_step_latency_us cfg + prefetch_latency_us cfg + added))
          (move_to_hbm ord cfg c step ((put_block c s)\<lparr>prefetch_count := prefetch_count (put_block c s) + 1\<rparr>))
      else Some (Inr (put_block c s, base_step_latency_us cfg))) (handled cfg (object_id i) s)"
    if c: "merge_intent PREFETCHED b i = Inr c" for c r
  proof -
    have id: "object_id c = object_id i" using merge_intent_id [OF c] idb by simp
    define m where "m = (put_block c s)\<lparr>prefetch_count := prefetch_count (put_block c s) + 1\<rparr>"
    have wfm: "sim_wf m" by (rule put_wf [OF wf, of _ c]) (auto simp: m_def)
    have same: "j \<noteq> object_id i \<Longrightarrow> same_block s (placed_in_hbm c m) j" for j
      by (simp add: id m_def placed_in_hbm_def local_simps)
    have "safely (map_option (\<lambda>(t, l). Inr (log_decision cfg step ''prefetch'' c r False t,
        base_step_latency_us cfg + prefetch_latency_us cfg + l))
      (move_to_hbm ord cfg c step m)) (handled cfg (object_id i) s)"
      by (rule safely_move [OF ord wfm], subst handled_log, rule settles_handled, assumption, rule same)
        (auto simp: m_def charged_def)
    moreover have "handled cfg (object_id i) s (put_block c s, base_step_latency_us cfg)"
      using handled_replace [OF wf id, of cfg] by (simp add: put_block_def id)
    ultimately show ?thesis by (simp add: m_def)
  qed
  then show ?thesis
    using idb by (auto simp: on_prefetched_def Some handled_idle [OF wf] Let_def)
qed

section \<open>One event\<close>

lemma dispatch_handled:
  assumes ord: "valid_order ord" and wf: "sim_wf s"
    and ex: "existing = dict_get (live_blocks s) (object_id i)"
  shows "safely (dispatch_event ord cfg ev existing i s) (handled cfg (object_id i) s)"
proof (cases "ev_type ev")
  case ALLOCATED
  then show ?thesis by (simp add: dispatch_event_def on_allocated_handled [OF ord wf])
next
  case ACCESSED
  then show ?thesis by (simp add: dispatch_event_def on_accessed_handled [OF ord wf])
next
  case COMMITTED
  then show ?thesis by (simp add: dispatch_event_def on_committed_handled [OF wf ex])
next
  case MARKED_DECODE_CRITICAL
  then show ?thesis by (simp add: dispatch_event_def on_marked_decode_critical_handled [OF wf ex])
next
  case MARKED_COLD
  then show ?thesis by (simp add: dispatch_event_def on_marked_cold_handled [OF wf ex])
next
  case SPILLED
  then show ?thesis by (simp add: dispatch_event_def on_spilled_handled [OF wf ex])
next
  case PREFETCHED
  then show ?thesis by (simp add: dispatch_event_def on_prefetched_handled [OF ord wf])
next
  case MISS
  then show ?thesis by (simp add: dispatch_event_def handled_idle [OF wf])
next
  case EVICTED
  then show ?thesis by (simp add: dispatch_event_def on_evicted_handled [OF wf ex])
next
  case FREED
  then show ?thesis by (simp add: dispatch_event_def on_freed_handled [OF wf])
qed

end
