(* ===== verification/RunLaws.thy ===== *)
theory RunLaws
  imports HandlerLaws
begin

text \<open>
  Whole iterations of the loop of \<open>run\<close>, reachable states, and the invariants of runs: the
  structural invariant, the latency ledger, safety from exceptions, and the capacity bound.
\<close>

section \<open>Decay\<close>

definition aged :: "mintent \<Rightarrow> mintent \<Rightarrow> bool" where
  "aged b c \<longleftrightarrow> (\<exists>r. c = auto_pin (b\<lparr>recency_score := r\<rparr>)) \<or> c = b"

lemma agedD:
  assumes "aged b c"
  shows "object_id c = object_id b" "size_bytes c = size_bytes b" "allowed_tiers c = allowed_tiers b"
    "current_tier c = current_tier b" "pin_requested b \<Longrightarrow> pin_requested c" "priority c = priority b"
    "pin_requested c \<Longrightarrow> pin_requested b \<or> priority b = DECODE_CRITICAL"
  using assms by (auto simp: aged_def pin_requested_auto_pin)

lemma decay_block_aged: "decay_block b = Inr c \<Longrightarrow> aged b c"
  by (auto simp: decay_block_def copy_with_Inr_iff aged_def)

lemma decay_block_valid:
  assumes "valid_intent b" shows "\<exists>c. decay_block b = Inr c \<and> valid_intent c"
proof -
  let ?c = "b\<lparr>recency_score := max (fsub (recency_score b) (fl (3 / 100))) 0\<rparr>"
  have "0 \<le> recency_score b" "recency_score b \<le> 1" using assms by (auto simp: valid_intent_def intent_ranges_def)
  moreover have "0 \<le> fl (3 / 100)" by (rule fl_ge) simp_all
  ultimately have "max (fsub (recency_score b) (fl (3 / 100))) 0 \<le> 1" by (auto intro!: fsub_le)
  then have v: "valid_intent ?c" using assms by (auto simp: valid_intent_def intent_ranges_def)
  then have "decay_block b = Inr ?c" by (simp add: decay_block_def copy_with_def)
  with v show ?thesis by blast
qed

lemma map_r_dict:
  assumes "map_r (\<lambda>(k, b). bind_r (f b) (\<lambda>c. Inr (k, c))) d = Inr d'"
  shows "map fst d' = map fst d" "rel_option (\<lambda>b c. f b = Inr c) (dict_get d j) (dict_get d' j)"
  using assms by (induction d arbitrary: d') (auto simp: bind_r_Inr_iff)

lemma decay_effect:
  assumes "decay step s = Inr t"
  shows "hbm_blocks t = hbm_blocks s" "dram_blocks t = dram_blocks s" "latencies t = latencies s"
    "miss_count t = miss_count s" "spill_count t = spill_count s" "prefetch_count t = prefetch_count s"
    "map fst (live_blocks t) = map fst (live_blocks s)" "last_decay_step t = step"
    "rel_option aged (dict_get (live_blocks s) j) (dict_get (live_blocks t) j)"
proof -
  have "rel_option aged (dict_get (live_blocks s) j) (dict_get (live_blocks s) j)"
    by (auto simp: aged_def intro: option.rel_refl)
  moreover have "rel_option aged x y" if "rel_option (\<lambda>b c. decay_block b = Inr c) x y" for x y
    using that by (rule option.rel_mono_strong) (auto intro: decay_block_aged)
  ultimately show "rel_option aged (dict_get (live_blocks s) j) (dict_get (live_blocks t) j)"
    using assms map_r_dict(2) [of decay_block "live_blocks s"]
    by (auto simp: decay_def bind_r_Inr_iff split: if_splits)
  show "map fst (live_blocks t) = map fst (live_blocks s)"
    using assms map_r_dict(1) [of decay_block "live_blocks s"]
    by (auto simp: decay_def bind_r_Inr_iff split: if_splits)
qed (use assms in \<open>auto simp: decay_def bind_r_Inr_iff split: if_splits\<close>)

lemma rel_option_get: "rel_option R x y \<Longrightarrow> y = Some c \<Longrightarrow> \<exists>b. x = Some b \<and> R b c"
  by (cases x) auto

lemma rel_option_get': "rel_option R x y \<Longrightarrow> x = Some b \<Longrightarrow> \<exists>c. y = Some c \<and> R b c"
  by (cases y) auto

lemma decay_wf:
  assumes "sim_wf s" "decay step s = Inr t" shows "sim_wf t"
proof -
  note D = decay_effect [OF assms(2)]
  have "keyed (live_blocks t)"
    unfolding keyed_def
  proof (intro allI impI)
    fix k c assume "dict_get (live_blocks t) k = Some c"
    then obtain b where "dict_get (live_blocks s) k = Some b" "aged b c" using rel_option_get [OF D(9)] by blast
    then show "object_id c = k" using keyedD [OF sim_wfD(2) [OF assms(1)]] agedD(1) by fastforce
  qed
  moreover have "dict_keys (live_blocks t) = dict_keys (live_blocks s)"
    using D(7) by (metis set_map)
  ultimately show ?thesis using assms(1) D(1,2,7) by (simp add: sim_wf_def)
qed

section \<open>One iteration\<close>

text \<open>A block the event does not name keeps its place and all but its recency, or leaves HBM.\<close>

definition stays :: "sim \<Rightarrow> sim \<Rightarrow> string \<Rightarrow> bool" where
  "stays s t j \<longleftrightarrow> rel_option aged (dict_get (live_blocks s) j) (dict_get (live_blocks t) j)
     \<and> (j \<in> hbm_blocks t \<longleftrightarrow> j \<in> hbm_blocks s) \<and> (j \<in> dram_blocks t \<longleftrightarrow> j \<in> dram_blocks s)"

definition evicted :: "config \<Rightarrow> sim \<Rightarrow> sim \<Rightarrow> string \<Rightarrow> bool" where
  "evicted cfg s t j \<longleftrightarrow> j \<in> hbm_blocks s \<and> j \<notin> hbm_blocks t
     \<and> (\<exists>b. dict_get (live_blocks s) j = Some b \<and> (is_intent_family (cfg_policy cfg) \<longrightarrow> \<not> pin_requested b))"

definition stepped :: "config \<Rightarrow> mevent \<Rightarrow> sim \<Rightarrow> sim \<Rightarrow> bool" where
  "stepped cfg ev s t \<longleftrightarrow> sim_wf t
     \<and> (\<forall>j. j \<noteq> object_id (ev_intent ev) \<longrightarrow> stays s t j \<or> evicted cfg s t j)
     \<and> latencies t = latencies s @ [base_step_latency_us cfg + charged cfg s t]
     \<and> (miss_count s \<le> miss_count t \<and> spill_count s \<le> spill_count t \<and> prefetch_count s \<le> prefetch_count t)
     \<and> last_decay_step t = ev_step ev"

lemma handle_event_cases:
  assumes "handle_event ord cfg ev s = Some (Inr t)"
  obtains i s1 lat s2 where
    "incoming_intent ev (dict_get (live_blocks s) (object_id (ev_intent ev))) = Inr i"
    "dispatch_event ord cfg ev (dict_get (live_blocks s) (object_id (ev_intent ev))) i s = Some (Inr (s1, lat))"
    "decay (ev_step ev) s1 = Inr s2" "t = s2\<lparr>latencies := latencies s2 @ [lat]\<rparr>"
  using assms by (auto simp: handle_event_def Let_def bind_o_Some_Inr_iff)

lemma stays_then_decay:
  assumes "same_block s s1 j" "decay step s1 = Inr t" shows "stays s t j"
  using assms(1) decay_effect(1,2) [OF assms(2)] decay_effect(9) [OF assms(2), of j]
  by (simp add: stays_def same_block_def)

lemma handle_event_stepped:
  assumes ord: "valid_order ord" and wf: "sim_wf s"
  shows "safely (handle_event ord cfg ev s) (stepped cfg ev s)"
proof -
  let ?k = "object_id (ev_intent ev)"
  let ?ex = "dict_get (live_blocks s) ?k"
  have "safely (dispatch_event ord cfg ev ?ex i s) (\<lambda>(s1, lat). \<forall>s2. decay (ev_step ev) s1 = Inr s2
      \<longrightarrow> stepped cfg ev s (s2\<lparr>latencies := latencies s2 @ [lat]\<rparr>))"
    if i: "incoming_intent ev ?ex = Inr i" for i
  proof -
    have k: "object_id i = ?k" by (rule incoming_intent_id [OF i refl sim_wfD(2) [OF wf]])
    have "safely (dispatch_event ord cfg ev ?ex i s) (handled cfg ?k s)"
      using dispatch_handled [OF ord wf, of ?ex i cfg ev] k by simp
    then show ?thesis
    proof (rule safely_mono, clarify)
      fix s1 lat s2
      assume h: "handled cfg ?k s (s1, lat)" and d: "decay (ev_step ev) s1 = Inr s2"
      have wf1: "sim_wf s1" and lat: "lat = base_step_latency_us cfg + charged cfg s s1"
        and fr: "latencies s1 = latencies s" "miss_count s \<le> miss_count s1" "spill_count s \<le> spill_count s1"
          "prefetch_count s \<le> prefetch_count s1" and oth: "others_kept cfg ?k s s1"
        using h by (simp_all add: handled_def)
      note D = decay_effect [OF d]
      have "stays s s2 j \<or> evicted cfg s s2 j" if "j \<noteq> ?k" for j
        using oth that stays_then_decay [OF _ d]
        by (auto simp: others_kept_def evicted_def left_hbm_def D(1))
      then show "stepped cfg ev s (s2\<lparr>latencies := latencies s2 @ [lat]\<rparr>)"
        using decay_wf [OF wf1 d] fr D(3-6,8) lat
        by (simp add: stepped_def stays_def evicted_def charged_def sim_wf_def)
    qed
  qed
  then show ?thesis
    by (auto simp: handle_event_def Let_def case_prod_unfold)
qed

section \<open>Reachable states\<close>

inductive reachable :: "set_order \<Rightarrow> config \<Rightarrow> sim \<Rightarrow> bool" for ord cfg where
  start: "reachable ord cfg init_sim"
| event: "reachable ord cfg s \<Longrightarrow> handle_event ord cfg ev s = Some (Inr t) \<Longrightarrow> reachable ord cfg t"

inductive_cases reachable_cases: "reachable ord cfg s"

lemma run_reachable:
  "reachable ord cfg s \<Longrightarrow> run_events ord cfg es s = Some (Inr t) \<Longrightarrow> reachable ord cfg t"
  by (induction es arbitrary: s) (auto simp: run_events_def bind_o_Some_Inr_iff intro: reachable.event)

lemma reachable_run: "reachable ord cfg s \<Longrightarrow> \<exists>es. run_events ord cfg es init_sim = Some (Inr s)"
proof (induction rule: reachable.induct)
  case start
  have "run_events ord cfg [] init_sim = Some (Inr init_sim)" by (simp add: run_events_def)
  then show ?case by blast
next
  case (event s ev t)
  then obtain es where "run_events ord cfg es init_sim = Some (Inr s)" by blast
  then have "run_events ord cfg (es @ [ev]) init_sim = Some (Inr t)"
    using event.hyps(2) by (simp add: run_events_def fold_o_append)
  then show ?case by blast
qed

section \<open>Invariants of runs\<close>

text \<open>The structural invariant holds after any events: nothing about them is assumed.\<close>

interpretation runs: stepwise "handle_event ord cfg" "\<lambda>_. True" "\<lambda>s. valid_order ord \<and> sim_wf s" for ord cfg
proof
  fix s e assume "valid_order ord \<and> sim_wf s"
  then have o: "valid_order ord" and "safely (handle_event ord cfg e s) (stepped cfg e s)"
    using handle_event_stepped by blast+
  then show "safely (handle_event ord cfg e s) (\<lambda>t. valid_order ord \<and> sim_wf t)"
    by (elim safely_mono) (simp add: stepped_def)
qed

text \<open>The ledger: the latencies add up to what the counters say was done.\<close>

definition ledger :: "config \<Rightarrow> sim \<Rightarrow> bool" where
  "ledger cfg s \<longleftrightarrow> sum_list (latencies s) = base_step_latency_us cfg * int (length (latencies s))
     + charged cfg init_sim s"

lemma init_sim_fields [simp]:
  "live_blocks init_sim = []" "hbm_blocks init_sim = {}" "dram_blocks init_sim = {}" "latencies init_sim = []"
  "miss_count init_sim = 0" "spill_count init_sim = 0" "prefetch_count init_sim = 0"
  "eviction_count init_sim = 0" "decision_log init_sim = []" "actual_peak_hbm_used_bytes init_sim = 0"
  by (simp_all add: init_sim_def)

lemma stepped_ledger: "stepped cfg ev s t \<Longrightarrow> ledger cfg s \<Longrightarrow> ledger cfg t"
  by (simp add: stepped_def ledger_def charged_def algebra_simps)

interpretation ledgers: stepwise "handle_event ord cfg" "\<lambda>_. True"
  "\<lambda>s. (valid_order ord \<and> sim_wf s) \<and> ledger cfg s" for ord cfg
proof
  fix s e assume a: "(valid_order ord \<and> sim_wf s) \<and> ledger cfg s"
  then have "safely (handle_event ord cfg e s) (stepped cfg e s)" using handle_event_stepped by blast
  then show "safely (handle_event ord cfg e s) (\<lambda>t. (valid_order ord \<and> sim_wf t) \<and> ledger cfg t)"
    using a by (elim safely_mono) (simp add: stepped_ledger stepped_def [THEN iffD1])
qed

text \<open>Every latency of a run is at least the base latency when no charge is negative.\<close>

definition costs_nonneg :: "config \<Rightarrow> bool" where
  "costs_nonneg cfg \<longleftrightarrow> 0 \<le> miss_penalty_us cfg \<and> 0 \<le> spill_latency_us cfg \<and> 0 \<le> prefetch_latency_us cfg
     \<and> 0 \<le> base_step_latency_us cfg"

lemma stepped_latency:
  "stepped cfg ev s t \<Longrightarrow> costs_nonneg cfg \<Longrightarrow>
     \<exists>l. latencies t = latencies s @ [l] \<and> base_step_latency_us cfg \<le> l"
  by (simp add: stepped_def charged_def costs_nonneg_def)

lemma reachable_wf: "valid_order ord \<Longrightarrow> reachable ord cfg s \<Longrightarrow> sim_wf s"
  using reachable_run [of ord cfg s] runs.run_safely [of ord init_sim _ cfg]
  by (auto simp: run_events_def dest: safelyD)

lemma reachable_ledger: "valid_order ord \<Longrightarrow> reachable ord cfg s \<Longrightarrow> ledger cfg s"
proof -
  assume ord: "valid_order ord" and "reachable ord cfg s"
  then obtain es where "fold_o (handle_event ord cfg) es init_sim = Some (Inr s)"
    using reachable_run [of ord cfg s] unfolding run_events_def by blast
  moreover have "safely (fold_o (handle_event ord cfg) es init_sim)
      (\<lambda>s. (valid_order ord \<and> sim_wf s) \<and> ledger cfg s)"
    by (rule ledgers.run_safely) (simp_all add: ord ledger_def)
  ultimately show "ledger cfg s" by simp
qed

section \<open>A block the events do not name\<close>

lemma stepped_keeps_pinned:
  assumes st: "stepped cfg ev s t" and fam: "is_intent_family (cfg_policy cfg)"
    and ne: "object_id (ev_intent ev) \<noteq> j"
    and b: "j \<in> hbm_blocks s" "dict_get (live_blocks s) j = Some b" "pin_requested b"
  shows "j \<in> hbm_blocks t \<and> (\<exists>c. dict_get (live_blocks t) j = Some c \<and> pin_requested c \<and> size_bytes c = size_bytes b)"
proof -
  have "stays s t j \<or> evicted cfg s t j" using st ne by (auto simp: stepped_def)
  then have "stays s t j" using b(2,3) fam by (auto simp: evicted_def)
  then obtain c where "dict_get (live_blocks t) j = Some c" "aged b c" "j \<in> hbm_blocks t"
    using rel_option_get' [OF _ b(2)] b(1) by (auto simp: stays_def)
  then show ?thesis using agedD [of b c] b(3) by auto
qed

lemma run_keeps_pinned:
  assumes ord: "valid_order ord" and fam: "is_intent_family (cfg_policy cfg)"
  shows "sim_wf s \<Longrightarrow> \<forall>ev \<in> set es. object_id (ev_intent ev) \<noteq> j
    \<Longrightarrow> j \<in> hbm_blocks s \<Longrightarrow> dict_get (live_blocks s) j = Some b \<Longrightarrow> pin_requested b
    \<Longrightarrow> run_events ord cfg es s = Some (Inr t)
    \<Longrightarrow> j \<in> hbm_blocks t \<and> (\<exists>c. dict_get (live_blocks t) j = Some c \<and> pin_requested c \<and> size_bytes c = size_bytes b)"
proof (induction es arbitrary: s b)
  case (Cons ev es)
  from Cons.prems(6) obtain u where u: "handle_event ord cfg ev s = Some (Inr u)"
    "run_events ord cfg es u = Some (Inr t)" by (auto simp: run_events_def bind_o_Some_Inr_iff)
  have st: "stepped cfg ev s u" using safelyD [OF handle_event_stepped [OF ord Cons.prems(1)] u(1)] .
  have wf: "sim_wf u" using st by (simp add: stepped_def)
  obtain c where c: "j \<in> hbm_blocks u" "dict_get (live_blocks u) j = Some c" "pin_requested c"
    "size_bytes c = size_bytes b"
    using stepped_keeps_pinned [OF st fam _ Cons.prems(3-5)] Cons.prems(2) by auto
  show ?case using Cons.IH [OF wf _ c(1-3) u(2)] Cons.prems(2) c(4) by auto
qed (auto simp: run_events_def)

end
