(* ===== verification/SafetyLaws.thy ===== *)
theory SafetyLaws
  imports RunLaws
begin

text \<open>
  When no event can make the simulator raise: every intent can live in HBM and in some tier below
  it (\<open>routable\<close>). \<open>all_sound\<close> is the invariant (every live block is valid and routable), and each
  handler both succeeds and keeps it.
\<close>

section \<open>Sound blocks\<close>

definition all_sound :: "sim \<Rightarrow> bool" where
  "all_sound s \<longleftrightarrow> (\<forall>k b. dict_get (live_blocks s) k = Some b \<longrightarrow> sound b)"

lemma all_soundD: "all_sound s \<Longrightarrow> dict_get (live_blocks s) k = Some b \<Longrightarrow> sound b"
  by (simp add: all_sound_def)

lemma sound_tier:
  "sound b \<Longrightarrow> t \<in> allowed_tiers b \<Longrightarrow> sound (b\<lparr>current_tier := t\<rparr>)"
  by (auto simp: sound_def routable_def valid_intent_def intent_ranges_def)

lemma merge_update_ranges:
  assumes "sound e" "sound inc"
  shows "intent_ranges (merge_update et inc e)" "routable (merge_update et inc e)"
  using assms by (cases et; auto simp: sound_def routable_def valid_intent_def intent_ranges_def)+

lemma merge_intent_sound:
  "sound e \<Longrightarrow> sound inc \<Longrightarrow> \<exists>c. merge_intent et e inc = Inr c \<and> sound c \<and> object_id c = object_id e"
  using sound_copy [of "merge_update et inc" e] merge_update_ranges by (simp add: merge_intent_def)

lemma incoming_intent_sound:
  assumes "sound (ev_intent ev)" "\<And>e. ex = Some e \<Longrightarrow> sound e"
  shows "\<exists>i. incoming_intent ev ex = Inr i \<and> sound i"
proof -
  have "copy_with id (ev_intent ev) = Inr (ev_intent ev)" using assms(1) by (simp add: sound_def)
  then show ?thesis
    using assms merge_intent_sound [of "the ex" "ev_intent ev" "ev_type ev"]
    by (cases ex) (auto simp: incoming_intent_def)
qed

section \<open>Handlers succeed\<close>

definition succeeds :: "(sim \<times> int) outcome \<Rightarrow> bool" where
  "succeeds m \<longleftrightarrow> (\<exists>t l. m = Some (Inr (t, l)) \<and> all_sound t)"

lemma succeeds_Inr [simp]: "succeeds (Some (Inr (t, l))) = all_sound t"
  by (simp add: succeeds_def)

lemma all_sound_cong: "live_blocks t = live_blocks s \<Longrightarrow> all_sound t = all_sound s"
  by (simp add: all_sound_def)

lemma all_sound_record_usage [simp]: "all_sound (record_usage t) = all_sound t"
  by (rule all_sound_cong) simp

lemma all_sound_log [simp]: "all_sound (log_decision c st a v r d t) = all_sound t"
  by (rule all_sound_cong) (simp add: log_decision_def)

lemma all_sound_put:
  "all_sound s \<Longrightarrow> sound b \<Longrightarrow> live_blocks t = AList.update k b (live_blocks s) \<Longrightarrow> all_sound t"
  unfolding all_sound_def by (intro allI impI) (rule live.put_all [of "live_blocks s" sound b k], auto)

lemma all_sound_delete:
  "all_sound s \<Longrightarrow> live_blocks t = AList.delete k (live_blocks s) \<Longrightarrow> all_sound t"
  unfolding all_sound_def by (intro allI impI) (rule live.del_all [of "live_blocks s" sound k], auto)

lemma settles_sound:
  assumes "settles cfg s t l" "all_sound s" shows "all_sound t"
  unfolding all_sound_def
proof (intro allI impI)
  fix k c assume c: "dict_get (live_blocks t) k = Some c"
  note E = evicted_fromD [OF settlesD(2) [OF assms(1)]]
  show "sound c"
  proof (cases "k \<notin> hbm_blocks s \<or> k \<in> hbm_blocks t")
    case True
    then show ?thesis using E(12) [OF True] c all_soundD [OF assms(2)] by simp
  next
    case False
    then obtain b u where b: "dict_get (live_blocks s) k = Some b" "c = b\<lparr>current_tier := u\<rparr>"
      "u \<in> allowed_tiers b \<or> allowed_tiers b \<subseteq> {HBM}"
      using E(14) [of k] c by (auto simp: left_hbm_def)
    then have "sound b" using all_soundD [OF assms(2)] by blast
    with b show ?thesis by (auto simp: sound_tier) (auto simp: sound_def routable_def)
  qed
qed

lemma succeeds_ensure:
  assumes "valid_order ord" "sim_wf s" "all_sound s" "\<And>t l. all_sound t \<Longrightarrow> all_sound (F t l)"
  shows "succeeds (map_option (\<lambda>(t, l). Inr (F t l, G l)) (ensure_hbm_capacity ord cfg step s))"
  using ensure_settles [OF assms(1,2), of cfg step] settles_sound [OF _ assms(3)] assms(4)
  by (auto simp: succeeds_def)

lemma succeeds_move:
  assumes "valid_order ord" "sim_wf s" "all_sound s" "sound b" "\<And>t l. all_sound t \<Longrightarrow> all_sound (F t l)"
  shows "succeeds (map_option (\<lambda>(t, l). Inr (F t l, G l)) (move_to_hbm ord cfg b step s))"
proof -
  have "sound (b\<lparr>current_tier := HBM\<rparr>)"
    using assms(4) by (intro sound_tier) (auto simp: sound_def routable_def)
  then have "all_sound (placed_in_hbm b s)"
    by (rule all_sound_put [OF assms(3)]) (simp add: placed_in_hbm_def)
  then show ?thesis
    using move_settles [OF assms(1,2), of cfg b step] settles_sound assms(5) by (fastforce simp: succeeds_def)
qed

lemma access_update_ranges:
  "sound b \<Longrightarrow> sound i \<Longrightarrow> intent_ranges (access_update step i b) \<and> routable (access_update step i b)"
  by (auto simp: access_update_def sound_def routable_def valid_intent_def intent_ranges_def)

lemma serve_access_succeeds:
  assumes ord: "valid_order ord" and wf: "sim_wf s" and s: "all_sound s" and b: "sound b"
  shows "succeeds (serve_access ord cfg step b s)"
proof -
  define m where "m = s\<lparr>miss_count := miss_count s + 1,
      decode_critical_misses := decode_critical_misses s + (if is_decode_critical b then 1 else 0)\<rparr>"
  have "sim_wf m" by (rule sim_wf_cong [OF wf]) (simp_all add: m_def)
  moreover have "all_sound m" using s by (simp add: m_def all_sound_def)
  ultimately have "succeeds (map_option (\<lambda>(t, l). Inr (t, base_step_latency_us cfg + miss_penalty_us cfg + l))
      (move_to_hbm ord cfg b step m))" by (intro succeeds_move [OF ord _ _ b])
  then show ?thesis unfolding serve_access_def m_def [symmetric] using s by simp
qed

lemma on_accessed_succeeds:
  assumes ord: "valid_order ord" and wf: "sim_wf s" and s: "all_sound s" and i: "sound i"
  shows "succeeds (on_accessed ord cfg step i s)"
proof -
  define s1 where "s1 = (if object_id i \<notin> dict_keys (live_blocks s) then put_block i s else s)"
  have wf1: "sim_wf s1" using wf by (auto simp: s1_def intro: put_wf)
  have s1: "all_sound s1" using s i by (auto simp: s1_def intro: all_sound_put)
  have "object_id i \<in> dict_keys (live_blocks s1)" by (auto simp: s1_def dict_keys_update simp del: fst_conv)
  then obtain b where b: "dict_get (live_blocks s1) (object_id i) = Some b" using dict_key_Some by metis
  obtain c where c: "copy_with (access_update step i) b = Inr c" "sound c"
    using sound_copy [of "access_update step i" b] access_update_ranges [OF all_soundD [OF s1 b] i] by blast
  have id: "object_id c = object_id i"
    using copy_with_object_id [OF c(1)] keyedD [OF sim_wfD(2) [OF wf1] b] by (simp add: access_update_def)
  let ?s2 = "s1\<lparr>live_blocks := AList.update (object_id i) c (live_blocks s1)\<rparr>"
  have "sim_wf ?s2" by (rule put_wf [OF wf1, of _ c]) (auto simp: id)
  moreover have "all_sound ?s2" by (rule all_sound_put [OF s1 c(2)]) simp
  ultimately have "succeeds (serve_access ord cfg step c ?s2)"
    by (rule serve_access_succeeds [OF ord _ _ c(2)])
  then show ?thesis by (simp add: on_accessed_def Let_def s1_def [symmetric] b c(1))
qed

lemma on_allocated_succeeds:
  assumes ord: "valid_order ord" and wf: "sim_wf s" and s: "all_sound s" and i: "sound i"
  shows "succeeds (on_allocated ord cfg step i s)"
proof -
  define s2 where "s2 = put_block i s\<lparr>peak_hbm_demand_bytes := max (peak_hbm_demand_bytes (put_block i s))
      (hbm_used (put_block i s) + (if current_tier i = HBM then size_bytes i else 0))\<rparr>"
  have s2: "all_sound s2" by (rule all_sound_put [OF s i]) (simp add: s2_def)
  define h where "h = s2\<lparr>hbm_blocks := insert (object_id i) (hbm_blocks s2)\<rparr>"
  have "sim_wf h" by (rule put_wf [OF wf, of _ i]) (auto simp: h_def s2_def)
  moreover have "all_sound h" using s2 by (simp add: h_def all_sound_def)
  ultimately have "succeeds (map_option (\<lambda>(t, l). Inr (record_usage t, base_step_latency_us cfg + l))
      (ensure_hbm_capacity ord cfg step h))" by (intro succeeds_ensure [OF ord]) simp_all
  moreover have "all_sound (s2\<lparr>dram_blocks := insert (object_id i) (dram_blocks s2)\<rparr>)"
    using s2 by (simp add: all_sound_def)
  ultimately show ?thesis unfolding on_allocated_def Let_def s2_def [symmetric] h_def
    using s2 by simp
qed

lemma replace_succeeds:
  assumes "all_sound s" "sound e" "intent_ranges (f e)" "routable (f e)"
    and "\<And>c. live_blocks (F c) = AList.update k c (live_blocks s)"
  shows "succeeds (bind_o (Some (copy_with f e)) (\<lambda>b. Some (Inr (F b, G b))))"
proof -
  obtain c where "copy_with f e = Inr c" "sound c" using sound_copy [of f e] assms(3,4) by blast
  then show ?thesis using all_sound_put [OF assms(1) _ assms(5)] by simp
qed

lemma on_prefetched_succeeds:
  assumes ord: "valid_order ord" and wf: "sim_wf s" and s: "all_sound s" and i: "sound i"
  shows "succeeds (on_prefetched ord cfg step i s)"
proof (cases "dict_get (live_blocks s) (object_id i)")
  case None
  then show ?thesis using s by (simp add: on_prefetched_def)
next
  case (Some b)
  obtain c where c: "merge_intent PREFETCHED b i = Inr c" "sound c"
    using merge_intent_sound [OF all_soundD [OF s Some] i] by blast
  have s1: "all_sound (put_block c s)" by (rule all_sound_put [OF s c(2)]) simp
  define m where "m = (put_block c s)\<lparr>prefetch_count := prefetch_count (put_block c s) + 1\<rparr>"
  have wfm: "sim_wf m" by (rule put_wf [OF wf, of _ c]) (auto simp: m_def)
  have sm: "all_sound m" using s1 by (simp add: m_def all_sound_def)
  have "succeeds (map_option (\<lambda>(t, added). Inr (log_decision cfg step ''prefetch'' c r False t,
      base_step_latency_us cfg + prefetch_latency_us cfg + added)) (move_to_hbm ord cfg c step m))" for r
    by (intro succeeds_move [OF ord wfm sm c(2)]) simp
  then show ?thesis
    using s s1 by (simp add: on_prefetched_def Some c(1) Let_def m_def)
qed

lemma mark_succeeds:
  assumes s: "all_sound s" and i: "sound i" and ex: "\<And>e. ex = Some e \<Longrightarrow> sound e"
  shows "succeeds (on_marked_decode_critical cfg ex i s)" "succeeds (on_marked_cold cfg ex i s)"
    "succeeds (on_committed cfg ex i s)" "succeeds (on_spilled cfg ex s)"
proof -
  show "succeeds (on_marked_decode_critical cfg ex i s)"
  proof (cases ex)
    case None
    show ?thesis unfolding on_marked_decode_critical_def None option.simps
      by (intro replace_succeeds [OF s i, of _ _ "object_id i"])
        (use i in \<open>auto simp: sound_def routable_def valid_intent_def intent_ranges_def\<close>)
  next
    case (Some e)
    show ?thesis unfolding on_marked_decode_critical_def Some option.simps
      by (intro replace_succeeds [OF s ex [OF Some], of _ _ "object_id i"])
        (use i ex [OF Some] in \<open>auto simp: sound_def routable_def valid_intent_def intent_ranges_def\<close>)
  qed
  show "succeeds (on_marked_cold cfg ex i s)"
  proof (cases ex)
    case (Some e)
    show ?thesis unfolding on_marked_cold_def Some option.simps
      by (intro replace_succeeds [OF s ex [OF Some], of _ _ "object_id i"])
        (use i ex [OF Some] in \<open>auto simp: sound_def routable_def valid_intent_def intent_ranges_def\<close>)
  qed (use s in \<open>simp add: on_marked_cold_def\<close>)
  show "succeeds (on_committed cfg ex i s)"
  proof (cases ex)
    case (Some e)
    show ?thesis unfolding on_committed_def Some option.simps
      by (intro replace_succeeds [OF s ex [OF Some], of _ _ "object_id i"])
        (use i ex [OF Some] in \<open>auto simp: sound_def routable_def valid_intent_def intent_ranges_def\<close>)
  qed (use s in \<open>simp add: on_committed_def\<close>)
  show "succeeds (on_spilled cfg ex s)"
  proof (cases "\<exists>e. ex = Some e \<and> DRAM \<in> allowed_tiers e")
    case True
    then obtain e where e: "ex = Some e" "DRAM \<in> allowed_tiers e" by blast
    have "succeeds (bind_o (Some (copy_with (\<lambda>i. i\<lparr>current_tier := DRAM\<rparr>) e)) (\<lambda>updated.
              Some (Inr (s\<lparr>hbm_blocks := hbm_blocks s - {object_id e},
                           dram_blocks := insert (object_id e) (dram_blocks s),
                           live_blocks := AList.update (object_id e) updated (live_blocks s),
                           spill_count := spill_count s + 1\<rparr>,
                         base_step_latency_us cfg + spill_latency_us cfg))))"
      by (rule replace_succeeds [OF s ex [OF e(1)], of _ _ "object_id e"])
        (use e ex [OF e(1)] in \<open>auto simp: sound_def routable_def valid_intent_def intent_ranges_def\<close>)
    with e show ?thesis by (simp add: on_spilled_def)
  qed (use s in \<open>auto simp: on_spilled_def split: option.splits\<close>)
qed

lemma on_evicted_succeeds: "all_sound s \<Longrightarrow> succeeds (on_evicted cfg ex s)"
  by (simp add: on_evicted_def all_sound_def split: option.splits)

lemma on_freed_succeeds: "all_sound s \<Longrightarrow> succeeds (on_freed cfg i s)"
  by (simp add: on_freed_def, rule all_sound_delete) simp_all

lemma dispatch_succeeds:
  assumes "valid_order ord" "sim_wf s" "all_sound s" "sound i" "\<And>e. ex = Some e \<Longrightarrow> sound e"
  shows "succeeds (dispatch_event ord cfg ev ex i s)"
  using on_allocated_succeeds [OF assms(1-4)] on_accessed_succeeds [OF assms(1-4)]
    on_prefetched_succeeds [OF assms(1-4)] mark_succeeds [OF assms(3,4), of ex] assms(5)
    on_evicted_succeeds [OF assms(3)] on_freed_succeeds [OF assms(3)] assms(3)
  by (cases "ev_type ev") (simp_all add: dispatch_event_def)

section \<open>Runs succeed\<close>

lemma aged_sound: "aged b c \<Longrightarrow> valid_intent c \<Longrightarrow> sound b \<Longrightarrow> sound c"
  by (auto simp: sound_def routable_def dest: agedD(3))

lemma decay_sound:
  assumes "sim_wf s" "all_sound s" shows "\<exists>t. decay step s = Inr t \<and> all_sound t"
proof (cases "step = last_decay_step s")
  case True
  with assms show ?thesis by (simp add: decay_def)
next
  case False
  define f where "f = (\<lambda>b. case decay_block b of Inr c \<Rightarrow> c | Inl _ \<Rightarrow> b)"
  have f: "decay_block b = Inr (f b)" "sound (f b)" if "sound b" for b
    using decay_block_valid [of b] that decay_block_aged aged_sound by (auto simp: f_def sound_def) metis
  have "map_r (\<lambda>(k, b). bind_r (decay_block b) (\<lambda>b'. Inr (k, b'))) (live_blocks s)
      = Inr (map (\<lambda>(k, b). (k, f b)) (live_blocks s))"
    by (rule map_r_Inr) (use assms f(1) dict_get_Some_iff [OF sim_wfD(1) [OF assms(1)]] in
        \<open>auto simp: all_sound_def\<close>)
  then have "decay step s = Inr (s\<lparr>live_blocks := map (\<lambda>(k, b). (k, f b)) (live_blocks s), last_decay_step := step\<rparr>)"
    using False by (simp add: decay_def)
  moreover have "all_sound (s\<lparr>live_blocks := map (\<lambda>(k, b). (k, f b)) (live_blocks s), last_decay_step := step\<rparr>)"
    using assms(2) f(2) by (auto simp: all_sound_def dict_map_values)
  ultimately show ?thesis by blast
qed

lemma handle_event_succeeds:
  assumes ord: "valid_order ord" and wf: "sim_wf s" and s: "all_sound s" and ev: "sound (ev_intent ev)"
  shows "\<exists>t. handle_event ord cfg ev s = Some (Inr t) \<and> all_sound t"
proof -
  let ?ex = "dict_get (live_blocks s) (object_id (ev_intent ev))"
  have ex: "sound e" if "?ex = Some e" for e using all_soundD [OF s that] .
  obtain i where i: "incoming_intent ev ?ex = Inr i" "sound i" using incoming_intent_sound [OF ev] ex by blast
  have id: "object_id i = object_id (ev_intent ev)" by (rule incoming_intent_id [OF i(1) refl sim_wfD(2) [OF wf]])
  obtain u l where u: "dispatch_event ord cfg ev ?ex i s = Some (Inr (u, l))" "all_sound u"
    using dispatch_succeeds [OF ord wf s i(2) ex, of ?ex cfg ev] unfolding succeeds_def by blast
  have "safely (dispatch_event ord cfg ev ?ex i s) (handled cfg (object_id i) s)"
    using id by (intro dispatch_handled [OF ord wf]) simp
  then have "sim_wf u" using u(1) by (simp add: handled_def)
  then obtain t where t: "decay (ev_step ev) u = Inr t" "all_sound t" using decay_sound u(2) by blast
  then have "handle_event ord cfg ev s = Some (Inr (t\<lparr>latencies := latencies t @ [l]\<rparr>))"
    by (simp add: handle_event_def i(1) u(1))
  moreover have "all_sound (t\<lparr>latencies := latencies t @ [l]\<rparr>)" using t(2) by (simp add: all_sound_def)
  ultimately show ?thesis by blast
qed

interpretation safe_runs: total_stepwise "handle_event ord cfg" "\<lambda>ev :: mevent. sound (ev_intent ev)"
  "\<lambda>s. valid_order ord \<and> sim_wf s \<and> all_sound s" for ord cfg
proof
  fix s and e :: mevent assume a: "valid_order ord \<and> sim_wf s \<and> all_sound s" "sound (ev_intent e)"
  then obtain t where t: "handle_event ord cfg e s = Some (Inr t)" "all_sound t"
    using handle_event_succeeds by blast
  have "sim_wf t" using safelyD [OF handle_event_stepped t(1)] a by (simp add: stepped_def)
  with t a show "safely (handle_event ord cfg e s) (\<lambda>t. valid_order ord \<and> sim_wf t \<and> all_sound t)" by simp
next
  fix s and e :: mevent and x assume "valid_order ord \<and> sim_wf s \<and> all_sound s" "sound (ev_intent e)"
  then show "handle_event ord cfg e s \<noteq> Some (Inl x)"
    using handle_event_succeeds [of ord s e cfg] by auto
qed

end
