(* ===== verification/CapacityLaws.thy ===== *)
theory CapacityLaws
  imports RunLaws
begin

text \<open>
  When HBM stays within its capacity between events. Only the handlers that place a block in HBM
  run the eviction loop, so a run keeps the bound when the other events cannot push the usage up
  (an allocation names HBM as its tier) and, for the intent policies, cannot unpin a resident
  block: the set \<open>pins\<close> of ids that a run pins is fixed (\<open>steady\<close>).
\<close>

section \<open>Blocks under a fixed set of pins\<close>

definition pin_ok :: "config \<Rightarrow> string set \<Rightarrow> string \<Rightarrow> mintent \<Rightarrow> bool" where
  "pin_ok cfg pins k b \<longleftrightarrow> 0 < size_bytes b \<and> (priority b = DECODE_CRITICAL \<longrightarrow> pin_requested b)
     \<and> (is_intent_family (cfg_policy cfg) \<longrightarrow> pin_requested b \<longrightarrow> k \<in> pins)"

definition blocks_ok :: "config \<Rightarrow> string set \<Rightarrow> sim \<Rightarrow> bool" where
  "blocks_ok cfg pins s \<longleftrightarrow> (\<forall>k b. dict_get (live_blocks s) k = Some b \<longrightarrow> pin_ok cfg pins k b)"

definition steady :: "config \<Rightarrow> string set \<Rightarrow> mevent \<Rightarrow> bool" where
  "steady cfg pins ev \<longleftrightarrow> valid_intent (ev_intent ev)
     \<and> (ev_type ev = ALLOCATED \<longrightarrow> current_tier (ev_intent ev) = HBM)
     \<and> (is_intent_family (cfg_policy cfg) \<longrightarrow>
          (ev_type ev \<in> {ALLOCATED, ACCESSED, PREFETCHED} \<longrightarrow>
             (pin_requested (ev_intent ev) \<longleftrightarrow> object_id (ev_intent ev) \<in> pins))
          \<and> (ev_type ev = MARKED_DECODE_CRITICAL \<longrightarrow> object_id (ev_intent ev) \<in> pins))"

lemma blocks_okD: "blocks_ok cfg pins s \<Longrightarrow> dict_get (live_blocks s) k = Some b \<Longrightarrow> pin_ok cfg pins k b"
  by (simp add: blocks_ok_def)

lemma blocks_ok_cong: "live_blocks t = live_blocks s \<Longrightarrow> blocks_ok cfg pins t = blocks_ok cfg pins s"
  by (simp add: blocks_ok_def)

lemma blocks_ok_put:
  "blocks_ok cfg pins s \<Longrightarrow> pin_ok cfg pins k b \<Longrightarrow> live_blocks t = AList.update k b (live_blocks s)
   \<Longrightarrow> blocks_ok cfg pins t"
  by (auto simp: blocks_ok_def dict_simps split: if_splits)

lemma settles_blocks_ok:
  assumes "settles cfg s t l" "blocks_ok cfg pins s" shows "blocks_ok cfg pins t"
  unfolding blocks_ok_def
proof (intro allI impI)
  fix k c assume c: "dict_get (live_blocks t) k = Some c"
  note E = evicted_fromD [OF settlesD(2) [OF assms(1)]]
  show "pin_ok cfg pins k c"
  proof (cases "k \<notin> hbm_blocks s \<or> k \<in> hbm_blocks t")
    case True
    then show ?thesis using E(12) [OF True] c blocks_okD [OF assms(2)] by simp
  next
    case False
    then obtain b u where b: "dict_get (live_blocks s) k = Some b" "c = b\<lparr>current_tier := u\<rparr>"
      using E(14) [of k] c by (auto simp: left_hbm_def)
    with blocks_okD [OF assms(2) b(1)] show ?thesis by (simp add: pin_ok_def)
  qed
qed

section \<open>The bound\<close>

definition bounded :: "config \<Rightarrow> string set \<Rightarrow> sim \<Rightarrow> bool" where
  "bounded cfg pins s \<longleftrightarrow> settled cfg s \<and> blocks_ok cfg pins s"

lemma settles_bounded:
  "settles cfg s t l \<Longrightarrow> blocks_ok cfg pins s \<Longrightarrow> bounded cfg pins t"
  by (simp add: bounded_def settles_blocks_ok settlesD(3))

text \<open>The bound survives a step that adds no resident, resizes none and unpins none.\<close>

definition resident_kept :: "config \<Rightarrow> sim \<Rightarrow> sim \<Rightarrow> string \<Rightarrow> bool" where
  "resident_kept cfg s t k \<longleftrightarrow> (\<exists>b c. dict_get (live_blocks s) k = Some b \<and> dict_get (live_blocks t) k = Some c
     \<and> size_bytes c = size_bytes b \<and> (is_intent_family (cfg_policy cfg) \<longrightarrow> pin_requested b \<longrightarrow> pin_requested c))"

lemma settled_shrink:
  assumes wf: "sim_wf s" and ok: "blocks_ok cfg pins s" and s: "settled cfg s"
    and sub: "hbm_blocks t \<subseteq> hbm_blocks s" and kept: "\<And>k. k \<in> hbm_blocks t \<Longrightarrow> resident_kept cfg s t k"
  shows "settled cfg t"
proof -
  have "hbm_used t = (\<Sum>k \<in> hbm_blocks t. block_size (live_blocks s) k)"
    unfolding hbm_used_def used_bytes_def
    by (rule sum.cong [OF refl], drule kept) (auto simp: block_size_def resident_kept_def)
  also have "\<dots> \<le> hbm_used s"
    unfolding hbm_used_def used_bytes_def using sim_wfD(3) [OF wf] sub
    by (rule sum_mono2) (auto simp: block_size_def pin_ok_def less_imp_le dest!: blocks_okD [OF ok] split: option.splits)
  finally have used: "hbm_used t \<le> hbm_used s" .
  have pins: "all_residents_pinned t" if "all_residents_pinned s" "is_intent_family (cfg_policy cfg)"
    using that sub kept by (fastforce simp: all_residents_pinned_def resident_kept_def)
  show ?thesis
    using s used pins sub by (auto simp: settled_def within_capacity_def)
qed

lemma bounded_replace:
  assumes wf: "sim_wf s" and s: "bounded cfg pins s" and sub: "hbm_blocks t \<subseteq> hbm_blocks s"
    and live: "live_blocks t = AList.update k c (live_blocks s)" and c: "pin_ok cfg pins k c"
    and k: "k \<in> hbm_blocks t \<Longrightarrow> \<exists>e. dict_get (live_blocks s) k = Some e \<and> size_bytes c = size_bytes e
      \<and> (is_intent_family (cfg_policy cfg) \<longrightarrow> pin_requested e \<longrightarrow> pin_requested c)"
  shows "bounded cfg pins t"
proof -
  have "resident_kept cfg s t j" if "j \<in> hbm_blocks t" for j
  proof -
    have "j \<in> dict_keys (live_blocks s)" using that sub sim_wfD(5) [OF wf] by blast
    then obtain b where "dict_get (live_blocks s) j = Some b" using dict_key_Some by metis
    then show ?thesis using k that by (auto simp: resident_kept_def live dict_simps)
  qed
  then show ?thesis
    using settled_shrink [OF wf _ _ sub] s blocks_ok_put [OF _ c live] by (auto simp: bounded_def)
qed

lemma bounded_shrink:
  assumes wf: "sim_wf s" and s: "bounded cfg pins s" and sub: "hbm_blocks t \<subseteq> hbm_blocks s"
    and live: "\<And>k b. dict_get (live_blocks t) k = Some b \<Longrightarrow> dict_get (live_blocks s) k = Some b"
    and res: "hbm_blocks t \<subseteq> dict_keys (live_blocks t)"
  shows "bounded cfg pins t"
proof -
  have "resident_kept cfg s t j" if "j \<in> hbm_blocks t" for j
  proof -
    have "j \<in> dict_keys (live_blocks t)" using that res by blast
    then obtain b where "dict_get (live_blocks t) j = Some b" using dict_key_Some by metis
    then show ?thesis using live by (auto simp: resident_kept_def)
  qed
  then show ?thesis
    using settled_shrink [OF wf _ _ sub] s live by (auto simp: bounded_def blocks_ok_def)
qed

lemma bounded_record_usage [simp]: "bounded cfg pins (record_usage t) = bounded cfg pins t"
  by (simp add: bounded_def blocks_ok_def)

lemma bounded_log [simp]: "bounded cfg pins (log_decision c st a v r d t) = bounded cfg pins t"
  by (simp add: bounded_def blocks_ok_def log_decision_def settled_def within_capacity_def
      all_residents_pinned_def hbm_used_def)

section \<open>Handlers keep the bound\<close>

lemma serve_access_bounded:
  assumes ord: "valid_order ord" and wf: "sim_wf s" and ok: "blocks_ok cfg pins s"
    and c: "pin_ok cfg pins (object_id c) c" and hit: "object_id c \<in> hbm_blocks s \<Longrightarrow> bounded cfg pins s"
  shows "safely (serve_access ord cfg step c s) (\<lambda>(t, l). bounded cfg pins t)"
proof -
  define m where "m = s\<lparr>miss_count := miss_count s + 1,
      decode_critical_misses := decode_critical_misses s + (if is_decode_critical c then 1 else 0)\<rparr>"
  have wfm: "sim_wf m" by (rule sim_wf_cong [OF wf]) (simp_all add: m_def)
  have "blocks_ok cfg pins (placed_in_hbm c m)"
    by (rule blocks_ok_put [OF ok, of _ "c\<lparr>current_tier := HBM\<rparr>"])
      (use c in \<open>auto simp: m_def placed_in_hbm_def pin_ok_def\<close>)
  then have "safely (map_option (\<lambda>(t, l). Inr (t, base_step_latency_us cfg + miss_penalty_us cfg + l))
      (move_to_hbm ord cfg c step m)) (\<lambda>(t, l). bounded cfg pins t)"
    by (intro safely_move [OF ord wfm]) (auto intro: settles_bounded)
  then show ?thesis unfolding serve_access_def m_def [symmetric] using hit by simp
qed

lemma steady_incoming:
  assumes st: "steady cfg pins ev" and i: "incoming_intent ev ex = Inr i"
  shows "valid_intent i"
    "ev_type ev \<in> {ALLOCATED, ACCESSED, PREFETCHED} \<Longrightarrow> pin_requested i = pin_requested (ev_intent ev)"
    "ev_type ev = ALLOCATED \<Longrightarrow> current_tier i = current_tier (ev_intent ev)"
    "ex = None \<Longrightarrow> i = ev_intent ev"
proof -
  have v: "valid_intent (ev_intent ev)" using st by (simp add: steady_def)
  show "valid_intent i" by (rule incoming_intent_valid [OF i])
  have e: "i = (case ex of None \<Rightarrow> ev_intent ev | Some e \<Rightarrow> auto_pin (merge_update (ev_type ev) (ev_intent ev) e))"
    using i v by (auto simp: incoming_intent_def merge_intent_def copy_with_Inr_iff split: option.splits)
  then show "ex = None \<Longrightarrow> i = ev_intent ev" by simp
  show "ev_type ev \<in> {ALLOCATED, ACCESSED, PREFETCHED} \<Longrightarrow> pin_requested i = pin_requested (ev_intent ev)"
    using e v by (auto simp: pin_requested_auto_pin valid_intent_def split: option.splits)
  show "ev_type ev = ALLOCATED \<Longrightarrow> current_tier i = current_tier (ev_intent ev)"
    using e by (auto split: option.splits)
qed

text \<open>A valid block pins what the events pin.\<close>

lemma valid_pin_ok:
  "valid_intent b \<Longrightarrow> (is_intent_family (cfg_policy cfg) \<longrightarrow> pin_requested b \<longrightarrow> k \<in> pins) \<Longrightarrow> pin_ok cfg pins k b"
  by (auto simp: pin_ok_def valid_intent_def intent_ranges_def)

lemma copy_pin_ok:
  assumes "copy_with f e = Inr c"
    and "is_intent_family (cfg_policy cfg) \<longrightarrow> pin_requested (f e) \<or> priority (f e) = DECODE_CRITICAL \<longrightarrow> k \<in> pins"
  shows "pin_ok cfg pins k c"
  using assms copy_with_valid [OF assms(1)]
  by (intro valid_pin_ok) (auto simp: copy_with_Inr_iff pin_requested_auto_pin)

lemma on_accessed_bounded:
  assumes ord: "valid_order ord" and wf: "sim_wf s" and s: "bounded cfg pins s" and v: "valid_intent i"
    and pin: "is_intent_family (cfg_policy cfg) \<Longrightarrow> pin_requested i \<longleftrightarrow> object_id i \<in> pins"
  shows "safely (on_accessed ord cfg step i s) (\<lambda>(t, l). bounded cfg pins t)"
proof -
  let ?k = "object_id i"
  have ok: "blocks_ok cfg pins s" using s by (simp add: bounded_def)
  define s1 where "s1 = (if ?k \<notin> dict_keys (live_blocks s) then put_block i s else s)"
  have wf1: "sim_wf s1" using wf by (auto simp: s1_def intro: put_wf)
  have ok1: "blocks_ok cfg pins s1"
    using ok blocks_ok_put [OF ok, of ?k i "put_block i s"] valid_pin_ok [OF v, of cfg ?k pins] pin
    by (auto simp: s1_def)
  show ?thesis
  proof (cases "dict_get (live_blocks s1) ?k")
    case None
    then show ?thesis by (simp add: on_accessed_def Let_def s1_def [symmetric])
  next
    case (Some b)
    have "safely (serve_access ord cfg step c (s1\<lparr>live_blocks := AList.update ?k c (live_blocks s1)\<rparr>))
        (\<lambda>(t, l). bounded cfg pins t)" if c: "copy_with (access_update step i) b = Inr c" for c
    proof -
      let ?s2 = "s1\<lparr>live_blocks := AList.update ?k c (live_blocks s1)\<rparr>"
      have id: "object_id c = ?k"
        using copy_with_object_id [OF c] keyedD [OF sim_wfD(2) [OF wf1] Some] by (simp add: access_update_def)
      have f: "size_bytes c = size_bytes b" "pin_requested c \<longleftrightarrow> pin_requested i"
        using c v by (auto simp: copy_with_Inr_iff access_update_def pin_requested_auto_pin valid_intent_def)
      have c_ok: "pin_ok cfg pins ?k c" using copy_with_valid [OF c] pin f(2) by (intro valid_pin_ok) auto
      have wf2: "sim_wf ?s2" by (rule put_wf [OF wf1, of _ c]) (auto simp: id)
      have ok2: "blocks_ok cfg pins ?s2" by (rule blocks_ok_put [OF ok1 c_ok]) simp
      have "bounded cfg pins ?s2" if res: "?k \<in> hbm_blocks ?s2"
      proof -
        have "?k \<in> dict_keys (live_blocks s)" using res sim_wfD(5) [OF wf] by (auto simp: s1_def split: if_splits)
        then have s1: "s1 = s" by (simp add: s1_def)
        show ?thesis
          by (rule bounded_replace [OF wf s _ _ c_ok])
            (use Some f pin blocks_okD [OF ok1 Some] in \<open>auto simp: s1 pin_ok_def\<close>)
      qed
      then show ?thesis using serve_access_bounded [OF ord wf2 ok2, of c step] c_ok by (simp add: id)
    qed
    then show ?thesis by (simp add: on_accessed_def Let_def s1_def [symmetric] Some)
  qed
qed

lemma on_allocated_bounded:
  assumes ord: "valid_order ord" and wf: "sim_wf s" and s: "bounded cfg pins s" and i: "pin_ok cfg pins (object_id i) i"
    and hbm: "current_tier i = HBM"
  shows "safely (on_allocated ord cfg step i s) (\<lambda>(t, l). bounded cfg pins t)"
proof -
  have ok: "blocks_ok cfg pins s" using s by (simp add: bounded_def)
  define h where "h = put_block i s\<lparr>peak_hbm_demand_bytes := max (peak_hbm_demand_bytes (put_block i s))
      (hbm_used (put_block i s) + size_bytes i), hbm_blocks := insert (object_id i) (hbm_blocks s)\<rparr>"
  have "sim_wf h" by (rule put_wf [OF wf, of _ i]) (auto simp: h_def)
  moreover have "blocks_ok cfg pins h" by (rule blocks_ok_put [OF ok i]) (simp add: h_def)
  ultimately have "safely (map_option (\<lambda>(t, l). Inr (record_usage t, base_step_latency_us cfg + l))
      (ensure_hbm_capacity ord cfg step h)) (\<lambda>(t, l). bounded cfg pins t)"
    by (intro safely_ensure [OF ord]) (auto intro: settles_bounded)
  then show ?thesis by (simp add: on_allocated_def Let_def hbm h_def)
qed

lemma on_prefetched_bounded:
  assumes ord: "valid_order ord" and wf: "sim_wf s" and s: "bounded cfg pins s" and v: "valid_intent i"
    and pin: "is_intent_family (cfg_policy cfg) \<Longrightarrow> pin_requested i \<longleftrightarrow> object_id i \<in> pins"
  shows "safely (on_prefetched ord cfg step i s) (\<lambda>(t, l). bounded cfg pins t)"
proof (cases "dict_get (live_blocks s) (object_id i)")
  case None
  then show ?thesis using s by (simp add: on_prefetched_def)
next
  case (Some b)
  have ok: "blocks_ok cfg pins s" using s by (simp add: bounded_def)
  have idb: "object_id b = object_id i" using keyedD [OF sim_wfD(2) [OF wf] Some] .
  have "safely (if should_prefetch (cfg_policy cfg) c step then
        map_option (\<lambda>(t, added). Inr (log_decision cfg step ''prefetch'' c r False t,
            base_step_latency_us cfg + prefetch_latency_us cfg + added))
          (move_to_hbm ord cfg c step ((put_block c s)\<lparr>prefetch_count := prefetch_count (put_block c s) + 1\<rparr>))
      else Some (Inr (put_block c s, base_step_latency_us cfg))) (\<lambda>(t, l). bounded cfg pins t)"
    if c: "merge_intent PREFETCHED b i = Inr c" and nr: "object_id i \<notin> hbm_blocks s" for c r
  proof -
    have id: "object_id c = object_id i" using merge_intent_id [OF c] idb by simp
    have c_ok: "pin_ok cfg pins (object_id i) c"
      using c v pin by (auto simp: merge_intent_def valid_intent_def intro!: copy_pin_ok)
    define m where "m = (put_block c s)\<lparr>prefetch_count := prefetch_count (put_block c s) + 1\<rparr>"
    have wfm: "sim_wf m" by (rule put_wf [OF wf, of _ c]) (auto simp: m_def)
    have "blocks_ok cfg pins m" by (rule blocks_ok_put [OF ok c_ok]) (simp add: m_def id)
    then have "blocks_ok cfg pins (placed_in_hbm c m)"
      by (rule blocks_ok_put [of _ _ _ "object_id i" "c\<lparr>current_tier := HBM\<rparr>"])
        (use c_ok in \<open>auto simp: placed_in_hbm_def pin_ok_def id\<close>)
    then have "safely (map_option (\<lambda>(t, added). Inr (log_decision cfg step ''prefetch'' c r False t,
        base_step_latency_us cfg + prefetch_latency_us cfg + added))
      (move_to_hbm ord cfg c step m)) (\<lambda>(t, l). bounded cfg pins t)"
      by (intro safely_move [OF ord wfm]) (auto intro: settles_bounded)
    moreover have "bounded cfg pins (put_block c s)"
      by (rule bounded_replace [OF wf s _ _ c_ok]) (use nr in \<open>auto simp: id\<close>)
    ultimately show ?thesis by (simp add: m_def)
  qed
  then show ?thesis using idb s by (auto simp: on_prefetched_def Some Let_def)
qed

lemma replace_bounded:
  assumes wf: "sim_wf s" and s: "bounded cfg pins s" and c: "copy_with f e = Inr c"
    and e: "dict_get (live_blocks s) k = Some e" and live: "live_blocks t = AList.update k c (live_blocks s)"
    and sub: "hbm_blocks t \<subseteq> hbm_blocks s" and size: "size_bytes (f e) = size_bytes e"
    and keep: "pin_requested e \<Longrightarrow> pin_requested (f e)"
    and pin: "is_intent_family (cfg_policy cfg) \<Longrightarrow> pin_requested (f e) \<or> priority (f e) = DECODE_CRITICAL
      \<Longrightarrow> pin_requested e \<or> k \<in> pins"
  shows "bounded cfg pins t"
proof -
  have e_ok: "pin_ok cfg pins k e" using blocks_okD [OF _ e] s by (simp add: bounded_def)
  then have "pin_ok cfg pins k c" using pin by (intro copy_pin_ok [OF c]) (auto simp: pin_ok_def)
  then show ?thesis
    by (rule bounded_replace [OF wf s sub live])
      (use c e size keep in \<open>auto simp: copy_with_Inr_iff pin_requested_auto_pin\<close>)
qed

lemma mark_bounded:
  assumes wf: "sim_wf s" and s: "bounded cfg pins s" and ex: "ex = dict_get (live_blocks s) (object_id i)"
  shows "safely (on_marked_cold cfg ex i s) (\<lambda>(t, l). bounded cfg pins t)"
    "safely (on_committed cfg ex i s) (\<lambda>(t, l). bounded cfg pins t)"
    "safely (on_spilled cfg ex s) (\<lambda>(t, l). bounded cfg pins t)"
    "safely (on_evicted cfg ex s) (\<lambda>(t, l). bounded cfg pins t)"
    "safely (on_freed cfg i s) (\<lambda>(t, l). bounded cfg pins t)"
proof -
  have ok: "blocks_ok cfg pins s" using s by (simp add: bounded_def)
  have crit: "pin_requested e" if "ex = Some e" "priority e = DECODE_CRITICAL" for e
    using blocks_okD [OF ok, of "object_id i" e] that ex by (simp add: pin_ok_def)
  have id: "object_id e = object_id i" if "ex = Some e" for e
    using keyedD [OF sim_wfD(2) [OF wf]] that ex by simp
  show "safely (on_marked_cold cfg ex i s) (\<lambda>(t, l). bounded cfg pins t)"
    using ex s by (auto simp: on_marked_cold_def split: option.splits intro: replace_bounded [OF wf s])
  show "safely (on_committed cfg ex i s) (\<lambda>(t, l). bounded cfg pins t)"
    using ex s crit by (auto simp: on_committed_def split: option.splits intro: replace_bounded [OF wf s])
  show "safely (on_spilled cfg ex s) (\<lambda>(t, l). bounded cfg pins t)"
  proof (cases "\<exists>e. ex = Some e \<and> DRAM \<in> allowed_tiers e")
    case True
    then obtain e where e: "ex = Some e" "DRAM \<in> allowed_tiers e" by blast
    have g: "dict_get (live_blocks s) (object_id e) = Some e" using ex e(1) id [OF e(1)] by simp
    note ce = crit [OF e(1)]
    have "bounded cfg pins (s\<lparr>hbm_blocks := hbm_blocks s - {object_id e},
        dram_blocks := insert (object_id e) (dram_blocks s),
        live_blocks := AList.update (object_id e) c (live_blocks s), spill_count := spill_count s + 1\<rparr>)"
      if c: "copy_with (\<lambda>i. i\<lparr>current_tier := DRAM\<rparr>) e = Inr c" for c
      by (rule replace_bounded [OF wf s c, of "object_id e"]) (use g ce in auto)
    with e show ?thesis by (simp add: on_spilled_def)
  qed (use s in \<open>auto simp: on_spilled_def split: option.splits\<close>)
  show "safely (on_evicted cfg ex s) (\<lambda>(t, l). bounded cfg pins t)"
    using s sim_wfD(5) [OF wf]
    by (auto simp: on_evicted_def split: option.splits intro!: bounded_shrink [OF wf s])
  show "safely (on_freed cfg i s) (\<lambda>(t, l). bounded cfg pins t)"
    using sim_wfD(5) [OF wf]
    by (auto simp: on_freed_def dict_simps intro!: bounded_shrink [OF wf s] split: if_splits simp del: fst_conv)
qed

lemma mark_critical_bounded:
  assumes wf: "sim_wf s" and s: "bounded cfg pins s" and ex: "ex = dict_get (live_blocks s) (object_id i)"
    and v: "valid_intent i" and pin: "is_intent_family (cfg_policy cfg) \<Longrightarrow> object_id i \<in> pins"
  shows "safely (on_marked_decode_critical cfg ex i s) (\<lambda>(t, l). bounded cfg pins t)"
proof (cases ex)
  case None
  then have nr: "object_id i \<notin> hbm_blocks s"
    using ex sim_wfD(5) [OF wf] by (auto simp: dict_get_None_iff simp del: fst_conv)
  show ?thesis
    using None nr pin
    by (auto simp: on_marked_decode_critical_def intro!: bounded_replace [OF wf s _ _ copy_pin_ok])
next
  case (Some e)
  then show ?thesis using ex pin
    by (auto simp: on_marked_decode_critical_def intro: replace_bounded [OF wf s])
qed

section \<open>Runs keep the bound\<close>

lemma dispatch_bounded:
  assumes ord: "valid_order ord" and wf: "sim_wf s" and s: "bounded cfg pins s" and st: "steady cfg pins ev"
    and ex: "ex = dict_get (live_blocks s) (object_id (ev_intent ev))" and i: "incoming_intent ev ex = Inr i"
  shows "safely (dispatch_event ord cfg ev ex i s) (\<lambda>(t, l). bounded cfg pins t)"
proof -
  note I = steady_incoming [OF st i]
  have id: "object_id i = object_id (ev_intent ev)" by (rule incoming_intent_id [OF i ex sim_wfD(2) [OF wf]])
  have exi: "ex = dict_get (live_blocks s) (object_id i)" by (simp add: ex id)
  note marks = mark_bounded [OF wf s exi]
  have pins: "pin_requested i \<longleftrightarrow> object_id i \<in> pins"
    if "ev_type ev \<in> {ALLOCATED, ACCESSED, PREFETCHED}" "is_intent_family (cfg_policy cfg)"
    using I(2) that st by (auto simp: steady_def id)
  show ?thesis
  proof (cases "ev_type ev")
    case ALLOCATED
    have "pin_ok cfg pins (object_id i) i" using pins ALLOCATED by (intro valid_pin_ok I(1)) auto
    moreover have "current_tier i = HBM" using I(3) st ALLOCATED by (simp add: steady_def)
    ultimately show ?thesis using on_allocated_bounded [OF ord wf s] by (simp add: dispatch_event_def ALLOCATED)
  next
    case ACCESSED
    with on_accessed_bounded [OF ord wf s I(1)] pins show ?thesis by (simp add: dispatch_event_def)
  next
    case PREFETCHED
    with on_prefetched_bounded [OF ord wf s I(1)] pins show ?thesis by (simp add: dispatch_event_def)
  next
    case MARKED_DECODE_CRITICAL
    then have "is_intent_family (cfg_policy cfg) \<Longrightarrow> object_id i \<in> pins" using st by (simp add: steady_def id)
    with mark_critical_bounded [OF wf s exi I(1)] MARKED_DECODE_CRITICAL show ?thesis
      by (simp add: dispatch_event_def)
  qed (use marks s in \<open>simp_all add: dispatch_event_def\<close>)
qed

lemma decay_bounded:
  assumes wf: "sim_wf s" and s: "bounded cfg pins s" and d: "decay step s = Inr t"
  shows "bounded cfg pins t"
proof -
  note D = decay_effect [OF d]
  have ok: "blocks_ok cfg pins s" using s by (simp add: bounded_def)
  have old: "\<exists>b. dict_get (live_blocks s) k = Some b \<and> aged b c" if "dict_get (live_blocks t) k = Some c" for k c
    using rel_option_get [OF D(9) that] by blast
  have "blocks_ok cfg pins t" unfolding blocks_ok_def
  proof (intro allI impI)
    fix k c assume "dict_get (live_blocks t) k = Some c"
    from old [OF this] obtain b where b: "dict_get (live_blocks s) k = Some b" "aged b c" by blast
    show "pin_ok cfg pins k c"
      using blocks_okD [OF ok b(1)] agedD(2,5,6,7) [OF b(2)] by (auto simp: pin_ok_def)
  qed
  moreover have "settled cfg t"
  proof (rule settled_shrink [OF wf ok])
    fix k assume "k \<in> hbm_blocks t"
    then have "k \<in> dict_keys (live_blocks s)" using D(1) sim_wfD(5) [OF wf] by auto
    then obtain b where b: "dict_get (live_blocks s) k = Some b" using dict_key_Some by metis
    then obtain c where "dict_get (live_blocks t) k = Some c" "aged b c" using rel_option_get' [OF D(9)] by blast
    with b show "resident_kept cfg s t k" using agedD(2,5) by (auto simp: resident_kept_def)
  qed (use s D(1) in \<open>auto simp: bounded_def\<close>)
  ultimately show ?thesis by (simp add: bounded_def)
qed

lemma handle_event_bounded:
  assumes ord: "valid_order ord" and wf: "sim_wf s" and s: "bounded cfg pins s" and st: "steady cfg pins ev"
  shows "safely (handle_event ord cfg ev s) (bounded cfg pins)"
proof -
  let ?ex = "dict_get (live_blocks s) (object_id (ev_intent ev))"
  have "bounded cfg pins (s2\<lparr>latencies := latencies s2 @ [l]\<rparr>)"
    if i: "incoming_intent ev ?ex = Inr i" and u: "dispatch_event ord cfg ev ?ex i s = Some (Inr (u, l))"
      and d: "decay (ev_step ev) u = Inr s2" for i u l s2
  proof -
    have id: "object_id i = object_id (ev_intent ev)" by (rule incoming_intent_id [OF i refl sim_wfD(2) [OF wf]])
    have "sim_wf u" using safelyD [OF dispatch_handled [OF ord wf, of ?ex i] u] id by (simp add: handled_def)
    moreover have "bounded cfg pins u" using safelyD [OF dispatch_bounded [OF ord wf s st refl i] u] by simp
    ultimately have "bounded cfg pins s2" using decay_bounded d by blast
    then show ?thesis
      by (simp add: bounded_def blocks_ok_def settled_def within_capacity_def hbm_used_def all_residents_pinned_def)
  qed
  moreover have "handle_event ord cfg ev s \<noteq> None" using safely_defined [OF handle_event_stepped [OF ord wf]] .
  ultimately show ?thesis
    by (cases "handle_event ord cfg ev s") (auto elim!: handle_event_cases)
qed

interpretation bounded_runs: stepwise "handle_event ord cfg" "steady cfg pins"
  "\<lambda>s. valid_order ord \<and> sim_wf s \<and> bounded cfg pins s" for ord cfg pins
proof
  fix s e assume a: "valid_order ord \<and> sim_wf s \<and> bounded cfg pins s" "steady cfg pins e"
  have "safely (handle_event ord cfg e s) (stepped cfg e s)" using handle_event_stepped a by blast
  moreover have "safely (handle_event ord cfg e s) (bounded cfg pins)" using handle_event_bounded a by blast
  ultimately show "safely (handle_event ord cfg e s) (\<lambda>t. valid_order ord \<and> sim_wf t \<and> bounded cfg pins t)"
    using a by (auto simp: safely_def stepped_def split: option.splits)
qed

lemma bounded_init: "bounded cfg pins init_sim"
  by (simp add: bounded_def blocks_ok_def settled_def)

lemma bounded_capacity:
  assumes s: "bounded cfg pins s" and wf: "sim_wf s" and cap: "0 \<le> hbm_capacity_bytes cfg"
    and over: "hbm_capacity_bytes cfg < hbm_used s"
  shows "is_intent_family (cfg_policy cfg)" "all_residents_pinned s" "hbm_blocks s \<subseteq> pins"
proof -
  have "hbm_used s = 0" if "hbm_blocks s = {}" using that by (simp add: hbm_used_def used_bytes_def)
  then show fam: "is_intent_family (cfg_policy cfg)" and all: "all_residents_pinned s"
    using s cap over by (auto simp: bounded_def settled_def within_capacity_def)
  show "hbm_blocks s \<subseteq> pins"
  proof
    fix k assume k: "k \<in> hbm_blocks s"
    then have "k \<in> dict_keys (live_blocks s)" using sim_wfD(5) [OF wf] by blast
    then obtain b where b: "dict_get (live_blocks s) k = Some b" using dict_key_Some by metis
    then have "pin_requested b" using all k by (simp add: all_residents_pinned_def)
    then show "k \<in> pins" using blocks_okD [OF _ b, of cfg pins] s fam by (simp add: bounded_def pin_ok_def)
  qed
qed

end
