(* ===== verification/SimulatorProps.thy ===== *)
theory SimulatorProps
  imports SafetyLaws CapacityLaws
begin

text \<open>
  The correctness properties of the simulator, each a consequence of the laws of the eviction loop
  and of the invariants of runs. The concrete states and events of the witnesses come first.
\<close>

section \<open>Sample states and events\<close>

lemma valid_sorted_order [simp]: "valid_order sorted_order"
  by (simp add: valid_order_def sorted_order_def)

definition sample_state :: "mintent \<Rightarrow> sim" where
  "sample_state b = init_sim\<lparr>live_blocks := [(object_id b, b)], hbm_blocks := {object_id b}\<rparr>"

lemma sample_state_wf [simp]: "sim_wf (sample_state b)"
  by (simp add: sample_state_def sim_wf_def keyed_def)

lemma sample_state_fields [simp]:
  "hbm_blocks (sample_state b) = {object_id b}" "live_blocks (sample_state b) = [(object_id b, b)]"
  "dram_blocks (sample_state b) = {}" "last_decay_step (sample_state b) = -1"
  "latencies (sample_state b) = []" "spill_count (sample_state b) = 0" "eviction_count (sample_state b) = 0"
  by (simp_all add: sample_state_def) (simp_all add: init_sim_def)

definition sample_event :: "event_type \<Rightarrow> mintent \<Rightarrow> mevent" where
  "sample_event et b = \<lparr>ev_step = 0, ev_type = et, ev_intent = b, ev_reason = None, ev_latency_us = None\<rparr>"

lemma sample_event_fields [simp]:
  "ev_step (sample_event et b) = 0" "ev_type (sample_event et b) = et" "ev_intent (sample_event et b) = b"
  by (simp_all add: sample_event_def)

lemma sample_sound [simp]: "sound cold_block" "sound critical_block"
  by (simp_all add: sound_def routable_def) (simp_all add: cold_block_def critical_block_def sample_intent_def)

lemma sample_fields [simp]:
  "size_bytes cold_block = 1024" "size_bytes critical_block = 1024" "allowed_tiers cold_block = {HBM, DRAM}"
  "allowed_tiers critical_block = {HBM, DRAM}" "current_tier cold_block = HBM" "current_tier critical_block = HBM"
  by (simp_all add: cold_block_def critical_block_def sample_intent_def)

lemma sample_state_sound [simp]: "sound b \<Longrightarrow> all_sound (sample_state b)"
  by (simp add: all_sound_def)

lemma default_config_fields [simp]:
  "cfg_policy (default_config p h d) = p" "hbm_capacity_bytes (default_config p h d) = h"
  "dram_capacity_bytes (default_config p h d) = d" "spill_latency_us (default_config p h d) = 200"
  "miss_penalty_us (default_config p h d) = 5000" "prefetch_latency_us (default_config p h d) = 100"
  "base_step_latency_us (default_config p h d) = 50"
  by (simp_all add: default_config_def)

section \<open>Lemmas on whole runs\<close>

lemma run_events_latencies:
  assumes ord: "valid_order ord"
  shows "sim_wf s \<Longrightarrow> run_events ord cfg es s = Some (Inr t) \<Longrightarrow>
    sim_wf t \<and> (\<exists>ls. latencies t = latencies s @ ls \<and> length ls = length es
      \<and> (costs_nonneg cfg \<longrightarrow> (\<forall>l \<in> set ls. base_step_latency_us cfg \<le> l)))"
proof (induction es arbitrary: s)
  case (Cons e es)
  then obtain u where u: "handle_event ord cfg e s = Some (Inr u)" "run_events ord cfg es u = Some (Inr t)"
    by (auto simp: run_events_def bind_o_Some_Inr_iff)
  have st: "stepped cfg e s u" by (rule safelyD [OF handle_event_stepped [OF ord Cons.prems(1)] u(1)])
  then obtain l where l: "latencies u = latencies s @ [l]" "costs_nonneg cfg \<longrightarrow> base_step_latency_us cfg \<le> l"
    using stepped_latency [OF st] by (auto simp: stepped_def)
  have "sim_wf u" using st by (simp add: stepped_def)
  from Cons.IH [OF this u(2)] obtain ls where ls: "sim_wf t" "latencies t = latencies u @ ls"
    "length ls = length es" "costs_nonneg cfg \<longrightarrow> (\<forall>l \<in> set ls. base_step_latency_us cfg \<le> l)" by blast
  show ?case using ls l by (intro conjI exI [of _ "l # ls"]) auto
qed (auto simp: run_events_def)

lemma run_cases:
  assumes "run ord cfg es s = Some (Inr (t, r))"
  shows "run_events ord cfg es s = Some (Inr t)" "simulation_summary cfg es t = Inr r"
  using assms by (auto simp: run_def bind_o_Some_Inr_iff)

lemma summary_fields:
  assumes "simulation_summary cfg es t = Inr r"
  shows "total_latency_us r = sum_list (latencies t)" "res_miss_count r = miss_count t"
    "res_spill_count r = spill_count t" "res_prefetch_count r = prefetch_count t"
    "final_hbm_used_bytes r = hbm_used t" "res_eviction_count r = eviction_count t"
    "percentile_ints (latencies t) 50 = Inr (p50_latency_us r)"
    "percentile_ints (latencies t) 95 = Inr (p95_latency_us r)"
    "percentile_ints (latencies t) 99 = Inr (p99_latency_us r)"
  using assms by (auto simp: simulation_summary_def Let_def bind_r_Inr_iff)

lemma summary_total:
  assumes "int (length (latencies t)) \<le> 2 ^ 53"
  shows "\<exists>r. simulation_summary cfg es t = Inr r"
  using percentile_ints_total [OF _ _ assms, of 50] percentile_ints_total [OF _ _ assms, of 95]
    percentile_ints_total [OF _ _ assms, of 99]
  by (auto simp: simulation_summary_def Let_def)

lemma simulation_defined: "valid_order ord \<Longrightarrow> run ord cfg es init_sim \<noteq> None"
  using runs.run_defined [of ord init_sim es cfg]
  by (auto simp: run_def run_events_def bind_o_def split: option.splits sum.splits)

lemma run_succeeds:
  assumes "valid_order ord" "\<forall>ev \<in> set es. sound (ev_intent ev)" "int (length es) \<le> 2 ^ 53"
  shows "\<exists>t r. run ord cfg es init_sim = Some (Inr (t, r)) \<and> all_sound t"
proof -
  obtain t where t: "run_events ord cfg es init_sim = Some (Inr t)" "all_sound t"
    using safe_runs.run_total [of ord init_sim es cfg] assms(1,2) by (auto simp: run_events_def all_sound_def)
  have "length (latencies t) = length es" using run_events_latencies [OF assms(1) sim_wf_init t(1)] by auto
  then obtain r where "simulation_summary cfg es t = Inr r" using summary_total [of t] assms(3) by auto
  then have "run ord cfg es init_sim = Some (Inr (t, r))" by (simp add: run_def t(1))
  with t(2) show ?thesis by blast
qed

lemma decay_raises:
  assumes "dict_get (live_blocks s) k = Some b" "current_tier b \<notin> allowed_tiers b" "step \<noteq> last_decay_step s"
  shows "\<exists>e. decay step s = Inl e"
proof (cases "map_r (\<lambda>(k, b). bind_r (decay_block b) (\<lambda>b'. Inr (k, b'))) (live_blocks s)")
  case (Inl e)
  then show ?thesis using assms(3) by (simp add: decay_def)
next
  case (Inr live)
  from map_r_dict(2) [OF Inr, of k] obtain c where "decay_block b = Inr c" using assms(1) by (cases "dict_get live k") auto
  then show ?thesis using assms(2) by (auto simp: decay_block_def copy_with_Inr_iff intent_ranges_def)
qed

section \<open>The eviction loop\<close>

text \<open>C4: \<open>_ensure_hbm_capacity\<close> always returns. Afterwards HBM is within its (not negative) capacity, unless the policy is
  of the intent family and every resident block is pinned; no block is lost from the live table,
  none is added to HBM, the peak covers the usage, and the state is well formed.\<close>

theorem ensure_restores_capacity:
  assumes "valid_order ord" "sim_wf s" "0 \<le> hbm_capacity_bytes cfg"
  shows "\<exists>t l. ensure_hbm_capacity ord cfg step s = Some (t, l) \<and> sim_wf t
    \<and> (hbm_used t \<le> hbm_capacity_bytes cfg
       \<or> (is_intent_family (cfg_policy cfg) \<and> hbm_blocks t \<noteq> {} \<and> all_residents_pinned t))
    \<and> hbm_blocks t \<subseteq> hbm_blocks s \<and> dict_keys (live_blocks t) = dict_keys (live_blocks s)
    \<and> hbm_used t \<le> actual_peak_hbm_used_bytes t"
proof -
  obtain t l where t: "ensure_hbm_capacity ord cfg step s = Some (t, l)" and st: "settles cfg s t l"
    using ensure_settles [OF assms(1,2)] by blast
  note E = evicted_fromD [OF settlesD(2) [OF st]]
  have "hbm_used t = 0" if "hbm_blocks t = {}" using that by (simp add: hbm_used_def used_bytes_def)
  then have "hbm_used t \<le> hbm_capacity_bytes cfg
       \<or> (is_intent_family (cfg_policy cfg) \<and> hbm_blocks t \<noteq> {} \<and> all_residents_pinned t)"
    using settlesD(3) [OF st] assms(3) by (auto simp: settled_def within_capacity_def)
  with t st E(1,2) show ?thesis by (auto simp: settles_def)
qed

theorem ensure_restores_capacity_witness:
  "\<exists>t l. ensure_hbm_capacity sorted_order (default_config LRUPolicy 512 0) 3 (sample_state critical_block) = Some (t, l)
     \<and> hbm_used t \<le> 512"
  using ensure_restores_capacity [of sorted_order "sample_state critical_block" "default_config LRUPolicy 512 0" 3]
  by auto

text \<open>C5: Under a policy of the intent family the loop never evicts a pinned resident block: it stays in HBM
  with all its fields unchanged.\<close>

theorem ensure_keeps_pinned:
  assumes "valid_order ord" "sim_wf s" "is_intent_family (cfg_policy cfg)"
    and "k \<in> hbm_blocks s" "dict_get (live_blocks s) k = Some b" "pin_requested b"
  shows "\<exists>t l. ensure_hbm_capacity ord cfg step s = Some (t, l) \<and> k \<in> hbm_blocks t
    \<and> dict_get (live_blocks t) k = Some b"
proof -
  obtain t l where t: "ensure_hbm_capacity ord cfg step s = Some (t, l)" and st: "settles cfg s t l"
    using ensure_settles [OF assms(1,2)] by blast
  note E = evicted_fromD [OF settlesD(2) [OF st]]
  have "k \<in> hbm_blocks t" using E(14) [OF assms(4)] assms(3,5,6) by (auto simp: left_hbm_def)
  with t E(12) [of k] assms(5) show ?thesis by auto
qed

theorem ensure_keeps_pinned_witness:
  "\<exists>t l. ensure_hbm_capacity sorted_order (default_config (IntentFamily IntentAwarePolicy) 512 0) 3
      (sample_state critical_block) = Some (t, l) \<and> ''b-1'' \<in> hbm_blocks t"
  using ensure_keeps_pinned [of sorted_order "sample_state critical_block"
      "default_config (IntentFamily IntentAwarePolicy) 512 0" "''b-1''" critical_block 3] by auto

text \<open>The loop charges the spill latency once per spilled block and counts one eviction per block that
  leaves HBM. A block that leaves goes to a tier it allows other than HBM (or to NVMe when HBM is
  the only tier it allows) and keeps every other field; all other blocks are untouched.\<close>

theorem ensure_accounting:
  assumes "valid_order ord" "sim_wf s"
  shows "\<exists>t l. ensure_hbm_capacity ord cfg step s = Some (t, l)
    \<and> l = spill_latency_us cfg * (spill_count t - spill_count s)
    \<and> eviction_count t - eviction_count s = int (card (hbm_blocks s - hbm_blocks t))
    \<and> (\<forall>k. if k \<in> hbm_blocks s \<and> k \<notin> hbm_blocks t
           then (\<exists>b u. dict_get (live_blocks s) k = Some b
                   \<and> dict_get (live_blocks t) k = Some (b\<lparr>current_tier := u\<rparr>) \<and> u \<noteq> HBM
                   \<and> (u \<in> allowed_tiers b \<or> (allowed_tiers b \<subseteq> {HBM} \<and> u = NVME)))
           else dict_get (live_blocks t) k = dict_get (live_blocks s) k)"
proof -
  obtain t l where t: "ensure_hbm_capacity ord cfg step s = Some (t, l)" and st: "settles cfg s t l"
    using ensure_settles [OF assms(1,2)] by blast
  note E = evicted_fromD [OF settlesD(2) [OF st]]
  have "card (hbm_blocks s - hbm_blocks t) = card (hbm_blocks s) - card (hbm_blocks t)"
    "card (hbm_blocks t) \<le> card (hbm_blocks s)"
    using E(1) sim_wfD(3) assms(2) settlesD(1) [OF st] by (auto intro: card_Diff_subset card_mono)
  then have "eviction_count t - eviction_count s = int (card (hbm_blocks s - hbm_blocks t))" using E(11) by simp
  moreover have "\<exists>b u. dict_get (live_blocks s) k = Some b
      \<and> dict_get (live_blocks t) k = Some (b\<lparr>current_tier := u\<rparr>) \<and> u \<noteq> HBM
      \<and> (u \<in> allowed_tiers b \<or> (allowed_tiers b \<subseteq> {HBM} \<and> u = NVME))"
    if "k \<in> hbm_blocks s" "k \<notin> hbm_blocks t" for k
    using E(14) [OF that] unfolding left_hbm_def by blast
  ultimately show ?thesis using t E(8) E(12) by simp
qed

theorem ensure_accounting_witness:
  "\<exists>t l. ensure_hbm_capacity sorted_order (default_config LRUPolicy 512 0) 3 (sample_state critical_block) = Some (t, l)
     \<and> l = 200 * spill_count t"
  using ensure_accounting [of sorted_order "sample_state critical_block" "default_config LRUPolicy 512 0" 3]
  by auto

section \<open>Runs\<close>

text \<open>C3: A run over any list of events returns (the eviction loops end), and unless it raises, the final
  state is well formed: the resident sets name live blocks, every live block is stored under its
  own id, and there is one latency per event.\<close>

theorem run_returns:
  assumes "valid_order ord"
  shows "safely (run ord cfg es init_sim) (\<lambda>(t, r). sim_wf t \<and> length (latencies t) = length es)"
proof -
  have "sim_wf t \<and> length (latencies t) = length es" if "run ord cfg es init_sim = Some (Inr (t, r))" for t r
    using run_events_latencies [OF assms sim_wf_init run_cases(1) [OF that]] by auto
  moreover obtain x where "run ord cfg es init_sim = Some x" using simulation_defined [OF assms] by blast
  ultimately show ?thesis by auto
qed

theorem run_returns_witness:
  "run sorted_order (default_config HotColdPolicy 1024 0) [sample_event ALLOCATED cold_block] init_sim \<noteq> None"
  by (rule safely_defined [OF run_returns]) simp

text \<open>C2: When every intent may live in HBM and in at least one other tier, no list of (at most 2^53,
  so that floats count them) events makes the simulator raise: the run returns a result, whatever the order, the policy and the capacities.\<close>

theorem run_never_raises:
  assumes "valid_order ord" "\<forall>ev \<in> set es. sound (ev_intent ev)" "int (length es) \<le> 2 ^ 53"
  shows "\<exists>t r. run ord cfg es init_sim = Some (Inr (t, r))
    \<and> (\<forall>k b. dict_get (live_blocks t) k = Some b \<longrightarrow> valid_intent b)"
  using run_succeeds [OF assms] by (fastforce simp: all_sound_def sound_def)

theorem run_never_raises_witness:
  "\<exists>t r. run sorted_order (default_config (IntentFamily DeadlineAwarePolicy) 1024 0)
     [sample_event ALLOCATED cold_block, sample_event ACCESSED critical_block, sample_event PREFETCHED cold_block]
     init_sim = Some (Inr (t, r))"
  using run_never_raises [of sorted_order "[sample_event ALLOCATED cold_block, sample_event ACCESSED critical_block,
      sample_event PREFETCHED cold_block]" "default_config (IntentFamily DeadlineAwarePolicy) 1024 0"] by auto

text \<open>C7: The reported total latency is exactly the base latency of every event, plus the miss penalty of
  every reported miss, the spill latency of every spill and the prefetch latency of every prefetch.\<close>

theorem total_latency_ledger:
  assumes "valid_order ord" "run ord cfg es init_sim = Some (Inr (t, r))"
  shows "total_latency_us r = base_step_latency_us cfg * int (length es)
    + miss_penalty_us cfg * res_miss_count r + spill_latency_us cfg * res_spill_count r
    + prefetch_latency_us cfg * res_prefetch_count r"
proof -
  note t = run_cases(1) [OF assms(2)]
  have "ledger cfg t" using reachable_ledger [OF assms(1) run_reachable [OF reachable.start t]] .
  moreover have "length (latencies t) = length es" using run_events_latencies [OF assms(1) sim_wf_init t] by auto
  ultimately show ?thesis
    using summary_fields [OF run_cases(2) [OF assms(2)]] by (simp add: ledger_def charged_def)
qed

theorem total_latency_ledger_witness:
  "\<exists>t r. run sorted_order (default_config LRUPolicy 1024 0) [sample_event ALLOCATED cold_block, sample_event
      ACCESSED critical_block] init_sim = Some (Inr (t, r))
     \<and> total_latency_us r = 100 + 5000 * res_miss_count r + 200 * res_spill_count r + 100 * res_prefetch_count r"
proof -
  let ?es = "[sample_event ALLOCATED cold_block, sample_event ACCESSED critical_block]"
  obtain t r where run: "run sorted_order (default_config LRUPolicy 1024 0) ?es init_sim = Some (Inr (t, r))"
    using run_succeeds [of sorted_order ?es "default_config LRUPolicy 1024 0"] by auto
  from total_latency_ledger [OF _ run] run show ?thesis by auto
qed

text \<open>C8: With non-negative costs, and as long as floats hold the number of events and the total latency exactly (at
  most 2^53), each reported percentile of a non-empty run lies between the base
  latency of an event and the reported total latency.\<close>

theorem latency_percentiles_bounded:
  assumes "valid_order ord" "run ord cfg es init_sim = Some (Inr (t, r))" "es \<noteq> []" "costs_nonneg cfg"
    and "int (length es) \<le> 2 ^ 53" "total_latency_us r \<le> 2 ^ 53"
    and "p \<in> {p50_latency_us r, p95_latency_us r, p99_latency_us r}"
  shows "of_int (base_step_latency_us cfg) \<le> p \<and> p \<le> of_int (total_latency_us r)"
proof -
  note t = run_cases(1) [OF assms(2)]
  note S = summary_fields [OF run_cases(2) [OF assms(2)]]
  have len: "length (latencies t) = length es"
    and lo: "\<And>l. l \<in> set (latencies t) \<Longrightarrow> base_step_latency_us cfg \<le> l"
    using run_events_latencies [OF assms(1) sim_wf_init t] assms(4) by auto
  have nn: "0 \<le> base_step_latency_us cfg" using assms(4) by (simp add: costs_nonneg_def)
  have hi: "l \<le> sum_list (latencies t)" if "l \<in> set (latencies t)" for l
    using that lo nn by (intro member_le_sum_list) (auto intro: order_trans)
  have "\<exists>q. percentile_ints (latencies t) n = Inr q \<and> of_int (base_step_latency_us cfg) \<le> q
      \<and> q \<le> of_int (sum_list (latencies t))" if "n \<in> {50, 95, 99}" for n
    using that nn lo hi len assms(3,5,6) S(1) by (intro percentile_ints_between) auto
  with S(7-9) assms(7) show ?thesis unfolding S(1) by fastforce
qed

theorem latency_percentiles_bounded_witness:
  "\<exists>t r. run sorted_order (default_config LRUPolicy 1024 0) [sample_event COMMITTED cold_block] init_sim
     = Some (Inr (t, r)) \<and> 50 \<le> p99_latency_us r \<and> p99_latency_us r \<le> 50"
proof -
  let ?cfg = "default_config LRUPolicy 1024 0" and ?e = "sample_event COMMITTED cold_block"
  obtain t r where run: "run sorted_order ?cfg [?e] init_sim = Some (Inr (t, r))"
    using run_succeeds [of sorted_order "[?e]" ?cfg] by auto
  have "latencies t = [50]"
    using run_cases(1) [OF run]
    by (auto simp: run_events_def handle_event_def bind_o_Some_Inr_iff dispatch_event_def on_committed_def
        dest!: decay_effect(3))
  then have tot: "total_latency_us r = 50" using summary_fields(1) [OF run_cases(2) [OF run]] by simp
  have "50 \<le> p99_latency_us r \<and> p99_latency_us r \<le> 50"
    using latency_percentiles_bounded [OF _ run _ _ _ _, of "p99_latency_us r"] tot
    by (simp add: costs_nonneg_def)
  with run show ?thesis by blast
qed

text \<open>C1: When the capacity is not negative, allocations name HBM and the set of pinned ids is fixed, a run under a policy that ignores
  pins ends within the HBM capacity; under an intent policy it ends over capacity only when every
  resident block is pinned.\<close>

theorem run_capacity_bound:
  assumes "valid_order ord" "\<forall>ev \<in> set es. steady cfg pins ev" "0 \<le> hbm_capacity_bytes cfg"
  shows "safely (run ord cfg es init_sim) (\<lambda>(t, r). final_hbm_used_bytes r \<le> hbm_capacity_bytes cfg
    \<or> (is_intent_family (cfg_policy cfg) \<and> hbm_blocks t \<subseteq> pins \<and> all_residents_pinned t))"
proof -
  have inv: "safely (fold_o (handle_event ord cfg) es init_sim)
      (\<lambda>s. valid_order ord \<and> sim_wf s \<and> bounded cfg pins s)"
    using assms(1,2) by (intro bounded_runs.run_safely) (simp_all add: bounded_init)
  have "final_hbm_used_bytes r \<le> hbm_capacity_bytes cfg
      \<or> (is_intent_family (cfg_policy cfg) \<and> hbm_blocks t \<subseteq> pins \<and> all_residents_pinned t)"
    if run: "run ord cfg es init_sim = Some (Inr (t, r))" for t r
  proof -
    have "sim_wf t" "bounded cfg pins t"
      using safelyD [OF inv] run_cases(1) [OF run] by (simp_all add: run_events_def)
    then show ?thesis
      using bounded_capacity [of cfg pins t] assms(3) summary_fields(5) [OF run_cases(2) [OF run]] by force
  qed
  moreover obtain x where "run ord cfg es init_sim = Some x" using simulation_defined [OF assms(1)] by blast
  ultimately show ?thesis by auto
qed

theorem run_capacity_bound_witness:
  "\<exists>t r. run sorted_order (default_config LRUPolicy 1500 4096)
     [sample_event ALLOCATED cold_block, sample_event ALLOCATED critical_block] init_sim = Some (Inr (t, r))
     \<and> final_hbm_used_bytes r \<le> 1500"
proof -
  let ?cfg = "default_config LRUPolicy 1500 4096"
    and ?es = "[sample_event ALLOCATED cold_block, sample_event ALLOCATED critical_block]"
  obtain t r where run: "run sorted_order ?cfg ?es init_sim = Some (Inr (t, r))"
    using run_succeeds [of sorted_order ?es ?cfg] by auto
  have "safely (run sorted_order ?cfg ?es init_sim) (\<lambda>(t, r). final_hbm_used_bytes r \<le> hbm_capacity_bytes ?cfg
    \<or> (is_intent_family (cfg_policy ?cfg) \<and> hbm_blocks t \<subseteq> {''b-1''} \<and> all_residents_pinned t))"
    by (rule run_capacity_bound) (simp_all add: steady_def)
  with run show ?thesis by simp
qed

text \<open>C6: Under an intent policy a pinned resident block survives any events that do not name it, in any order
  and under any memory pressure: it stays in HBM, pinned, with the same size.\<close>

theorem pinned_block_survives_run:
  assumes "valid_order ord" "is_intent_family (cfg_policy cfg)" "sim_wf s"
    and "\<forall>ev \<in> set es. object_id (ev_intent ev) \<noteq> j"
    and "j \<in> hbm_blocks s" "dict_get (live_blocks s) j = Some b" "pin_requested b"
  shows "safely (run_events ord cfg es s) (\<lambda>t. j \<in> hbm_blocks t
    \<and> (\<exists>c. dict_get (live_blocks t) j = Some c \<and> pin_requested c \<and> size_bytes c = size_bytes b))"
proof -
  obtain x where "run_events ord cfg es s = Some x"
    using runs.run_defined [of ord s es cfg] assms(1,3) by (auto simp: run_events_def)
  then show ?thesis using run_keeps_pinned [OF assms(1-7)] by auto
qed

theorem pinned_block_survives_run_witness:
  "\<exists>t. run_events sorted_order (default_config (IntentFamily DeadlineAwarePolicy) 1024 0)
     [sample_event ALLOCATED cold_block, sample_event ACCESSED cold_block] (sample_state critical_block)
     = Some (Inr t) \<and> ''b-1'' \<in> hbm_blocks t"
proof -
  let ?cfg = "default_config (IntentFamily DeadlineAwarePolicy) 1024 0"
    and ?es = "[sample_event ALLOCATED cold_block, sample_event ACCESSED cold_block]"
  obtain t where t: "run_events sorted_order ?cfg ?es (sample_state critical_block) = Some (Inr t)"
    using safe_runs.run_total [of sorted_order "sample_state critical_block" ?es ?cfg]
    unfolding run_events_def by fastforce
  have "safely (run_events sorted_order ?cfg ?es (sample_state critical_block)) (\<lambda>t. ''b-1'' \<in> hbm_blocks t
    \<and> (\<exists>c. dict_get (live_blocks t) ''b-1'' = Some c \<and> pin_requested c \<and> size_bytes c = size_bytes critical_block))"
    by (rule pinned_block_survives_run) simp_all
  with t show ?thesis by simp
qed

section \<open>Single events\<close>

lemma put_block_live_id: "put_block b s = s\<lparr>live_blocks := AList.update (object_id b) b (live_blocks s)\<rparr>"
  by (simp add: put_block_def)

lemma serve_access_counts:
  assumes ord: "valid_order ord" and wf: "sim_wf s"
  shows "safely (serve_access ord cfg step c s) (\<lambda>(t, l).
    if object_id c \<in> hbm_blocks s then hbm_blocks t = hbm_blocks s \<and> miss_count t = miss_count s
      \<and> spill_count t = spill_count s \<and> prefetch_count t = prefetch_count s
    else miss_count t = miss_count s + 1 \<and> prefetch_count t = prefetch_count s)"
proof (cases "object_id c \<in> hbm_blocks s")
  case False
  define m where "m = s\<lparr>miss_count := miss_count s + 1,
      decode_critical_misses := decode_critical_misses s + (if is_decode_critical c then 1 else 0)\<rparr>"
  have wfm: "sim_wf m" by (rule sim_wf_cong [OF wf]) (simp_all add: m_def)
  have "safely (map_option (\<lambda>(t, l). Inr (t, base_step_latency_us cfg + miss_penalty_us cfg + l))
      (move_to_hbm ord cfg c step m)) (\<lambda>(t, l). miss_count t = miss_count s + 1 \<and> prefetch_count t = prefetch_count s)"
    by (intro safely_move [OF ord wfm], drule settlesD(2))
      (use evicted_fromD(4,5) in \<open>fastforce simp: m_def\<close>)
  then show ?thesis using False unfolding serve_access_def m_def [symmetric] by simp
qed (simp add: serve_access_def)

lemma on_accessed_counts:
  assumes ord: "valid_order ord" and wf: "sim_wf s"
  shows "safely (on_accessed ord cfg step i s) (\<lambda>(t, l).
    if object_id i \<in> hbm_blocks s then hbm_blocks t = hbm_blocks s \<and> miss_count t = miss_count s
      \<and> spill_count t = spill_count s \<and> prefetch_count t = prefetch_count s
    else miss_count t = miss_count s + 1 \<and> prefetch_count t = prefetch_count s)"
proof -
  define s1 where "s1 = (if object_id i \<notin> dict_keys (live_blocks s) then put_block i s else s)"
  have wf1: "sim_wf s1" using wf by (auto simp: s1_def intro: put_wf)
  show ?thesis
  proof (cases "dict_get (live_blocks s1) (object_id i)")
    case None
    then show ?thesis by (simp add: on_accessed_def Let_def s1_def [symmetric])
  next
    case (Some b)
    have "safely (serve_access ord cfg step c (s1\<lparr>live_blocks := AList.update (object_id i) c (live_blocks s1)\<rparr>))
        (\<lambda>(t, l). if object_id i \<in> hbm_blocks s then hbm_blocks t = hbm_blocks s \<and> miss_count t = miss_count s
            \<and> spill_count t = spill_count s \<and> prefetch_count t = prefetch_count s
          else miss_count t = miss_count s + 1 \<and> prefetch_count t = prefetch_count s)"
      if c: "copy_with (access_update step i) b = Inr c" for c
    proof -
      let ?s2 = "s1\<lparr>live_blocks := AList.update (object_id i) c (live_blocks s1)\<rparr>"
      have id: "object_id c = object_id i"
        using copy_with_object_id [OF c] keyedD [OF sim_wfD(2) [OF wf1] Some] by (simp add: access_update_def)
      have wf2: "sim_wf ?s2" by (rule put_wf [OF wf1, of _ c]) (auto simp: id)
      show ?thesis by (rule safely_mono [OF serve_access_counts [OF ord wf2]]) (auto simp: id s1_def split: if_splits)
    qed
    then show ?thesis by (simp add: on_accessed_def Let_def s1_def [symmetric] Some)
  qed
qed

text \<open>Accessing a block that is in HBM costs the base latency and evicts nothing; accessing any other block
  counts exactly one miss and costs the base latency, the miss penalty and the spills it causes.\<close>

theorem access_cost:
  assumes "valid_order ord" "sim_wf s" "ev_type ev = ACCESSED" "handle_event ord cfg ev s = Some (Inr t)"
  shows "if object_id (ev_intent ev) \<in> hbm_blocks s
    then latencies t = latencies s @ [base_step_latency_us cfg] \<and> hbm_blocks t = hbm_blocks s
      \<and> miss_count t = miss_count s
    else miss_count t = miss_count s + 1 \<and> latencies t = latencies s @ [base_step_latency_us cfg
      + miss_penalty_us cfg + spill_latency_us cfg * (spill_count t - spill_count s)]"
proof -
  let ?k = "object_id (ev_intent ev)"
  obtain i s1 l s2 where i: "incoming_intent ev (dict_get (live_blocks s) ?k) = Inr i"
    and d: "dispatch_event ord cfg ev (dict_get (live_blocks s) ?k) i s = Some (Inr (s1, l))"
    and dec: "decay (ev_step ev) s1 = Inr s2" and t: "t = s2\<lparr>latencies := latencies s2 @ [l]\<rparr>"
    using handle_event_cases [OF assms(4)] by blast
  have id: "object_id i = ?k" by (rule incoming_intent_id [OF i refl sim_wfD(2) [OF assms(2)]])
  have acc: "on_accessed ord cfg (ev_step ev) i s = Some (Inr (s1, l))"
    using d assms(3) by (simp add: dispatch_event_def)
  note C = safelyD [OF on_accessed_counts [OF assms(1,2)] acc]
  note H = safelyD [OF on_accessed_handled [OF assms(1,2)] acc]
  show ?thesis
    using C H decay_effect(1-6) [OF dec] by (auto simp: t id handled_def charged_def split: if_splits)
qed

theorem access_cost_witness:
  "\<exists>t. handle_event sorted_order (default_config LRUPolicy 1024 0) (sample_event ACCESSED critical_block)
     (sample_state critical_block) = Some (Inr t) \<and> latencies t = [50]"
proof -
  obtain t where t: "handle_event sorted_order (default_config LRUPolicy 1024 0) (sample_event ACCESSED critical_block)
      (sample_state critical_block) = Some (Inr t)"
    using handle_event_succeeds [of sorted_order "sample_state critical_block" "sample_event ACCESSED critical_block"
        "default_config LRUPolicy 1024 0"] by auto
  from access_cost [OF _ _ _ t] t show ?thesis by simp
qed

text \<open>A MARKED_COLD event on a pinned live block makes it COLD but leaves it pinned and where it is, so
  under an intent policy a block that was once decode-critical is not evicted by memory pressure
  even after it was marked cold.\<close>

theorem marked_cold_keeps_pin:
  assumes "valid_order ord" "sim_wf s" "ev_type ev = MARKED_COLD" "handle_event ord cfg ev s = Some (Inr t)"
    and "dict_get (live_blocks s) (object_id (ev_intent ev)) = Some b" "pin_requested b"
  shows "hbm_blocks t = hbm_blocks s \<and> (\<exists>c. dict_get (live_blocks t) (object_id (ev_intent ev)) = Some c
    \<and> priority c = COLD \<and> pin_requested c)"
proof -
  let ?k = "object_id (ev_intent ev)"
  obtain i s1 l s2 where i: "incoming_intent ev (dict_get (live_blocks s) ?k) = Inr i"
    and d: "dispatch_event ord cfg ev (dict_get (live_blocks s) ?k) i s = Some (Inr (s1, l))"
    and dec: "decay (ev_step ev) s1 = Inr s2" and t: "t = s2\<lparr>latencies := latencies s2 @ [l]\<rparr>"
    using handle_event_cases [OF assms(4)] by blast
  have id: "object_id i = ?k" by (rule incoming_intent_id [OF i refl sim_wfD(2) [OF assms(2)]])
  have "on_marked_cold cfg (Some b) i s = Some (Inr (s1, l))"
    using d assms(3,5) by (simp add: dispatch_event_def)
  then have s1: "hbm_blocks s1 = hbm_blocks s"
    "\<exists>c. dict_get (live_blocks s1) ?k = Some c \<and> priority c = COLD \<and> pin_requested c"
    using assms(6) by (auto simp: on_marked_cold_def bind_o_Some_Inr_iff copy_with_Inr_iff dict_simps id
        pin_requested_auto_pin)
  then obtain c where c: "dict_get (live_blocks s1) ?k = Some c" "priority c = COLD" "pin_requested c" by blast
  obtain c' where "dict_get (live_blocks s2) ?k = Some c'" "aged c c'"
    using rel_option_get' [OF decay_effect(9) [OF dec] c(1)] by blast
  with c s1(1) decay_effect(1) [OF dec] agedD(5,6) [of c c'] show ?thesis by (simp add: t)
qed

theorem marked_cold_keeps_pin_witness:
  "\<exists>t c. handle_event sorted_order (default_config (IntentFamily IntentAwarePolicy) 1024 0)
      (sample_event MARKED_COLD critical_block) (sample_state critical_block) = Some (Inr t)
    \<and> dict_get (live_blocks t) ''b-1'' = Some c \<and> priority c = COLD \<and> pin_requested c"
proof -
  obtain t where t: "handle_event sorted_order (default_config (IntentFamily IntentAwarePolicy) 1024 0)
      (sample_event MARKED_COLD critical_block) (sample_state critical_block) = Some (Inr t)"
    using handle_event_succeeds [of sorted_order "sample_state critical_block"
        "sample_event MARKED_COLD critical_block" "default_config (IntentFamily IntentAwarePolicy) 1024 0"] by auto
  from marked_cold_keeps_pin [OF _ _ _ t] t show ?thesis by auto
qed

section \<open>Where the run fails\<close>




text \<open>Prefetching a pinned block whose tiers do not include HBM aborts the run: the policies accept it and
  \<open>_move_to_hbm\<close> gives it the tier HBM, so the decay at the next new step raises.\<close>

theorem prefetch_outside_hbm_raises:
  assumes "valid_order ord" "sim_wf s" "is_intent_family (cfg_policy cfg)" "pin_requested b"
    and "HBM \<notin> allowed_tiers b" "step \<noteq> last_decay_step s"
  shows "\<exists>t l. move_to_hbm ord cfg b step s = Some (t, l) \<and> (\<exists>e. decay step t = Inl e)"
proof -
  obtain t l where t: "move_to_hbm ord cfg b step s = Some (t, l)" and st: "settles cfg (placed_in_hbm b s) t l"
    using move_settles [OF assms(1,2)] by blast
  note E = evicted_fromD [OF settlesD(2) [OF st]]
  have p: "dict_get (live_blocks (placed_in_hbm b s)) (object_id b) = Some (b\<lparr>current_tier := HBM\<rparr>)"
    by (simp add: placed_in_hbm_def dict_simps)
  have "object_id b \<in> hbm_blocks t"
    using E(14) [of "object_id b"] p assms(3,4) by (auto simp: left_hbm_def)
  then have "dict_get (live_blocks t) (object_id b) = Some (b\<lparr>current_tier := HBM\<rparr>)" using E(12) p by simp
  from decay_raises [OF this, of step] show ?thesis using t assms(5,6) E(7) by simp
qed

definition dram_only_block :: mintent where
  "dram_only_block = (sample_intent ''b-4'')\<lparr>allowed_tiers := {DRAM}, current_tier := DRAM, prefetch_ok := True,
     priority := DECODE_CRITICAL, pin_requested := True, phase := DECODE,
     deadline_us := Some 1000\<rparr>"

theorem prefetch_outside_hbm_raises_witness:
  "should_prefetch (IntentFamily DeadlineAwarePolicy) dram_only_block 5 \<and> valid_intent dram_only_block
   \<and> (\<exists>t l. move_to_hbm sorted_order (default_config (IntentFamily DeadlineAwarePolicy) 4096 4096) dram_only_block 5
        init_sim = Some (t, l) \<and> (\<exists>e. decay 5 t = Inl e))"
proof -
  have "pin_requested dram_only_block" "HBM \<notin> allowed_tiers dram_only_block"
    by (simp_all add: dram_only_block_def)
  moreover have "last_decay_step init_sim = -1" by (simp add: init_sim_def)
  ultimately have "\<exists>t l. move_to_hbm sorted_order (default_config (IntentFamily DeadlineAwarePolicy) 4096 4096)
      dram_only_block 5 init_sim = Some (t, l) \<and> (\<exists>e. decay 5 t = Inl e)"
    by (intro prefetch_outside_hbm_raises) simp_all
  moreover have "should_prefetch (IntentFamily DeadlineAwarePolicy) dram_only_block 5" "valid_intent dram_only_block"
    by (simp_all add: dram_only_block_def sample_intent_def valid_intent_def intent_ranges_def
        deadline_should_prefetch_def)
  ultimately show ?thesis by blast
qed

end
