(* ===== verification/CliLaws.thy ===== *)
theory CliLaws
  imports Cli TraceShape SimulatorProps
begin

text \<open>
  Laws of the commands: what a command may touch (\<open>touches\<close>: only the listed files change, and the output is
  only extended), and the composition of the import, the generator and the simulator through files.
\<close>

lemmas command_defs = return_c_def bind_c_def compute_def read_file_def write_file_def print_line_def

section \<open>What a command touches\<close>

definition touches :: "string set \<Rightarrow> 'a command \<Rightarrow> bool" where
  "touches ps m \<longleftrightarrow> (\<forall>w r v. m w = Some (r, v) \<longrightarrow>
     (\<forall>p. p \<notin> ps \<longrightarrow> files v p = files w p) \<and> (\<exists>t. stdout v = stdout w @ t))"

lemma touchesI: "(\<And>w r v. m w = Some (r, v) \<Longrightarrow> (\<forall>p. p \<notin> ps \<longrightarrow> files v p = files w p) \<and> (\<exists>t. stdout v = stdout w @ t))
    \<Longrightarrow> touches ps m"
  by (simp add: touches_def)

lemma touchesD:
  assumes "touches ps m" "m w = Some (r, v)"
  shows "p \<notin> ps \<Longrightarrow> files v p = files w p" "\<exists>t. stdout v = stdout w @ t"
  using assms by (auto simp: touches_def)

lemma touches_simple [simp]:
  "touches ps (return_c x)" "touches ps (compute c)" "touches ps (read_file p)" "touches ps (print_line t)"
  by (auto simp: touches_def return_c_def compute_def read_file_def print_line_def split: option.splits)

lemma touches_write [simp]: "p \<in> ps \<Longrightarrow> touches ps (write_file p t)"
  by (auto simp: touches_def write_file_def)

text \<open>The continuation need only be considered for values the first command returns.\<close>

lemma touches_bind_value:
  assumes m: "touches ps m" and k: "\<And>x w v. m w = Some (Inr x, v) \<Longrightarrow> touches ps (k x)"
  shows "touches ps (bind_c m k)"
proof (rule touchesI)
  fix w r v assume "bind_c m k w = Some (r, v)"
  then consider e where "m w = Some (Inl e, v)" | x u where "m w = Some (Inr x, u)" "k x u = Some (r, v)"
    by (auto simp: bind_c_def split: option.splits sum.splits prod.splits)
  then show "(\<forall>p. p \<notin> ps \<longrightarrow> files v p = files w p) \<and> (\<exists>t. stdout v = stdout w @ t)"
  proof cases
    case 1
    with m show ?thesis by (auto simp: touches_def)
  next
    case 2
    from touchesD [OF m 2(1)] touchesD [OF k [OF 2(1)] 2(2)] show ?thesis by fastforce
  qed
qed

lemma touches_bind [intro]: "touches ps m \<Longrightarrow> (\<And>x. touches ps (k x)) \<Longrightarrow> touches ps (bind_c m k)"
  by (rule touches_bind_value)

lemma touches_lines [simp]: "touches ps (print_lines ls)"
  by (induction ls) (auto intro: touches_bind)

lemma touches_collect: "(\<And>x. x \<in> set xs \<Longrightarrow> touches ps (f x)) \<Longrightarrow> touches ps (collect_c f xs)"
  by (induction xs) (auto intro!: touches_bind)

lemma touches_load [simp]: "touches ps (load_trace env p)"
  by (auto simp: load_trace_def intro: touches_bind)

lemma touches_save [simp]: "p \<in> ps \<Longrightarrow> touches ps (save_trace r p)"
  by (simp add: save_trace_def)

section \<open>The outputs of each command\<close>

text \<open>The names of the policies in the order of \<open>POLICY_ORDER\<close>.\<close>

definition policy_titles :: "string list" where
  "policy_titles = [''LRU'', ''HotCold'', ''PredictiveHotness'', ''IntentAware'', ''KVDeadline'']"

definition log_files :: "string option \<Rightarrow> string set" where
  "log_files log_dir = (if given log_dir then (\<lambda>n. the log_dir @ ''/'' @ n @ ''.jsonl'') ` set policy_titles else {})"

definition outputs :: "command_line \<Rightarrow> string set" where
  "outputs cl = (case cl of Generate a \<Rightarrow> {ga_out a}
     | Simulate a \<Rightarrow> if given (sa_decision_log a) then {the (sa_decision_log a)} else {}
     | Compare a \<Rightarrow> log_files (ca_decision_log_dir a) | Inspect a \<Rightarrow> {} | Demo p s \<Rightarrow> {} | MockVllm a \<Rightarrow> {ma_out a}
     | EstimateKv a \<Rightarrow> {} | ImportRequestTrace a \<Rightarrow> {im_out a} | ImportOpenaiLog a \<Rightarrow> {oa_out a}
     | ImportPrometheus a \<Rightarrow> {pa_out a} | Sweep a \<Rightarrow> {sw_out a})"

lemma summary_policy: "simulation_summary cfg es s = Inr r \<Longrightarrow> res_policy_name r = policy_name (cfg_policy cfg)"
  by (auto simp: simulation_summary_def Let_def bind_r_Inr_iff)

lemma simulated_name:
  assumes "simulate_bytes env tr name hbm dram = Some (Inr (t, r))"
  shows "res_policy_name r \<in> set policy_titles"
proof -
  obtain p where p: "policy_from_name name = Inr p" "run (env_order env) (default_config p hbm dram) (rec_events tr) init_sim = Some (Inr (t, r))"
    using assms by (auto simp: simulate_bytes_def bind_o_def split: sum.splits)
  then have "res_policy_name r = policy_name p"
    by (auto simp: run_def bind_o_Some_Inr_iff default_config_def dest!: summary_policy)
  moreover have "policy_name p \<in> set policy_titles"
    using p(1) by (auto simp: policy_from_name_def policy_titles_def Let_def split: if_splits)
  ultimately show ?thesis by simp
qed

lemma compute_value: "compute c w = Some (Inr x, v) \<Longrightarrow> c = Some (Inr x)"
  by (auto simp: compute_def split: option.splits)

lemma touches_compare: "log_files d \<subseteq> ps \<Longrightarrow> touches ps (compare_policies env tr hbm dram d)"
  unfolding compare_policies_def
proof (rule touches_collect, rule touches_bind_value)
  fix name sr w v
  assume ps: "log_files d \<subseteq> ps" and "compute (simulate_bytes env tr name hbm dram) w = Some (Inr sr, v)"
  then have "simulate_bytes env tr name hbm dram = Some (Inr (fst sr, snd sr))" by (auto dest: compute_value)
  from simulated_name [OF this]
  have "given d \<Longrightarrow> the d @ ''/'' @ res_policy_name (snd sr) @ ''.jsonl'' \<in> ps" using ps by (auto simp: log_files_def)
  then show "touches ps (bind_c (if given d then write_file (the d @ ''/'' @ res_policy_name (snd sr) @ ''.jsonl'')
      (write_decision_log (decision_log (fst sr))) else return_c ()) (\<lambda>_. return_c (snd sr)))"
    by (intro touches_bind) simp_all
qed simp

lemma log_files_None [simp]: "log_files None = {}"
  by (simp add: log_files_def given_def)

lemma touches_let: "(\<And>x. touches ps (k x)) \<Longrightarrow> touches ps (let x = e in k x)"
  by simp

lemma touches_report [simp]: "touches ps (import_report h n i p r)"
  by (simp add: import_report_def)

lemmas commands = generate_cmd_def simulate_cmd_def compare_cmd_def inspect_cmd_def demo_cmd_def mock_vllm_cmd_def
  estimate_cmd_def import_cmd_def import_openai_cmd_def import_prometheus_cmd_def sweep_cmd_def sweep_trace_def

text \<open>C31: A command changes only the files it is told to write: the trace or table it names as its output, the decision
  log, and for a comparison with a log directory the five files named after the policies. Every other file,
  the traces it reads included, keeps its content, and the standard output is only extended. This holds
  when the command raises as well.\<close>

theorem cli_touches_outputs:
  assumes "cli_main env cl w = Some (r, v)" "p \<notin> outputs cl"
  shows "files v p = files w p \<and> (\<exists>t. stdout v = stdout w @ t)"
proof -
  have "touches (outputs cl) (cli_main env cl)"
    by (cases cl) (auto simp: cli_main_def outputs_def commands Let_def intro!: touches_bind touches_compare)
  from touchesD [OF this assms(1)] assms(2) show ?thesis by blast
qed

section \<open>Commands that follow one another\<close>

lemma bind_c_returns: "m w = Some (Inr x, v) \<Longrightarrow> bind_c m k w = k x v"
  by (simp add: bind_c_def)

lemma compute_returns [simp]: "compute (Some (Inr x)) w = Some (Inr x, w)"
  by (simp add: compute_def)

lemma print_lines_returns: "\<exists>v. print_lines ls w = Some (Inr (), v) \<and> files v = files w"
proof (induction ls arbitrary: w)
  case (Cons l ls)
  from Cons.IH [of "w\<lparr>stdout := stdout w @ l @ newline\<rparr>"] show ?case by (simp add: bind_c_def print_line_def)
qed (simp add: return_c_def)

lemma collect_returns:
  assumes "\<And>x w. x \<in> set xs \<Longrightarrow> \<exists>y v. f x w = Some (Inr y, v) \<and> stdout v = stdout w \<and> Q x y"
  shows "\<exists>ys v. collect_c f xs w = Some (Inr ys, v) \<and> stdout v = stdout w \<and> list_all2 Q xs ys"
  using assms
proof (induction xs arbitrary: w)
  case (Cons x xs)
  obtain y u where 1: "f x w = Some (Inr y, u)" "stdout u = stdout w" "Q x y" using Cons.prems [of x w] by auto
  obtain ys v where "collect_c f xs u = Some (Inr ys, v)" "stdout v = stdout u" "list_all2 Q xs ys"
    using Cons.IH [of u] Cons.prems by auto
  with 1 show ?case by (simp add: bind_c_def return_c_def)
qed (simp add: return_c_def)

definition policy_of :: "string \<Rightarrow> policy" where
  "policy_of name = (case policy_from_name name of Inr p \<Rightarrow> p | Inl _ \<Rightarrow> LRUPolicy)"

lemma policy_order_known: "list_all (\<lambda>n. policy_from_name n = Inr (policy_of n)) policy_order"
  "map (\<lambda>n. policy_name (policy_of n)) policy_order = policy_titles"
  by code_simp+

definition simulable :: "recorder \<Rightarrow> bool" where
  "simulable tr \<longleftrightarrow> (\<forall>e \<in> set (rec_events tr). sound (ev_intent e)) \<and> int (length (rec_events tr)) \<le> 2 ^ 53"

lemma simulate_bytes_total:
  assumes "valid_order (env_order env)" "simulable tr" "name \<in> set policy_order"
  shows "\<exists>t r. simulate_bytes env tr name hbm dram = Some (Inr (t, r)) \<and> res_policy_name r = policy_name (policy_of name)"
proof -
  have p: "policy_from_name name = Inr (policy_of name)" using policy_order_known(1) assms(3) by (auto simp: list_all_iff)
  obtain t r where r: "run (env_order env) (default_config (policy_of name) hbm dram) (rec_events tr) init_sim = Some (Inr (t, r))"
    using run_succeeds [OF assms(1), of "rec_events tr"] assms(2) unfolding simulable_def by blast
  then have "res_policy_name r = policy_name (policy_of name)"
    by (auto simp: run_def bind_o_Some_Inr_iff default_config_def dest!: summary_policy)
  with p r show ?thesis by (simp add: simulate_bytes_def)
qed

text \<open>The result of a comparison under a policy: that of simulating the trace at the capacities.\<close>

definition result_of :: "environment \<Rightarrow> recorder \<Rightarrow> int \<Rightarrow> int \<Rightarrow> string \<Rightarrow> simulation_result \<Rightarrow> bool" where
  "result_of env tr hbm dram name r \<longleftrightarrow> (\<exists>t. simulate_bytes env tr name hbm dram = Some (Inr (t, r)))"

lemma compare_policies_returns:
  assumes "valid_order (env_order env)" "simulable tr"
  shows "\<exists>rs v. compare_policies env tr hbm dram d w = Some (Inr rs, v) \<and> stdout v = stdout w
    \<and> list_all2 (result_of env tr hbm dram) policy_order rs \<and> map res_policy_name rs = policy_titles"
proof -
  let ?Q = "\<lambda>n r. result_of env tr hbm dram n r \<and> res_policy_name r = policy_name (policy_of n)"
  have "\<exists>rs v. compare_policies env tr hbm dram d w = Some (Inr rs, v) \<and> stdout v = stdout w \<and> list_all2 ?Q policy_order rs"
    unfolding compare_policies_def
  proof (rule collect_returns)
    fix name w assume "name \<in> set policy_order"
    then obtain t r where "simulate_bytes env tr name hbm dram = Some (Inr (t, r))" "res_policy_name r = policy_name (policy_of name)"
      using simulate_bytes_total [OF assms] by blast
    then show "\<exists>y v. bind_c (compute (simulate_bytes env tr name hbm dram)) (\<lambda>sr.
       bind_c (if given d then write_file (the d @ ''/'' @ res_policy_name (snd sr) @ ''.jsonl'')
           (write_decision_log (decision_log (fst sr))) else return_c ()) (\<lambda>_. return_c (snd sr))) w = Some (Inr y, v)
      \<and> stdout v = stdout w \<and> ?Q name y"
      by (auto simp: command_defs result_of_def)
  qed
  then obtain rs v where r: "compare_policies env tr hbm dram d w = Some (Inr rs, v)" "stdout v = stdout w"
    "list_all2 ?Q policy_order rs" by blast
  then have "map res_policy_name rs = map (\<lambda>n. policy_name (policy_of n)) policy_order"
    by (auto simp: list_all2_conv_all_nth intro!: nth_equalityI)
  moreover have "list_all2 (result_of env tr hbm dram) policy_order rs" using r(3) by (rule list_all2_mono) simp
  ultimately show ?thesis using r policy_order_known(2) by simp
qed

text \<open>A trace that was saved is loaded as it was.\<close>

definition portable :: "mevent list \<Rightarrow> bool" where
  "portable es \<longleftrightarrow> (\<forall>e \<in> set es. valid_event e) \<and> float_events es"

lemma load_saved:
  assumes "files w path = Some (to_jsonl r)" "portable (rec_events r)"
  shows "load_trace env path w = Some (Inr r, w)"
  using jsonl_back [of r "env_conv env"] assms
  by (auto simp: load_trace_def command_defs portable_def float_events_def)

lemma compare_returns:
  assumes "valid_order (env_order env)" "files w (ca_trace b) = Some (to_jsonl r)" "portable (rec_events r)" "simulable r"
  shows "\<exists>rs u. cli_main env (Compare b) w = Some (Inr (), u) \<and> stdout u = stdout w @ compare_results rs @ newline
    \<and> list_all2 (result_of env r (mb_to_bytes (ca_hbm_mb b)) (mb_to_bytes (ca_dram_mb b))) policy_order rs
    \<and> map res_policy_name rs = policy_titles"
proof -
  let ?hbm = "mb_to_bytes (ca_hbm_mb b)" and ?dram = "mb_to_bytes (ca_dram_mb b)"
  obtain rs v where "compare_policies env r ?hbm ?dram (ca_decision_log_dir b) w = Some (Inr rs, v)"
    "stdout v = stdout w" "list_all2 (result_of env r ?hbm ?dram) policy_order rs" "map res_policy_name rs = policy_titles"
    using compare_policies_returns [OF assms(1,4), of ?hbm ?dram "ca_decision_log_dir b" w] by blast
  then show ?thesis
    by (intro exI [of _ rs])
      (simp add: cli_main_def compare_cmd_def bind_c_returns load_saved [OF assms(2,3)] print_line_def)
qed

definition import_options_of :: "import_args \<Rightarrow> import_options" where
  "import_options_of a = \<lparr>block_size_bytes = im_logical_block_mb a * 1024 * 1024, decode_block_tokens = 16,
     max_blocks_per_request = Some (im_max_blocks a)\<rparr>"

lemma preset_configs: "dict_get model_presets name = Some m \<Longrightarrow> preset_config name = Inr m"
  by (auto simp: preset_config_def model_presets_def clone_model_config_def split: if_splits)

lemma import_returns:
  assumes "files w (im_requests a) = Some (write_request_trace rs)" "\<forall>r \<in> set rs. valid_record r \<and> footprint_ok m r"
    "dict_get model_presets (im_model a) = Some m" "0 < im_logical_block_mb a" "0 < im_max_blocks a"
  shows "\<exists>es v. cli_main env (ImportRequestTrace a) w = Some (Inr (), v) \<and> files v (im_out a) = Some (to_jsonl \<lparr>rec_events = es\<rparr>)
    \<and> request_trace_to_intent_events (import_options_of a) m rs = Inr es \<and> well_emitted (int (length es), es)"
proof -
  have ok: "options_ok (import_options_of a)" using assms(4,5) by (simp add: options_ok_def import_options_of_def)
  obtain es where es: "request_trace_to_intent_events (import_options_of a) m rs = Inr es" "well_emitted (int (length es), es)"
    using import_total [OF ok assms(2)] by blast
  have load: "load_request_trace (env_conv env) (write_request_trace rs) = Inr rs"
    using request_trace_back assms(2) by blast
  define r u where "r = extend_events es new_recorder" and "u = w\<lparr>files := (files w)(im_out a \<mapsto> to_jsonl r)\<rparr>"
  have r: "r = \<lparr>rec_events = es\<rparr>" by (simp add: r_def extend_events_def new_recorder_def)
  have "\<exists>v. cli_main env (ImportRequestTrace a) w = Some (Inr (), v) \<and> files v = files u"
    using es(1) print_lines_returns [of _ u]
    by (simp add: cli_main_def import_cmd_def bind_c_def read_file_def assms(1) load preset_configs [OF assms(3)]
        import_options_of_def Let_def r_def [symmetric] save_trace_def write_file_def u_def [symmetric] print_line_def
        del: print_lines.simps)
  then show ?thesis using es by (auto simp: u_def r)
qed

text \<open>C29: Importing a request trace and comparing the policies on the result work together through the files. Take a file
  of valid records (with caches of at most 2^53 bytes), a preset model, a positive block size and block bound, and so many records that no more than
  2^53 events can arise. The import returns and its output file then holds, as JSON lines, exactly the events the
  importer makes of these records with the options of the command line. Comparing the policies on that file prints a
  table of five results, one per policy in the order of the code, and each is the result of simulating exactly these
  events under that policy with the given HBM and DRAM sizes, whatever these are and whatever the log directory.\<close>

theorem import_then_compare:
  assumes "valid_order (env_order env)" "files w (im_requests a) = Some (write_request_trace rs)"
    "\<forall>r \<in> set rs. valid_record r \<and> footprint_ok m r" "dict_get model_presets (im_model a) = Some m"
    "0 < im_logical_block_mb a" "0 < im_max_blocks a"
    "int (length rs) * (5 * im_max_blocks a) \<le> 2 ^ 53" "ca_trace b = im_out a"
  shows "\<exists>es v results u. cli_main env (ImportRequestTrace a) w = Some (Inr (), v)
    \<and> request_trace_to_intent_events (import_options_of a) m rs = Inr es
    \<and> files v (im_out a) = Some (to_jsonl \<lparr>rec_events = es\<rparr>)
    \<and> cli_main env (Compare b) v = Some (Inr (), u)
    \<and> stdout u = stdout v @ compare_results results @ newline
    \<and> list_all2 (result_of env \<lparr>rec_events = es\<rparr> (mb_to_bytes (ca_hbm_mb b)) (mb_to_bytes (ca_dram_mb b)))
        policy_order results
    \<and> map res_policy_name results = policy_titles"
proof -
  obtain es v where v: "cli_main env (ImportRequestTrace a) w = Some (Inr (), v)"
    "files v (im_out a) = Some (to_jsonl \<lparr>rec_events = es\<rparr>)"
    "request_trace_to_intent_events (import_options_of a) m rs = Inr es" "well_emitted (int (length es), es)"
    using import_returns [OF assms(2-6), of env] by blast
  have "length es \<le> length rs * (5 * nat (im_max_blocks a))"
    using import_length [OF _ _ v(3)] assms(5,6) by (simp add: import_options_of_def options_ok_def)
  then have "int (length es) \<le> int (length rs * (5 * nat (im_max_blocks a)))" by (simp only: of_nat_le_iff)
  then have "int (length es) \<le> 2 ^ 53" using assms(6,7) by simp
  then have "portable es" "simulable \<lparr>rec_events = es\<rparr>"
    using v(3,4) import_floats by (auto simp: portable_def simulable_def well_emitted_def)
  then show ?thesis using compare_returns [OF assms(1), of v b "\<lparr>rec_events = es\<rparr>"] v(1-3) assms(8) by auto
qed

section \<open>Samples\<close>

definition plain_conversions :: conversions where
  "plain_conversions = \<lparr>repr_of = json_text, int_of_text = (\<lambda>s. Inl (ValueError s)), float_of_text = (\<lambda>s. Inl (ValueError s)),
     dict_of_items = (\<lambda>j. Inl (TypeError ''items''))\<rparr>"

definition sample_env :: environment where
  "sample_env = \<lparr>env_order = sorted_order, env_conv = plain_conversions, workload_draws = (\<lambda>_ _. 42), mock_draws_of = (\<lambda>_ _ n. 0)\<rparr>"

definition sample_import :: import_args where
  "sample_import = \<lparr>im_requests = ''in.jsonl'', im_out = ''trace.jsonl'', im_model = ''llama-3-8b'', im_logical_block_mb = 1,
     im_max_blocks = 4, im_json = False\<rparr>"

definition sample_world :: world where
  "sample_world = \<lparr>files = [''in.jsonl'' \<mapsto> write_request_trace [sample_record]], stdout = []\<rparr>"

lemma sample_facts [simp]:
  "valid_order (env_order sample_env)" "files sample_world (im_requests sample_import) = Some (write_request_trace [sample_record])"
  "dict_get model_presets (im_model sample_import) = Some (preset ''llama-3-8b'' 32 4096 32)"
  "0 < im_logical_block_mb sample_import" "0 < im_max_blocks sample_import"
  by (simp_all add: sample_env_def sample_world_def sample_import_def model_presets_def)

definition sample_compare :: compare_args where
  "sample_compare = \<lparr>ca_trace = ''trace.jsonl'', ca_hbm_mb = 2, ca_dram_mb = 64, ca_decision_log_dir = Some ''logs''\<rparr>"

theorem import_then_compare_witness:
  "\<exists>es v results u. cli_main sample_env (ImportRequestTrace sample_import) sample_world = Some (Inr (), v)
    \<and> request_trace_to_intent_events (import_options_of sample_import) (preset ''llama-3-8b'' 32 4096 32) [sample_record] = Inr es
    \<and> files v (im_out sample_import) = Some (to_jsonl \<lparr>rec_events = es\<rparr>)
    \<and> cli_main sample_env (Compare sample_compare) v = Some (Inr (), u)
    \<and> stdout u = stdout v @ compare_results results @ newline
    \<and> list_all2 (result_of sample_env \<lparr>rec_events = es\<rparr> (mb_to_bytes (ca_hbm_mb sample_compare))
        (mb_to_bytes (ca_dram_mb sample_compare))) policy_order results
    \<and> map res_policy_name results = policy_titles"
  by (rule import_then_compare [where rs = "[sample_record]" and m = "preset ''llama-3-8b'' 32 4096 32"])
    (simp_all add: sample_compare_def, simp_all add: sample_import_def)

theorem cli_touches_outputs_witness:
  "\<exists>v. cli_main sample_env (ImportRequestTrace sample_import) sample_world = Some (Inr (), v)
    \<and> files v ''in.jsonl'' = Some (write_request_trace [sample_record])"
proof -
  obtain v where v: "cli_main sample_env (ImportRequestTrace sample_import) sample_world = Some (Inr (), v)"
    using import_returns [of sample_world sample_import "[sample_record]" "preset ''llama-3-8b'' 32 4096 32" sample_env] by auto
  from cli_touches_outputs [OF v, of "''in.jsonl''"] v show ?thesis
    by (simp add: outputs_def sample_import_def sample_world_def)
qed

section \<open>The sweep\<close>

lemma default_trace_returns:
  assumes "valid_draws (workload_draws env seed)"
  shows "\<exists>tr. default_trace env prof seed small = Inr tr \<and> simulable tr \<and> portable (rec_events tr)"
proof -
  let ?w = "default_workload prof small"
  have w: "0 < wl_block_size ?w" "1 \<le> num_requests ?w" by (simp_all add: default_workload_def)
  then obtain es where es: "generate_synthetic_kv_workload (workload_draws env seed) ?w = Inr es" "well_emitted (int (length es), es)"
    using generate_total [OF assms] by blast
  have "length es \<le> nat (num_requests ?w) * nat (3 * blocks_per_request ?w) + nat (decode_steps ?w) * 9"
    by (rule workload_shape(2) [OF es(1)])
  then have "int (length es) \<le> 2 ^ 53" by (auto simp: default_workload_def split: if_splits)
  with es workload_shape(1) [OF es(1)] show ?thesis
    by (auto simp: default_trace_def generated_def extend_events_def new_recorder_def simulable_def portable_def well_emitted_def)
qed

definition row_of :: "environment \<Rightarrow> recorder \<Rightarrow> int \<Rightarrow> int \<times> string \<Rightarrow> jdict \<Rightarrow> bool" where
  "row_of env tr dram_mb cell row \<longleftrightarrow> (\<exists>t r. simulate env tr (snd cell) (fst cell) dram_mb = Some (Inr (t, r))
     \<and> row = sweep_row (fst cell) r)"

definition grid :: "int list \<Rightarrow> (int \<times> string) list" where
  "grid hbm_values = concat (map (\<lambda>mb. map (Pair mb) policy_order) hbm_values)"

lemma sweep_rows_return:
  assumes "valid_order (env_order env)" "simulable tr"
  shows "\<exists>rows. sweep_rows env tr hbm_values dram_mb = Some (Inr rows) \<and> list_all2 (row_of env tr dram_mb) (grid hbm_values) rows"
proof -
  let ?f = "\<lambda>mb name rows. bind_o (simulate env tr name mb dram_mb) (\<lambda>r. Some (Inr (rows @ [sweep_row mb (snd r)])))"
  have cell: "\<exists>t new. ?f mb name rows = Some (Inr t) \<and> t = rows @ new \<and> list_all2 (row_of env tr dram_mb) [(mb, name)] new"
    if name: "name \<in> set policy_order" for mb name rows
  proof -
    obtain t r where "simulate env tr name mb dram_mb = Some (Inr (t, r))"
      unfolding simulate_def using simulate_bytes_total [OF assms name] by blast
    then show ?thesis by (auto simp: row_of_def)
  qed
  have "\<exists>t new. fold_o (?f mb) policy_order rows = Some (Inr t) \<and> t = rows @ new
      \<and> list_all2 (row_of env tr dram_mb) (map (Pair mb) policy_order) new" for mb rows
    using fold_o_grid [of "\<lambda>_. True" rows policy_order "?f mb" "\<lambda>rows. rows" "row_of env tr dram_mb" "\<lambda>name. [(mb, name)]"] cell
    by (simp only: concat_map_singleton simp_thms)
  then show ?thesis
    using fold_o_grid [of "\<lambda>_. True" "[]" hbm_values "\<lambda>mb. fold_o (?f mb) policy_order" "\<lambda>rows. rows"
        "row_of env tr dram_mb" "\<lambda>mb. map (Pair mb) policy_order"]
    by (simp add: sweep_rows_def grid_def)
qed

text \<open>The cells of a row of the table, in the order of the columns.\<close>

definition row_cells :: "conversions \<Rightarrow> jdict \<Rightarrow> string list" where
  "row_cells c row = map (\<lambda>kv. csv_value c (snd kv)) row"

lemma sweep_row_csv: "csv_row c sweep_columns (sweep_row mb r) = Inr (csv_line (row_cells c (sweep_row mb r)))"
  by (simp add: csv_row_def sweep_row_def sweep_columns_def row_cells_def)

lemma sweep_csv_text:
  assumes "list_all2 (row_of env tr d) cells rows"
  shows "write_sweep_csv c rows = Inr (csv_line sweep_columns @ concat (map (\<lambda>r. csv_line (row_cells c r)) rows))"
proof -
  have "csv_row c sweep_columns row = Inr (csv_line (row_cells c row))" if "row \<in> set rows" for row
    using assms that by (auto simp: list_all2_conv_all_nth row_of_def in_set_conv_nth sweep_row_csv)
  then have "map_r (csv_row c sweep_columns) rows = Inr (map (\<lambda>r. csv_line (row_cells c r)) rows)" by (rule map_r_Inr)
  then show ?thesis by (simp add: write_sweep_csv_def csv_text_def)
qed

lemma even_points_length [simp]: "length (even_points start stop points) = nat (max 1 points)"
  by (simp add: even_points_def Let_def)

lemma length_grid [simp]: "length (grid mbs) = 5 * length mbs"
  by (induction mbs) (simp_all add: grid_def policy_order_def)

text \<open>C30: The demo sweep always writes its table: for every profile, seed, capacity range and number of points, it returns
  and the file under the output path is the header line followed by one line for each of the five policies at each
  of the points, in this order, each with the results of simulating the generated trace at that capacity.\<close>

theorem sweep_writes_grid:
  assumes "valid_order (env_order env)" "valid_draws (workload_draws env (sw_seed a))" "sw_demo a"
  shows "\<exists>tr rows v. default_trace env (sw_profile a) (sw_seed a) True = Inr tr
    \<and> cli_main env (Sweep a) w = Some (Inr (), v)
    \<and> files v (sw_out a) = Some (csv_line sweep_columns @ concat (map (\<lambda>r. csv_line (row_cells (env_conv env) r)) rows))
    \<and> list_all2 (row_of env tr (sw_dram_mb a)) (grid (even_points (sw_min_mb a) (sw_max_mb a) (sw_points a))) rows
    \<and> length rows = 5 * nat (max 1 (sw_points a))"
proof -
  obtain tr where tr: "default_trace env (sw_profile a) (sw_seed a) True = Inr tr" "simulable tr"
    using default_trace_returns [OF assms(2)] by blast
  obtain rows where rows: "sweep_rows env tr (even_points (sw_min_mb a) (sw_max_mb a) (sw_points a)) (sw_dram_mb a) = Some (Inr rows)"
    "list_all2 (row_of env tr (sw_dram_mb a)) (grid (even_points (sw_min_mb a) (sw_max_mb a) (sw_points a))) rows"
    using sweep_rows_return [OF assms(1) tr(2)] by blast
  define u where "u = w\<lparr>files := (files w)(sw_out a \<mapsto> csv_line sweep_columns @ concat (map (\<lambda>r. csv_line (row_cells (env_conv env) r)) rows))\<rparr>"
  have "\<exists>v. cli_main env (Sweep a) w = Some (Inr (), v) \<and> files v = files u"
    using print_lines_returns [of _ u]
    by (simp add: cli_main_def sweep_cmd_def sweep_trace_def assms(3) tr(1) bind_c_def rows(1) sweep_csv_text [OF rows(2)]
        write_file_def u_def [symmetric] del: print_lines.simps)
  then obtain v where "cli_main env (Sweep a) w = Some (Inr (), v)" "files v = files u" by blast
  moreover have "length rows = 5 * nat (max 1 (sw_points a))" using list_all2_lengthD [OF rows(2)] by simp
  ultimately show ?thesis using tr(1) rows(2) by (intro exI [of _ tr] exI [of _ rows] exI [of _ v]) (simp add: u_def)
qed

definition sample_sweep :: sweep_args where
  "sample_sweep = \<lparr>sw_trace = None, sw_demo = True, sw_min_mb = 1, sw_max_mb = 8, sw_points = 3, sw_dram_mb = 64,
     sw_out = ''sweep.csv'', sw_profile = deadline_pressure, sw_seed = 42\<rparr>"

theorem sweep_writes_grid_witness:
  "\<exists>rows v. cli_main sample_env (Sweep sample_sweep) sample_world = Some (Inr (), v) \<and> length rows = 15
    \<and> files v ''sweep.csv'' = Some (csv_line sweep_columns @ concat (map (\<lambda>r. csv_line (row_cells plain_conversions r)) rows))"
proof -
  have "valid_draws (workload_draws sample_env (sw_seed sample_sweep))" by (simp add: sample_env_def valid_draws_def)
  from sweep_writes_grid [OF sample_facts(1) this, of sample_world] show ?thesis
    by (auto simp: sample_sweep_def sample_env_def)
qed

end
