(* ===== verification/SpeculativeLaws.thy ===== *)
theory SpeculativeLaws
  imports Speculative "HOL-Library.Multiset"
begin

text \<open>
  What the speculative package computes. On a tree whose parents are older than their children, the
  walk over the descendants ends and lists each proper descendant once; the two work loops end, and
  the whole benchmark returns its two results.
\<close>

section \<open>Descendants\<close>

definition tree_ok :: "draft_tree \<Rightarrow> bool" where
  "tree_ok nodes \<longleftrightarrow> dict_wf nodes
     \<and> (\<forall>kn \<in> set nodes. \<forall>p \<in> set_option (parent_id (snd kn)). p < fst kn)"

definition child_rel :: "draft_tree \<Rightarrow> (int \<times> int) set" where
  "child_rel nodes = {(p, k). \<exists>n. (k, n) \<in> set nodes \<and> parent_id n = Some p}"

definition the_node :: "draft_tree \<Rightarrow> int \<Rightarrow> draft_node" where
  "the_node nodes k = the (dict_get nodes k)"

lemma child_rel_older: "tree_ok nodes \<Longrightarrow> (p, k) \<in> child_rel nodes \<Longrightarrow> p < k"
  by (fastforce simp: tree_ok_def child_rel_def)

lemma child_rel_unique: "tree_ok nodes \<Longrightarrow> (p, k) \<in> child_rel nodes \<Longrightarrow> (q, k) \<in> child_rel nodes \<Longrightarrow> p = q"
  by (auto simp: tree_ok_def child_rel_def dest: eq_key_imp_eq_value)

lemma below_older:
  assumes "tree_ok nodes" "(i, k) \<in> (child_rel nodes)\<^sup>+" shows "i < k"
  using assms(2) by (induction rule: trancl_induct) (auto dest: child_rel_older [OF assms(1)])

lemma below_keys: "(i, k) \<in> (child_rel nodes)\<^sup>+ \<Longrightarrow> k \<in> dict_keys nodes"
  by (induction rule: trancl_induct) (force simp: child_rel_def)+

lemma with_parent_props:
  assumes "tree_ok nodes"
  shows "distinct (map fst (with_parent nodes (Some c)))"
    and "set (map fst (with_parent nodes (Some c))) = {k. (c, k) \<in> child_rel nodes}"
    and "map snd (with_parent nodes (Some c)) = map (the_node nodes) (map fst (with_parent nodes (Some c)))"
  using assms by (auto simp: with_parent_def tree_ok_def child_rel_def the_node_def distinct_map_filter image_iff Bex_def)

text \<open>What holds before each turn of the loop: \<open>P\<close> are the popped ids, \<open>ks\<close> the found ones.\<close>

definition walking :: "draft_tree \<Rightarrow> int \<Rightarrow> int set \<Rightarrow> int list \<Rightarrow> int list \<Rightarrow> bool" where
  "walking nodes i P pending ks \<longleftrightarrow>
     distinct pending \<and> distinct ks \<and> i \<notin> set ks \<and> set pending \<inter> P = {} \<and> P \<union> set pending = insert i (set ks)
     \<and> set ks = {k. \<exists>p \<in> P. (p, k) \<in> child_rel nodes} \<and> (\<forall>k \<in> set ks. (i, k) \<in> (child_rel nodes)\<^sup>+)"

lemma walkingD:
  assumes "walking nodes i P pending ks"
  shows "distinct pending" "distinct ks" "i \<notin> set ks" "set pending \<inter> P = {}"
    "P \<union> set pending = insert i (set ks)" "set ks = {k. \<exists>p \<in> P. (p, k) \<in> child_rel nodes}"
    "\<forall>k \<in> set ks. (i, k) \<in> (child_rel nodes)\<^sup>+"
  using assms unfolding walking_def by - (elim conjE, assumption)+

lemma walking_step:
  assumes ok: "tree_ok nodes" and w: "walking nodes i P pending ks" and ne: "pending \<noteq> []"
  defines "c \<equiv> last pending" and "cs \<equiv> map fst (with_parent nodes (Some (last pending)))"
  shows "walking nodes i (insert c P) (butlast pending @ cs) (ks @ cs)"
proof -
  note W = walkingD [OF w]
  have cs: "distinct cs" "set cs = {k. (c, k) \<in> child_rel nodes}"
    using with_parent_props [OF ok, of c] by (simp_all add: cs_def c_def)
  have split: "pending = butlast pending @ [c]" using ne by (simp add: c_def)
  have c: "c \<in> set pending" "c \<notin> P" "c \<notin> set (butlast pending)" "distinct (butlast pending)"
    and pend: "set pending = insert c (set (butlast pending))"
    using W split by (metis disjoint_iff last_in_set ne c_def,
      metis disjoint_iff last_in_set ne c_def, metis distinct_append disjoint_iff list.set_intros(1),
      metis distinct_butlast, metis Un_commute insert_is_Un list.simps(15) set_append empty_set)
  have from_i: "c = i \<or> (i, c) \<in> (child_rel nodes)\<^sup>+" using W(5,7) c(1) by blast
  have below: "(i, k) \<in> (child_rel nodes)\<^sup>+" if "k \<in> set cs" for k
    using from_i that cs(2) by auto
  have new: "set cs \<inter> set ks = {}"
    using W cs(2) c(2) child_rel_unique [OF ok] by blast
  have not_i: "i \<notin> set cs" using below_older [OF ok below] by blast
  have self: "c \<notin> set cs" using cs(2) child_rel_older [OF ok, of c c] by auto
  have old: "set (butlast pending) \<union> P \<subseteq> insert i (set ks)" using W pend by blast
  show ?thesis
    unfolding walking_def
  proof (intro conjI)
    show "distinct (butlast pending @ cs)" using c(4) cs(1) old new not_i by auto
    show "distinct (ks @ cs)" using W cs(1) new by auto
    show "i \<notin> set (ks @ cs)" using W not_i by auto
    have "set (butlast pending) \<inter> insert c P = {}" using W(4) pend c(3) by blast
    moreover have "set cs \<inter> insert c P = {}" using old new not_i self by blast
    ultimately show "set (butlast pending @ cs) \<inter> insert c P = {}" by auto
    show "insert c P \<union> set (butlast pending @ cs) = insert i (set (ks @ cs))" using W(5) pend by auto
    show "set (ks @ cs) = {k. \<exists>p \<in> insert c P. (p, k) \<in> child_rel nodes}"
      unfolding set_append W(6) cs(2) by blast
    show "\<forall>k \<in> set (ks @ cs). (i, k) \<in> (child_rel nodes)\<^sup>+" using W(7) below by auto
  qed
qed

lemma walking_end:
  assumes "walking nodes i P [] ks" shows "set ks = {k. (i, k) \<in> (child_rel nodes)\<^sup>+}"
proof -
  have P: "P = insert i (set ks)" using walkingD(5) [OF assms] by simp
  note ks = walkingD(6) [OF assms] and below = walkingD(7) [OF assms]
  have closed: "k \<in> set ks" if "p = i \<or> p \<in> set ks" "(p, k) \<in> child_rel nodes" for p k
    using that P ks by blast
  have "k \<in> set ks" if "(i, k) \<in> (child_rel nodes)\<^sup>+" for k
    using that by (induction rule: trancl_induct) (blast intro: closed)+
  with below show ?thesis by blast
qed

lemma walking_next:
  assumes "walking nodes i P pending ks" "pending \<noteq> []"
  shows "last pending \<in> insert i (dict_keys nodes)" "last pending \<notin> P"
proof -
  have W: "set pending \<inter> P = {}" "P \<union> set pending = insert i (set ks)"
    "\<forall>k \<in> set ks. (i, k) \<in> (child_rel nodes)\<^sup>+"
    by (rule walkingD [OF assms(1)])+
  have l: "last pending \<in> set pending" using assms(2) by simp
  then show "last pending \<notin> P" using W(1) by blast
  from l W(2) have "last pending = i \<or> last pending \<in> set ks" by blast
  then show "last pending \<in> insert i (dict_keys nodes)" using W(3) below_keys by blast
qed

lemma descend_spec:
  assumes ok: "tree_ok nodes" and w: "walking nodes i P pending ks"
  shows "\<exists>js. descend nodes pending (map (the_node nodes) ks) = Some (map (the_node nodes) js)
    \<and> distinct js \<and> set js = {k. (i, k) \<in> (child_rel nodes)\<^sup>+}"
  using w
proof (induction "card (insert i (dict_keys nodes) - P)" arbitrary: P pending ks rule: less_induct)
  case less
  note w = less.prems
  show ?case
  proof (cases "pending = []")
    case True
    with w have "set ks = {k. (i, k) \<in> (child_rel nodes)\<^sup>+}" by (intro walking_end) simp
    then show ?thesis using True walkingD(2) [OF w] by (intro exI [of _ ks]) (simp add: descend.simps)
  next
    case False
    let ?c = "last pending" and ?cs = "map fst (with_parent nodes (Some (last pending)))"
    note c = walking_next [OF w False]
    have "card (insert i (dict_keys nodes) - insert ?c P) < card (insert i (dict_keys nodes) - P)"
      using c by (intro psubset_card_mono) auto
    from less.hyps [OF this walking_step [OF ok w False]]
    moreover have "descend nodes pending (map (the_node nodes) ks)
        = descend nodes (butlast pending @ ?cs) (map (the_node nodes) (ks @ ?cs))"
      using False by (subst descend.simps) (simp add: with_parent_props(3) [OF ok] del: map_map)
    ultimately show ?thesis by simp
  qed
qed

lemma descendants_total:
  assumes "tree_ok nodes"
  shows "\<exists>js. descendants nodes i = Some (map (the_node nodes) js)
    \<and> distinct js \<and> set js = {k. (i, k) \<in> (child_rel nodes)\<^sup>+}"
proof -
  have "walking nodes i {} [i] []" by (simp add: walking_def)
  from descend_spec [OF assms this] show ?thesis by (simp add: descendants_def)
qed

section \<open>Verification\<close>

definition subtree :: "draft_tree \<Rightarrow> int \<Rightarrow> int set" where
  "subtree tree i = {k \<in> dict_keys tree. k = i \<or> (i, k) \<in> (child_rel tree)\<^sup>+}"

definition subtree_blocks :: "draft_tree \<Rightarrow> int \<Rightarrow> string set" where
  "subtree_blocks tree i = (\<lambda>k. kv_object_id (the_node tree k)) ` subtree tree i"

lemma affected_total:
  assumes "tree_ok tree"
  shows "\<exists>ns. affected tree i = Some ns \<and> kv_object_id ` set ns = subtree_blocks tree i"
proof -
  obtain js where js: "descendants tree i = Some (map (the_node tree) js)"
    "set js = {k. (i, k) \<in> (child_rel tree)\<^sup>+}" using descendants_total [OF assms] by blast
  have keys: "set js \<subseteq> dict_keys tree" using js(2) below_keys by blast
  show ?thesis
  proof (cases "dict_get tree i")
    case None
    then have "i \<notin> dict_keys tree" using dict_get_None_iff [of tree i] by blast
    then have "subtree tree i = set js" using keys js(2) by (auto simp: subtree_def)
    with None js(1) show ?thesis by (simp add: affected_def subtree_blocks_def image_image)
  next
    case (Some n)
    then have "i \<in> dict_keys tree" by (rule dict_key_of)
    then have "subtree tree i = insert i (set js)" using keys js(2) by (auto simp: subtree_def)
    with Some js(1) show ?thesis by (simp add: affected_def subtree_blocks_def image_image the_node_def)
  qed
qed

text \<open>Rejection removes the blocks and counts them.\<close>

lemma card_keys_delete: "k \<in> dict_keys d \<Longrightarrow> card (dict_keys (AList.delete k d)) = card (dict_keys d) - 1"
  by (simp only: dict_keys_delete card_Diff_singleton)

lemma fold_reject:
  "dict_get (snd (fold reject_node ns pb)) k = (if k \<in> kv_object_id ` set ns then None else dict_get (snd pb) k)
   \<and> draft_blocks_freed_on_rejection (fst (fold reject_node ns pb)) = draft_blocks_freed_on_rejection (fst pb)
       + int (card (dict_keys (snd pb))) - int (card (dict_keys (snd (fold reject_node ns pb))))"
proof (induction ns arbitrary: pb)
  case (Cons n ns)
  let ?q = "reject_node n pb"
  have get: "dict_get (snd ?q) k = (if k = kv_object_id n then None else dict_get (snd pb) k)"
    by (auto simp: reject_node_def dict_simps split: option.splits)
  have "draft_blocks_freed_on_rejection (fst ?q) = draft_blocks_freed_on_rejection (fst pb)
      + int (card (dict_keys (snd pb))) - int (card (dict_keys (snd ?q)))"
  proof (cases "dict_get (snd pb) (kv_object_id n)")
    case (Some b)
    then have k: "kv_object_id n \<in> dict_keys (snd pb)" by (rule dict_key_of)
    then have "dict_keys (snd pb) \<noteq> {}" by (metis empty_iff)
    then have "0 < card (dict_keys (snd pb))" by (simp add: card_gt_0_iff)
    with Some card_keys_delete [OF k] show ?thesis by (simp add: reject_node_def)
  qed (simp add: reject_node_def)
  with Cons.IH [of ?q] get show ?case by (cases "k = kv_object_id n") simp_all
qed simp

text \<open>Acceptance commits them.\<close>

definition committed_from :: "mintent \<Rightarrow> mintent" where
  "committed_from b = b\<lparr>priority := DECODE_CRITICAL, phase := DECODE, pin_requested := True, is_draft := False,
     is_committed := True\<rparr>"

definition sound_blocks :: "block_table \<Rightarrow> bool" where
  "sound_blocks bs \<longleftrightarrow> (\<forall>k b. dict_get bs k = Some b \<longrightarrow> sound b)"

lemma committed_from_props [simp]: "sound b \<Longrightarrow> sound (committed_from b)" "committed_from (committed_from b) = committed_from b"
  by (simp_all add: committed_from_def sound_def valid_intent_def intent_ranges_def routable_def)

lemma commit_copy: "sound b \<Longrightarrow> copy_with (\<lambda>b. b\<lparr>priority := DECODE_CRITICAL, phase := DECODE,
    pin_requested := True, is_draft := False, is_committed := True\<rparr>) b = Inr (committed_from b)"
  using post_init_valid [of "committed_from b"] committed_from_props [of b]
  by (simp add: copy_with_def committed_from_def [symmetric] sound_def)

lemma commit_node_total:
  assumes "sound_blocks bs"
  shows "\<exists>bs'. commit_node n bs = Inr bs' \<and> sound_blocks bs'
    \<and> (\<forall>k. dict_get bs' k = (if k = kv_object_id n then map_option committed_from (dict_get bs k) else dict_get bs k))"
proof (cases "dict_get bs (kv_object_id n)")
  case (Some b)
  then have "sound b" using assms by (simp add: sound_blocks_def)
  with Some assms commit_copy show ?thesis by (auto simp: commit_node_def sound_blocks_def dict_simps)
qed (use assms in \<open>simp add: commit_node_def\<close>)

lemma fold_commit:
  assumes "sound_blocks bs"
  shows "\<exists>bs'. fold_r commit_node ns bs = Inr bs' \<and> sound_blocks bs'
    \<and> (\<forall>k. dict_get bs' k = (if k \<in> kv_object_id ` set ns then map_option committed_from (dict_get bs k)
                               else dict_get bs k))"
  using assms
proof (induction ns arbitrary: bs)
  case (Cons n ns)
  obtain cs where cs: "commit_node n bs = Inr cs" "sound_blocks cs"
    "\<forall>k. dict_get cs k = (if k = kv_object_id n then map_option committed_from (dict_get bs k) else dict_get bs k)"
    using commit_node_total [OF Cons.prems] by blast
  obtain bs' where bs': "fold_r commit_node ns cs = Inr bs'" "sound_blocks bs'"
    "\<forall>k. dict_get bs' k = (if k \<in> kv_object_id ` set ns then map_option committed_from (dict_get cs k) else dict_get cs k)"
    using Cons.IH [OF cs(2)] by blast
  have "dict_get bs' k = (if k \<in> kv_object_id ` set (n # ns) then map_option committed_from (dict_get bs k)
      else dict_get bs k)" for k
    using bs'(3) cs(3) by (cases "dict_get bs k") auto
  with cs(1) bs'(1,2) show ?case by simp
qed simp

lemma verify_total:
  assumes "tree_ok tree" "sound_blocks bs"
  shows "\<exists>pol' bs'. process_verify_event ev tree accepted (pol, bs) = Some (Inr (pol', bs')) \<and> sound_blocks bs'
    \<and> (\<forall>k. dict_get bs' k = (if k \<in> subtree_blocks tree (block_id (ev_intent ev))
         then (if accepted then map_option committed_from (dict_get bs k) else None) else dict_get bs k))
    \<and> draft_blocks_freed_on_rejection pol' = draft_blocks_freed_on_rejection pol
         + int (card (dict_keys bs)) - int (card (dict_keys bs'))"
proof -
  obtain ns where ns: "affected tree (block_id (ev_intent ev)) = Some ns"
    "kv_object_id ` set ns = subtree_blocks tree (block_id (ev_intent ev))" using affected_total [OF assms(1)] by blast
  show ?thesis
  proof (cases accepted)
    case True
    obtain bs' where bs': "fold_r commit_node ns bs = Inr bs'" "sound_blocks bs'"
      "\<forall>k. dict_get bs' k = (if k \<in> kv_object_id ` set ns then map_option committed_from (dict_get bs k) else dict_get bs k)"
      using fold_commit [OF assms(2)] by blast
    have "k \<in> dict_keys bs' \<longleftrightarrow> k \<in> dict_keys bs" for k
      using bs'(3) dict_get_None_iff [of bs k] dict_get_None_iff [of bs' k] by (auto split: if_splits)
    then have "dict_keys bs' = dict_keys bs" by blast
    with True ns bs' show ?thesis by (simp add: process_verify_event_def)
  next
    case False
    note f = fold_reject [of ns "(pol, bs)"]
    have "sound_blocks (snd (fold reject_node ns (pol, bs)))"
      using f assms(2) by (auto simp: sound_blocks_def split: if_splits)
    with False ns f show ?thesis
      by (cases "fold reject_node ns (pol, bs)") (simp add: process_verify_event_def)
  qed
qed

section \<open>The work loops\<close>

text \<open>Replacing an element of a work list by elements of smaller rank.\<close>

lemma expand_less:
  assumes "\<forall>x \<in> set new. rank x < (rank i :: nat)"
  shows "(mset (map rank (new @ rest)), mset (map rank (i # rest))) \<in> mult {(a, b). a < b}"
proof -
  have "(mset (map rank rest) + mset (map rank new), mset (map rank rest) + {#rank i#}) \<in> mult {(a, b). a < b}"
    using assms by (intro one_step_implies_mult) auto
  then show ?thesis by (simp add: ac_simps)
qed

lemma wf_worklist: "wf (inv_image (mult {(a :: nat, b). a < b}) (\<lambda>xs. mset (map rank xs)))"
  by (intro wf_inv_image wf_mult wf_less)

text \<open>What the lifecycle keeps.\<close>

definition life_ok :: "life_state \<Rightarrow> bool" where
  "life_ok s \<longleftrightarrow> 0 \<le> life_step s \<and> sound_blocks (life_blocks s)
     \<and> (\<forall>e \<in> set (life_events s). valid_event e \<and> sound (ev_intent e))"

lemma life_event_total:
  assumes "life_ok s" "sound i"
  shows "\<exists>t. life_event et reason i s = Inr t \<and> life_ok t"
proof -
  let ?i = "i\<lparr>last_access_step := life_step s\<rparr>"
  have v: "sound ?i" "valid_intent ?i"
    using assms(2) by (auto simp: sound_def valid_intent_def intent_ranges_def routable_def)
  have "valid_event \<lparr>ev_step = life_step s, ev_type = et, ev_intent = ?i, ev_reason = Some reason, ev_latency_us = None\<rparr>"
    using assms(1) v by (simp add: valid_event_def life_ok_def)
  then show ?thesis
    using assms(1) v by (auto simp: life_event_def copy_with_def mk_event_def event_post_init_def life_ok_def)
qed

lemma free_subtree_total:
  assumes "life_ok s" "\<forall>i \<in> set is. sound i"
  shows "\<exists>t. free_subtree is s = Inr t \<and> life_ok t"
  unfolding free_subtree_def using assms by (intro fold_r_total) (auto intro: life_event_total)

lemma resolve_node_total:
  assumes tree: "tree_ok tree" and s: "life_ok s" and i: "i \<in> dict_keys tree"
    and own: "\<forall>k \<in> dict_keys tree. \<forall>b. dict_get (life_blocks s) (kv_object_id (the_node tree k)) = Some b \<longrightarrow> block_id b = k"
  shows "\<exists>g t. resolve_node unit tree i s = Some (Inr (g, t)) \<and> life_ok t
    \<and> (\<forall>j b. dict_get (life_blocks t) j = Some b \<longrightarrow> (\<exists>c. dict_get (life_blocks s) j = Some c \<and> block_id c = block_id b))"
proof -
  obtain node where node: "dict_get tree i = Some node" using dict_key_Some [OF i] by blast
  have nd: "the_node tree i = node" using node by (simp add: the_node_def)
  show ?thesis
  proof (cases "dict_get (life_blocks s) (kv_object_id node)")
    case None
    with node s show ?thesis by (auto simp: resolve_node_def)
  next
    case (Some current)
    have cur: "sound current" "block_id current = i" using Some s own i nd by (auto simp: life_ok_def sound_blocks_def)
    let ?v = "current\<lparr>last_access_step := life_step s\<rparr>"
    have v: "copy_with (\<lambda>b. b\<lparr>last_access_step := life_step s\<rparr>) current = Inr ?v"
      using cur(1) by (simp add: copy_with_def sound_def valid_intent_def intent_ranges_def)
    define verify where "verify = \<lparr>ev_step = life_step s, ev_type = ACCESSED, ev_intent = ?v,
      ev_reason = Some ''speculative verify'', ev_latency_us = None\<rparr>"
    have ev: "mk_event (life_step s) ACCESSED ?v ''speculative verify'' = Inr verify"
      using s by (simp add: mk_event_def event_post_init_def verify_def life_ok_def)
    obtain js where below: "descendants tree i = Some (map (the_node tree) js)" using descendants_total [OF tree] by blast
    define accepted where "accepted \<longleftrightarrow> unit (life_draws s) < acceptance_prob node"
    define doomed where "doomed = List.map_filter (\<lambda>n. dict_get (life_blocks s) (kv_object_id n)) (node # map (the_node tree) js)"
    have vid: "block_id (ev_intent verify) = i" using cur(2) by (simp add: verify_def)
    obtain pol bs where pv: "process_verify_event verify tree accepted (life_policy s, life_blocks s) = Some (Inr (pol, bs))"
      "sound_blocks bs"
      "\<forall>k. dict_get bs k = (if k \<in> subtree_blocks tree i
         then (if accepted then map_option committed_from (dict_get (life_blocks s) k) else None) else dict_get (life_blocks s) k)"
      using verify_total [OF tree, of "life_blocks s" verify accepted "life_policy s"] s vid by (auto simp: life_ok_def)
    define s2 where "s2 = s\<lparr>life_draws := life_draws s + 1, life_policy := pol, life_blocks := bs\<rparr>"
    have s2: "life_ok s2" using s pv(2) by (simp add: life_ok_def s2_def)
    have keep: "\<exists>c. dict_get (life_blocks s) j = Some c \<and> block_id c = block_id b" if "dict_get bs j = Some b" for j b
      using that pv(3) by (auto simp: committed_from_def split: if_splits)
    have mine: "kv_object_id node \<in> subtree_blocks tree i" using i nd by (auto simp: subtree_blocks_def subtree_def)
    have run: "resolve_node unit tree i s = (if accepted then
        (case dict_get bs (kv_object_id node) of None \<Rightarrow> Some (Inl (KeyError (kv_object_id node)))
         | Some c \<Rightarrow> Some (bind_r (life_event COMMITTED ''speculative draft accepted'' c s2) (\<lambda>s3. Inr (True, s3))))
        else Some (bind_r (free_subtree doomed s2) (\<lambda>s3. Inr (False, s3))))"
      using pv(1) by (cases "dict_get bs (kv_object_id node)")
        (simp_all add: resolve_node_def node Some v ev below accepted_def [symmetric] doomed_def s2_def)
    have frame: "life_blocks t = bs" if "life_event et r c s2 = Inr t \<or> free_subtree cs s2 = Inr t" for et r c cs t
    proof -
      have "life_blocks u = life_blocks w" if "life_event et r c w = Inr u" for et r c u w
        using that by (auto simp: life_event_def bind_r_Inr_iff)
      then have "life_blocks t = life_blocks s2"
        using that fold_r_invariant [of _ cs s2 t "\<lambda>w. life_blocks w = life_blocks s2"] by (auto simp: free_subtree_def)
      then show ?thesis by (simp add: s2_def)
    qed
    show ?thesis
    proof (cases accepted)
      case True
      then have c: "dict_get bs (kv_object_id node) = Some (committed_from current)" using pv(3) mine Some by simp
      obtain t where t: "life_event COMMITTED ''speculative draft accepted'' (committed_from current) s2 = Inr t" "life_ok t"
        using life_event_total [OF s2 committed_from_props(1) [OF cur(1)]] by blast
      have "life_blocks t = bs" using frame t(1) by blast
      with run True c keep t show ?thesis by auto
    next
      case False
      have "\<forall>d \<in> set doomed. sound d"
        using s by (auto simp: doomed_def map_filter_def life_ok_def sound_blocks_def)
      then obtain t where t: "free_subtree doomed s2 = Inr t" "life_ok t" using free_subtree_total [OF s2] by blast
      have "life_blocks t = bs" using frame t(1) by blast
      with run False keep t show ?thesis by auto
    qed
  qed
qed

text \<open>The blocks of the tree are numbered by its nodes.\<close>

definition numbered :: "draft_tree \<Rightarrow> life_state \<Rightarrow> bool" where
  "numbered tree s \<longleftrightarrow> (\<forall>k \<in> dict_keys tree. \<forall>b.
     dict_get (life_blocks s) (kv_object_id (the_node tree k)) = Some b \<longrightarrow> block_id b = k)"

definition rank_in :: "draft_tree \<Rightarrow> int \<Rightarrow> nat" where
  "rank_in tree i = nat (Max (dict_keys tree) - i)"

lemma child_rank:
  assumes "tree_ok tree" "k \<in> set (map fst (with_parent tree (Some i)))"
  shows "k \<in> dict_keys tree" "rank_in tree k < rank_in tree i"
proof -
  show k: "k \<in> dict_keys tree" using assms(2) by (auto simp: with_parent_def)
  have "(i, k) \<in> child_rel tree" using assms(2) by (auto simp: with_parent_def child_rel_def)
  then have "i < k" by (rule child_rel_older [OF assms(1)])
  moreover have "k \<le> Max (dict_keys tree)" using k by (intro Max_ge) auto
  ultimately show "rank_in tree k < rank_in tree i" by (simp add: rank_in_def)
qed

lemma resolve_all_total:
  assumes tree: "tree_ok tree" and "life_ok s" "numbered tree s" "set ids \<subseteq> dict_keys tree"
  shows "\<exists>t. resolve_all unit tree ids s = Some (Inr t) \<and> life_ok t"
  using assms(2-)
proof (induction ids arbitrary: s rule: wf_induct_rule [OF wf_worklist [of "rank_in tree"]])
  case (1 ids)
  show ?case
  proof (cases ids)
    case Nil
    with 1 show ?thesis by (simp add: resolve_all.simps)
  next
    case (Cons i rest)
    then have i: "i \<in> dict_keys tree" using "1.prems" by simp
    obtain g t where t: "resolve_node unit tree i s = Some (Inr (g, t))" "life_ok t"
      "\<forall>j b. dict_get (life_blocks t) j = Some b \<longrightarrow> (\<exists>c. dict_get (life_blocks s) j = Some c \<and> block_id c = block_id b)"
      using resolve_node_total [OF tree "1.prems"(1) i "1.prems"(2) [unfolded numbered_def], of unit] by blast
    have n: "numbered tree t" using "1.prems"(2) t(3) by (fastforce simp: numbered_def)
    let ?new = "if g then map fst (with_parent tree (Some i)) else []"
    have new: "\<forall>k \<in> set ?new. k \<in> dict_keys tree \<and> rank_in tree k < rank_in tree i"
      using child_rank [OF tree] by (cases g) auto
    have "(?new @ rest, ids) \<in> inv_image (mult {(a, b). a < b}) (\<lambda>xs. mset (map (rank_in tree) xs))"
      using expand_less [of ?new "rank_in tree" i rest] new Cons by (simp add: in_inv_image)
    moreover have "set (?new @ rest) \<subseteq> dict_keys tree" using new "1.prems"(3) Cons by auto
    ultimately obtain u where "resolve_all unit tree (?new @ rest) t = Some (Inr u)" "life_ok u"
      using "1.IH" [of "?new @ rest" t] t(2) n by blast
    moreover have "resolve_all unit tree ids s = resolve_all unit tree (?new @ rest) t"
      by (subst resolve_all.simps) (simp add: Cons t(1))
    ultimately show ?thesis by simp
  qed
qed

section \<open>The draft workload\<close>

lemma draft_recency:
  assumes "0 \<le> d" "d \<le> 10"
  shows "0 \<le> fsub 1 (fmul (int_to_float d) (fl (1 / 10)))" "fsub 1 (fmul (int_to_float d) (fl (1 / 10))) \<le> 1"
proof -
  have d: "int_to_float d = of_int d" using assms by (simp add: int_to_float_exact)
  have pos: "0 \<le> fl (1 / 10)" by (rule fl_nonneg) simp
  have "of_int d * fl (1 / 10) \<le> 10 * fl (1 / 10)" using assms(2) pos by (intro mult_right_mono) simp_all
  then have "fmul (of_int d) (fl (1 / 10)) \<le> fl (10 * fl (1 / 10))" by (simp add: fmul_def fl_mono)
  moreover have "fl (10 * fl (1 / 10)) = 1" by code_simp
  ultimately show "0 \<le> fsub 1 (fmul (int_to_float d) (fl (1 / 10)))" by (simp add: fsub_def d fl_nonneg)
  have "0 \<le> fmul (of_int d) (fl (1 / 10))" using assms(1) pos by (auto simp: fmul_def intro: fl_nonneg)
  then show "fsub 1 (fmul (int_to_float d) (fl (1 / 10))) \<le> 1" by (simp add: fsub_def d fl_le)
qed

definition draft_ok :: "draft_state \<Rightarrow> bool" where
  "draft_ok s \<longleftrightarrow> 0 \<le> ds_step s \<and> 0 \<le> ds_node_id s \<and> tree_ok (ds_tree s)
     \<and> (\<forall>kn \<in> set (ds_tree s). 0 \<le> fst kn \<and> fst kn < ds_node_id s \<and> kv_object_id (snd kn) = draft_id (fst kn))
     \<and> (\<forall>e \<in> set (ds_events s). valid_event e \<and> sound (ev_intent e) \<and> ev_step e < ds_step s
          \<and> object_id (ev_intent e) = draft_id (block_id (ev_intent e)))
     \<and> (\<forall>pd \<in> set (ds_frontier s). 0 \<le> snd pd \<and> (\<forall>p \<in> set_option (fst pd). p < ds_node_id s))"

lemma draft_child_total:
  assumes s: "draft_ok s" and d: "0 \<le> d" "d < tree_depth" "d \<le> 10"
    and p: "\<forall>q \<in> set_option parent. q < ds_node_id s"
  shows "\<exists>t. draft_child gauss tree_depth parent d s = Inr t \<and> draft_ok t
    \<and> ds_node_id s < ds_node_id t
    \<and> (\<exists>new. ds_frontier t = ds_frontier s @ new \<and> (\<forall>pd \<in> set new. snd pd = d + 1 \<and> snd pd < tree_depth)
        \<and> (d + 1 < tree_depth \<longrightarrow> new \<noteq> []))"
proof -
  let ?n = "ds_node_id s" and ?step = "ds_step s"
  let ?prob = "clamp_prob (gauss (ds_draws s))"
  let ?i = "draft_intent ?n d ?prob ?step"
  have r: "intent_ranges ?i" "routable ?i" "priority ?i \<noteq> DECODE_CRITICAL"
    using s d draft_recency [of d]
    by (auto simp: draft_ok_def draft_intent_def new_intent_def intent_ranges_def routable_def draft_id_def)
  then have i: "post_init ?i = Inr ?i" "sound ?i" by (simp_all add: post_init_eq auto_pin_def sound_def valid_intent_def)
  let ?v = "?i\<lparr>phase := VERIFY, recency_score := 1\<rparr>"
  have v: "copy_with (\<lambda>b. b\<lparr>phase := VERIFY, recency_score := 1\<rparr>) ?i = Inr ?v" "sound ?v"
    using i(2) r(3) by (simp_all add: copy_with_def sound_def valid_intent_def intent_ranges_def routable_def)
  have ids: "object_id ?i = draft_id ?n" "block_id ?i = ?n" by (simp_all add: draft_intent_def new_intent_def)
  define e1 where "e1 = \<lparr>ev_step = ?step, ev_type = ALLOCATED, ev_intent = ?i, ev_reason = Some ''draft alloc'', ev_latency_us = None\<rparr>"
  define e2 where "e2 = \<lparr>ev_step = ?step + 1, ev_type = ACCESSED, ev_intent = ?v, ev_reason = Some ''draft access'', ev_latency_us = None\<rparr>"
  define node where "node = \<lparr>token_id = 1000 + ?n, parent_id = parent, depth = d, acceptance_prob = ?prob, kv_object_id = draft_id ?n\<rparr>"
  define new where "new = (if d + 1 < tree_depth then [(Some ?n, d + 1)] else [])"
  define t where "t = s\<lparr>ds_tree := AList.update ?n node (ds_tree s), ds_events := ds_events s @ [e1, e2],
    ds_node_id := ?n + 1, ds_step := ?step + 2, ds_draws := ds_draws s + 1, ds_frontier := ds_frontier s @ new\<rparr>"
  have run: "draft_child gauss tree_depth parent d s = Inr t"
    using s i(1) v(1) by (simp add: draft_child_def Let_def mk_event_def event_post_init_def draft_ok_def t_def e1_def
        e2_def node_def new_def)
  have fresh: "?n \<notin> dict_keys (ds_tree s)" using s by (auto simp: draft_ok_def)
  then have tree: "ds_tree t = ds_tree s @ [(?n, node)]" by (simp add: t_def dict_update_new)
  have "tree_ok (ds_tree t)" using s fresh p tree by (auto simp: draft_ok_def tree_ok_def node_def)
  moreover have "valid_event e1" "valid_event e2" "sound (ev_intent e1)" "sound (ev_intent e2)"
    using s i(2) v(2) by (simp_all add: valid_event_def e1_def e2_def draft_ok_def sound_def)
  moreover have "ds_events t = ds_events s @ [e1, e2]" "ds_node_id t = ?n + 1" "ds_step t = ?step + 2"
    "ds_frontier t = ds_frontier s @ new" by (simp_all add: t_def)
  moreover have "\<forall>e \<in> {e1, e2}. ev_step e < ?step + 2 \<and> object_id (ev_intent e) = draft_id (block_id (ev_intent e))"
    using ids by (simp add: e1_def e2_def)
  ultimately have "draft_ok t"
    using s d(1) by (fastforce simp: draft_ok_def tree node_def new_def)
  with run show ?thesis by (auto simp: t_def new_def)
qed

lemma draft_children_total:
  assumes "draft_ok s" and d: "0 \<le> d" "d < tree_depth" "d \<le> 10"
    and "\<forall>q \<in> set_option parent. q < ds_node_id s"
  shows "\<exists>t new. fold_r (\<lambda>_. draft_child gauss tree_depth parent d) xs s = Inr t \<and> draft_ok t
    \<and> ds_frontier t = ds_frontier s @ new \<and> (\<forall>pd \<in> set new. snd pd = d + 1 \<and> snd pd < tree_depth)
    \<and> (d + 1 < tree_depth \<and> xs \<noteq> [] \<longrightarrow> new \<noteq> [])"
  using assms(1,5)
proof (induction xs arbitrary: s)
  case (Cons x xs)
  obtain u new1 where u: "draft_child gauss tree_depth parent d s = Inr u" "draft_ok u" "ds_node_id s < ds_node_id u"
    "ds_frontier u = ds_frontier s @ new1" "\<forall>pd \<in> set new1. snd pd = d + 1 \<and> snd pd < tree_depth"
    "d + 1 < tree_depth \<longrightarrow> new1 \<noteq> []"
    using draft_child_total [OF Cons.prems(1) d Cons.prems(2), of gauss] by blast
  have "\<forall>q \<in> set_option parent. q < ds_node_id u" using Cons.prems(2) u(3) by fastforce
  from Cons.IH [OF u(2) this] obtain t new2 where
    t: "fold_r (\<lambda>_. draft_child gauss tree_depth parent d) xs u = Inr t" "draft_ok t"
    "ds_frontier t = ds_frontier u @ new2" "\<forall>pd \<in> set new2. snd pd = d + 1 \<and> snd pd < tree_depth" by blast
  show ?case by (rule exI [of _ t], rule exI [of _ "new1 @ new2"]) (use u t in auto)
qed auto

definition depth_rank :: "int \<Rightarrow> int option \<times> int \<Rightarrow> nat" where
  "depth_rank tree_depth pd = nat (tree_depth - snd pd)"

lemma draft_loop_total:
  assumes "draft_ok s" "tree_depth \<le> 11"
  shows "\<exists>t. draft_loop gauss tree_width tree_depth s = Some (Inr t) \<and> draft_ok t"
  using assms(1)
proof (induction "ds_frontier s" arbitrary: s rule: wf_induct_rule [OF wf_worklist [of "depth_rank tree_depth"]])
  case (1 s)
  show ?case
  proof (cases "ds_frontier s")
    case Nil
    with 1 show ?thesis by (simp add: draft_loop.simps)
  next
    case (Cons pd rest)
    let ?s = "s\<lparr>ds_frontier := rest\<rparr>"
    have ok: "draft_ok ?s" using "1.prems" Cons by (auto simp: draft_ok_def)
    have pd: "0 \<le> snd pd" "\<forall>p \<in> set_option (fst pd). p < ds_node_id ?s" using "1.prems" Cons by (auto simp: draft_ok_def)
    have smaller: "(rest @ new, ds_frontier s) \<in> inv_image (mult {(a, b). a < b}) (\<lambda>xs. mset (map (depth_rank tree_depth) xs))"
      if "\<forall>x \<in> set new. depth_rank tree_depth x < depth_rank tree_depth pd" for new
      using expand_less [OF that, of rest] Cons by (simp add: in_inv_image add.commute)
    show ?thesis
    proof (cases "tree_depth \<le> snd pd")
      case True
      have "(ds_frontier ?s, ds_frontier s) \<in> inv_image (mult {(a, b). a < b}) (\<lambda>xs. mset (map (depth_rank tree_depth) xs))"
        using smaller [of "[]"] by simp
      from "1.hyps" [OF this ok] True Cons show ?thesis by (subst draft_loop.simps) simp
    next
      case False
      then obtain t new where t: "fold_r (\<lambda>_. draft_child gauss tree_depth (fst pd) (snd pd)) [0..tree_width - 1] ?s = Inr t"
        "draft_ok t" "ds_frontier t = rest @ new" "\<forall>x \<in> set new. snd x = snd pd + 1 \<and> snd x < tree_depth"
        using draft_children_total [OF ok pd(1) _ _ pd(2), of tree_depth gauss "[0..tree_width - 1]"] assms(2) by auto
      have "(ds_frontier t, ds_frontier s) \<in> inv_image (mult {(a, b). a < b}) (\<lambda>xs. mset (map (depth_rank tree_depth) xs))"
        unfolding t(3) by (rule smaller) (use t(4) in \<open>auto simp: depth_rank_def\<close>)
      from "1.hyps" [OF this t(2)] False Cons t(1) show ?thesis by (subst draft_loop.simps) simp
    qed
  qed
qed

lemma draft_start_ok: "draft_ok draft_start"
  by (simp add: draft_ok_def draft_start_def tree_ok_def)

section \<open>The lifecycle trace\<close>

lemma latest_intents_get:
  assumes "dict_get (fold (\<lambda>e. AList.update (object_id (ev_intent e)) (ev_intent e)) es bs) k = Some b"
    and "\<And>k b. dict_get bs k = Some b \<Longrightarrow> P k b" and "\<And>e. e \<in> set es \<Longrightarrow> P (object_id (ev_intent e)) (ev_intent e)"
  shows "P k b"
  using assms
proof (induction es arbitrary: bs)
  case (Cons e es)
  show ?case
    by (rule Cons.IH [of "AList.update (object_id (ev_intent e)) (ev_intent e) bs"])
      (use Cons.prems in \<open>auto simp: dict_simps split: if_splits\<close>)
qed simp

lemma draft_id_inj [simp]: "draft_id m = draft_id n \<longleftrightarrow> m = n"
  by (simp add: draft_id_def)

lemma start_life:
  assumes "draft_ok s"
  defines "start \<equiv> \<lparr>life_step = next_step (ds_events s), life_events = ds_events s, life_blocks = latest_intents (ds_events s),
     life_policy = new_spec_policy, life_draws = 0\<rparr>"
  shows "life_ok start" "numbered (ds_tree s) start"
proof -
  have ev: "valid_event e \<and> sound (ev_intent e) \<and> object_id (ev_intent e) = draft_id (block_id (ev_intent e))"
    if "e \<in> set (ds_events s)" for e using that assms(1) by (auto simp: draft_ok_def)
  have b: "sound b \<and> k = draft_id (block_id b)" if "dict_get (latest_intents (ds_events s)) k = Some b" for k b
    using that unfolding latest_intents_def
    by (rule latest_intents_get [where P = "\<lambda>k b. sound b \<and> k = draft_id (block_id b)"]) (auto dest: ev)
  have "0 \<le> next_step (ds_events s)"
  proof (cases "ds_events s")
    case (Cons e es)
    then have "0 \<le> ev_step e" using ev [of e] by (simp add: valid_event_def)
    also have "ev_step e \<le> Max (ev_step ` set (ds_events s))" using Cons by (intro Max_ge) auto
    finally show ?thesis using Cons by (simp add: next_step_def)
  qed (simp add: next_step_def)
  then show "life_ok start" using ev b by (auto simp: life_ok_def start_def sound_blocks_def)
  show "numbered (ds_tree s) start"
  proof (unfold numbered_def start_def, intro ballI allI impI)
    fix k c
    assume k: "k \<in> dict_keys (ds_tree s)"
      and c: "dict_get (life_blocks \<lparr>life_step = next_step (ds_events s), life_events = ds_events s,
        life_blocks = latest_intents (ds_events s), life_policy = new_spec_policy, life_draws = 0\<rparr>)
        (kv_object_id (the_node (ds_tree s) k)) = Some c"
    obtain n where n: "dict_get (ds_tree s) k = Some n" using dict_key_Some [OF k] by blast
    then have "(k, n) \<in> set (ds_tree s)" by (rule map_of_SomeD)
    then have "kv_object_id n = draft_id k" using assms(1) by (auto simp: draft_ok_def)
    with n c b show "block_id c = k" by (fastforce simp: the_node_def)
  qed
qed

lemma lifecycle_total:
  assumes "tree_depth \<le> 11"
  shows "\<exists>tree es pol. generate_speculative_lifecycle_trace gauss unit tree_width tree_depth = Some (Inr (tree, es, pol))
    \<and> tree_ok tree \<and> sorted (map ev_step es) \<and> (\<forall>e \<in> set es. valid_event e \<and> sound (ev_intent e))"
proof -
  obtain s where s: "draft_loop gauss tree_width tree_depth draft_start = Some (Inr s)" "draft_ok s"
    using draft_loop_total [OF draft_start_ok assms] by blast
  let ?start = "\<lparr>life_step = next_step (ds_events s), life_events = ds_events s, life_blocks = latest_intents (ds_events s),
     life_policy = new_spec_policy, life_draws = 0\<rparr>"
  have tree: "tree_ok (ds_tree s)" using s(2) by (simp add: draft_ok_def)
  have "set (map fst (with_parent (ds_tree s) None)) \<subseteq> dict_keys (ds_tree s)" by (auto simp: with_parent_def)
  from resolve_all_total [OF tree start_life [OF s(2)] this]
  obtain t where t: "resolve_all unit (ds_tree s) (map fst (with_parent (ds_tree s) None)) ?start = Some (Inr t)" "life_ok t"
    by blast
  have "generate_speculative_lifecycle_trace gauss unit tree_width tree_depth
      = Some (Inr (ds_tree s, sort_key ev_step (life_events t), life_policy t))"
    using s(1) t(1) by (simp add: generate_speculative_lifecycle_trace_def generate_speculative_workload_def Let_def)
  with tree t(2) show ?thesis by (auto simp: life_ok_def)
qed

end
