(* ===== verification/SpeculativeProps.thy ===== *)
theory SpeculativeProps
  imports SpeculativeLaws SimulatorProps
begin

text \<open>The properties of the speculative package, with concrete trees and blocks as witnesses.\<close>

definition sample_node :: "int \<Rightarrow> int option \<Rightarrow> draft_node" where
  "sample_node k p = \<lparr>token_id = 1000 + k, parent_id = p, depth = 0, acceptance_prob = 1 / 2, kv_object_id = draft_id k\<rparr>"

definition sample_tree :: draft_tree where
  "sample_tree = [(0, sample_node 0 None), (1, sample_node 1 (Some 0)), (2, sample_node 2 (Some 1)), (3, sample_node 3 None)]"

lemma sample_tree_ok: "tree_ok sample_tree"
  by (simp add: tree_ok_def sample_tree_def sample_node_def)

text \<open>C23: On a tree whose parents have smaller ids than their children, the walk over the descendants of any
  node ends and returns exactly the nodes reachable from it by one or more child links, each once.\<close>

theorem descendants_spec:
  assumes "tree_ok nodes"
  shows "\<exists>js. descendants nodes i = Some (map (the_node nodes) js) \<and> distinct js
    \<and> set js = {k. (i, k) \<in> (child_rel nodes)\<^sup>+}"
  using descendants_total [OF assms] .

theorem descendants_spec_witness:
  "\<exists>js. descendants sample_tree 0 = Some (map (the_node sample_tree) js) \<and> 2 \<in> set js \<and> 3 \<notin> set js"
proof -
  have "(0, 1) \<in> child_rel sample_tree" "(1, 2) \<in> child_rel sample_tree"
    unfolding child_rel_def sample_tree_def sample_node_def by simp_all
  then have two: "(0, 2) \<in> (child_rel sample_tree)\<^sup>+" by auto
  have no: "(p, 3) \<notin> child_rel sample_tree" for p
    unfolding child_rel_def sample_tree_def sample_node_def by simp
  have three: "(0, 3) \<notin> (child_rel sample_tree)\<^sup>+"
  proof
    assume "(0, 3) \<in> (child_rel sample_tree)\<^sup>+"
    then show False by (cases rule: trancl.cases) (use no in blast)+
  qed
  obtain js where "descendants sample_tree 0 = Some (map (the_node sample_tree) js)"
    "set js = {k. (0, k) \<in> (child_rel sample_tree)\<^sup>+}"
    using descendants_spec [OF sample_tree_ok, of 0] by blast
  with two three show ?thesis by (intro exI [of _ js]) simp
qed

text \<open>On parent links that form a cycle the walk does not return: nothing marks a node as visited.\<close>

theorem cyclic_walk_diverges:
  "descendants [(0, \<lparr>token_id = 0, parent_id = Some 0, depth = 0, acceptance_prob = 1, kv_object_id = ''draft:0''\<rparr>)] 0 = None"
    (is "descendants ?nodes 0 = None")
proof -
  have loops: "with_parent ?nodes (Some 0) = ?nodes" by (simp add: with_parent_def)
  have "\<not> (nodes = ?nodes \<and> pending = [0])" if "descend nodes pending found = Some r" for nodes pending found r
  proof (rule descend.raw_induct [of "\<lambda>nodes pending found r. \<not> (nodes = ?nodes \<and> pending = [0])", OF _ that])
    fix f nodes pending found r
    assume IH: "\<And>nodes pending found r. f nodes pending found = Some r \<Longrightarrow> \<not> (nodes = ?nodes \<and> pending = [0])"
      and body: "(if pending = [] then Some found
        else f nodes (butlast pending @ map fst (with_parent nodes (Some (last pending))))
          (found @ map snd (with_parent nodes (Some (last pending))))) = Some r"
    show "\<not> (nodes = ?nodes \<and> pending = [0])"
    proof
      assume eq: "nodes = ?nodes \<and> pending = [0]"
      then have "f ?nodes [0] (found @ map snd ?nodes) = Some r" using body loops by simp
      from IH [OF this] show False by simp
    qed
  qed
  then have "descend ?nodes [0] [] \<noteq> Some r" for r by blast
  then show ?thesis unfolding descendants_def by (metis not_Some_eq)
qed

text \<open>C22: On a well-formed draft tree and sound blocks a verification never raises and touches exactly the blocks of the
  node and its descendants. Well-formed means that every parent has a smaller number than its child, as in the trees
  the generator builds, so that there are no cycles (the class itself does not rule them out, and
  \<open>cyclic_walk_diverges\<close> shows that the walk never ends on one); sound means that every stored block is a valid
  intent that may live in HBM and in a tier below. Acceptance then turns each block of the subtree into a committed,
  pinned, decode-critical one; rejection removes them and counts one freed block for each.\<close>

theorem verification_touches_subtree:
  assumes "tree_ok tree" "\<forall>k b. dict_get bs k = Some b \<longrightarrow> sound b"
  shows "\<exists>pol' bs'. process_verify_event ev tree accepted (pol, bs) = Some (Inr (pol', bs'))
    \<and> (\<forall>k. dict_get bs' k = (if k \<in> subtree_blocks tree (block_id (ev_intent ev))
         then (if accepted then map_option (\<lambda>b. b\<lparr>priority := DECODE_CRITICAL, phase := DECODE, pin_requested := True,
                 is_draft := False, is_committed := True\<rparr>) (dict_get bs k) else None)
         else dict_get bs k))
    \<and> draft_blocks_freed_on_rejection pol' - draft_blocks_freed_on_rejection pol
        = int (card (dict_keys bs)) - int (card (dict_keys bs'))"
proof -
  have "sound_blocks bs" using assms(2) by (simp add: sound_blocks_def)
  from verify_total [OF assms(1) this, of ev accepted pol] show ?thesis
    by (auto simp: committed_from_def [abs_def])
qed

theorem verification_touches_subtree_witness:
  "\<exists>pol' bs'. process_verify_event (sample_event ACCESSED ((sample_intent ''draft:0'')\<lparr>block_id := 0\<rparr>)) sample_tree False
     (new_spec_policy, [(''draft:0'', sample_intent ''draft:0''), (''other'', sample_intent ''other'')]) = Some (Inr (pol', bs'))
   \<and> dict_get bs' ''other'' = Some (sample_intent ''other'')"
proof -
  let ?bs = "[(''draft:0'', sample_intent ''draft:0''), (''other'', sample_intent ''other'')]"
  have sound: "\<forall>k b. dict_get ?bs k = Some b \<longrightarrow> sound b"
    by (auto simp: sound_def routable_def split: if_splits) (auto simp: sample_intent_def)
  have "subtree_blocks sample_tree i \<subseteq> range draft_id" for i
    by (auto simp: subtree_blocks_def subtree_def the_node_def sample_tree_def sample_node_def)
  moreover have "''other'' \<notin> range draft_id" by (auto simp: draft_id_def)
  ultimately have "''other'' \<notin> subtree_blocks sample_tree i" for i by blast
  with verification_touches_subtree [OF sample_tree_ok sound,
    of "sample_event ACCESSED ((sample_intent ''draft:0'')\<lparr>block_id := 0\<rparr>)" False new_spec_policy]
  show ?thesis by fastforce
qed

lemma deep_child_raises:
  assumes "0 \<le> ds_node_id s"
  shows "\<exists>msg. draft_child gauss tree_depth parent 11 s = Inl (ValueError msg)"
proof -
  have "fsub 1 (fmul (int_to_float 11) (fl (1 / 10))) < 0" by code_simp
  then have "\<not> 0 \<le> recency_score (draft_intent (ds_node_id s) 11 prob (ds_step s))" for prob
    by (simp add: draft_intent_def not_le)
  then have "\<exists>msg. post_init (draft_intent (ds_node_id s) 11 prob (ds_step s)) = Inl (ValueError msg)" for prob
    by (auto simp: post_init_def)
  from this [of "clamp_prob (gauss (ds_draws s))"] show ?thesis by (auto simp: draft_child_def Let_def)
qed

lemma deep_loop_raises:
  assumes "draft_ok s" "ds_frontier s \<noteq> []" "\<forall>pd \<in> set (ds_frontier s). snd pd \<le> 11" "12 \<le> tree_depth" "1 \<le> tree_width"
  shows "\<exists>msg. draft_loop gauss tree_width tree_depth s = Some (Inl (ValueError msg))"
  using assms(1-3)
proof (induction "ds_frontier s" arbitrary: s rule: wf_induct_rule [OF wf_worklist [of "depth_rank tree_depth"]])
  case (1 s)
  let ?kids = "[0..tree_width - 1]"
  have kids: "?kids \<noteq> []" using assms(5) by simp
  from "1.prems"(2) obtain pd rest where front: "ds_frontier s = pd # rest" by (cases "ds_frontier s") auto
  let ?s = "s\<lparr>ds_frontier := rest\<rparr>"
  have ok: "draft_ok ?s" using "1.prems"(1) front by (auto simp: draft_ok_def)
  have pd: "0 \<le> snd pd" "\<forall>p \<in> set_option (fst pd). p < ds_node_id ?s" "\<not> tree_depth \<le> snd pd"
    using "1.prems"(1,3) assms(4) front by (auto simp: draft_ok_def)
  show ?case
  proof (cases "snd pd = 11")
    case True
    have "\<exists>msg. draft_child gauss tree_depth (fst pd) (snd pd) ?s = Inl (ValueError msg)"
      unfolding True by (rule deep_child_raises) (use ok in \<open>simp add: draft_ok_def\<close>)
    then have "\<exists>msg. fold_r (\<lambda>_. draft_child gauss tree_depth (fst pd) (snd pd)) ?kids ?s = Inl (ValueError msg)"
      using kids by (cases ?kids) auto
    then show ?thesis using pd(3) front by (subst draft_loop.simps) auto
  next
    case False
    then have d: "snd pd \<le> 10" using "1.prems"(3) front by auto
    obtain t new where t: "fold_r (\<lambda>_. draft_child gauss tree_depth (fst pd) (snd pd)) ?kids ?s = Inr t" "draft_ok t"
      "ds_frontier t = rest @ new" "\<forall>x \<in> set new. snd x = snd pd + 1 \<and> snd x < tree_depth" "new \<noteq> []"
      using draft_children_total [OF ok pd(1) _ d pd(2), of tree_depth gauss ?kids] pd(3) kids d assms(4) by auto
    have "(ds_frontier t, ds_frontier s) \<in> inv_image (mult {(a, b). a < b}) (\<lambda>xs. mset (map (depth_rank tree_depth) xs))"
    proof -
      have "\<forall>x \<in> set new. depth_rank tree_depth x < depth_rank tree_depth pd"
        using t(4) by (auto simp: depth_rank_def)
      from expand_less [OF this, of rest] show ?thesis by (simp add: in_inv_image t(3) front add.commute)
    qed
    moreover have "\<forall>x \<in> set (ds_frontier t). snd x \<le> 11" using t(3,4) d "1.prems"(3) front by auto
    ultimately have "\<exists>msg. draft_loop gauss tree_width tree_depth t = Some (Inl (ValueError msg))"
      using "1.hyps" [OF _ t(2)] t(3,5) by auto
    then show ?thesis using pd(3) front t(1) by (subst draft_loop.simps) simp
  qed
qed

text \<open>No draft workload of depth 12 or more can be generated, whatever the random draws: the level at depth
  11 is reached, its recency score 1 - 0.1 * 11 is negative, and the construction of the intent raises.\<close>

theorem deep_draft_raises:
  assumes "12 \<le> tree_depth" "1 \<le> tree_width"
  shows "\<exists>msg. generate_speculative_workload gauss tree_width tree_depth = Some (Inl (ValueError msg))"
  using deep_loop_raises [OF draft_start_ok _ _ assms, of gauss]
  by (auto simp: generate_speculative_workload_def draft_start_def)

theorem deep_draft_raises_witness:
  "\<exists>msg. generate_speculative_workload (\<lambda>i. 1 / 2) 4 12 = Some (Inl (ValueError msg))"
  by (rule deep_draft_raises) simp_all

text \<open>The two runs of the suite replay the same trace.\<close>

lemma drafts_compared:
  assumes "valid_order ord" "generate_speculative_lifecycle_trace gauss unit tree_width tree_depth = Some (Inr (tree, es, pol))"
    "\<forall>e \<in> set es. sound (ev_intent e)" "int (length es) \<le> 2 ^ 53"
  shows "\<exists>r1 r2. run_speculative_policy_suite ord gauss unit hbm dram tree_width tree_depth = Some (Inr [r1, r2])
    \<and> committed_blocks_count r1 = committed_blocks_count r2 \<and> freed_rejected_blocks r1 = freed_rejected_blocks r2
    \<and> wasted_mb r1 = 0 \<and> wasted_mb r2 = wasted_hbm_mb_on_rejected_drafts pol"
proof -
  have name: "policy_from_name ''deadline'' = Inr (IntentFamily DeadlineAwarePolicy)" by code_simp
  obtain t1 r1 t2 r2 where "run ord (default_config (IntentFamily DeadlineAwarePolicy) hbm dram) es init_sim = Some (Inr (t1, r1))"
    "run ord (default_config (IntentFamily SpeculativeIntentPolicy) hbm dram) es init_sim = Some (Inr (t2, r2))"
    using run_succeeds [OF assms(1,3,4)] by meson
  then show ?thesis by (simp add: run_speculative_policy_suite_def assms(2) name speculative_result_of_def)
qed

text \<open>C21: For trees of depth at most 11 the lifecycle generator returns, whatever the random draws: its trace is
  ordered by step and every event is valid. The policy suite then returns the results of the two
  policies, which count the same commits and frees.\<close>

theorem speculative_suite_returns:
  assumes "valid_order ord" "tree_depth \<le> 11"
  shows "\<exists>tree es pol. generate_speculative_lifecycle_trace gauss unit tree_width tree_depth = Some (Inr (tree, es, pol))
    \<and> sorted (map ev_step es) \<and> (\<forall>e \<in> set es. valid_event e)
    \<and> (int (length es) \<le> 2 ^ 53 \<longrightarrow> (\<exists>r1 r2. run_speculative_policy_suite ord gauss unit hbm dram tree_width tree_depth = Some (Inr [r1, r2])
         \<and> committed_blocks_count r1 = committed_blocks_count r2 \<and> freed_rejected_blocks r1 = freed_rejected_blocks r2
         \<and> wasted_mb r1 = 0 \<and> wasted_mb r2 = wasted_hbm_mb_on_rejected_drafts pol))"
proof -
  obtain tree es pol where g: "generate_speculative_lifecycle_trace gauss unit tree_width tree_depth = Some (Inr (tree, es, pol))"
    "sorted (map ev_step es)" "\<forall>e \<in> set es. valid_event e \<and> sound (ev_intent e)"
    using lifecycle_total [OF assms(2)] by blast
  from drafts_compared [OF assms(1) g(1)] g show ?thesis by fastforce
qed

theorem speculative_suite_returns_witness:
  "\<exists>tree es pol. generate_speculative_lifecycle_trace (\<lambda>i. 1 / 2) (\<lambda>i. 1 / 4) 4 3 = Some (Inr (tree, es, pol))
    \<and> sorted (map ev_step es)"
  using speculative_suite_returns [of sorted_order 3 "\<lambda>i. 1 / 2" "\<lambda>i. 1 / 4" 4 0 0] by auto

end
