(* ===== verification/SuiteLaws.thy ===== *)
theory SuiteLaws
  imports Suite CliLaws SpeculativeProps
begin

text \<open>
  The grids of the benchmark programs are complete, the latency distributions they report are ordered, and the
  telemetry parser accepts exactly the records that have the documented fields.
\<close>

section \<open>The benchmark sweep\<close>

text \<open>The events a workload of a grid can have are few enough to be counted by floats.\<close>

definition countable_grid :: "grid_args \<Rightarrow> bool" where
  "countable_grid a \<longleftrightarrow> 1 \<le> gr_requests a \<and> 0 < gr_block_mb a
     \<and> nat (gr_requests a) * nat (3 * gr_blocks a) + nat (gr_decode_steps a) * 9 \<le> 2 ^ 53"

lemma generated_returns:
  assumes "valid_draws (workload_draws env seed)" "0 < wl_block_size w" "1 \<le> num_requests w"
    "nat (num_requests w) * nat (3 * blocks_per_request w) + nat (decode_steps w) * 9 \<le> 2 ^ 53"
  shows "\<exists>tr. generated env seed w = Inr tr \<and> simulable tr"
proof -
  obtain es where es: "generate_synthetic_kv_workload (workload_draws env seed) w = Inr es" "well_emitted (int (length es), es)"
    using generate_total [OF assms(1,2)] assms(3) by blast
  have "length es \<le> 2 ^ 53" using workload_shape(2) [OF es(1)] assms(4) by linarith
  then have "int (length es) \<le> int (2 ^ 53)" by (simp only: of_nat_le_iff)
  then have "int (length es) \<le> 2 ^ 53" by simp
  with es show ?thesis
    by (auto simp: generated_def extend_events_def new_recorder_def simulable_def well_emitted_def)
qed

text \<open>A row of the sweep comes from a simulation of the profile's trace.\<close>

definition bench_row :: "environment \<Rightarrow> grid_args \<Rightarrow> workload_profile \<times> string \<Rightarrow> jdict \<Rightarrow> bool" where
  "bench_row env a cell row \<longleftrightarrow> (\<exists>tr t r sec. generated env (gr_seed a) (grid_workload a (fst cell)) = Inr tr
     \<and> simulate env tr (snd cell) (gr_hbm_mb a) (gr_dram_mb a) = Some (Inr (t, r)) \<and> row = benchmark_row (fst cell) (snd cell) r sec)"

definition bench_grid :: "workload_profile list \<Rightarrow> (workload_profile \<times> string) list" where
  "bench_grid profs = concat (map (\<lambda>p. map (Pair p) policy_order) profs)"

text \<open>C34: The benchmark sweep covers its grid: for a positive number of requests and block size and any random draws and
  clock, it returns one row for each of the five profiles under each of the five policies, in this order, with
  the results of simulating that profile's workload under that policy; nothing raises.\<close>

theorem benchmark_covers_grid:
  assumes "valid_order (env_order env)" "valid_draws (workload_draws env (gr_seed a))" "countable_grid a"
  shows "\<exists>rows. run_sweep env clock a = Some (Inr rows) \<and> list_all2 (bench_row env a) (bench_grid sweep_profiles) rows
    \<and> length rows = 25"
proof -
  let ?f = "\<lambda>prof tr name rows. bind_o (simulate env tr name (gr_hbm_mb a) (gr_dram_mb a)) (\<lambda>sr.
             let k = length rows
             in Some (Inr (rows @ [benchmark_row prof name (snd sr) (fsub (clock (2 * k + 1)) (clock (2 * k)))])))"
  let ?g = "\<lambda>prof rows. bind_o (Some (generated env (gr_seed a) (grid_workload a prof))) (\<lambda>tr. fold_o (?f prof tr) policy_order rows)"
  have "\<exists>t new. ?g prof rows = Some (Inr t) \<and> t = rows @ new \<and> list_all2 (bench_row env a) (map (Pair prof) policy_order) new"
    for prof rows
  proof -
    obtain tr where tr: "generated env (gr_seed a) (grid_workload a prof) = Inr tr" "simulable tr"
      using generated_returns [OF assms(2), of "grid_workload a prof"] assms(3) by (auto simp: countable_grid_def grid_workload_def)
    have "\<exists>t new. ?f prof tr name rows = Some (Inr t) \<and> t = rows @ new \<and> list_all2 (bench_row env a) [(prof, name)] new"
      if name: "name \<in> set policy_order" for name rows
    proof -
      obtain t r where "simulate env tr name (gr_hbm_mb a) (gr_dram_mb a) = Some (Inr (t, r))"
        unfolding simulate_def using simulate_bytes_total [OF assms(1) tr(2) name] by blast
      with tr(1) show ?thesis by (auto simp: bench_row_def Let_def)
    qed
    then show ?thesis
      using fold_o_grid [of "\<lambda>_. True" rows policy_order "?f prof tr" "\<lambda>rows. rows" "bench_row env a" "\<lambda>name. [(prof, name)]"] tr(1)
      by (simp only: concat_map_singleton simp_thms bind_o_simps)
  qed
  then obtain rows where rows: "run_sweep env clock a = Some (Inr rows)" "list_all2 (bench_row env a) (bench_grid sweep_profiles) rows"
    using fold_o_grid [of "\<lambda>_. True" "[]" sweep_profiles ?g "\<lambda>rows. rows" "bench_row env a" "\<lambda>prof. map (Pair prof) policy_order"]
    by (auto simp: run_sweep_def bench_grid_def)
  have "length (bench_grid sweep_profiles) = 25" by (simp add: bench_grid_def sweep_profiles_def policy_order_def)
  with rows list_all2_lengthD [OF rows(2)] show ?thesis by simp
qed

definition sample_grid :: grid_args where
  "sample_grid = \<lparr>gr_seed = 42, gr_requests = 64, gr_blocks = 24, gr_block_mb = 1, gr_decode_steps = 32, gr_hbm_mb = 128, gr_dram_mb = 4096\<rparr>"

theorem benchmark_covers_grid_witness:
  "\<exists>rows. run_sweep sample_env (\<lambda>k. of_nat k) sample_grid = Some (Inr rows) \<and> length rows = 25"
proof -
  have "valid_draws (workload_draws sample_env (gr_seed sample_grid))" by (simp add: sample_env_def valid_draws_def)
  moreover have "countable_grid sample_grid" by (simp add: countable_grid_def sample_grid_def)
  ultimately show ?thesis using benchmark_covers_grid [OF sample_facts(1)] by blast
qed

section \<open>The reproducible suite\<close>

text \<open>A cell of the grid yields a row of the table and the distribution of the latencies of its simulation.\<close>

definition suite_cell :: "environment \<Rightarrow> int \<Rightarrow> suite_workload \<times> string \<Rightarrow> jdict \<times> dist \<Rightarrow> bool" where
  "suite_cell env seed cell res \<longleftrightarrow> (\<exists>tr t r. generated env seed (su_options (fst cell)) = Inr tr
     \<and> simulate_bytes env tr (snd cell) (su_hbm_bytes (fst cell)) (su_dram_bytes (fst cell)) = Some (Inr (t, r))
     \<and> res = (suite_row (su_name (fst cell)) (snd cell) r, distribution (latencies t)))"

definition suite_grid :: "suite_workload list \<Rightarrow> string list \<Rightarrow> (suite_workload \<times> string) list" where
  "suite_grid workloads names = concat (map (\<lambda>w. map (Pair w) names) workloads)"

definition cell_key :: "suite_workload \<times> string \<Rightarrow> string" where
  "cell_key cell = su_name (fst cell) @ ''::'' @ snd cell"

text \<open>A workload whose events are few enough to be counted by floats.\<close>

definition countable_workload :: "workload_options \<Rightarrow> bool" where
  "countable_workload w \<longleftrightarrow> 1 \<le> num_requests w \<and> 0 < wl_block_size w
     \<and> nat (num_requests w) * nat (3 * blocks_per_request w) + nat (decode_steps w) * 9 \<le> 2 ^ 53"

text \<open>The dictionary of the distributions: each is found under the name of its cell, where the last cell of a name wins.\<close>

definition reports_dists :: "(suite_workload \<times> string) list \<Rightarrow> (jdict \<times> dist) list \<Rightarrow> (string, dist) dict \<Rightarrow> bool" where
  "reports_dists cells results ds \<longleftrightarrow> dict_keys ds = cell_key ` set cells
     \<and> (\<forall>i < length cells. (\<forall>j. i < j \<and> j < length cells \<longrightarrow> cell_key (cells ! j) \<noteq> cell_key (cells ! i))
          \<longrightarrow> dict_get ds (cell_key (cells ! i)) = Some (snd (results ! i)))"

lemma reported_dist:
  assumes "reports_dists cells results ds" "i < length cells"
    "\<And>j. i < j \<Longrightarrow> j < length cells \<Longrightarrow> cell_key (cells ! j) \<noteq> cell_key (cells ! i)"
  shows "dict_get ds (cell_key (cells ! i)) = Some (snd (results ! i))"
  using assms by (simp add: reports_dists_def)

definition store_all :: "('a \<Rightarrow> 'k) \<Rightarrow> ('a \<Rightarrow> 'v) \<Rightarrow> 'a list \<Rightarrow> ('k, 'v) dict" where
  "store_all key val ps = foldl (\<lambda>d p. AList.update (key p) (val p) d) [] ps"

lemma store_all_simps [simp]: "store_all key val [] = []"
  "store_all key val (ps @ [p]) = AList.update (key p) (val p) (store_all key val ps)"
  by (simp_all add: store_all_def)

lemma store_all_keys: "dict_keys (store_all key val ps) = key ` set ps"
  by (induction ps rule: rev_induct) (simp_all add: dict_simps)

lemma store_all_get:
  "i < length ps \<Longrightarrow> (\<And>j. i < j \<Longrightarrow> j < length ps \<Longrightarrow> key (ps ! j) \<noteq> key (ps ! i))
    \<Longrightarrow> dict_get (store_all key val ps) (key (ps ! i)) = Some (val (ps ! i))"
proof (induction ps rule: rev_induct)
  case (snoc p ps)
  show ?case
  proof (cases "i < length ps")
    case True
    have "key p \<noteq> key (ps ! i)" using snoc.prems(2) [of "length ps"] True by (simp add: nth_append)
    moreover have "key (ps ! j) \<noteq> key (ps ! i)" if "i < j" "j < length ps" for j
      using snoc.prems(2) [of j] that by (simp add: nth_append)
    ultimately show ?thesis using snoc.IH True by (simp add: nth_append dict_simps)
  next
    case False
    then have "i = length ps" using snoc.prems(1) by simp
    then show ?thesis by (simp add: dict_simps)
  qed
qed simp

lemma stored_dists:
  assumes "length cells = length results"
  shows "reports_dists cells results (store_all (cell_key \<circ> fst) (snd \<circ> snd) (zip cells results))"
proof -
  let ?ps = "zip cells results"
  have "(cell_key \<circ> fst) ` set ?ps = cell_key ` set cells"
    using assms by (metis image_comp list.set_map map_fst_zip)
  moreover have "dict_get (store_all (cell_key \<circ> fst) (snd \<circ> snd) ?ps) (cell_key (cells ! i)) = Some (snd (results ! i))"
    if "i < length cells" "\<forall>j. i < j \<and> j < length cells \<longrightarrow> cell_key (cells ! j) \<noteq> cell_key (cells ! i)" for i
    using store_all_get [of i ?ps "cell_key \<circ> fst" "snd \<circ> snd"] that assms by simp
  ultimately show ?thesis by (simp add: reports_dists_def store_all_keys)
qed

text \<open>A loop that handles a group of cells per round, one after the other.\<close>

lemma fold_o_cells:
  assumes "\<And>x s. x \<in> set xs \<Longrightarrow> \<exists>new. list_all2 Q (g x) new \<and> f x s = Some (Inr (foldl h s (zip (g x) new)))"
  shows "\<exists>new. list_all2 Q (concat (map g xs)) new \<and> fold_o f xs s = Some (Inr (foldl h s (zip (concat (map g xs)) new)))"
  using assms
proof (induction xs arbitrary: s)
  case (Cons x xs)
  obtain new where new: "list_all2 Q (g x) new" "f x s = Some (Inr (foldl h s (zip (g x) new)))"
    using Cons.prems [of x s] by auto
  obtain more where more: "list_all2 Q (concat (map g xs)) more"
    "fold_o f xs (foldl h s (zip (g x) new)) = Some (Inr (foldl h (foldl h s (zip (g x) new)) (zip (concat (map g xs)) more)))"
    using Cons.IH [of "foldl h s (zip (g x) new)"] Cons.prems by auto
  have "zip (g x @ concat (map g xs)) (new @ more) = zip (g x) new @ zip (concat (map g xs)) more"
    using list_all2_lengthD [OF new(1)] by simp
  with new more show ?case by (intro exI [of _ "new @ more"]) (simp add: list_all2_appendI)
qed simp

text \<open>One cell more: its row is appended and its distribution stored.\<close>

definition add_cell :: "suite_state \<Rightarrow> (suite_workload \<times> string) \<times> jdict \<times> dist \<Rightarrow> suite_state" where
  "add_cell st p = (fst st @ [fst (snd p)], AList.update (cell_key (fst p)) (snd (snd p)) (snd st))"

lemma add_cells: "foldl add_cell ([], []) ps = (map (fst \<circ> snd) ps, store_all (cell_key \<circ> fst) (snd \<circ> snd) ps)"
  by (induction ps rule: rev_induct) (simp_all add: add_cell_def)

lemma workload_suite_returns:
  assumes "valid_order (env_order env)" "valid_draws (workload_draws env seed)"
    "\<forall>w \<in> set workloads. countable_workload (su_options w)" "set names \<subseteq> set policy_order"
  shows "\<exists>results ds. run_workload_suite env seed workloads names = Some (Inr (map fst results, ds))
    \<and> list_all2 (suite_cell env seed) (suite_grid workloads names) results
    \<and> reports_dists (suite_grid workloads names) results ds"
proof -
  let ?f = "\<lambda>w tr name st. bind_o (simulate_bytes env tr name (su_hbm_bytes w) (su_dram_bytes w)) (\<lambda>sr.
      Some (Inr (fst st @ [suite_row (su_name w) name (snd sr)],
        AList.update (su_name w @ ''::'' @ name) (distribution (latencies (fst sr))) (snd st))))"
  let ?g = "\<lambda>w st. bind_o (Some (generated env seed (su_options w))) (\<lambda>tr. fold_o (?f w tr) names st)"
  let ?Q = "suite_cell env seed"
  have round: "\<exists>new. list_all2 ?Q (map (Pair w) names) new \<and> ?g w st = Some (Inr (foldl add_cell st (zip (map (Pair w) names) new)))"
    if w: "w \<in> set workloads" for w st
  proof -
    obtain tr where tr: "generated env seed (su_options w) = Inr tr" "simulable tr"
      using generated_returns [OF assms(2), of "su_options w"] assms(3) w by (auto simp: countable_workload_def)
    have "\<exists>new. list_all2 ?Q [(w, name)] new \<and> ?f w tr name st = Some (Inr (foldl add_cell st (zip [(w, name)] new)))"
      if name: "name \<in> set names" for name st
    proof -
      obtain t r where r: "simulate_bytes env tr name (su_hbm_bytes w) (su_dram_bytes w) = Some (Inr (t, r))"
        using simulate_bytes_total [OF assms(1) tr(2), of name] name assms(4) by blast
      let ?res = "(suite_row (su_name w) name r, distribution (latencies t))"
      have "?Q (w, name) ?res" using tr(1) r by (auto simp: suite_cell_def)
      then show ?thesis using r by (intro exI [of _ "[?res]"]) (simp add: add_cell_def cell_key_def)
    qed
    from fold_o_cells [where g = "\<lambda>name. [(w, name)]" and xs = names, OF this] show ?thesis
      using tr(1) by (simp only: concat_map_singleton bind_o_simps)
  qed
  from fold_o_cells [where g = "\<lambda>w. map (Pair w) names" and xs = workloads and s = "([], [])", OF round]
  obtain results where results: "list_all2 ?Q (suite_grid workloads names) results"
    "run_workload_suite env seed workloads names = Some (Inr (foldl add_cell ([], []) (zip (suite_grid workloads names) results)))"
    by (auto simp: run_workload_suite_def suite_grid_def)
  then have len: "length (suite_grid workloads names) = length results" by (simp add: list_all2_lengthD)
  then have "map (fst \<circ> snd) (zip (suite_grid workloads names) results) = map fst results"
    by (metis map_map map_snd_zip)
  with results stored_dists [OF len] show ?thesis by (auto simp: add_cells)
qed

text \<open>The two other parts report nothing when they are not enabled, and otherwise one row for each of their policies.\<close>

definition mock_cell :: "environment \<Rightarrow> mock_config \<Rightarrow> recorder \<Rightarrow> string \<Rightarrow> jdict \<Rightarrow> bool" where
  "mock_cell env m tr name row \<longleftrightarrow> (\<exists>t r. simulate_bytes env tr name (mc_hbm_bytes m) (mc_dram_bytes m) = Some (Inr (t, r))
     \<and> row = mock_row name r)"

definition mock_reports :: "environment \<Rightarrow> mock_config \<Rightarrow> jdict list \<Rightarrow> bool" where
  "mock_reports env m rows \<longleftrightarrow> (if mc_enabled m then
       \<exists>tr. generate_mock_vllm_trace (mock_draws_of env 42) (mc_requests m) (mc_decode_steps m) None = Inr tr
         \<and> list_all2 (mock_cell env m tr) [''lru'', ''deadline''] rows
     else rows = [])"

definition draft_cell :: "environment \<Rightarrow> speculative_config \<Rightarrow> mevent list \<Rightarrow> spec_policy \<Rightarrow> policy \<Rightarrow> jdict \<Rightarrow> bool" where
  "draft_cell env s es pol p row \<longleftrightarrow> (\<exists>t r. run (env_order env) (default_config p (sp_hbm_bytes s) (sp_dram_bytes s)) es init_sim
       = Some (Inr (t, r))
     \<and> row = speculative_to_dict \<lparr>sr_policy_name = policy_name p, simulation = r,
         committed_blocks_count = count_events COMMITTED es, freed_rejected_blocks = count_events FREED es,
         wasted_mb = (if p = IntentFamily SpeculativeIntentPolicy then wasted_hbm_mb_on_rejected_drafts pol else 0)\<rparr>)"

definition draft_reports :: "environment \<Rightarrow> draft_draws \<Rightarrow> int \<Rightarrow> speculative_config option \<Rightarrow> jdict list \<Rightarrow> bool" where
  "draft_reports env drafts seed sp rows \<longleftrightarrow> (case sp of None \<Rightarrow> rows = []
     | Some s \<Rightarrow> \<exists>tree es pol. generate_speculative_lifecycle_trace (fst (drafts (sp_acceptance_rate s) seed))
           (snd (drafts (sp_acceptance_rate s) seed)) (sp_tree_width s) (sp_tree_depth s) = Some (Inr (tree, es, pol))
         \<and> list_all2 (draft_cell env s es pol)
             [IntentFamily DeadlineAwarePolicy, IntentFamily SpeculativeIntentPolicy] rows)"

definition mock_countable :: "environment \<Rightarrow> mock_config \<Rightarrow> bool" where
  "mock_countable env m \<longleftrightarrow> mc_enabled m \<longrightarrow> 1 \<le> mc_requests m \<and> valid_randrange (mock_draws_of env 42)
     \<and> (\<forall>tr. generate_mock_vllm_trace (mock_draws_of env 42) (mc_requests m) (mc_decode_steps m) None = Inr tr
          \<longrightarrow> int (length (rec_events tr)) \<le> 2 ^ 53)"

lemma mock_suite_returns:
  assumes "valid_order (env_order env)" "mock_countable env m"
  shows "\<exists>rows. run_mock_vllm_suite env m = Some (Inr rows) \<and> mock_reports env m rows"
proof (cases "mc_enabled m")
  case True
  then obtain a where a: "generate_mock_vllm_trace (mock_draws_of env 42) (mc_requests m) (mc_decode_steps m) None = Inr (adapter_recorder a)"
    "healthy a" using mock_trace_total [of "mock_draws_of env 42" "mc_requests m" "mc_decode_steps m"] assms(2) by (auto simp: mock_countable_def)
  then have "simulable (adapter_recorder a)"
    using assms(2) True by (auto simp: mock_countable_def simulable_def healthy_def adapter_inv_def)
  from simulate_bytes_total [OF assms(1) this]
  obtain t1 r1 t2 r2 where "simulate_bytes env (adapter_recorder a) ''lru'' (mc_hbm_bytes m) (mc_dram_bytes m) = Some (Inr (t1, r1))"
    "simulate_bytes env (adapter_recorder a) ''deadline'' (mc_hbm_bytes m) (mc_dram_bytes m) = Some (Inr (t2, r2))"
    by (metis (no_types, lifting) list.set_intros policy_order_def)
  then show ?thesis by (simp add: run_mock_vllm_suite_def mock_reports_def mock_cell_def True a(1))
qed (simp add: run_mock_vllm_suite_def mock_reports_def)

definition draft_countable :: "draft_draws \<Rightarrow> int \<Rightarrow> speculative_config option \<Rightarrow> bool" where
  "draft_countable drafts seed sp \<longleftrightarrow> (\<forall>s. sp = Some s \<longrightarrow> sp_tree_depth s \<le> 11
     \<and> (\<forall>tree es pol. generate_speculative_lifecycle_trace (fst (drafts (sp_acceptance_rate s) seed))
            (snd (drafts (sp_acceptance_rate s) seed)) (sp_tree_width s) (sp_tree_depth s) = Some (Inr (tree, es, pol))
          \<longrightarrow> int (length es) \<le> 2 ^ 53))"

lemma draft_suite_returns:
  assumes "valid_order (env_order env)" "draft_countable drafts seed sp"
  shows "\<exists>rows. run_speculative_suite env drafts seed sp = Some (Inr rows) \<and> draft_reports env drafts seed sp rows"
proof (cases sp)
  case (Some s)
  let ?d = "drafts (sp_acceptance_rate s) seed"
  have ok: "sp_tree_depth s \<le> 11" and short: "\<And>tree es pol. generate_speculative_lifecycle_trace (fst ?d) (snd ?d) (sp_tree_width s) (sp_tree_depth s)
      = Some (Inr (tree, es, pol)) \<Longrightarrow> int (length es) \<le> 2 ^ 53"
    using assms(2) Some unfolding draft_countable_def by blast+
  obtain tree es pol where g: "generate_speculative_lifecycle_trace (fst ?d) (snd ?d) (sp_tree_width s) (sp_tree_depth s) = Some (Inr (tree, es, pol))"
    "\<forall>e \<in> set es. sound (ev_intent e)" using lifecycle_total [OF ok] by blast
  have "policy_from_name ''deadline'' = Inr (IntentFamily DeadlineAwarePolicy)" by code_simp
  moreover obtain t1 r1 t2 r2 where
    "run (env_order env) (default_config (IntentFamily DeadlineAwarePolicy) (sp_hbm_bytes s) (sp_dram_bytes s)) es init_sim = Some (Inr (t1, r1))"
    "run (env_order env) (default_config (IntentFamily SpeculativeIntentPolicy) (sp_hbm_bytes s) (sp_dram_bytes s)) es init_sim = Some (Inr (t2, r2))"
    using run_succeeds [OF assms(1) g(2) short [OF g(1)]] by meson
  ultimately show ?thesis
    by (simp add: run_speculative_suite_def run_speculative_policy_suite_def speculative_result_of_def draft_reports_def
        draft_cell_def Some g(1))
qed (simp add: run_speculative_suite_def draft_reports_def)

text \<open>The cells of a row of the table, in the order of the columns.\<close>

lemma suite_csv_text:
  assumes "list_all2 (suite_cell env seed) cells results" "rows = map fst results"
  shows "csv_text c suite_columns rows = Inr (csv_line suite_columns @ concat (map (\<lambda>r. csv_line (row_cells c r)) rows))"
proof -
  have "csv_row c suite_columns (suite_row w p r) = Inr (csv_line (row_cells c (suite_row w p r)))" for w p r
    by (simp add: csv_row_def suite_row_def suite_columns_def row_cells_def)
  then have "csv_row c suite_columns row = Inr (csv_line (row_cells c row))" if "row \<in> set rows" for row
    using assms that by (fastforce simp: list_all2_conv_all_nth suite_cell_def in_set_conv_nth)
  then have "map_r (csv_row c suite_columns) rows = Inr (map (\<lambda>r. csv_line (row_cells c r)) rows)" by (rule map_r_Inr)
  then show ?thesis by (simp add: csv_text_def)
qed

definition suite_ok :: "environment \<Rightarrow> draft_draws \<Rightarrow> suite_config \<Rightarrow> bool" where
  "suite_ok env drafts sc \<longleftrightarrow> valid_order (env_order env) \<and> valid_draws (workload_draws env (sc_seed sc))
     \<and> (\<forall>w \<in> set (sc_workloads sc). countable_workload (su_options w)) \<and> set (sc_policies sc) \<subseteq> set policy_order
     \<and> draft_countable drafts (sc_seed sc) (sc_speculative sc) \<and> mock_countable env (sc_mock sc)"

text \<open>C40: The reproducible suite reports its whole grid. Take a configuration of known policies; workloads with at least one
  request and a positive block size; a draft tree, if enabled, of depth at most 11; a mock trace, if enabled, of at
  least one request; random draws in the range of their functions; and traces of no more than 2^53 events. Then the
  suite returns, writes exactly its four reports and prints nothing. The table has one line per workload and
  policy, in the order of the configuration, with the results of simulating that workload's trace under that policy at
  the workload's capacities. The distribution stored under the name of a cell is that of the latencies of the
  same simulation (of the last cell, should two have one name), and no others are stored. The speculative report
  has one row for each of its two policies, from replaying the one generated draft trace, and the summary one for LRU
  and one for the deadline policy, from simulating the one generated mock trace; both are empty when not enabled.\<close>

theorem suite_reports_grid:
  assumes "suite_ok env drafts sc"
  shows "\<exists>results ds speculative mock v. suite_main env drafts now configuration sc w = Some (Inr (), v) \<and> stdout v = stdout w
    \<and> list_all2 (suite_cell env (sc_seed sc)) (suite_grid (sc_workloads sc) (sc_policies sc)) results
    \<and> reports_dists (suite_grid (sc_workloads sc) (sc_policies sc)) results ds
    \<and> draft_reports env drafts (sc_seed sc) (sc_speculative sc) speculative \<and> mock_reports env (sc_mock sc) mock
    \<and> files v = (files w)
        (sc_out_dir sc @ ''/policy_metrics.csv'' \<mapsto>
           csv_line suite_columns @ concat (map (\<lambda>r. csv_line (row_cells (env_conv env) (fst r))) results),
         sc_out_dir sc @ ''/latency_distributions.json'' \<mapsto> json_pretty 0 (distributions_json ds) @ newline,
         sc_out_dir sc @ ''/speculative_metrics.json'' \<mapsto> json_pretty 0 (JList (map JDict speculative)) @ newline,
         sc_out_dir sc @ ''/summary.json'' \<mapsto>
           json_pretty 0 (suite_summary now (sc_seed sc) configuration (map fst results) mock) @ newline)"
proof -
  note ok = assms [unfolded suite_ok_def]
  obtain results ds where rows:
    "run_workload_suite env (sc_seed sc) (sc_workloads sc) (sc_policies sc) = Some (Inr (map fst results, ds))"
    "list_all2 (suite_cell env (sc_seed sc)) (suite_grid (sc_workloads sc) (sc_policies sc)) results"
    "reports_dists (suite_grid (sc_workloads sc) (sc_policies sc)) results ds"
    using workload_suite_returns [of env "sc_seed sc" "sc_workloads sc" "sc_policies sc"] ok by blast
  obtain sp where sp: "run_speculative_suite env drafts (sc_seed sc) (sc_speculative sc) = Some (Inr sp)"
    "draft_reports env drafts (sc_seed sc) (sc_speculative sc) sp" using draft_suite_returns ok by blast
  obtain mock where mock: "run_mock_vllm_suite env (sc_mock sc) = Some (Inr mock)" "mock_reports env (sc_mock sc) mock"
    using mock_suite_returns ok by blast
  show ?thesis
    by (rule exI [of _ results], rule exI [of _ ds], rule exI [of _ sp], rule exI [of _ mock])
      (simp add: suite_main_def bind_c_def compute_def write_file_def rows sp mock suite_csv_text [OF rows(2) refl] comp_def)
qed

definition sample_suite :: suite_config where
  "sample_suite = \<lparr>sc_out_dir = ''out'', sc_seed = 42,
     sc_workloads = [\<lparr>su_name = ''pressure'', su_options = \<lparr>num_requests = 24, blocks_per_request = 12, wl_block_size = 16384,
       decode_steps = 180, profile = deadline_pressure\<rparr>, su_hbm_bytes = 4194304, su_dram_bytes = 67108864\<rparr>],
     sc_policies = policy_order, sc_speculative = None,
     sc_mock = \<lparr>mc_enabled = False, mc_requests = 4, mc_decode_steps = 16, mc_hbm_bytes = 8388608, mc_dram_bytes = 33554432\<rparr>\<rparr>"

theorem suite_reports_grid_witness:
  "\<exists>results ds v. suite_main sample_env (\<lambda>_ _. (\<lambda>_. 0, \<lambda>_. 0)) ''now'' JNull sample_suite sample_world = Some (Inr (), v)
    \<and> list_all2 (suite_cell sample_env 42) (suite_grid (sc_workloads sample_suite) policy_order) results
    \<and> files v ''out/policy_metrics.csv'' =
        Some (csv_line suite_columns @ concat (map (\<lambda>r. csv_line (row_cells plain_conversions (fst r))) results))
    \<and> files v ''out/latency_distributions.json'' = Some (json_pretty 0 (distributions_json ds) @ newline)
    \<and> dict_get ds ''pressure::deadline'' = Some (snd (results ! 4))"
proof -
  have "suite_ok sample_env (\<lambda>_ _. (\<lambda>_. 0, \<lambda>_. 0)) sample_suite"
    by (simp add: suite_ok_def sample_suite_def countable_workload_def draft_countable_def mock_countable_def)
      (simp add: sample_env_def valid_draws_def)
  from suite_reports_grid [OF this, of "''now''" JNull sample_world] obtain results ds v where
    v: "suite_main sample_env (\<lambda>_ _. (\<lambda>_. 0, \<lambda>_. 0)) ''now'' JNull sample_suite sample_world = Some (Inr (), v)"
    "list_all2 (suite_cell sample_env 42) (suite_grid (sc_workloads sample_suite) policy_order) results"
    "reports_dists (suite_grid (sc_workloads sample_suite) policy_order) results ds"
    "files v ''out/policy_metrics.csv'' =
        Some (csv_line suite_columns @ concat (map (\<lambda>r. csv_line (row_cells plain_conversions (fst r))) results))"
    "files v ''out/latency_distributions.json'' = Some (json_pretty 0 (distributions_json ds) @ newline)"
    by (auto simp: sample_suite_def sample_env_def)
  have cell: "cell_key (suite_grid (sc_workloads sample_suite) policy_order ! 4) = ''pressure::deadline''"
    and len: "length (suite_grid (sc_workloads sample_suite) policy_order) = 5"
    by (simp_all add: suite_grid_def sample_suite_def policy_order_def cell_key_def)
  have "dict_get ds (cell_key (suite_grid (sc_workloads sample_suite) policy_order ! 4)) = Some (snd (results ! 4))"
    by (rule reported_dist [OF v(3)]) (simp_all add: len)
  then have "dict_get ds ''pressure::deadline'' = Some (snd (results ! 4))" unfolding cell .
  with v(1,2,4,5) show ?thesis by blast
qed

section \<open>Latency distributions\<close>

lemma round_ge: "of_int n \<le> x \<Longrightarrow> n \<le> round_half_even x"
  using round_mono [of "of_int n" x] by simp

lemma round_le: "x \<le> of_int n \<Longrightarrow> round_half_even x \<le> n"
  using round_mono [of x "of_int n"] by simp

lemma py_round_between:
  assumes "of_int a \<le> x" "x \<le> of_int b" "\<bar>a\<bar> \<le> 2 ^ 53" "\<bar>b\<bar> \<le> 2 ^ 53"
  shows "of_int a \<le> py_round n x \<and> py_round n x \<le> of_int b"
proof -
  let ?r = "round_half_even (x * 10 ^ n)"
  have "of_int (a * 10 ^ n) \<le> x * 10 ^ n" "x * 10 ^ n \<le> of_int (b * 10 ^ n)" using assms(1,2) by simp_all
  from round_ge [OF this(1)] round_le [OF this(2)] have "(of_int (a * 10 ^ n) :: rat) \<le> of_int ?r" "(of_int ?r :: rat) \<le> of_int (b * 10 ^ n)"
    by (simp_all only: of_int_le_iff)
  then have "(of_int a :: rat) \<le> of_int ?r / 10 ^ n" "of_int ?r / 10 ^ n \<le> (of_int b :: rat)" by (simp_all add: field_simps)
  moreover have "is_float (of_int a)" "is_float (of_int b)" using assms(3,4) by (simp_all add: is_float_of_int)
  ultimately show ?thesis unfolding py_round_def by (simp add: fl_ge fl_le)
qed

text \<open>A reported latency distribution is ordered: for any non-empty list of latencies in the range a float holds exactly,
  the minimum is at most the mean and the mean at most the maximum, although the mean is rounded twice, once to
  a float and once to six decimals; and all of them lie in the range of the latencies.\<close>

theorem distribution_ordered:
  assumes "ls \<noteq> []" "\<forall>l \<in> set ls. \<bar>l\<bar> \<le> 2 ^ 53"
  shows "of_int (dist_min (distribution ls)) \<le> dist_mean (distribution ls)
    \<and> dist_mean (distribution ls) \<le> of_int (dist_max (distribution ls))
    \<and> dist_count (distribution ls) = int (length ls)
    \<and> (\<forall>l \<in> set ls. dist_min (distribution ls) \<le> l \<and> l \<le> dist_max (distribution ls))"
proof -
  define a b n where "a = Min (set ls)" and "b = Max (set ls)" and "n = int (length ls)"
  have n: "0 < n" using assms(1) by (simp add: n_def)
  have ab: "a \<in> set ls" "b \<in> set ls" using assms(1) by (simp_all add: a_def b_def)
  have range: "\<forall>l \<in> set ls. a \<le> l \<and> l \<le> b" by (simp add: a_def b_def)
  then have "a * n \<le> sum_list ls \<and> sum_list ls \<le> b * n" unfolding n_def
    by (induction ls) (auto simp: algebra_simps add_mono)
  then have "(of_int (a * n) :: rat) \<le> of_int (sum_list ls)" "(of_int (sum_list ls) :: rat) \<le> of_int (b * n)" by (simp_all only: of_int_le_iff)
  then have "of_int a \<le> (of_int (sum_list ls) / of_int n :: rat)" "(of_int (sum_list ls) / of_int n :: rat) \<le> of_int b"
    using n by (simp_all add: field_simps)
  moreover have "is_float (of_int a)" "is_float (of_int b)" using assms(2) ab by (simp_all add: is_float_of_int)
  ultimately have "of_int a \<le> fl (of_int (sum_list ls) / of_int n)" "fl (of_int (sum_list ls) / of_int n) \<le> of_int b"
    by (simp_all add: fl_ge fl_le)
  from py_round_between [OF this, of 6] assms(2) ab range show ?thesis
    by (simp add: distribution_def assms(1) a_def [symmetric] b_def [symmetric] n_def [symmetric])
qed

theorem distribution_ordered_witness:
  "50 \<le> dist_mean (distribution [50, 5050, 50]) \<and> dist_mean (distribution [50, 5050, 50]) \<le> 5050"
  using distribution_ordered [of "[50, 5050, 50]"] by (simp add: distribution_def)

section \<open>Telemetry records\<close>

definition complete_record :: "jdict \<Rightarrow> bool" where
  "complete_record d \<longleftrightarrow> (\<forall>k \<in> set required_fields. k \<in> dict_keys d)"

definition sorted_dict :: "jdict \<Rightarrow> jdict" where
  "sorted_dict d = sort_key fst (map (\<lambda>kv. (fst kv, json_sorted (snd kv))) d)"

lemma sorted_dict_keys [simp]: "dict_keys (sorted_dict d) = dict_keys d"
  by (simp add: sorted_dict_def image_image)

lemma telemetry_record_eq:
  "complete_record d \<Longrightarrow> telemetry_record (JDict d) = Inr d"
  "\<not> complete_record d \<Longrightarrow> \<exists>m. telemetry_record (JDict d) = Inl (ValueError m)"
  by (auto simp: telemetry_record_def complete_record_def Let_def filter_empty_conv)

definition telemetry_text :: "jdict list \<Rightarrow> string" where
  "telemetry_text ds = py_join newline (map (\<lambda>d. json_dumps (JDict d)) ds) @ newline"

lemma telemetry_loop:
  assumes "\<forall>d \<in> set ds. json_ok (JDict d)"
  shows "fold_r (\<lambda>line records. if py_strip line = [] then Inr records
         else bind_r (bind_r (json_loads line) telemetry_record) (\<lambda>d. Inr (records @ [d]))) (map (\<lambda>d. json_dumps (JDict d)) ds) rs
    = fold_r (\<lambda>d records. bind_r (telemetry_record (JDict (sorted_dict d))) (\<lambda>d. Inr (records @ [d]))) ds rs"
  using assms by (induction ds arbitrary: rs)
    (simp_all add: json_one_line(2) json_loads_dumps sorted_dict_def bind_r_def split: sum.splits)

text \<open>The telemetry parser accepts exactly the files whose records all have the four documented fields: for any non-empty
  list of JSON objects written one per line it returns all of them in order, with their keys sorted as written, when
  every record is complete, and raises ValueError otherwise.\<close>

theorem telemetry_parser_exact:
  assumes "ds \<noteq> []" "\<forall>d \<in> set ds. json_ok (JDict d)"
  shows "parse_telemetry_jsonl (telemetry_text ds) = Inr (map sorted_dict ds) \<and> (\<forall>d \<in> set ds. complete_record d)
    \<or> (\<exists>m. parse_telemetry_jsonl (telemetry_text ds) = Inl (ValueError m)) \<and> (\<exists>d \<in> set ds. \<not> complete_record d)"
proof -
  let ?f = "\<lambda>d records. bind_r (telemetry_record (JDict (sorted_dict d))) (\<lambda>d. Inr (records @ [d]))"
  have sorted: "complete_record (sorted_dict d) = complete_record d" for d by (simp add: complete_record_def)
  have main: "fold_r ?f xs rs = Inr (rs @ map sorted_dict xs) \<and> (\<forall>d \<in> set xs. complete_record d)
      \<or> (\<exists>m. fold_r ?f xs rs = Inl (ValueError m)) \<and> (\<exists>d \<in> set xs. \<not> complete_record d)" for xs rs
  proof (induction xs arbitrary: rs)
    case (Cons x xs)
    show ?case
    proof (cases "complete_record x")
      case True
      with telemetry_record_eq(1) [of "sorted_dict x"] sorted Cons.IH [of "rs @ [sorted_dict x]"] show ?thesis by simp
    next
      case False
      with telemetry_record_eq(2) [of "sorted_dict x"] sorted show ?thesis by auto
    qed
  qed simp
  have lines: "py_splitlines (telemetry_text ds) = map (\<lambda>d. json_dumps (JDict d)) ds"
    unfolding telemetry_text_def using assms(1) json_one_line(1) by (intro splitlines_join) auto
  have "parse_telemetry_jsonl (telemetry_text ds) = fold_r ?f ds []"
    by (simp only: parse_telemetry_jsonl_def lines telemetry_loop [OF assms(2)])
  with main [of ds "[]"] show ?thesis by (simp only: append_Nil)
qed

theorem telemetry_parser_exact_witness:
  "\<exists>m. parse_telemetry_jsonl (telemetry_text [[(''gpu_id'', JInt 0), (''timestamp_ms'', JInt 5)]]) = Inl (ValueError m)"
proof -
  let ?ds = "[[(''gpu_id'', JInt 0), (''timestamp_ms'', JInt 5)]]"
  have "\<not> complete_record [(''gpu_id'', JInt 0), (''timestamp_ms'', JInt 5)]" by (simp add: complete_record_def required_fields_def)
  with telemetry_parser_exact [of ?ds] show ?thesis by simp
qed

end
