(* ===== verification/Plot.thy ===== *)
theory Plot
  imports Cli
begin

text \<open>
  \<open>examples/plot_sweep_results.py\<close>: the table a sweep wrote is read back and drawn. \<open>csv.DictReader\<close> with the default
  dialect is the state machine of the \<open>csv\<close> module over the lines of the file; \<open>csv.Error\<close> is represented as \<open>ValueError\<close>.
  The drawing library is not modelled: the figures are the data handed to it.
\<close>

section \<open>The CSV reader\<close>

datatype csv_mode = StartRecord | StartField | InField | InQuotedField | QuoteInQuotedField | EatCrNl

record csv_state =
  csv_mode :: csv_mode
  csv_pending :: string
  csv_fields :: "string list"
  csv_records :: "string list list"

definition is_cr_lf :: "char \<Rightarrow> bool" where
  "is_cr_lf ch \<longleftrightarrow> (of_char ch :: nat) \<in> {10, 13}"

text \<open>The characters of the file, with \<open>None\<close> where a line ends: after a line feed, a carriage return, or both.\<close>

fun line_ends :: "string \<Rightarrow> char option list" where
  "line_ends [] = []"
| "line_ends [ch] = [Some ch, None]"
| "line_ends (ch # c2 # cs) =
     (if (of_char ch :: nat) = 13 \<and> (of_char c2 :: nat) = 10 then Some ch # line_ends (c2 # cs)
      else if is_cr_lf ch then Some ch # None # line_ends (c2 # cs) else Some ch # line_ends (c2 # cs))"

definition save_field :: "csv_mode \<Rightarrow> csv_state \<Rightarrow> csv_state" where
  "save_field next_mode s = s\<lparr>csv_mode := next_mode, csv_fields := csv_fields s @ [csv_pending s], csv_pending := []\<rparr>"

definition add_char :: "csv_mode \<Rightarrow> char \<Rightarrow> csv_state \<Rightarrow> csv_state result" where
  "add_char next_mode ch s =
     (if 131072 \<le> length (csv_pending s) then Inl (ValueError ''field larger than field limit (131072)'')
      else Inr (s\<lparr>csv_mode := next_mode, csv_pending := csv_pending s @ [ch]\<rparr>))"

text \<open>At the end of a line a complete record is handed out.\<close>

definition emit_record :: "csv_state \<Rightarrow> csv_state" where
  "emit_record s = s\<lparr>csv_mode := StartRecord, csv_fields := [], csv_records := csv_records s @ [csv_fields s]\<rparr>"

definition end_of_line :: "csv_state \<Rightarrow> csv_state" where
  "end_of_line s =
     (case csv_mode s of
        StartRecord \<Rightarrow> emit_record s
      | InQuotedField \<Rightarrow> s
      | EatCrNl \<Rightarrow> emit_record s
      | _ \<Rightarrow> emit_record (save_field StartRecord s))"

definition start_field :: "char \<Rightarrow> csv_state \<Rightarrow> csv_state result" where
  "start_field ch s =
     (if is_cr_lf ch then Inr (save_field EatCrNl s)
      else if ch = CHR 0x22 then Inr (s\<lparr>csv_mode := InQuotedField\<rparr>)
      else if ch = CHR '','' then Inr (save_field StartField s)
      else add_char InField ch s)"

definition process_char :: "char \<Rightarrow> csv_state \<Rightarrow> csv_state result" where
  "process_char ch s =
     (case csv_mode s of
        StartRecord \<Rightarrow> if is_cr_lf ch then Inr (s\<lparr>csv_mode := EatCrNl\<rparr>) else start_field ch s
      | StartField \<Rightarrow> start_field ch s
      | InField \<Rightarrow> if is_cr_lf ch then Inr (save_field EatCrNl s)
          else if ch = CHR '','' then Inr (save_field StartField s) else add_char InField ch s
      | InQuotedField \<Rightarrow> if ch = CHR 0x22 then Inr (s\<lparr>csv_mode := QuoteInQuotedField\<rparr>) else add_char InQuotedField ch s
      | QuoteInQuotedField \<Rightarrow>
          if ch = CHR 0x22 then add_char InQuotedField ch s
          else if ch = CHR '','' then Inr (save_field StartField s)
          else if is_cr_lf ch then Inr (save_field EatCrNl s) else add_char InField ch s
      | EatCrNl \<Rightarrow> if is_cr_lf ch then Inr s else Inl (ValueError ''new-line character seen in unquoted field''))"

definition csv_step :: "char option \<Rightarrow> csv_state \<Rightarrow> csv_state result" where
  "csv_step t s = (case t of None \<Rightarrow> Inr (end_of_line s) | Some ch \<Rightarrow> process_char ch s)"

definition csv_start :: csv_state where
  "csv_start = \<lparr>csv_mode = StartRecord, csv_pending = [], csv_fields = [], csv_records = []\<rparr>"

text \<open>At the end of the file an open quoted field is saved.\<close>

definition csv_reader :: "string \<Rightarrow> string list list result" where
  "csv_reader text =
     bind_r (fold_r csv_step (line_ends text) csv_start) (\<lambda>s.
     Inr (csv_records s @ (if csv_pending s \<noteq> [] \<or> csv_mode s = InQuotedField then [csv_fields s @ [csv_pending s]] else [])))"

text \<open>\<open>DictReader\<close>: the first record names the columns and empty records are skipped. Surplus values are listed under the key
  \<open>None\<close>, missing ones are \<open>None\<close>.\<close>

type_synonym table_line = "(string option, json) dict"

definition dict_of_record :: "string list \<Rightarrow> string list \<Rightarrow> table_line" where
  "dict_of_record names values =
     (let d = fold (\<lambda>kv. AList.update (Some (fst kv)) (JStr (snd kv))) (zip names values) []
      in if length names < length values then AList.update None (JList (map JStr (drop (length names) values))) d
         else fold (\<lambda>k. AList.update (Some k) JNull) (drop (length values) names) d)"

definition load_rows :: "string \<Rightarrow> table_line list result" where
  "load_rows text =
     bind_r (csv_reader text) (\<lambda>records.
     case records of [] \<Rightarrow> Inr [] | names # rest \<Rightarrow> Inr (map (dict_of_record names) (filter (\<lambda>r. r \<noteq> []) rest)))"

section \<open>The plots\<close>

definition line_item :: "string \<Rightarrow> table_line \<Rightarrow> json result" where
  "line_item k row = (case dict_get row (Some k) of None \<Rightarrow> Inl (KeyError k) | Some v \<Rightarrow> Inr v)"

text \<open>The sorted set of the values: texts in their order; a missing value cannot be compared with a text.\<close>

definition sorted_values :: "json list \<Rightarrow> json list result" where
  "sorted_values vs =
     (if list_all (\<lambda>v. case v of JStr _ \<Rightarrow> True | _ \<Rightarrow> False) vs
      then Inr (map JStr (remdups_adj (sort (map (\<lambda>v. case v of JStr s \<Rightarrow> s | _ \<Rightarrow> []) vs))))
      else if length (remdups vs) \<le> 1 then Inr (remdups vs) else Inl (TypeError ''not supported between instances''))"

record plot_line =
  pl_label :: json
  pl_x :: "int list"
  pl_y :: "pyfloat list"

record figure =
  fig_lines :: "plot_line list"
  fig_ylabel :: string
  fig_file :: string

definition plot_series :: "conversions \<Rightarrow> table_line list \<Rightarrow> string \<Rightarrow> json \<Rightarrow> plot_line result" where
  "plot_series c rows metric policy =
     bind_r (map_r (\<lambda>row. bind_r (line_item ''policy'' row) (\<lambda>p. Inr (p = policy, row))) rows) (\<lambda>marked.
     let series = map snd (filter fst marked)
     in bind_r (map_r (\<lambda>row. bind_r (line_item ''hbm_mb'' row) (py_int c)) series) (\<lambda>xs.
        bind_r (map_r (\<lambda>row. bind_r (line_item metric row) (py_float c)) series) (\<lambda>ys.
        Inr \<lparr>pl_label = policy, pl_x = xs, pl_y = ys\<rparr>)))"

definition plot :: "conversions \<Rightarrow> string \<Rightarrow> table_line list \<Rightarrow> json list \<Rightarrow> string \<times> string \<times> string \<Rightarrow> figure result" where
  "plot c out_dir rows policies m =
     bind_r (map_r (plot_series c rows (fst m)) policies) (\<lambda>ls.
     Inr \<lparr>fig_lines = ls, fig_ylabel = snd (snd m), fig_file = out_dir @ ''/'' @ fst (snd m)\<rparr>)"

definition plotted_metrics :: "(string \<times> string \<times> string) list" where
  "plotted_metrics = [(''p99_latency_us'', ''p99_latency_vs_hbm.png'', ''P99 latency (us)''),
     (''decode_critical_misses'', ''decode_critical_misses_vs_hbm.png'', ''Decode-critical misses''),
     (''decode_critical_evictions'', ''decode_critical_evictions_vs_hbm.png'', ''Decode-critical evictions'')]"

text \<open>A path is absent, a directory, or a file with its text; \<open>available\<close> says whether the drawing library is installed. The
  results: the figures and the line printed.\<close>

datatype path_content = Absent | Directory | RegularFile string

definition plot_main :: "conversions \<Rightarrow> bool \<Rightarrow> string \<Rightarrow> path_content \<Rightarrow> string \<Rightarrow> (figure list \<times> string) result" where
  "plot_main c available path content out_dir =
     (case content of
        Absent \<Rightarrow> Inl (SystemExit (''CSV file not found: '' @ path))
      | Directory \<Rightarrow> Inl (SystemExit (''CSV path is not a file: '' @ path))
      | RegularFile text \<Rightarrow>
          if text = [] then Inl (SystemExit (''CSV file is empty: '' @ path))
          else if \<not> available then Inl (SystemExit ''1'')
          else bind_r (load_rows text) (\<lambda>rows.
               bind_r (bind_r (map_r (line_item ''policy'') rows) sorted_values) (\<lambda>policies.
               bind_r (map_r (plot c out_dir rows policies) plotted_metrics) (\<lambda>figures.
               Inr (figures, ''Wrote 3 plots to '' @ out_dir)))))"

end
