(* ===== verification/PlotLaws.thy ===== *)
theory PlotLaws
  imports Plot CliLaws
begin

text \<open>
  What the CSV writer of the library writes, the CSV reader reads back: quoting, embedded line ends and quotes included.
\<close>

section \<open>Reading on\<close>

lemma cr_lf_chars: "char_of (13 :: nat) \<noteq> CHR 0x22" "char_of (13 :: nat) \<noteq> CHR '',''" "char_of (10 :: nat) \<noteq> CHR 0x22"
  by code_simp+

lemma same_mode: "csv_mode s = m \<Longrightarrow> s\<lparr>csv_mode := m\<rparr> = s"
  by (cases s) simp

definition reads :: "string \<Rightarrow> csv_state \<Rightarrow> csv_state result" where
  "reads text s = fold_r csv_step (line_ends text) s"

lemma reads_fun: "reads text = fold_r csv_step (line_ends text)"
  by (rule ext) (simp add: reads_def)

lemma reads_plain:
  assumes "\<not> is_cr_lf ch" "text \<noteq> []"
  shows "reads (ch # text) s = bind_r (process_char ch s) (reads text)"
proof -
  have "line_ends (ch # text) = Some ch # line_ends text" using assms by (cases "text") (auto simp: is_cr_lf_def)
  then show ?thesis by (simp add: reads_fun csv_step_def)
qed

text \<open>Inside quotes a line end is an ordinary character.\<close>

lemma reads_quoted:
  assumes "csv_mode s = InQuotedField" "ch \<noteq> CHR 0x22" "text \<noteq> []"
  shows "reads (ch # text) s = bind_r (add_char InQuotedField ch s) (reads text)"
proof -
  obtain c2 cs where next_char: "text = c2 # cs" using assms(3) by (cases "text") auto
  have step: "csv_step (Some ch) s = add_char InQuotedField ch s" using assms(1,2) by (simp add: csv_step_def process_char_def)
  have stay: "csv_step None t = Inr t" if "csv_mode t = InQuotedField" for t using that by (simp add: csv_step_def end_of_line_def)
  show ?thesis
  proof (cases "add_char InQuotedField ch s")
    case (Inr t)
    then have "csv_mode t = InQuotedField" by (auto simp: add_char_def split: if_splits)
    then show ?thesis by (simp add: reads_fun next_char step stay Inr)
  qed (simp add: reads_fun next_char step)
qed

lemma add_char_fits: "length (csv_pending s) < 131072 \<Longrightarrow> add_char m ch s = Inr (s\<lparr>csv_mode := m, csv_pending := csv_pending s @ [ch]\<rparr>)"
  by (simp add: add_char_def)

definition escaped :: "string \<Rightarrow> string" where
  "escaped w = concat (map (\<lambda>ch. if ch = CHR 0x22 then [ch, ch] else [ch]) w)"

lemma reads_escaped:
  assumes "csv_mode s = InQuotedField" "length (csv_pending s) + length w \<le> 131072" "rest \<noteq> []"
  shows "reads (escaped w @ rest) s = reads rest (s\<lparr>csv_pending := csv_pending s @ w\<rparr>)"
  using assms(1,2)
proof (induction w arbitrary: s)
  case (Cons ch w)
  let ?t = "s\<lparr>csv_pending := csv_pending s @ [ch]\<rparr>"
  have fits: "length (csv_pending s) < 131072" using Cons.prems(2) by simp
  have "reads (escaped (ch # w) @ rest) s = reads (escaped w @ rest) ?t"
  proof (cases "ch = CHR 0x22")
    case True
    have "\<not> is_cr_lf ch" using True by (simp add: is_cr_lf_def)
    then show ?thesis using True Cons.prems(1) fits
      by (simp add: escaped_def reads_plain assms(3) process_char_def add_char_fits same_mode)
  next
    case False
    then show ?thesis using reads_quoted [OF Cons.prems(1) False, of "escaped w @ rest"] fits Cons.prems(1) assms(3)
      by (simp add: escaped_def add_char_fits same_mode)
  qed
  also have "\<dots> = reads rest (?t\<lparr>csv_pending := csv_pending ?t @ w\<rparr>)" using Cons by simp
  finally show ?case by simp
qed (simp add: escaped_def)

section \<open>One cell\<close>

text \<open>A cell ends at a comma or at the carriage return of the line end.\<close>

definition separates :: "char \<Rightarrow> string \<Rightarrow> bool" where
  "separates sep text \<longleftrightarrow> text \<noteq> [] \<and> (sep = CHR '','' \<or> sep = char_of (13 :: nat) \<and> hd text = char_of (10 :: nat))"

definition mode_after :: "char \<Rightarrow> csv_mode" where
  "mode_after sep = (if sep = CHR '','' then StartField else EatCrNl)"

lemma separator_read:
  assumes "separates sep text"
  shows "reads (sep # text) s = bind_r (process_char sep s) (reads text)"
proof -
  obtain c2 cs where next_char: "text = c2 # cs" using assms by (cases "text") (auto simp: separates_def)
  have "line_ends (sep # text) = Some sep # line_ends text"
    using assms by (auto simp: next_char separates_def is_cr_lf_def)
  then show ?thesis by (simp add: reads_fun csv_step_def)
qed

lemma separator_ends_field:
  assumes "separates sep text" "csv_mode s \<in> {StartField, InField, QuoteInQuotedField} \<or> csv_mode s = StartRecord \<and> sep = CHR '',''"
  shows "reads (sep # text) s = reads text (save_field (mode_after sep) s)"
proof -
  have "process_char sep s = Inr (save_field (mode_after sep) s)"
    using assms by (auto simp: separates_def process_char_def start_field_def mode_after_def is_cr_lf_def cr_lf_chars)
  then show ?thesis by (simp add: separator_read [OF assms(1)])
qed

definition plain_text :: "string \<Rightarrow> bool" where
  "plain_text w \<longleftrightarrow> (\<forall>ch \<in> set w. (of_char ch :: nat) \<notin> {10, 13, 34, 44})"

lemma csv_field_cases:
  "plain_text w \<Longrightarrow> csv_field w = w"
  "\<not> plain_text w \<Longrightarrow> csv_field w = CHR 0x22 # escaped w @ [CHR 0x22]"
  by (auto simp: plain_text_def csv_field_def escaped_def list_ex_iff)

lemma plain_char:
  assumes "(of_char ch :: nat) \<notin> {10, 13, 34, 44}"
  shows "\<not> is_cr_lf ch" "ch \<noteq> CHR 0x22" "ch \<noteq> CHR '',''"
  using assms by (auto simp: is_cr_lf_def)

lemma reads_plain_text:
  assumes "rest \<noteq> []"
  shows "plain_text w \<Longrightarrow> csv_mode s = InField \<Longrightarrow> length (csv_pending s) + length w \<le> 131072
    \<Longrightarrow> reads (w @ rest) s = reads rest (s\<lparr>csv_pending := csv_pending s @ w\<rparr>)"
proof (induction w arbitrary: s)
  case (Cons ch w)
  note ch = plain_char [of ch]
  let ?t = "s\<lparr>csv_pending := csv_pending s @ [ch]\<rparr>"
  have "reads ((ch # w) @ rest) s = reads (w @ rest) ?t"
    using Cons.prems ch assms by (simp add: plain_text_def reads_plain process_char_def add_char_fits same_mode)
  also have "\<dots> = reads rest (?t\<lparr>csv_pending := csv_pending ?t @ w\<rparr>)" using Cons by (simp add: plain_text_def)
  finally show ?case by simp
qed simp

lemma cell_read:
  assumes sep: "separates sep text" and s: "csv_pending s = []" "csv_mode s \<in> {StartRecord, StartField}"
    and w: "length w \<le> 131072" "csv_mode s = StartRecord \<Longrightarrow> w = [] \<Longrightarrow> sep = CHR '',''"
  shows "reads (csv_field w @ sep # text) s
    = reads text (s\<lparr>csv_mode := mode_after sep, csv_fields := csv_fields s @ [w], csv_pending := []\<rparr>)"
proof (cases "plain_text w")
  case True
  show ?thesis
  proof (cases w)
    case Nil
    then show ?thesis using separator_ends_field [OF sep] s w(2) by (auto simp: csv_field_def save_field_def)
  next
    case (Cons ch v)
    note ch = plain_char [of ch]
    have v: "plain_text v" and chp: "(of_char ch :: nat) \<notin> {10, 13, 34, 44}" using True Cons by (simp_all add: plain_text_def)
    have field: "csv_field w = ch # v" using csv_field_cases(1) [OF True] Cons by simp
    let ?t = "s\<lparr>csv_mode := InField, csv_pending := [ch]\<rparr>"
    have "reads (csv_field w @ sep # text) s = reads (v @ sep # text) ?t"
      unfolding field using s ch [OF chp] by (auto simp: reads_plain process_char_def start_field_def add_char_def)
    also have "\<dots> = reads (sep # text) (?t\<lparr>csv_pending := w\<rparr>)" using reads_plain_text [of "sep # text" v ?t] v w(1) Cons by simp
    also have "\<dots> = reads text (save_field (mode_after sep) (?t\<lparr>csv_pending := w\<rparr>))" using separator_ends_field [OF sep] by simp
    finally show ?thesis by (simp add: save_field_def)
  qed
next
  case False
  let ?t = "s\<lparr>csv_mode := InQuotedField\<rparr>" and ?q = "CHR 0x22"
  have q: "\<not> is_cr_lf ?q" by (simp add: is_cr_lf_def)
  have "reads (csv_field w @ sep # text) s = reads (escaped w @ ?q # sep # text) ?t"
    using s q by (auto simp: csv_field_cases(2) [OF False] reads_plain process_char_def start_field_def)
  also have "\<dots> = reads (?q # sep # text) (?t\<lparr>csv_pending := w\<rparr>)" using reads_escaped [of ?t w "?q # sep # text"] s(1) w(1) by simp
  also have "\<dots> = reads (sep # text) (?t\<lparr>csv_pending := w, csv_mode := QuoteInQuotedField\<rparr>)"
    using q by (simp add: reads_plain process_char_def)
  also have "\<dots> = reads text (save_field (mode_after sep) (?t\<lparr>csv_pending := w, csv_mode := QuoteInQuotedField\<rparr>))"
    using separator_ends_field [OF sep] by simp
  finally show ?thesis by (simp add: save_field_def)
qed

section \<open>Lines and files\<close>

text \<open>The carriage return and line feed after a record hand it out.\<close>

lemma line_end_read:
  assumes "csv_mode s = EatCrNl"
  shows "reads (char_of (10 :: nat) # rest) s = reads rest (emit_record s)"
proof -
  have "of_char (char_of (10 :: nat)) = (10 :: nat)" by simp
  then have "line_ends (char_of (10 :: nat) # rest) = Some (char_of (10 :: nat)) # None # line_ends rest"
    by (cases rest) (simp_all add: is_cr_lf_def)
  then show ?thesis using assms by (simp add: reads_fun csv_step_def process_char_def end_of_line_def is_cr_lf_def)
qed

lemma cells_read:
  assumes "cells \<noteq> []" "\<forall>w \<in> set cells. length w \<le> 131072" "csv_pending s = []" "csv_mode s \<in> {StartRecord, StartField}"
    "csv_mode s = StartRecord \<Longrightarrow> 2 \<le> length cells"
  shows "reads (csv_line cells @ rest) s = reads rest (s\<lparr>csv_mode := StartRecord, csv_fields := [], csv_pending := [],
    csv_records := csv_records s @ [csv_fields s @ cells]\<rparr>)"
  using assms
proof (induction cells arbitrary: s)
  case (Cons w ws)
  let ?cr = "char_of (13 :: nat)" and ?lf = "char_of (10 :: nat)"
  show ?case
  proof (cases ws)
    case Nil
    have "separates ?cr (?lf # rest)" by (simp add: separates_def)
    moreover have "csv_mode s = StartField" using Cons.prems(4,5) Nil by auto
    moreover have "csv_line [w] @ rest = csv_field w @ ?cr # ?lf # rest" by (simp add: csv_line_def)
    ultimately have "reads (csv_line [w] @ rest) s
        = reads (?lf # rest) (s\<lparr>csv_mode := EatCrNl, csv_fields := csv_fields s @ [w], csv_pending := []\<rparr>)"
      using cell_read [of ?cr "?lf # rest" s w] Cons.prems(2,3) by (simp add: mode_after_def cr_lf_chars)
    then show ?thesis unfolding Nil by (cases s) (simp add: line_end_read emit_record_def)
  next
    case (Cons v vs)
    let ?tail = "csv_line ws @ rest" and ?t = "s\<lparr>csv_mode := StartField, csv_fields := csv_fields s @ [w], csv_pending := []\<rparr>"
    have line: "csv_line (w # ws) = csv_field w @ CHR '','' # csv_line ws" by (simp add: csv_line_def Cons)
    have "separates (CHR '','') ?tail" by (simp add: separates_def csv_line_def)
    from cell_read [OF this Cons.prems(3,4), of w] Cons.prems(2)
    have "reads (csv_line (w # ws) @ rest) s = reads ?tail ?t" by (simp add: line mode_after_def)
    also have "\<dots> = reads rest (?t\<lparr>csv_mode := StartRecord, csv_fields := [], csv_pending := [],
        csv_records := csv_records ?t @ [csv_fields ?t @ ws]\<rparr>)"
      using Cons.prems(2) Cons by (intro Cons.IH) auto
    finally show ?thesis by simp
  qed
qed simp

lemma lines_read:
  assumes "\<forall>r \<in> set rs. 2 \<le> length r \<and> (\<forall>w \<in> set r. length w \<le> 131072)"
  shows "reads (concat (map csv_line rs)) (csv_start\<lparr>csv_records := done_rs\<rparr>) = Inr (csv_start\<lparr>csv_records := done_rs @ rs\<rparr>)"
  using assms
proof (induction rs arbitrary: done_rs)
  case Nil
  then show ?case by (simp add: reads_def csv_start_def)
next
  case (Cons r rs)
  have "reads (csv_line r @ concat (map csv_line rs)) (csv_start\<lparr>csv_records := done_rs\<rparr>)
      = reads (concat (map csv_line rs)) (csv_start\<lparr>csv_records := done_rs @ [r]\<rparr>)"
    using Cons.prems by (subst cells_read) (auto simp: csv_start_def)
  with Cons show ?case by simp
qed

lemma csv_reader_lines:
  assumes "\<forall>r \<in> set rs. 2 \<le> length r \<and> (\<forall>w \<in> set r. length w \<le> 131072)"
  shows "csv_reader (concat (map csv_line rs)) = Inr rs"
  using lines_read [OF assms, of "[]"] by (simp add: csv_reader_def reads_def csv_start_def)

section \<open>Tables\<close>

text \<open>The text of a cell: the value as printed, empty when the row does not have the column or the value is \<open>None\<close>.\<close>

definition cell_text :: "conversions \<Rightarrow> jdict \<Rightarrow> string \<Rightarrow> string" where
  "cell_text c row k = (case dict_get row k of None \<Rightarrow> [] | Some v \<Rightarrow> csv_value c v)"

lemma csv_row_cells: "csv_row c columns row = Inr line \<Longrightarrow> line = csv_line (map (cell_text c row) columns)"
  by (auto simp: csv_row_def cell_text_def [abs_def] split: if_splits)

lemma csv_rows_cells:
  "map_r (csv_row c columns) rows = Inr ls \<Longrightarrow> ls = map (\<lambda>row. csv_line (map (cell_text c row) columns)) rows"
  by (induction rows arbitrary: ls) (auto simp: bind_r_Inr_iff dest: csv_row_cells)

lemma csv_text_cells:
  assumes "csv_text c columns rows = Inr text"
  shows "text = concat (map csv_line (columns # map (\<lambda>row. map (cell_text c row) columns) rows))"
  using assms by (auto simp: csv_text_def bind_r_Inr_iff comp_def dest!: csv_rows_cells)

lemma update_fresh: "k \<notin> dict_keys d \<Longrightarrow> AList.update k v d = d @ [(k, v)]"
  by (induction d) auto

lemma fold_update_fresh:
  "distinct ks \<Longrightarrow> length ks = length vs \<Longrightarrow> Some ` set ks \<inter> dict_keys d = {}
   \<Longrightarrow> fold (\<lambda>kv. AList.update (Some (fst kv)) (JStr (snd kv))) (zip ks vs) d = d @ map (\<lambda>kv. (Some (fst kv), JStr (snd kv))) (zip ks vs)"
proof (induction ks arbitrary: vs d)
  case (Cons k ks)
  then obtain v ws where vs: "vs = v # ws" by (cases vs) auto
  have "fold (\<lambda>kv. AList.update (Some (fst kv)) (JStr (snd kv))) (zip ks ws) (d @ [(Some k, JStr v)])
      = (d @ [(Some k, JStr v)]) @ map (\<lambda>kv. (Some (fst kv), JStr (snd kv))) (zip ks ws)"
    using Cons.prems vs by (intro Cons.IH) auto
  with Cons.prems vs show ?case by (simp add: update_fresh)
qed simp

lemma dict_of_full_record:
  "distinct names \<Longrightarrow> dict_of_record names (map f names) = map (\<lambda>k. (Some k, JStr (f k))) names"
  using fold_update_fresh [of names "map f names" "[]"] by (simp add: dict_of_record_def zip_map2 zip_same_conv_map comp_def)

lemma table_read_back:
  assumes "csv_text c columns rows = Inr text" "distinct columns" "2 \<le> length columns"
    "\<forall>k \<in> set columns. length k \<le> 131072 \<and> (\<forall>row \<in> set rows. length (cell_text c row k) \<le> 131072)"
  shows "load_rows text = Inr (map (\<lambda>row. map (\<lambda>k. (Some k, JStr (cell_text c row k))) columns) rows)"
proof -
  let ?records = "columns # map (\<lambda>row. map (cell_text c row) columns) rows"
  have "csv_reader text = Inr ?records"
    unfolding csv_text_cells [OF assms(1)] using assms(3,4) by (intro csv_reader_lines) auto
  moreover have "columns \<noteq> []" using assms(3) by auto
  ultimately show ?thesis by (simp add: load_rows_def dict_of_full_record assms(2) comp_def filter_map)
qed

text \<open>C38: A table survives the file: for at least two distinct columns and cells within the reader's field limit, reading back
  what the CSV writer wrote gives, for every row in order, its columns with the texts of its cells, whatever characters
  these contain: commas, quotes and line ends inside a cell are quoted by the writer and restored by the reader.\<close>

theorem table_reads_back:
  assumes "csv_text c columns rows = Inr text" "distinct columns" "2 \<le> length columns"
    "\<forall>k \<in> set columns. length k \<le> 131072 \<and> (\<forall>row \<in> set rows. length (cell_text c row k) \<le> 131072)"
  shows "load_rows text = Inr (map (\<lambda>row. map (\<lambda>k. (Some k, JStr (cell_text c row k))) columns) rows)"
  using table_read_back [OF assms] .

theorem table_reads_back_witness:
  "\<exists>text. csv_text plain_conversions [''policy'', ''note''] [[(''policy'', JStr ''a,b'')], [(''note'', JStr [CHR 0x22, CHR 0x0A]), (''policy'', JInt 7)]] = Inr text
    \<and> load_rows text = Inr [[(Some ''policy'', JStr ''a,b''), (Some ''note'', JStr [])],
        [(Some ''policy'', JStr ''7''), (Some ''note'', JStr [CHR 0x22, CHR 0x0A])]]"
proof -
  let ?columns = "[''policy'', ''note'']" and ?rows = "[[(''policy'', JStr ''a,b'')], [(''note'', JStr [CHR 0x22, CHR 0x0A]), (''policy'', JInt 7)]]"
  obtain t where t: "csv_text plain_conversions ?columns ?rows = Inr t" by (simp add: csv_text_def csv_row_def)
  have seven: "int_str 7 = ''7''" by code_simp
  from table_reads_back [OF t] show ?thesis using t by (simp add: cell_text_def csv_value_def seven)
qed

section \<open>The plots of a sweep\<close>

text \<open>What \<open>int\<close> and \<open>float\<close> promise about the texts of numbers.\<close>

definition reads_numbers :: "conversions \<Rightarrow> bool" where
  "reads_numbers c \<longleftrightarrow> (\<forall>i. int_of_text c (int_str i) = Inr i) \<and> (\<forall>x. is_float x \<longrightarrow> float_of_text c (float_str x) = Inr x)
     \<and> (\<forall>i. float_of_text c (int_str i) = Inr (int_to_float i))"

type_synonym sweep_point = "int \<times> simulation_result"

definition point_name :: "sweep_point \<Rightarrow> string" where "point_name p = res_policy_name (snd p)"

text \<open>A row of the table as it is read back.\<close>

definition table_row_of :: "conversions \<Rightarrow> sweep_point \<Rightarrow> table_line" where
  "table_row_of c p = map (\<lambda>k. (Some k, JStr (cell_text c (sweep_row (fst p) (snd p)) k))) sweep_columns"

lemma line_items [simp]:
  "line_item ''policy'' (table_row_of c p) = Inr (JStr (point_name p))"
  "line_item ''hbm_mb'' (table_row_of c p) = Inr (JStr (int_str (fst p)))"
  "line_item ''p99_latency_us'' (table_row_of c p) = Inr (JStr (float_str (p99_latency_us (snd p))))"
  "line_item ''decode_critical_misses'' (table_row_of c p) = Inr (JStr (int_str (res_decode_critical_misses (snd p))))"
  "line_item ''decode_critical_evictions'' (table_row_of c p) = Inr (JStr (int_str (res_decode_critical_evictions (snd p))))"
  by (simp_all add: line_item_def table_row_of_def sweep_columns_def sweep_row_def cell_text_def csv_value_def point_name_def)

definition names_of :: "sweep_point list \<Rightarrow> string list" where
  "names_of ps = remdups_adj (sort (map point_name ps))"

lemma sorted_policies: "bind_r (map_r (line_item ''policy'') (map (table_row_of c) ps)) sorted_values = Inr (map JStr (names_of ps))"
proof -
  have "map_r (line_item ''policy'') (map (table_row_of c) ps) = Inr (map (\<lambda>p. JStr (point_name p)) ps)"
    by (induction ps) simp_all
  then show ?thesis by (simp add: sorted_values_def list_all_iff names_of_def comp_def)
qed

text \<open>The line drawn for a policy: its points in the order of the table.\<close>

definition drawn :: "(simulation_result \<Rightarrow> pyfloat) \<Rightarrow> sweep_point list \<Rightarrow> string \<Rightarrow> plot_line" where
  "drawn metric ps name = (let series = filter (\<lambda>p. point_name p = name) ps
     in \<lparr>pl_label = JStr name, pl_x = map fst series, pl_y = map (\<lambda>p. metric (snd p)) series\<rparr>)"

lemma series_drawn:
  assumes "reads_numbers c" "\<And>p. p \<in> set ps \<Longrightarrow> bind_r (line_item key (table_row_of c p)) (py_float c) = Inr (metric (snd p))"
  shows "plot_series c (map (table_row_of c) ps) key (JStr name) = Inr (drawn metric ps name)"
proof -
  have marked: "map_r (\<lambda>row. bind_r (line_item ''policy'' row) (\<lambda>p. Inr (p = JStr name, row))) (map (table_row_of c) ps)
      = Inr (map (\<lambda>p. (point_name p = name, table_row_of c p)) ps)" by (induction ps) simp_all
  let ?series = "filter (\<lambda>p. point_name p = name) ps"
  have series: "map snd (filter fst (map (\<lambda>p. (point_name p = name, table_row_of c p)) ps)) = map (table_row_of c) ?series"
    by (induction ps) simp_all
  have "map_r (\<lambda>row. bind_r (line_item ''hbm_mb'' row) (py_int c)) (map (table_row_of c) qs) = Inr (map fst qs)" for qs
    using assms(1) by (induction qs) (simp_all add: reads_numbers_def)
  moreover have "map_r (\<lambda>row. bind_r (line_item key row) (py_float c)) (map (table_row_of c) qs) = Inr (map (\<lambda>p. metric (snd p)) qs)"
    if "set qs \<subseteq> set ps" for qs using that assms(2) by (induction qs) simp_all
  from this [of ?series] have "map_r (\<lambda>row. bind_r (line_item key row) (py_float c)) (map (table_row_of c) ?series)
      = Inr (map (\<lambda>p. metric (snd p)) ?series)" by auto
  ultimately show ?thesis by (simp add: plot_series_def marked series drawn_def Let_def)
qed

lemma figure_drawn:
  assumes "reads_numbers c" "\<And>p. p \<in> set ps \<Longrightarrow> bind_r (line_item key (table_row_of c p)) (py_float c) = Inr (metric (snd p))"
  shows "plot c out_dir (map (table_row_of c) ps) (map JStr names) (key, file, label)
    = Inr \<lparr>fig_lines = map (drawn metric ps) names, fig_ylabel = label, fig_file = out_dir @ ''/'' @ file\<rparr>"
proof -
  have "map_r (plot_series c (map (table_row_of c) ps) key) (map JStr names) = Inr (map (drawn metric ps) names)"
    using series_drawn [OF assms] by (induction names) simp_all
  then show ?thesis by (simp add: plot_def)
qed

text \<open>C39: The plots show the sweep: for a table written by the sweep, with cells within the reader's field limit, and conversions
  that read the texts of numbers back, the plot helper draws three figures, each with one line per policy in sorted
  order, and each line has exactly the capacities and values of that policy's results, in the order of the sweep.\<close>

theorem plots_show_sweep:
  assumes "reads_numbers c" "write_sweep_csv c (map (\<lambda>p. sweep_row (fst p) (snd p)) ps) = Inr text"
    and "\<forall>p \<in> set ps. is_float (p99_latency_us (snd p))
      \<and> (\<forall>k \<in> set sweep_columns. length (cell_text c (sweep_row (fst p) (snd p)) k) \<le> 131072)"
  shows "\<exists>figures. plot_main c True path (RegularFile text) out_dir = Inr (figures, ''Wrote 3 plots to '' @ out_dir)
    \<and> map fig_lines figures = map (\<lambda>metric. map (drawn metric ps) (names_of ps))
        [p99_latency_us, \<lambda>r. int_to_float (res_decode_critical_misses r), \<lambda>r. int_to_float (res_decode_critical_evictions r)]
    \<and> map fig_file figures = map (\<lambda>f. out_dir @ ''/'' @ f)
        [''p99_latency_vs_hbm.png'', ''decode_critical_misses_vs_hbm.png'', ''decode_critical_evictions_vs_hbm.png'']"
proof -
  have "distinct sweep_columns" "2 \<le> length sweep_columns" "\<forall>k \<in> set sweep_columns. length k \<le> 131072"
    by (simp_all add: sweep_columns_def)
  with assms(2,3) have rows: "load_rows text = Inr (map (table_row_of c) ps)"
    using table_read_back [of c sweep_columns "map (\<lambda>p. sweep_row (fst p) (snd p)) ps" "text"]
    by (simp add: write_sweep_csv_def table_row_of_def comp_def)
  have "text \<noteq> []" using csv_text_cells assms(2) by (fastforce simp: write_sweep_csv_def csv_line_def)
  moreover note figure_drawn [OF assms(1), of ps "''p99_latency_us''" p99_latency_us]
    figure_drawn [OF assms(1), of ps "''decode_critical_misses''" "\<lambda>r. int_to_float (res_decode_critical_misses r)"]
    figure_drawn [OF assms(1), of ps "''decode_critical_evictions''" "\<lambda>r. int_to_float (res_decode_critical_evictions r)"]
  ultimately show ?thesis
    using assms(1,3) by (simp add: plot_main_def rows sorted_policies plotted_metrics_def reads_numbers_def)
qed

section \<open>Samples\<close>

text \<open>Conversions that read a number by the JSON scanner.\<close>

definition number_conversions :: conversions where
  "number_conversions = \<lparr>repr_of = json_text,
     int_of_text = (\<lambda>s. case json_loads s of Inr (JInt i) \<Rightarrow> Inr i | _ \<Rightarrow> Inl (ValueError s)),
     float_of_text = (\<lambda>s. case json_loads s of Inr (JFloat x) \<Rightarrow> Inr x | Inr (JInt i) \<Rightarrow> Inr (int_to_float i) | _ \<Rightarrow> Inl (ValueError s)),
     dict_of_items = (\<lambda>j. Inl (TypeError ''items''))\<rparr>"

lemma number_conversions_read: "reads_numbers number_conversions"
  using json_text_back [of "JInt i" for i] json_text_back [of "JFloat x" for x]
  by (simp add: reads_numbers_def number_conversions_def)

definition sample_result :: "string \<Rightarrow> int \<Rightarrow> simulation_result" where
  "sample_result name misses = \<lparr>res_policy_name = name, total_blocks = 4, total_steps = 9, res_hbm_capacity_bytes = 1048576,
     res_dram_capacity_bytes = 67108864, res_peak_hbm_demand_bytes = 65536, res_actual_peak_hbm_used_bytes = 65536,
     hbm_bytes_saved = 0, res_capacity_exhaustion_events = 0, res_pinned_capacity_exhaustion_events = 0, res_spill_count = 0,
     res_prefetch_count = 0, res_miss_count = 0, res_eviction_count = 0, total_latency_us = 450, p50_latency_us = 0,
     p95_latency_us = 0, p99_latency_us = 0, res_decode_critical_misses = misses, decode_critical_miss_rate = 0,
     res_decode_critical_evictions = 0, final_hbm_used_bytes = 0, final_dram_used_bytes = 0\<rparr>"

definition sample_points :: "sweep_point list" where
  "sample_points = [(1, sample_result ''LRU'' 3), (1, sample_result ''KVDeadline'' 1), (8, sample_result ''LRU'' 2)]"

lemma sample_cells:
  "list_all (\<lambda>p. list_all (\<lambda>k. length (cell_text number_conversions (sweep_row (fst p) (snd p)) k) \<le> 100) sweep_columns) sample_points"
  by code_simp

abbreviation misses_of :: "simulation_result \<Rightarrow> pyfloat" where
  "misses_of r \<equiv> int_to_float (res_decode_critical_misses r)"

theorem plots_show_sweep_witness:
  "\<exists>csv figures. write_sweep_csv number_conversions (map (\<lambda>p. sweep_row (fst p) (snd p)) sample_points) = Inr csv
    \<and> plot_main number_conversions True ''sweep.csv'' (RegularFile csv) ''plots'' = Inr (figures, ''Wrote 3 plots to plots'')
    \<and> map fig_lines figures ! 1 = [drawn misses_of sample_points ''KVDeadline'', drawn misses_of sample_points ''LRU'']
    \<and> drawn misses_of sample_points ''LRU'' = \<lparr>pl_label = JStr ''LRU'', pl_x = [1, 8], pl_y = [3, 2]\<rparr>"
proof -
  have "map_r (csv_row c sweep_columns) (map (\<lambda>p. sweep_row (fst p) (snd p)) ps)
      = Inr (map (\<lambda>p. csv_line (row_cells c (sweep_row (fst p) (snd p)))) ps)" for c and ps :: "sweep_point list"
    by (induction ps) (simp_all add: sweep_row_csv)
  then obtain csv where csv: "write_sweep_csv number_conversions (map (\<lambda>p. sweep_row (fst p) (snd p)) sample_points) = Inr csv"
    by (simp add: write_sweep_csv_def csv_text_def)
  have "\<forall>p \<in> set sample_points. is_float (p99_latency_us (snd p))" by (simp add: sample_points_def sample_result_def)
  moreover have "\<forall>p \<in> set sample_points. \<forall>k \<in> set sweep_columns.
      length (cell_text number_conversions (sweep_row (fst p) (snd p)) k) \<le> 131072"
    using sample_cells unfolding list_all_iff by fastforce
  ultimately have cells: "\<forall>p \<in> set sample_points. is_float (p99_latency_us (snd p))
      \<and> (\<forall>k \<in> set sweep_columns. length (cell_text number_conversions (sweep_row (fst p) (snd p)) k) \<le> 131072)" by blast
  have names: "names_of sample_points = [''KVDeadline'', ''LRU'']" by code_simp
  have line: "drawn misses_of sample_points ''LRU'' = \<lparr>pl_label = JStr ''LRU'', pl_x = [1, 8], pl_y = [3, 2]\<rparr>"
    by (simp add: drawn_def sample_points_def point_name_def sample_result_def int_to_float_exact)
  obtain figures where "plot_main number_conversions True ''sweep.csv'' (RegularFile csv) ''plots'' = Inr (figures, ''Wrote 3 plots to plots'')"
    "map fig_lines figures = map (\<lambda>metric. map (drawn metric sample_points) (names_of sample_points))
        [p99_latency_us, misses_of, \<lambda>r. int_to_float (res_decode_critical_evictions r)]"
    using plots_show_sweep [OF number_conversions_read csv cells, of "''sweep.csv''" "''plots''"] by (auto simp del: list.map)
  with csv line show ?thesis by (intro exI [of _ csv] exI [of _ figures]) (simp add: names)
qed

end
