(* ===== verification/IoUring.thy ===== *)
theory IoUring
  imports Report Serialization "HOL-Library.Word"
begin

unbundle bit_operations_syntax

text \<open>
  \<open>src/experiments/io_uring_kv\<close>: KV blocks are prefetched through the submission and completion rings the program
  shares with the kernel, by raw system calls, and compared with synchronous reads. Fields of the shared structures are
  words of their width, so the ring indices wrap around. The kernel is an argument: the sizes and masks of the rings, the
  value of the completion tail and of the entries each time the program looks, the results of the system calls, and the
  clock. The completion loop, which polls until the kernel has answered, is a partial function.
\<close>

section \<open>The layout of the structures\<close>

text \<open>\<open>ctypes.Structure\<close>: each field at the next multiple of its alignment, the size a multiple of the largest one. \<open>CInt\<close> has
  its size, \<open>CArray\<close> the size and the number of its elements, \<open>CBlock\<close> the size and alignment of a nested structure.\<close>

datatype ctype = CInt nat | CArray nat nat | CBlock nat nat

fun csize :: "ctype \<Rightarrow> nat" where
  "csize (CInt n) = n"
| "csize (CArray n k) = n * k"
| "csize (CBlock n a) = n"

fun calign :: "ctype \<Rightarrow> nat" where
  "calign (CInt n) = n"
| "calign (CArray n k) = n"
| "calign (CBlock n a) = a"

type_synonym fields = "(string \<times> ctype) list"

definition align_up :: "nat \<Rightarrow> nat \<Rightarrow> nat" where
  "align_up n a = (n + a - 1) div a * a"

fun field_offsets :: "nat \<Rightarrow> fields \<Rightarrow> (string \<times> nat) list" where
  "field_offsets n [] = []"
| "field_offsets n ((name, t) # fs) =
     (name, align_up n (calign t)) # field_offsets (align_up n (calign t) + csize t) fs"

fun fields_end :: "nat \<Rightarrow> fields \<Rightarrow> nat" where
  "fields_end n [] = n"
| "fields_end n ((name, t) # fs) = fields_end (align_up n (calign t) + csize t) fs"

definition alignof :: "fields \<Rightarrow> nat" where
  "alignof fs = fold max (map (calign \<circ> snd) fs) 1"

definition sizeof :: "fields \<Rightarrow> nat" where
  "sizeof fs = align_up (fields_end 0 fs) (alignof fs)"

definition nested :: "fields \<Rightarrow> ctype" where
  "nested fs = CBlock (sizeof fs) (alignof fs)"

definition io_sqring_offsets :: fields where
  "io_sqring_offsets = [(''head'', CInt 4), (''tail'', CInt 4), (''ring_mask'', CInt 4), (''ring_entries'', CInt 4),
     (''flags'', CInt 4), (''dropped'', CInt 4), (''array'', CInt 4), (''resv1'', CInt 4), (''resv2'', CInt 8)]"

definition io_cqring_offsets :: fields where
  "io_cqring_offsets = [(''head'', CInt 4), (''tail'', CInt 4), (''ring_mask'', CInt 4), (''ring_entries'', CInt 4),
     (''overflow'', CInt 4), (''cqes'', CInt 4), (''flags'', CInt 8), (''resv1'', CInt 8), (''resv2'', CInt 8)]"

definition io_uring_params :: fields where
  "io_uring_params = [(''sq_entries'', CInt 4), (''cq_entries'', CInt 4), (''flags'', CInt 4), (''sq_thread_cpu'', CInt 4),
     (''sq_thread_idle'', CInt 4), (''features'', CInt 4), (''wq_fd'', CInt 4), (''resv'', CArray 4 3),
     (''sq_off'', nested io_sqring_offsets), (''cq_off'', nested io_cqring_offsets)]"

definition io_uring_sqe :: fields where
  "io_uring_sqe = [(''opcode'', CInt 1), (''flags'', CInt 1), (''ioprio'', CInt 2), (''fd'', CInt 4), (''off'', CInt 8),
     (''addr'', CInt 8), (''len'', CInt 4), (''rw_flags'', CInt 4), (''user_data'', CInt 8), (''buf_index'', CInt 2),
     (''personality'', CInt 2), (''splice_fd_in'', CInt 4), (''pad2'', CArray 8 2)]"

definition io_uring_cqe :: fields where
  "io_uring_cqe = [(''user_data'', CInt 8), (''res'', CInt 4), (''flags'', CInt 4)]"

section \<open>The shared rings\<close>

text \<open>The fields of a submission entry that the program writes.\<close>

record sqe =
  sqe_opcode :: "8 word"
  sqe_flags :: "8 word"
  sqe_ioprio :: "16 word"
  sqe_fd :: "32 word"
  sqe_off :: "64 word"
  sqe_addr :: "64 word"
  sqe_len :: "32 word"
  sqe_rw_flags :: "32 word"
  sqe_user_data :: "64 word"

text \<open>What \<open>io_uring_setup\<close> filled in, and what the kernel and the clock answer later: \<open>cq_tail_at k\<close> and \<open>cqe_res_at k i\<close>
  are what the \<open>k\<close>-th look at the completion ring finds, \<open>buffer_addr n\<close> is the address of the \<open>n\<close>-th buffer.\<close>

record kernel =
  sq_entries :: nat
  cq_entries :: nat
  sq_mask :: "32 word"
  cq_mask :: "32 word"
  sq_array_offset :: nat
  cqes_offset :: nat
  data_fd :: "32 word"
  setup_value :: int
  enter_value :: "nat \<Rightarrow> int"
  error_text :: "nat \<Rightarrow> string"
  buffer_addr :: "nat \<Rightarrow> 64 word"
  cq_tail_at :: "nat \<Rightarrow> 32 word"
  cqe_res_at :: "nat \<Rightarrow> nat \<Rightarrow> int"
  strerror :: "int \<Rightarrow> string"
  clock_ns :: "nat \<Rightarrow> int"
  jitter :: "nat \<Rightarrow> pyfloat"

record ring =
  sq_tail :: "32 word"
  sq_array :: "32 word list"
  sqe_array :: "sqe list"
  cq_head :: "32 word"
  buffers :: "64 word list"
  allocated :: nat

definition uring_block_size :: int where "uring_block_size = 256 * 1024"
definition uring_decode_steps :: nat where "uring_decode_steps = 256"
definition blocks_per_step :: nat where "blocks_per_step = 4"
definition uring_total_blocks :: int where "uring_total_blocks = 256"
definition ioring_op_read :: int where "ioring_op_read = 22"

definition predicted :: "nat \<Rightarrow> int list" where
  "predicted step = map (\<lambda>k. (int step * int blocks_per_step + int k) mod uring_total_blocks) [0..<blocks_per_step]"

text \<open>The sparse file: one chunk of 4096 bytes at every 16 MiB.\<close>

definition sparse_offsets :: "int \<Rightarrow> int list" where
  "sparse_offsets bytes = map (\<lambda>k. int k * (16 * 1024 * 1024)) [0..<nat ((bytes + 16 * 1024 * 1024 - 1) div (16 * 1024 * 1024))]"

definition uring_syscall :: "int \<Rightarrow> string \<Rightarrow> int result" where
  "uring_syscall v message = (if v < 0 then Inl (OSError message) else Inr v)"

definition ring_sizes :: "kernel \<Rightarrow> nat \<times> nat \<times> nat" where
  "ring_sizes K = (sq_array_offset K + sq_entries K * 4, cqes_offset K + cq_entries K * sizeof io_uring_cqe,
     sq_entries K * sizeof io_uring_sqe)"

section \<open>Submission\<close>

definition read_entry_of :: "kernel \<Rightarrow> nat \<Rightarrow> int \<Rightarrow> 64 word \<Rightarrow> sqe" where
  "read_entry_of K step block address =
     \<lparr>sqe_opcode = word_of_int ioring_op_read, sqe_flags = 0, sqe_ioprio = 0, sqe_fd = data_fd K,
      sqe_off = word_of_int (block * uring_block_size), sqe_addr = address, sqe_len = word_of_int uring_block_size,
      sqe_rw_flags = 0, sqe_user_data = word_of_int (push_bit 16 (int step) OR block)\<rparr>"

text \<open>Reserving a slot; an index past the array raises.\<close>

definition reserve_slot :: "kernel \<Rightarrow> nat \<Rightarrow> int \<Rightarrow> ring \<Rightarrow> ring result" where
  "reserve_slot K step block r =
     (let tail = sq_tail r; index = tail AND sq_mask K; address = buffer_addr K (allocated r)
      in if unat index < length (sqe_array r) \<and> unat index < length (sq_array r)
         then Inr (r\<lparr>buffers := buffers r @ [address], allocated := Suc (allocated r),
           sqe_array := (sqe_array r)[unat index := read_entry_of K step block address],
           sq_array := (sq_array r)[unat index := index], sq_tail := tail + 1\<rparr>)
         else Inl IndexError)"

definition submit_step :: "kernel \<Rightarrow> nat \<Rightarrow> ring \<Rightarrow> ring result" where
  "submit_step K step r = fold_r (reserve_slot K step) (predicted step) (r\<lparr>buffers := []\<rparr>)"

section \<open>Completion\<close>

text \<open>\<open>k\<close> counts the looks at the ring; the value is their number and the head at the end.\<close>

partial_function (option) complete_loop ::
  "kernel \<Rightarrow> nat \<Rightarrow> nat \<Rightarrow> nat \<Rightarrow> 32 word \<Rightarrow> (nat \<times> 32 word) outcome"
where
  "complete_loop K wanted completed k head =
     (if completed < wanted then
        if head = cq_tail_at K k then complete_loop K wanted completed (Suc k) head
        else let index = unat (head AND cq_mask K)
             in if cq_entries K \<le> index then Some (Inl IndexError)
                else if cqe_res_at K k index < 0 then Some (Inl (OSError (strerror K (- cqe_res_at K k index))))
                else complete_loop K wanted (Suc completed) (Suc k) (head + 1)
      else Some (Inr (k, head)))"

section \<open>The run\<close>

record prefetch =
  pf_ring :: ring
  pf_looks :: nat
  pf_latencies :: "pyfloat list"

definition prefetch_step :: "kernel \<Rightarrow> nat \<Rightarrow> prefetch \<Rightarrow> prefetch outcome" where
  "prefetch_step K step p =
     bind_o (Some (submit_step K step (pf_ring p))) (\<lambda>r.
     bind_o (Some (uring_syscall (enter_value K step) (error_text K (Suc step)))) (\<lambda>_.
     bind_o (complete_loop K (length (predicted step)) 0 (pf_looks p) (cq_head r)) (\<lambda>kh.
     let elapsed_us = fdiv (int_to_float (clock_ns K (2 * step + 1) - clock_ns K (2 * step))) 1000
     in Some (Inr \<lparr>pf_ring = r\<lparr>cq_head := snd kh\<rparr>, pf_looks = fst kh,
          pf_latencies = pf_latencies p @ [fadd elapsed_us (jitter K step)]\<rparr>))))"

definition uring_percentile :: "pyfloat list \<Rightarrow> pyfloat \<Rightarrow> pyfloat result" where
  "uring_percentile vs pct =
     (if vs = [] then Inr 0
      else let ordered = sort vs
           in py_nth ordered (float_to_int (fmul (fdiv pct 100) (int_to_float (int (length ordered) - 1)))))"

text \<open>\<open>statistics.mean\<close> is exact before its single rounding.\<close>

definition exact_mean :: "pyfloat list \<Rightarrow> pyfloat" where
  "exact_mean vs = fl (sum_list vs / of_int (int (length vs)))"

definition uring_summary :: "pyfloat list \<Rightarrow> jdict result" where
  "uring_summary ls =
     bind_r (uring_percentile ls 50) (\<lambda>p50. bind_r (uring_percentile ls 95) (\<lambda>p95. bind_r (uring_percentile ls 99) (\<lambda>p99.
     Inr [(''p50_us'', JFloat (py_round 2 p50)), (''p95_us'', JFloat (py_round 2 p95)), (''p99_us'', JFloat (py_round 2 p99)),
       (''mean_us'', JFloat (py_round 2 (exact_mean ls))), (''decode_steps'', JInt (int uring_decode_steps)),
       (''blocks_per_step'', JInt (int blocks_per_step)), (''block_size_kb'', JInt (uring_block_size div 1024)),
       (''note'', JStr ''This is a userspace io_uring KV-prefetch emulation, not GPU memory control.'')])))"

text \<open>The loop of \<open>main\<close> from the rings as set up, with the text of the result file.\<close>

definition prefetch_run :: "kernel \<Rightarrow> ring \<Rightarrow> prefetch outcome" where
  "prefetch_run K r = fold_o (prefetch_step K) [0..<uring_decode_steps] \<lparr>pf_ring = r, pf_looks = 0, pf_latencies = []\<rparr>"

definition prefetch_main :: "kernel \<Rightarrow> ring \<Rightarrow> (prefetch \<times> string) outcome" where
  "prefetch_main K r =
     bind_o (Some (uring_syscall (setup_value K) (error_text K 0))) (\<lambda>_.
     bind_o (prefetch_run K r) (\<lambda>p.
     bind_o (Some (uring_summary (pf_latencies p))) (\<lambda>summary.
     Some (Inr (p, json_pretty 0 (JDict summary) @ newline)))))"

section \<open>The synchronous comparison\<close>

definition sync_percentile :: "pyfloat list \<Rightarrow> pyfloat \<Rightarrow> pyfloat result" where
  "sync_percentile vs pct =
     py_nth (sort vs) (float_to_int (fmul (fdiv pct 100) (int_to_float (int (length vs) - 1))))"

record sync_stats =
  sy_p50 :: pyfloat
  sy_p95 :: pyfloat
  sy_p99 :: pyfloat
  sy_total_ms :: pyfloat

text \<open>The reads, as offset and length, and the statistics; reading 0 of the clock is \<open>start_total\<close>, readings \<open>2 n + 1\<close> and
  \<open>2 n + 2\<close> belong to step \<open>n\<close>, the next one ends the run.\<close>

definition sync_reads :: "(int \<times> int) list" where
  "sync_reads = concat (map (\<lambda>step. map (\<lambda>block. (block * uring_block_size, uring_block_size)) (predicted step)) [0..<uring_decode_steps])"

definition sync_latencies :: "(nat \<Rightarrow> int) \<Rightarrow> pyfloat list" where
  "sync_latencies clock = map (\<lambda>step. fdiv (int_to_float (clock (2 * step + 2) - clock (2 * step + 1))) 1000) [0..<uring_decode_steps]"

definition sync_run :: "(nat \<Rightarrow> int) \<Rightarrow> sync_stats result" where
  "sync_run clock =
     (let ls = sync_latencies clock; total_ms = fdiv (int_to_float (clock (2 * uring_decode_steps + 1) - clock 0)) 1000000
      in bind_r (sync_percentile ls 50) (\<lambda>p50. bind_r (sync_percentile ls 95) (\<lambda>p95. bind_r (sync_percentile ls 99) (\<lambda>p99.
         Inr \<lparr>sy_p50 = p50, sy_p95 = p95, sy_p99 = p99, sy_total_ms = total_ms\<rparr>))))"

text \<open>Numbers read back from the result file: \<open>f"{v:.2f}"\<close> and \<open>v * n / 1000.0\<close>.\<close>

fun fixed_json :: "json \<Rightarrow> string result" where
  "fixed_json (JFloat x) = Inr (fixed 2 x)"
| "fixed_json (JInt i) = Inr (fixed 2 (int_to_float i))"
| "fixed_json (JBool b) = Inr (fixed 2 (if b then 1 else 0))"
| "fixed_json (JStr s) = Inl (ValueError ''Unknown format code for object of type str'')"
| "fixed_json j = Inl (TypeError ''unsupported format string'')"

fun times_steps :: "json \<Rightarrow> pyfloat result" where
  "times_steps (JFloat x) = Inr (fdiv (fmul x (int_to_float (int uring_decode_steps))) 1000)"
| "times_steps (JInt i) = Inr (fdiv (int_to_float (i * int uring_decode_steps)) 1000)"
| "times_steps (JBool b) = Inr (fdiv (int_to_float ((if b then 1 else 0) * int uring_decode_steps)) 1000)"
| "times_steps j = Inl (TypeError ''unsupported operand type(s) for /'')"

definition comparison_table :: "sync_stats \<Rightarrow> jdict \<Rightarrow> string list result" where
  "comparison_table s d =
     bind_r (case dict_get d ''mean_us'' of None \<Rightarrow> times_steps (JFloat 1) | Some v \<Rightarrow> times_steps v) (\<lambda>async_ms.
     let floor = fl (1 / 1000); denominator = (if floor > async_ms then floor else async_ms); speedup = fdiv (sy_total_ms s) denominator
     in bind_r (bind_r (get_item d ''p50_us'') fixed_json) (\<lambda>p50. bind_r (bind_r (get_item d ''p95_us'') fixed_json) (\<lambda>p95.
        bind_r (bind_r (get_item d ''p99_us'') fixed_json) (\<lambda>p99. bind_r (bind_r (get_item d ''mean_us'') times_steps) (\<lambda>mean_ms.
        Inr [table_row [''Mode'', ''p50 us'', ''p95 us'', ''p99 us'', ''total ms''], ''|---|---:|---:|---:|---:|'',
          table_row [''sync'', fixed 2 (sy_p50 s), fixed 2 (sy_p95 s), fixed 2 (sy_p99 s), fixed 2 (sy_total_ms s)],
          table_row [''io_uring'', p50, p95, p99, fixed 2 mean_ms],
          table_row [''speedup'', ''-'', ''-'', ''-'', fixed 2 speedup]])))))"

end
