(* ===== verification/IoUringLaws.thy ===== *)
theory IoUringLaws
  imports IoUring
begin

unbundle bit_operations_syntax

text \<open>
  The rings the prefetcher shares with the kernel: where a submission goes when the tail wraps around, and that polling ends
  once the kernel has posted a completion for every read.
\<close>

section \<open>Layout\<close>

lemma entry_sizes: "sizeof io_uring_sqe = 64" "sizeof io_uring_cqe = 16"
  by code_simp+

lemma entry_offsets:
  "map snd (field_offsets 0 io_uring_sqe) = [0, 1, 2, 4, 8, 16, 24, 28, 32, 40, 42, 44, 48]"
  "map snd (field_offsets 0 io_uring_cqe) = [0, 8, 12]"
  by code_simp+

section \<open>Ring indices\<close>

text \<open>A ring has a power of two of entries and its mask is one less, as \<open>io_uring_setup\<close> documents.\<close>

definition ring_shape :: "nat \<Rightarrow> 32 word \<Rightarrow> bool" where
  "ring_shape entries m \<longleftrightarrow> (\<exists>n \<le> 31. entries = 2 ^ n \<and> m = of_nat (entries - 1))"

lemma masked_index:
  assumes "ring_shape entries m"
  shows "unat (w AND m) = unat w mod entries"
proof -
  obtain n where n: "n \<le> 31" "entries = 2 ^ n" "m = of_nat (entries - 1)" using assms by (auto simp: ring_shape_def)
  then have "m = mask n" by (simp add: mask_eq_exp_minus_1 of_nat_diff)
  then have "w AND m = take_bit n w" by (simp only: take_bit_eq_mask)
  then have "unat (w AND m) = take_bit n (unat w)" by (simp only: unsigned_take_bit_eq)
  then show ?thesis by (simp only: n(2) take_bit_eq_mod)
qed

lemma masked_index_less: "ring_shape entries m \<Longrightarrow> unat (w AND m) < entries"
  by (simp add: masked_index) (auto simp: ring_shape_def)

text \<open>The index of the \<open>j\<close>-th entry after \<open>w\<close>, across the wrap-around of the 32-bit counter.\<close>

lemma masked_index_add:
  assumes "ring_shape entries m"
  shows "unat ((w + of_nat j) AND m) = (unat w + j) mod entries"
proof -
  obtain n where n: "n \<le> 31" "entries = 2 ^ n" using assms by (auto simp: ring_shape_def)
  then have "(2 :: nat) ^ n dvd 2 ^ 32" by (intro le_imp_power_dvd) simp
  then have "unat (w + of_nat j) mod 2 ^ n = (unat w + j) mod 2 ^ n"
    by (simp add: unat_word_ariths unat_of_nat mod_mod_cancel mod_add_right_eq)
  then show ?thesis by (simp add: masked_index [OF assms] n(2))
qed

lemma mod_window_le: "(t + i) mod e = (t + j) mod e \<Longrightarrow> i \<le> j \<Longrightarrow> j < e \<Longrightarrow> i = (j :: nat)"
proof -
  assume eq: "(t + i) mod e = (t + j) mod e" and le: "i \<le> j" "j < e"
  then have "e dvd (t + j) - (t + i)" by (metis add_le_cancel_left mod_eq_dvd_iff_nat)
  then have "e dvd j - i" by simp
  with le show "i = j" by (metis diff_is_0_eq diff_le_self dvd_imp_le le_antisym linorder_not_le neq0_conv order_le_less_trans)
qed

lemma mod_window: "(t + i) mod e = (t + j) mod e \<Longrightarrow> i < e \<Longrightarrow> j < e \<Longrightarrow> i = (j :: nat)"
  using mod_window_le [of t i e j] mod_window_le [of t j e i] by (cases "i \<le> j") simp_all

section \<open>Submission\<close>

definition rings_ok :: "kernel \<Rightarrow> ring \<Rightarrow> bool" where
  "rings_ok K r \<longleftrightarrow> ring_shape (sq_entries K) (sq_mask K) \<and> 4 \<le> sq_entries K
     \<and> length (sqe_array r) = sq_entries K \<and> length (sq_array r) = sq_entries K"

text \<open>The slot of the \<open>j\<close>-th submission after the tail \<open>t\<close>.\<close>

definition slot :: "kernel \<Rightarrow> 32 word \<Rightarrow> nat \<Rightarrow> nat" where
  "slot K t j = (unat t + j) mod sq_entries K"

lemma slots_distinct:
  assumes "4 \<le> sq_entries K"
  shows "distinct (map (slot K t) [0..<4])"
proof -
  have "inj_on (slot K t) (set [0..<4])" using assms by (intro inj_onI) (auto simp: slot_def dest!: mod_window)
  then show ?thesis by (simp add: distinct_map del: set_upt)
qed

lemma reserve_returns:
  assumes "rings_ok K r"
  shows "reserve_slot K step block r = Inr (r\<lparr>buffers := buffers r @ [buffer_addr K (allocated r)], allocated := Suc (allocated r),
      sqe_array := (sqe_array r)[unat (sq_tail r AND sq_mask K) := read_entry_of K step block (buffer_addr K (allocated r))],
      sq_array := (sq_array r)[unat (sq_tail r AND sq_mask K) := sq_tail r AND sq_mask K], sq_tail := sq_tail r + 1\<rparr>)"
  using assms masked_index_less by (simp add: reserve_slot_def rings_ok_def Let_def)

lemma length_fold_update [simp]: "length (fold (\<lambda>j xs. xs[f j := g j]) js xs) = length xs"
  by (induction js arbitrary: xs) simp_all

text \<open>What a submission entry says: a read of one block into a buffer, tagged with the step and the block.\<close>

definition describes :: "kernel \<Rightarrow> nat \<Rightarrow> nat \<Rightarrow> 64 word \<Rightarrow> sqe \<Rightarrow> bool" where
  "describes K step block address e \<longleftrightarrow> unat (sqe_opcode e) = 22 \<and> sqe_fd e = data_fd K \<and> sqe_addr e = address
     \<and> unat (sqe_off e) = block * 262144 \<and> unat (sqe_len e) = 262144
     \<and> unat (drop_bit 16 (sqe_user_data e)) = step \<and> unat (take_bit 16 (sqe_user_data e)) = block"

lemma tag_value:
  assumes "block < 65536"
  shows "push_bit 16 (int step) OR int block = int (step * 65536 + block)"
proof -
  have "push_bit 16 (int step) AND take_bit 16 (int block) = 0" by (simp add: bit_eq_iff bit_simps)
  moreover have "take_bit 16 (int block) = int block" using assms by (simp add: take_bit_int_eq_self)
  ultimately have "push_bit 16 (int step) OR int block = push_bit 16 (int step) + int block"
    using disjunctive_add_eq_or [of "push_bit 16 (int step)" "int block"] by simp
  then show ?thesis by (simp add: push_bit_eq_mult)
qed

lemma unat_of_int: "n < 2 ^ LENGTH('a) \<Longrightarrow> unat (word_of_int (int n) :: 'a :: len word) = n"
  by (simp add: unat_of_nat)

lemma entry_describes:
  assumes "step < 256" "block < 256"
  shows "describes K step block address (read_entry_of K step (int block) address)"
proof -
  let ?e = "read_entry_of K step (int block) address"
  have "unat (sqe_opcode ?e) = 22" "unat (sqe_len ?e) = 262144"
    by (simp_all add: read_entry_of_def ioring_op_read_def uring_block_size_def)
  moreover have "unat (sqe_off ?e) = block * 262144"
  proof -
    have "block * 262144 < 2 ^ LENGTH(64)" using assms by simp
    from unat_of_int [OF this] show ?thesis by (simp add: read_entry_of_def uring_block_size_def)
  qed
  moreover have tag: "unat (sqe_user_data ?e) = step * 65536 + block"
  proof -
    have "step * 65536 + block < 2 ^ LENGTH(64)" using assms by simp
    from unat_of_int [OF this] tag_value [of block step] assms(2) show ?thesis by (simp add: read_entry_of_def)
  qed
  have "unat (drop_bit 16 (sqe_user_data ?e)) = drop_bit 16 (step * 65536 + block)"
    "unat (take_bit 16 (sqe_user_data ?e)) = take_bit 16 (step * 65536 + block)"
    by (simp_all only: unat_drop_bit_eq unsigned_take_bit_eq tag)
  then have "unat (drop_bit 16 (sqe_user_data ?e)) = step" "unat (take_bit 16 (sqe_user_data ?e)) = block"
    using assms(2) by (simp_all only: drop_bit_eq_div take_bit_eq_mod) simp_all
  ultimately show ?thesis by (simp add: describes_def read_entry_of_def)
qed

lemma submission_lands:
  assumes "rings_ok K r" "step < 256"
  shows "\<exists>r'. submit_step K step r = Inr r' \<and> rings_ok K r' \<and> sq_tail r' = sq_tail r + 4 \<and> cq_head r' = cq_head r
    \<and> distinct (map (slot K (sq_tail r)) [0..<4]) \<and> buffers r' = map (\<lambda>j. buffer_addr K (allocated r + j)) [0..<4]
    \<and> (\<forall>j < 4. sq_array r' ! slot K (sq_tail r) j = of_nat (slot K (sq_tail r) j)
        \<and> describes K step ((4 * step + j) mod 256) (buffers r' ! j) (sqe_array r' ! slot K (sq_tail r) j))
    \<and> (\<forall>i. i \<notin> slot K (sq_tail r) ` {0..<4} \<longrightarrow> sqe_array r' ! i = sqe_array r ! i)"
proof -
  let ?slot = "slot K (sq_tail r)" and ?e = "\<lambda>j. read_entry_of K step (int ((4 * step + j) mod 256)) (buffer_addr K (allocated r + j))"
  note shape = assms(1) [unfolded rings_ok_def]
  have index: "unat ((sq_tail r + of_nat j) AND sq_mask K) = ?slot j" for j
    using masked_index_add shape by (simp add: slot_def)
  then have word: "(sq_tail r + of_nat j) AND sq_mask K = of_nat (?slot j)" for j by (simp flip: index)
  have unword: "unat (of_nat (?slot j) :: 32 word) = ?slot j" for j using index [of j] by (simp only: word)
  have blocks: "predicted step = map (\<lambda>j. int ((4 * step + j) mod 256)) [0..<4]"
    by (simp add: predicted_def blocks_per_step_def uring_total_blocks_def zmod_int algebra_simps)
  define st where "st n = r\<lparr>buffers := map (\<lambda>j. buffer_addr K (allocated r + j)) [0..<n], allocated := allocated r + n,
      sqe_array := fold (\<lambda>j xs. xs[?slot j := ?e j]) [0..<n] (sqe_array r),
      sq_array := fold (\<lambda>j xs. xs[?slot j := of_nat (?slot j)]) [0..<n] (sq_array r), sq_tail := sq_tail r + of_nat n\<rparr>" for n
  have ok: "rings_ok K (st n)" for n using assms(1) by (simp add: rings_ok_def st_def)
  have tail: "sq_tail (st n) = sq_tail r + of_nat n" for n by (simp add: st_def)
  have round: "reserve_slot K step (int ((4 * step + n) mod 256)) (st n) = Inr (st (Suc n))" for n
    unfolding reserve_returns [OF ok] tail word unword by (simp add: st_def add.commute [of 1])
  have "fold_r (reserve_slot K step) (map (\<lambda>j. int ((4 * step + j) mod 256)) [0..<n]) (st 0) = Inr (st n)" for n
    by (induction n) (simp_all add: fold_r_append round del: of_nat_mod of_nat_add of_nat_mult)
  moreover have "st 0 = r\<lparr>buffers := []\<rparr>" by (simp add: st_def)
  ultimately have done4: "submit_step K step r = Inr (st 4)" by (simp only: submit_step_def blocks)
  have four: "[0..<4] = [0, 1, 2, 3 :: nat]" by code_simp
  have distinct: "distinct (map ?slot [0..<4])" using slots_distinct shape by blast
  have set4: "?slot ` {0..<4} = {?slot 0, ?slot 1, ?slot 2, ?slot 3}" by (simp flip: set_upt add: four)
  have entries: "sq_array (st 4) ! ?slot j = of_nat (?slot j) \<and> sqe_array (st 4) ! ?slot j = ?e j \<and> buffers (st 4) ! j = buffer_addr K (allocated r + j)"
    if "j < 4" for j
  proof -
    have "?slot j < length (sqe_array r)" "?slot j < length (sq_array r)" using shape by (simp_all add: slot_def)
    moreover have "j \<in> {0, 1, 2, 3}" using that by auto
    ultimately show ?thesis using distinct unfolding st_def four by (auto simp: nth_list_update)
  qed
  have "describes K step ((4 * step + j) mod 256) (buffers (st 4) ! j) (sqe_array (st 4) ! ?slot j)" if "j < 4" for j
    using entries [OF that] entry_describes [OF assms(2), of "(4 * step + j) mod 256"] by simp
  moreover have "sqe_array (st 4) ! i = sqe_array r ! i" if "i \<notin> ?slot ` {0..<4}" for i
    using that unfolding set4 st_def four by simp
  moreover have "sq_tail (st 4) = sq_tail r + 4" "cq_head (st 4) = cq_head r" by (simp_all add: st_def)
  moreover have "buffers (st 4) = map (\<lambda>j. buffer_addr K (allocated r + j)) [0..<4]" by (simp add: st_def)
  ultimately show ?thesis using done4 ok distinct entries by blast
qed

text \<open>C35: The submission of a decode step is exact, also when the 32-bit tail wraps around: on a ring of at least four entries
  (a power of two, with its documented mask), the four reads go to four different slots, the ones after the tail;
  each slot is announced in the index array and describes the read of its predicted block, at the block's offset, into
  its own buffer, tagged with step and block; no other slot changes, and the tail advances by four.\<close>

theorem submission_exact:
  assumes "rings_ok K r" "step < 256"
  shows "\<exists>r'. submit_step K step r = Inr r' \<and> rings_ok K r' \<and> sq_tail r' = sq_tail r + 4 \<and> cq_head r' = cq_head r
    \<and> distinct (map (slot K (sq_tail r)) [0..<4]) \<and> buffers r' = map (\<lambda>j. buffer_addr K (allocated r + j)) [0..<4]
    \<and> (\<forall>j < 4. sq_array r' ! slot K (sq_tail r) j = of_nat (slot K (sq_tail r) j)
        \<and> describes K step ((4 * step + j) mod 256) (buffers r' ! j) (sqe_array r' ! slot K (sq_tail r) j))
    \<and> (\<forall>i. i \<notin> slot K (sq_tail r) ` {0..<4} \<longrightarrow> sqe_array r' ! i = sqe_array r ! i)"
  using submission_lands [OF assms] .

section \<open>Completion\<close>

text \<open>What the kernel documents for \<open>n\<close> reads: the tail only counts completions up, never past the reads, and each read
  completes at last; a system call that succeeds is not negative.\<close>

definition posts :: "kernel \<Rightarrow> 32 word \<Rightarrow> nat \<Rightarrow> (nat \<Rightarrow> nat) \<Rightarrow> bool" where
  "posts K h0 n posted \<longleftrightarrow> mono posted \<and> (\<forall>k. posted k \<le> n) \<and> (\<exists>k. posted k = n) \<and> n < 2 ^ 32
     \<and> (\<forall>k. cq_tail_at K k = h0 + of_nat (posted k)) \<and> ring_shape (cq_entries K) (cq_mask K)"

definition read_failed :: "kernel \<Rightarrow> string \<Rightarrow> bool" where
  "read_failed K message \<longleftrightarrow> (\<exists>k i. cqe_res_at K k i < 0 \<and> message = strerror K (- cqe_res_at K k i))"

text \<open>The ring looks empty only when it is, although both counters wrap around.\<close>

lemma empty_iff:
  assumes "posts K h0 n posted" "h \<le> n"
  shows "h0 + of_nat h = cq_tail_at K k \<longleftrightarrow> posted k = h"
proof -
  have lt: "h < 2 ^ 32" "posted k < 2 ^ 32" using assms unfolding posts_def by (meson le_less_trans)+
  have "h0 + of_nat h = cq_tail_at K k \<longleftrightarrow> (of_nat h :: 32 word) = of_nat (posted k)" using assms(1) by (simp add: posts_def)
  also have "\<dots> \<longleftrightarrow> h = posted k"
  proof
    assume "(of_nat h :: 32 word) = of_nat (posted k)"
    then have "unat (of_nat h :: 32 word) = unat (of_nat (posted k) :: 32 word)" by simp
    then show "h = posted k" using lt by (simp add: unat_of_nat)
  qed simp
  finally show ?thesis by auto
qed

text \<open>Polling reaches the next completion.\<close>

lemma poll_ends:
  assumes P: "posts K h0 n posted" and h: "h < n"
  shows "\<exists>k'. k \<le> k' \<and> h \<noteq> posted k'
    \<and> (completed < wanted \<longrightarrow> complete_loop K wanted completed k (h0 + of_nat h) = complete_loop K wanted completed k' (h0 + of_nat h))"
proof (cases "posted k = h")
  case False then show ?thesis by auto
next
  case True
  obtain m where m: "posted m = n" using P by (auto simp: posts_def)
  have "k \<le> m" using P m True h by (metis monoD nle_le not_less posts_def)
  then show ?thesis using True
  proof (induction "m - k" arbitrary: k)
    case 0
    then show ?case using m h by simp
  next
    case (Suc d)
    have step: "complete_loop K wanted completed k (h0 + of_nat h) = complete_loop K wanted completed (Suc k) (h0 + of_nat h)"
      if "completed < wanted"
      using that empty_iff [OF P, of h k] h Suc.prems by (subst complete_loop.simps) simp
    show ?case
    proof (cases "posted (Suc k) = h")
      case True
      have "Suc k \<le> m" "d = m - Suc k" using Suc.hyps(2) by simp_all
      with Suc.hyps(1) [of "Suc k"] True step show ?thesis by (metis Suc_leD)
    next
      case False
      with step show ?thesis by (intro exI [of _ "Suc k"]) auto
    qed
  qed
qed

lemma complete_loop_ends:
  assumes P: "posts K h0 n posted"
  shows "h + (wanted - completed) \<le> n \<Longrightarrow> h \<le> posted k \<Longrightarrow>
    (\<exists>k'. complete_loop K wanted completed k (h0 + of_nat h) = Some (Inr (k', h0 + of_nat (h + (wanted - completed))))
       \<and> h + (wanted - completed) \<le> posted k')
    \<or> (\<exists>message. complete_loop K wanted completed k (h0 + of_nat h) = Some (Inl (OSError message)) \<and> read_failed K message)"
proof (induction "wanted - completed" arbitrary: completed h k)
  case 0
  then show ?case by (subst (1 2) complete_loop.simps) auto
next
  case (Suc d)
  have lt: "completed < wanted" "h < n" using Suc by auto
  obtain k1 where k1: "k \<le> k1" "h \<noteq> posted k1"
    "complete_loop K wanted completed k (h0 + of_nat h) = complete_loop K wanted completed k1 (h0 + of_nat h)"
    using poll_ends [OF P lt(2), of k completed wanted] lt(1) by blast
  have "posted k \<le> posted k1" using P k1(1) by (auto simp: posts_def dest: monoD)
  then have more: "Suc h \<le> posted k1" using Suc.prems(2) k1(2) by simp
  have "posted k1 \<le> posted (Suc k1)" using P by (intro monoD [of posted]) (simp_all add: posts_def)
  then have next_h: "Suc h \<le> posted (Suc k1)" using more by simp
  define i where "i = unat ((h0 + of_nat h) AND cq_mask K)"
  have i: "i < cq_entries K" using P masked_index_less by (simp add: i_def posts_def)
  have full: "h0 + of_nat h \<noteq> cq_tail_at K k1" using empty_iff [OF P, of h k1] lt(2) k1(2) by auto
  have count: "h + (wanted - completed) = Suc h + (wanted - Suc completed)" using lt by simp
  show ?case
  proof (cases "cqe_res_at K k1 i < 0")
    case True
    have "complete_loop K wanted completed k1 (h0 + of_nat h) = Some (Inl (OSError (strerror K (- cqe_res_at K k1 i))))"
      using lt full i True by (subst complete_loop.simps) (simp add: Let_def i_def [symmetric])
    with k1(3) True show ?thesis by (auto simp: read_failed_def)
  next
    case False
    have "complete_loop K wanted completed k1 (h0 + of_nat h) = complete_loop K wanted (Suc completed) (Suc k1) (h0 + of_nat (Suc h))"
      using lt full i False by (subst complete_loop.simps) (simp add: Let_def i_def [symmetric] add.commute add.left_commute)
    moreover have "d = wanted - Suc completed" "Suc h + (wanted - Suc completed) \<le> n" using Suc.hyps(2) Suc.prems(1) count by simp_all
    ultimately show ?thesis using Suc.hyps(1) [of "Suc completed" "Suc h" "Suc k1"] next_h k1(3) count by simp
  qed
qed

section \<open>The run\<close>

text \<open>The state between two steps, after \<open>m\<close> of them.\<close>

definition after_steps :: "kernel \<Rightarrow> ring \<Rightarrow> (nat \<Rightarrow> nat) \<Rightarrow> nat \<Rightarrow> prefetch \<Rightarrow> bool" where
  "after_steps K r posted m p \<longleftrightarrow> rings_ok K (pf_ring p) \<and> sq_tail (pf_ring p) = sq_tail r + of_nat (4 * m)
     \<and> cq_head (pf_ring p) = cq_head r + of_nat (4 * m) \<and> length (pf_latencies p) = m \<and> 4 * m \<le> posted (pf_looks p)"

lemma rings_ok_head [simp]: "rings_ok K (r\<lparr>cq_head := h\<rparr>) = rings_ok K r"
  by (simp add: rings_ok_def)

lemma prefetch_step_ends:
  assumes "posts K (cq_head r) 1024 posted" "0 \<le> enter_value K m" "m < 256" "after_steps K r posted m p"
  shows "(\<exists>p'. prefetch_step K m p = Some (Inr p') \<and> after_steps K r posted (Suc m) p')
    \<or> (\<exists>message. prefetch_step K m p = Some (Inl (OSError message)) \<and> read_failed K message)"
proof -
  note p = assms(4) [unfolded after_steps_def]
  obtain r' where r': "submit_step K m (pf_ring p) = Inr r'" "rings_ok K r'" "sq_tail r' = sq_tail (pf_ring p) + 4"
    "cq_head r' = cq_head (pf_ring p)" using submission_lands [of K "pf_ring p" m] p assms(3) by blast
  have entered: "uring_syscall (enter_value K m) message = Inr (enter_value K m)" for message using assms(2) by (simp add: uring_syscall_def)
  have four: "length (predicted m) = 4" by (simp add: predicted_def blocks_per_step_def)
  have head: "cq_head r' = cq_head r + of_nat (4 * m)" using r'(4) p by simp
  have "4 * m + (4 - 0) \<le> 1024" "4 * m \<le> posted (pf_looks p)" using assms(3) p by simp_all
  from complete_loop_ends [OF assms(1) this] show ?thesis
  proof (elim disjE exE conjE)
    fix k' assume "complete_loop K 4 0 (pf_looks p) (cq_head r + of_nat (4 * m)) = Some (Inr (k', cq_head r + of_nat (4 * m + (4 - 0))))"
      "4 * m + (4 - 0) \<le> posted k'"
    then show ?thesis using r' head p
      by (simp add: prefetch_step_def entered four Let_def after_steps_def algebra_simps)
  next
    fix message assume "complete_loop K 4 0 (pf_looks p) (cq_head r + of_nat (4 * m)) = Some (Inl (OSError message))" "read_failed K message"
    then show ?thesis using r'(1) head by (simp add: prefetch_step_def entered four Let_def)
  qed
qed

lemma prefetch_steps_end:
  assumes "posts K (cq_head r) 1024 posted" "\<forall>step. 0 \<le> enter_value K step" "after_steps K r posted 0 p"
  shows "n \<le> 256 \<Longrightarrow> (\<exists>p'. fold_o (prefetch_step K) [0..<n] p = Some (Inr p') \<and> after_steps K r posted n p')
      \<or> (\<exists>message. fold_o (prefetch_step K) [0..<n] p = Some (Inl (OSError message)) \<and> read_failed K message)"
proof (induction n)
  case (Suc n)
  then consider p' where "fold_o (prefetch_step K) [0..<n] p = Some (Inr p')" "after_steps K r posted n p'"
    | message where "fold_o (prefetch_step K) [0..<n] p = Some (Inl (OSError message))" "read_failed K message" by fastforce
  then show ?case
  proof cases
    case 1
    have "n < 256" using Suc.prems by simp
    from prefetch_step_ends [OF assms(1) spec [OF assms(2)] this 1(2)] 1(1) show ?thesis
      by (elim disjE exE conjE) (simp_all add: fold_o_append)
  qed (simp add: fold_o_append)
qed (use assms(3) in simp)

lemma uring_index:
  "float_to_int (fmul (fdiv 50 100) (int_to_float 255)) = 127" "float_to_int (fmul (fdiv 95 100) (int_to_float 255)) = 242"
  "float_to_int (fmul (fdiv 99 100) (int_to_float 255)) = 252"
  by code_simp+

lemma uring_summary_total: "length ls = 256 \<Longrightarrow> \<exists>d. uring_summary ls = Inr d"
  by (auto simp: uring_summary_def uring_percentile_def Let_def uring_index py_nth_def)

text \<open>C36: The prefetch run ends, and only a failed read can make it raise: on rings as set up and with system calls that succeed,
  if the kernel posts a completion for each of the 1024 reads sooner or later, however long it takes and wherever the
  32-bit counters start, the program leaves its polling loops and writes its result file with one latency per decode step,
  having submitted and consumed 1024 entries; otherwise it raises OSError with the error of a read that the kernel failed.\<close>

theorem prefetch_ends:
  assumes "rings_ok K r" "posts K (cq_head r) 1024 posted" "0 \<le> setup_value K" "\<forall>step. 0 \<le> enter_value K step"
  shows "(\<exists>p text. prefetch_main K r = Some (Inr (p, text)) \<and> length (pf_latencies p) = 256
      \<and> sq_tail (pf_ring p) = sq_tail r + 1024 \<and> cq_head (pf_ring p) = cq_head r + 1024)
    \<or> (\<exists>message. prefetch_main K r = Some (Inl (OSError message)) \<and> read_failed K message)"
proof -
  have "after_steps K r posted 0 \<lparr>pf_ring = r, pf_looks = 0, pf_latencies = []\<rparr>" using assms(1) by (simp add: after_steps_def)
  from prefetch_steps_end [OF assms(2,4) this, of 256] uring_summary_total assms(3) show ?thesis
    by (fastforce simp: prefetch_main_def prefetch_run_def uring_decode_steps_def uring_syscall_def after_steps_def)
qed

section \<open>Samples\<close>

text \<open>Rings of 64 entries whose counters are about to wrap around; the kernel posts one completion per look.\<close>

definition sample_kernel :: kernel where
  "sample_kernel = \<lparr>sq_entries = 64, cq_entries = 128, sq_mask = 63, cq_mask = 127, sq_array_offset = 320, cqes_offset = 320,
     data_fd = 3, setup_value = 4, enter_value = (\<lambda>_. 4), error_text = (\<lambda>_. []), buffer_addr = (\<lambda>n. of_nat (4096 * n)),
     cq_tail_at = (\<lambda>k. 4294967294 + of_nat (min k 1024)), cqe_res_at = (\<lambda>_ _. 262144), strerror = (\<lambda>_. []),
     clock_ns = (\<lambda>k. 1000 * int k), jitter = (\<lambda>_. 0)\<rparr>"

definition empty_sqe :: sqe where
  "empty_sqe = \<lparr>sqe_opcode = 0, sqe_flags = 0, sqe_ioprio = 0, sqe_fd = 0, sqe_off = 0, sqe_addr = 0, sqe_len = 0,
     sqe_rw_flags = 0, sqe_user_data = 0\<rparr>"

definition sample_ring :: ring where
  "sample_ring = \<lparr>sq_tail = 4294967294, sq_array = replicate 64 0, sqe_array = replicate 64 empty_sqe, cq_head = 4294967294,
     buffers = [], allocated = 0\<rparr>"

lemma sample_shapes: "ring_shape 64 63" "ring_shape 128 127"
  unfolding ring_shape_def by (rule exI [of _ 6], simp) (rule exI [of _ 7], simp)

lemma sample_rings_ok: "rings_ok sample_kernel sample_ring"
  using sample_shapes(1) by (simp add: rings_ok_def sample_kernel_def sample_ring_def)

theorem submission_exact_witness:
  "\<exists>r'. submit_step sample_kernel 7 sample_ring = Inr r' \<and> sq_tail r' = 2
    \<and> describes sample_kernel 7 30 8192 (sqe_array r' ! 0)"
proof -
  have "slot sample_kernel (sq_tail sample_ring) 2 = 0" by (simp add: slot_def sample_kernel_def sample_ring_def)
  moreover have "sq_tail sample_ring + 4 = 2" "allocated sample_ring = 0" "buffer_addr sample_kernel 2 = 8192" "buffer_addr sample_kernel (Suc (Suc 0)) = 8192"
    by (simp_all add: sample_ring_def sample_kernel_def)
  ultimately show ?thesis
    using submission_exact [OF sample_rings_ok, of 7] by (auto dest!: spec [of _ "2 :: nat"])
qed

theorem prefetch_ends_witness:
  "\<exists>p text. prefetch_main sample_kernel sample_ring = Some (Inr (p, text)) \<and> length (pf_latencies p) = 256
    \<and> cq_head (pf_ring p) = 1022"
proof -
  have posts: "posts sample_kernel (cq_head sample_ring) 1024 (\<lambda>k. min k 1024)"
    using sample_shapes(2) by (auto simp: posts_def sample_kernel_def sample_ring_def mono_def intro!: exI [of _ "1024 :: nat"])
  have none: "\<not> read_failed sample_kernel message" for message by (simp add: read_failed_def sample_kernel_def)
  have "0 \<le> setup_value sample_kernel" "\<forall>step. 0 \<le> enter_value sample_kernel step" by (simp_all add: sample_kernel_def)
  from prefetch_ends [OF sample_rings_ok posts this] none show ?thesis by (auto simp: sample_ring_def)
qed

end
