(* ===== verification/Thp.thy ===== *)
theory Thp
  imports Report
begin

text \<open>
  \<open>kernel_vm/experiments/thp_kv/kv_thp_alloc.py\<close>: the measurement of the C program beside it is completed with the sum of
  the huge pages of \<open>/proc/self/smaps\<close> and a note. The text of \<open>smaps\<close> (or its absence) and the result of the C program
  are arguments; the lemmas say that the sum counts exactly the announced lines.
\<close>

text \<open>\<open>s.split()\<close>\<close>

function py_words :: "string \<Rightarrow> string list" where
  "py_words s =
     (let t = dropWhile is_space s
      in if t = [] then [] else takeWhile (\<lambda>c. \<not> is_space c) t # py_words (dropWhile (\<lambda>c. \<not> is_space c) t))"
  by pat_completeness auto
termination
proof (relation "measure length")
  fix s t :: string assume t: "t = dropWhile is_space s" "t \<noteq> []"
  then have "\<not> is_space (hd t)" by (metis hd_dropWhile)
  then have "length (dropWhile (\<lambda>c. \<not> is_space c) t) < length t" using t(2)
    by (cases t) (simp_all add: length_dropWhile_le le_imp_less_Suc)
  also have "\<dots> \<le> length s" by (simp add: t(1) length_dropWhile_le)
  finally show "(dropWhile (\<lambda>c. \<not> is_space c) t, s) \<in> measure length" by simp
qed simp

declare py_words.simps [simp del]

definition starts_with :: "string \<Rightarrow> string \<Rightarrow> bool" where
  "starts_with p s \<longleftrightarrow> take (length p) s = p"

definition huge_kb :: "conversions \<Rightarrow> string \<Rightarrow> int result" where
  "huge_kb c line = bind_r (py_nth (py_words line) 1) (int_of_text c)"

definition read_smaps_summary :: "conversions \<Rightarrow> string option \<Rightarrow> int result" where
  "read_smaps_summary c smaps =
     (case smaps of None \<Rightarrow> Inr 0
      | Some text \<Rightarrow> fold_r (\<lambda>line n. if starts_with ''AnonHugePages:'' line then bind_r (huge_kb c line) (\<lambda>kb. Inr (n + kb)) else Inr n)
          (py_splitlines text) 0)"

definition thp_note :: string where
  "thp_note = ''A 2MB THP-backed KV block reduces TLB pressure by about 512x versus 4KB pages. ''
     @ ''For a 128k-token context at 64KB/block, that can cut TLB entries from 2048 to 4 per request.''"

text \<open>The text printed; the file has it too, with a newline.\<close>

definition thp_main :: "conversions \<Rightarrow> string \<Rightarrow> string option \<Rightarrow> string result" where
  "thp_main c measured_text smaps =
     bind_r (json_loads measured_text) (\<lambda>data.
     bind_r (read_smaps_summary c smaps) (\<lambda>kb.
     case data of
       JDict d \<Rightarrow> Inr (json_pretty 0 (JDict (AList.update ''memory_intent_note'' (JStr thp_note)
         (AList.update ''smaps'' (JDict [(''AnonHugePages_kB'', JInt kb)]) d))))
     | _ \<Rightarrow> Inl (TypeError ''object does not support item assignment'')))"

lemma smaps_sum:
  assumes "\<forall>line \<in> set lines. starts_with ''AnonHugePages:'' line \<longrightarrow> huge_kb c line = Inr (kb line)"
  shows "fold_r (\<lambda>line n. if starts_with ''AnonHugePages:'' line then bind_r (huge_kb c line) (\<lambda>kb. Inr (n + kb)) else Inr n) lines n
    = Inr (n + sum_list (map kb (filter (starts_with ''AnonHugePages:'') lines)))"
  using assms by (induction lines arbitrary: n) auto

text \<open>The summary adds up every announced line once, and a line without a number makes it raise.\<close>

lemma smaps_summary_exact:
  assumes "\<forall>line \<in> set (py_splitlines text). starts_with ''AnonHugePages:'' line \<longrightarrow> huge_kb c line = Inr (kb line)"
  shows "read_smaps_summary c (Some text) = Inr (sum_list (map kb (filter (starts_with ''AnonHugePages:'') (py_splitlines text))))"
  using smaps_sum [OF assms, of 0] by (simp add: read_smaps_summary_def)

end
