(* ===== verification/CacheSpec.thy ===== *)
theory CacheSpec
  imports RunLaws
begin

text \<open>
  What the simulator promises, without how it does it: a cache of two tiers in which commands place,
  touch and remove entries and entries are demoted only to get back within the capacity. The
  specification says nothing about policies, scores, recency, logs and counters; it leaves open
  which entry is demoted, which of its tiers a dropped entry goes to and whether a prefetch is worth
  it. \<open>CacheRefinement\<close> shows that every event of the simulator is a step of this system.
\<close>

section \<open>The cache\<close>

record slot =
  slot_size :: int
  slot_pinned :: bool
  slot_tiers :: "tier set"

record cache =
  catalog :: "string \<Rightarrow> slot option"
  fast :: "string set"
  slow :: "string set"
  elapsed :: int

record command =
  cmd_type :: event_type
  cmd_key :: string
  cmd_slot :: slot
  cmd_home :: tier

definition empty_cache :: cache where
  "empty_cache = \<lparr>catalog = (\<lambda>k. None), fast = {}, slow = {}, elapsed = 0\<rparr>"

definition slot_bytes :: "cache \<Rightarrow> string \<Rightarrow> int" where
  "slot_bytes c k = (case catalog c k of None \<Rightarrow> 0 | Some d \<Rightarrow> slot_size d)"

definition fast_bytes :: "cache \<Rightarrow> int" where "fast_bytes c = (\<Sum>k \<in> fast c. slot_bytes c k)"
definition slow_bytes :: "cache \<Rightarrow> int" where "slow_bytes c = (\<Sum>k \<in> slow c. slot_bytes c k)"

definition all_pinned :: "cache \<Rightarrow> bool" where
  "all_pinned c \<longleftrightarrow> (\<forall>k \<in> fast c. \<forall>d. catalog c k = Some d \<longrightarrow> slot_pinned d)"

section \<open>Making room\<close>

text \<open>An entry may be demoted when the fast tier is over its capacity, and, where pins are respected, only if it
  is not pinned. It goes to the slow tier when it may live there and there is room for it.\<close>

definition may_leave :: "config \<Rightarrow> cache \<Rightarrow> string \<Rightarrow> slot \<Rightarrow> bool" where
  "may_leave cfg c k d \<longleftrightarrow> hbm_capacity_bytes cfg < fast_bytes c \<and> k \<in> fast c \<and> catalog c k = Some d
     \<and> (is_intent_family (cfg_policy cfg) \<longrightarrow> \<not> slot_pinned d)"

inductive demoted :: "config \<Rightarrow> cache \<Rightarrow> int \<Rightarrow> cache \<Rightarrow> bool" for cfg c where
  none: "demoted cfg c 0 c"
| spilled: "demoted cfg c n u \<Longrightarrow> may_leave cfg u k d \<Longrightarrow> DRAM \<in> slot_tiers d
    \<Longrightarrow> slow_bytes u + slot_size d \<le> dram_capacity_bytes cfg
    \<Longrightarrow> demoted cfg c (n + spill_latency_us cfg) (u\<lparr>fast := fast u - {k}, slow := insert k (slow u)\<rparr>)"
| dropped: "demoted cfg c n u \<Longrightarrow> may_leave cfg u k d
    \<Longrightarrow> slot_tiers d - {HBM} \<noteq> {DRAM} \<or> dram_capacity_bytes cfg < slow_bytes u + slot_size d
    \<Longrightarrow> demoted cfg c n (u\<lparr>fast := fast u - {k}, slow := slow u - {k}\<rparr>)"

text \<open>Demotion stops when the fast tier fits, or holds nothing that may be demoted.\<close>

definition at_rest :: "config \<Rightarrow> cache \<Rightarrow> bool" where
  "at_rest cfg c \<longleftrightarrow> fast_bytes c \<le> hbm_capacity_bytes cfg \<or> fast c = {}
     \<or> (is_intent_family (cfg_policy cfg) \<and> all_pinned c)"

definition makes_room :: "config \<Rightarrow> cache \<Rightarrow> int \<Rightarrow> cache \<Rightarrow> bool" where
  "makes_room cfg c n c' \<longleftrightarrow> demoted cfg c n c' \<and> at_rest cfg c'"

section \<open>Steps\<close>

definition enter :: "string \<Rightarrow> slot \<Rightarrow> cache \<Rightarrow> cache" where
  "enter k d c = c\<lparr>catalog := (catalog c)(k \<mapsto> d)\<rparr>"

definition lift_up :: "string \<Rightarrow> cache \<Rightarrow> cache" where
  "lift_up k c = c\<lparr>fast := insert k (fast c), slow := slow c - {k}\<rparr>"

definition leave :: "string \<Rightarrow> cache \<Rightarrow> cache" where
  "leave k c = c\<lparr>fast := fast c - {k}, slow := slow c - {k}\<rparr>"

definition spend :: "int \<Rightarrow> cache \<Rightarrow> cache" where
  "spend n c = c\<lparr>elapsed := elapsed c + n\<rparr>"

text \<open>The entry a touch leaves: a new one as announced, a known one with the pin of the announcement.\<close>

definition touched :: "slot \<Rightarrow> slot option \<Rightarrow> slot" where
  "touched d old = (case old of None \<Rightarrow> d | Some e \<Rightarrow> e\<lparr>slot_pinned := slot_pinned d\<rparr>)"

definition protected :: "slot \<Rightarrow> slot option \<Rightarrow> slot" where
  "protected d old = (case old of None \<Rightarrow> d | Some e \<Rightarrow> e)\<lparr>slot_pinned := True\<rparr>"

inductive cache_step :: "config \<Rightarrow> command \<Rightarrow> cache \<Rightarrow> cache \<Rightarrow> bool" for cfg q c where
  place_fast: "cmd_type q = ALLOCATED \<Longrightarrow> cmd_home q = HBM
    \<Longrightarrow> makes_room cfg ((enter (cmd_key q) (cmd_slot q) c)\<lparr>fast := insert (cmd_key q) (fast c)\<rparr>) n u
    \<Longrightarrow> cache_step cfg q c (spend (base_step_latency_us cfg + n) u)"
| place_slow: "cmd_type q = ALLOCATED \<Longrightarrow> cmd_home q = DRAM
    \<Longrightarrow> cache_step cfg q c (spend (base_step_latency_us cfg)
          ((enter (cmd_key q) (cmd_slot q) c)\<lparr>slow := insert (cmd_key q) (slow c)\<rparr>))"
| place_far: "cmd_type q = ALLOCATED \<Longrightarrow> cmd_home q \<notin> {HBM, DRAM}
    \<Longrightarrow> cache_step cfg q c (spend (base_step_latency_us cfg) (enter (cmd_key q) (cmd_slot q) c))"
| hit: "cmd_type q = ACCESSED \<Longrightarrow> cmd_key q \<in> fast c
    \<Longrightarrow> cache_step cfg q c (spend (base_step_latency_us cfg)
          (enter (cmd_key q) (touched (cmd_slot q) (catalog c (cmd_key q))) c))"
| miss: "cmd_type q = ACCESSED \<Longrightarrow> cmd_key q \<notin> fast c
    \<Longrightarrow> makes_room cfg (lift_up (cmd_key q) (enter (cmd_key q) (touched (cmd_slot q) (catalog c (cmd_key q))) c)) n u
    \<Longrightarrow> cache_step cfg q c (spend (base_step_latency_us cfg + miss_penalty_us cfg + n) u)"
| protect: "cmd_type q = MARKED_DECODE_CRITICAL
    \<Longrightarrow> cache_step cfg q c (spend (base_step_latency_us cfg)
          (enter (cmd_key q) (protected (cmd_slot q) (catalog c (cmd_key q))) c))"
| spill: "cmd_type q = SPILLED \<Longrightarrow> catalog c (cmd_key q) = Some d \<Longrightarrow> DRAM \<in> slot_tiers d
    \<Longrightarrow> cache_step cfg q c (spend (base_step_latency_us cfg + spill_latency_us cfg)
          (c\<lparr>fast := fast c - {cmd_key q}, slow := insert (cmd_key q) (slow c)\<rparr>))"
| prefetch: "cmd_type q = PREFETCHED \<Longrightarrow> catalog c (cmd_key q) = Some d \<Longrightarrow> cmd_key q \<notin> fast c
    \<Longrightarrow> makes_room cfg (lift_up (cmd_key q) (enter (cmd_key q) (cmd_slot q) c)) n u
    \<Longrightarrow> cache_step cfg q c (spend (base_step_latency_us cfg + prefetch_latency_us cfg + n) u)"
| prefetch_declined: "cmd_type q = PREFETCHED \<Longrightarrow> catalog c (cmd_key q) = Some d \<Longrightarrow> cmd_key q \<notin> fast c
    \<Longrightarrow> cache_step cfg q c (spend (base_step_latency_us cfg) (enter (cmd_key q) (cmd_slot q) c))"
| evict: "cmd_type q = EVICTED
    \<Longrightarrow> cache_step cfg q c (spend (base_step_latency_us cfg) (leave (cmd_key q) c))"
| free: "cmd_type q = FREED
    \<Longrightarrow> cache_step cfg q c (spend (base_step_latency_us cfg)
          ((leave (cmd_key q) c)\<lparr>catalog := (catalog c)(cmd_key q := None)\<rparr>))"
| idle: "cmd_type q \<in> {MARKED_COLD, COMMITTED, MISS}
      \<or> (cmd_type q = SPILLED \<and> (\<forall>d. catalog c (cmd_key q) = Some d \<longrightarrow> DRAM \<notin> slot_tiers d))
      \<or> (cmd_type q = PREFETCHED \<and> (catalog c (cmd_key q) = None \<or> cmd_key q \<in> fast c))
    \<Longrightarrow> cache_step cfg q c (spend (base_step_latency_us cfg) c)"

inductive_cases cache_stepE: "cache_step cfg q c c'"

inductive cache_run :: "config \<Rightarrow> command list \<Rightarrow> cache \<Rightarrow> cache \<Rightarrow> bool" for cfg where
  stop: "cache_run cfg [] c c"
| go: "cache_step cfg q c u \<Longrightarrow> cache_run cfg qs u c' \<Longrightarrow> cache_run cfg (q # qs) c c'"

inductive_simps cache_run_simps [simp]: "cache_run cfg [] c c'" "cache_run cfg (q # qs) c c'"

section \<open>What the specification guarantees\<close>

lemma demoted_keeps:
  "demoted cfg c n u \<Longrightarrow> catalog u = catalog c \<and> elapsed u = elapsed c \<and> fast u \<subseteq> fast c
     \<and> slow u \<subseteq> slow c \<union> fast c"
  by (induction rule: demoted.induct) (auto simp: may_leave_def)

lemma makes_room_keeps:
  "makes_room cfg c n u \<Longrightarrow> catalog u = catalog c \<and> elapsed u = elapsed c \<and> fast u \<subseteq> fast c
     \<and> slow u \<subseteq> slow c \<union> fast c"
  unfolding makes_room_def by (blast dest: demoted_keeps)

text \<open>The known keys after a command: an allocation, an access or a mark enters its key, a free forgets it.\<close>

definition keys_after :: "command \<Rightarrow> string set \<Rightarrow> string set" where
  "keys_after q ks =
     (if cmd_type q \<in> {ALLOCATED, ACCESSED, MARKED_DECODE_CRITICAL} then insert (cmd_key q) ks
      else if cmd_type q = FREED then ks - {cmd_key q} else ks)"

lemma cache_step_keys: "cache_step cfg q c u \<Longrightarrow> dom (catalog u) = keys_after q (dom (catalog c))"
  by (erule cache_stepE)
    (auto simp: keys_after_def spend_def enter_def lift_up_def leave_def dest!: makes_room_keeps split: if_splits)

lemma cache_run_keys: "cache_run cfg qs c u \<Longrightarrow> dom (catalog u) = fold keys_after qs (dom (catalog c))"
proof (induction qs arbitrary: c)
  case (Cons q qs)
  then obtain c1 where "cache_step cfg q c c1" "cache_run cfg qs c1 u" by auto
  with Cons.IH [of c1] cache_step_keys [of cfg q c c1] show ?case by simp
qed simp

end
