(* ===== verification/CacheRefinement.thy ===== *)
theory CacheRefinement
  imports CacheSpec
begin

text \<open>
  The simulator implements the cache of \<open>CacheSpec\<close>. \<open>cache_of\<close> forgets everything but the sizes, pins and
  tiers of the live blocks, the two resident sets and the summed latency; under the invariant
  \<open>refining\<close> every event handler is then one step of the specification, and a run is a run of it.
\<close>

section \<open>The abstraction\<close>

definition slot_of :: "mintent \<Rightarrow> slot" where
  "slot_of b = \<lparr>slot_size = size_bytes b, slot_pinned = pin_requested b, slot_tiers = allowed_tiers b\<rparr>"

definition cache_of :: "sim \<Rightarrow> cache" where
  "cache_of s = \<lparr>catalog = (\<lambda>k. map_option slot_of (dict_get (live_blocks s) k)), fast = hbm_blocks s,
     slow = dram_blocks s, elapsed = sum_list (latencies s)\<rparr>"

definition command_of :: "mevent \<Rightarrow> command" where
  "command_of ev = (let i = auto_pin (ev_intent ev) in
     \<lparr>cmd_type = ev_type ev, cmd_key = object_id i, cmd_slot = slot_of i, cmd_home = current_tier i\<rparr>)"

text \<open>Every live block that is decode-critical is pinned, so that copying it does not change its pin.\<close>

definition pins_settled :: "sim \<Rightarrow> bool" where
  "pins_settled s \<longleftrightarrow> (\<forall>k b. dict_get (live_blocks s) k = Some b \<longrightarrow> priority b = DECODE_CRITICAL \<longrightarrow> pin_requested b)"

definition refining :: "sim \<Rightarrow> bool" where
  "refining s \<longleftrightarrow> sim_wf s \<and> pins_settled s"

lemma cache_of_fields [simp]:
  "catalog (cache_of s) k = map_option slot_of (dict_get (live_blocks s) k)"
  "fast (cache_of s) = hbm_blocks s" "slow (cache_of s) = dram_blocks s"
  "elapsed (cache_of s) = sum_list (latencies s)"
  by (simp_all add: cache_of_def)

lemma slot_of_fields [simp]:
  "slot_size (slot_of b) = size_bytes b" "slot_pinned (slot_of b) = pin_requested b"
  "slot_tiers (slot_of b) = allowed_tiers b" "slot_of (b\<lparr>current_tier := t\<rparr>) = slot_of b"
  by (simp_all add: slot_of_def)

lemma command_of_fields [simp]:
  "cmd_type (command_of ev) = ev_type ev" "cmd_key (command_of ev) = object_id (ev_intent ev)"
  "cmd_slot (command_of ev) = slot_of (auto_pin (ev_intent ev))" "cmd_home (command_of ev) = current_tier (ev_intent ev)"
  by (simp_all add: command_of_def Let_def)

lemma cache_eqI:
  assumes "\<And>k. catalog c k = catalog c' k" "fast c = fast c'" "slow c = slow c'" "elapsed c = elapsed (c' :: cache)"
  shows "c = c'"
  using assms by (intro cache.equality) auto

lemma slot_bytes_of [simp]: "slot_bytes (cache_of s) k = block_size (live_blocks s) k"
  by (simp add: slot_bytes_def block_size_def split: option.splits)

lemma tier_bytes_of [simp]: "fast_bytes (cache_of s) = hbm_used s" "slow_bytes (cache_of s) = dram_used s"
  by (simp_all add: fast_bytes_def slow_bytes_def hbm_used_def dram_used_def used_bytes_def)

section \<open>The eviction loop makes room\<close>

lemma pins_settled_tier:
  "pins_settled s \<Longrightarrow> dict_get (live_blocks s) k = Some b
   \<Longrightarrow> live_blocks t = AList.update k (b\<lparr>current_tier := x\<rparr>) (live_blocks s) \<Longrightarrow> pins_settled t"
  by (auto simp: pins_settled_def dict_simps split: if_splits)

lemma evict_victim_moves:
  "if target_tier ord u v = Some DRAM \<and> dram_used u + size_bytes v \<le> dram_capacity_bytes cfg
   then dram_blocks (fst (evict_victim ord cfg step cands v u)) = insert (object_id v) (dram_blocks u)
     \<and> snd (evict_victim ord cfg step cands v u) = spill_latency_us cfg
   else dram_blocks (fst (evict_victim ord cfg step cands v u)) = dram_blocks u - {object_id v}
     \<and> snd (evict_victim ord cfg step cands v u) = 0"
  by (simp add: evict_victim_def Let_def log_decision_def dram_used_def)

lemma evicted_cache:
  assumes "dict_get (live_blocks u) (object_id v) = Some v"
    and "dram_blocks (fst (evict_victim ord cfg step cands v u)) = D"
  shows "cache_of (fst (evict_victim ord cfg step cands v u))
    = (cache_of u)\<lparr>fast := fast (cache_of u) - {object_id v}, slow := D\<rparr>"
  by (rule cache_eqI) (simp_all add: assms dict_simps)

lemma eviction_demotes:
  assumes ord: "valid_order ord" and wf: "sim_wf u" and over: "hbm_capacity_bytes cfg < hbm_used u"
    and go: "\<not> all_pinned_exhausted cfg (candidates ord u)"
    and v: "choose_victim (cfg_policy cfg) (candidates ord u) (hbm_capacity_bytes cfg) step = Some v"
    and dem: "demoted cfg c n (cache_of u)"
  shows "demoted cfg c (n + snd (evict_victim ord cfg step (candidates ord u) v u))
    (cache_of (fst (evict_victim ord cfg step (candidates ord u) v u)))"
proof -
  let ?k = "object_id v"
  note moves = evict_victim_moves [of ord u v cfg step "candidates ord u"]
  have mem: "v \<in> set (candidates ord u)" by (rule policy.select_member [OF v])
  note res = candidate_resident [OF ord wf mem]
  have unpinned: "\<not> pin_requested v" if fam: "is_intent_family (cfg_policy cfg)"
  proof
    assume "pin_requested v"
    moreover obtain p where p: "cfg_policy cfg = IntentFamily p" using is_intent_family.elims(2) [OF fam] .
    ultimately have "\<forall>b \<in> set (candidates ord u). pin_requested b"
      using intent.pinned_last [of "\<lambda>x. eviction_score p x step" "candidates ord u" v] v by auto
    with go fam mem show False by (auto simp: all_pinned_exhausted_def list_all_iff)
  qed
  have leave: "may_leave cfg (cache_of u) ?k (slot_of v)"
    using over res unpinned by (simp add: may_leave_def)
  have tiers: "set (order_tiers ord u v) = allowed_tiers v" using ord by (simp add: valid_order_def)
  show ?thesis
  proof (cases "target_tier ord u v = Some DRAM \<and> dram_used u + size_bytes v \<le> dram_capacity_bytes cfg")
    case True
    then have "DRAM \<in> allowed_tiers v"
      using tiers by (auto simp: target_tier_def filter_eq_Cons_iff split: list.splits)
    then have "demoted cfg c (n + spill_latency_us cfg)
        ((cache_of u)\<lparr>fast := fast (cache_of u) - {?k}, slow := insert ?k (slow (cache_of u))\<rparr>)"
      by (intro demoted.spilled [OF dem leave]) (use True in auto)
    moreover have "cache_of (fst (evict_victim ord cfg step (candidates ord u) v u))
        = (cache_of u)\<lparr>fast := fast (cache_of u) - {?k}, slow := insert ?k (slow (cache_of u))\<rparr>"
      by (rule evicted_cache [OF res(2)]) (use moves True in simp)
    ultimately show ?thesis using moves True by simp
  next
    case False
    have "slot_tiers (slot_of v) - {HBM} \<noteq> {DRAM} \<or> dram_capacity_bytes cfg < slow_bytes (cache_of u) + slot_size (slot_of v)"
    proof (rule ccontr)
      assume *: "\<not> ?thesis"
      have "set (filter (\<lambda>t. t \<noteq> HBM) (order_tiers ord u v)) = set (order_tiers ord u v) - {HBM}" by auto
      also have "\<dots> = {DRAM}" using * tiers by simp
      finally have "target_tier ord u v = Some DRAM"
        unfolding target_tier_def by (cases "filter (\<lambda>t. t \<noteq> HBM) (order_tiers ord u v)") auto
      with False * show False by simp
    qed
    then have "demoted cfg c n ((cache_of u)\<lparr>fast := fast (cache_of u) - {?k}, slow := slow (cache_of u) - {?k}\<rparr>)"
      by (rule demoted.dropped [OF dem leave])
    moreover have "cache_of (fst (evict_victim ord cfg step (candidates ord u) v u))
        = (cache_of u)\<lparr>fast := fast (cache_of u) - {?k}, slow := slow (cache_of u) - {?k}\<rparr>"
      by (rule evicted_cache [OF res(2)]) (unfold if_not_P [OF False] cache_of_fields, use moves False in simp)
    ultimately show ?thesis using moves False by simp
  qed
qed

lemma exit_at_rest:
  assumes ord: "valid_order ord" and wf: "sim_wf u" and exit: "loop_exit ord cfg step u t"
  shows "at_rest cfg (cache_of u)"
proof -
  have "all_pinned (cache_of u)" if "all_pinned_exhausted cfg (candidates ord u)"
  proof -
    have "pin_requested b" if "k \<in> hbm_blocks u" "dict_get (live_blocks u) k = Some b" for k b
      using that \<open>all_pinned_exhausted _ _\<close> set_candidates [OF ord wf] by (auto simp: all_pinned_exhausted_def list_all_iff)
    then show ?thesis by (auto simp: all_pinned_def)
  qed
  then show ?thesis using exit by (auto simp: loop_exit_def at_rest_def all_pinned_exhausted_def)
qed

text \<open>What a state after the loop, or after a handler that runs it, has to do with the state before.\<close>

definition roomy :: "config \<Rightarrow> sim \<Rightarrow> sim \<Rightarrow> int \<Rightarrow> bool" where
  "roomy cfg s t l \<longleftrightarrow> refining t \<and> latencies t = latencies s \<and> makes_room cfg (cache_of s) l (cache_of t)"

lemma cache_of_cong:
  "live_blocks t = live_blocks s \<Longrightarrow> hbm_blocks t = hbm_blocks s \<Longrightarrow> dram_blocks t = dram_blocks s
   \<Longrightarrow> latencies t = latencies s \<Longrightarrow> cache_of t = cache_of s"
  by (simp add: cache_of_def)

lemma refining_cong:
  "live_blocks t = live_blocks s \<Longrightarrow> hbm_blocks t = hbm_blocks s \<Longrightarrow> dram_blocks t = dram_blocks s
   \<Longrightarrow> refining t = refining s"
  by (simp add: refining_def sim_wf_def pins_settled_def)

lemma record_usage_same [simp]: "cache_of (record_usage t) = cache_of t" "refining (record_usage t) = refining t"
  by (simp_all add: cache_of_cong [of "record_usage t" t] refining_cong [of "record_usage t" t])

lemma log_same [simp]:
  "cache_of (log_decision cfg st a v r d t) = cache_of t" "refining (log_decision cfg st a v r d t) = refining t"
  by (simp_all add: log_decision_def cache_of_def refining_def sim_wf_def pins_settled_def)

lemma roomy_record_usage [simp]: "roomy cfg s (record_usage t) l = roomy cfg s t l"
  by (simp add: roomy_def)

lemma ensure_roomy:
  assumes ord: "valid_order ord" and s: "refining s"
  shows "\<exists>t l. ensure_hbm_capacity ord cfg step s = Some (t, l) \<and> roomy cfg s t l"
proof (rule ensure_rule [where I = "\<lambda>u l. pins_settled u \<and> latencies u = latencies s
      \<and> demoted cfg (cache_of s) l (cache_of u)" and Q = "roomy cfg s", OF ord])
  show "sim_wf s" "pins_settled s \<and> latencies s = latencies s \<and> demoted cfg (cache_of s) 0 (cache_of s)"
    using s by (auto simp: refining_def intro: demoted.none)
next
  fix u l v
  assume u: "sim_wf u" "pins_settled u \<and> latencies u = latencies s \<and> demoted cfg (cache_of s) l (cache_of u)"
    and over: "hbm_capacity_bytes cfg < hbm_used u" "\<not> all_pinned_exhausted cfg (candidates ord u)"
    and v: "v \<in> set (candidates ord u)"
      "choose_victim (cfg_policy cfg) (candidates ord u) (hbm_capacity_bytes cfg) step = Some v"
  have "pins_settled (fst (evict_victim ord cfg step (candidates ord u) v u))"
    by (rule pins_settled_tier [of u "object_id v" v]) (use u candidate_resident [OF ord u(1) v(1)] in auto)
  with eviction_demotes [OF ord u(1) over v(2)] u(2)
  show "pins_settled (fst (evict_victim ord cfg step (candidates ord u) v u))
      \<and> latencies (fst (evict_victim ord cfg step (candidates ord u) v u)) = latencies s
      \<and> demoted cfg (cache_of s) (l + snd (evict_victim ord cfg step (candidates ord u) v u))
          (cache_of (fst (evict_victim ord cfg step (candidates ord u) v u)))" by simp
next
  fix u l t
  assume u: "sim_wf u" "pins_settled u \<and> latencies u = latencies s \<and> demoted cfg (cache_of s) l (cache_of u)"
    and e: "loop_exit ord cfg step u t"
  note F = loop_exit_frame [OF e]
  have "cache_of t = cache_of u" by (rule cache_of_cong) (simp_all add: F)
  moreover have "refining t" using u refining_cong [of t u] F by (simp add: refining_def)
  ultimately show "roomy cfg s (record_usage t) l"
    using u(2) F(4) exit_at_rest [OF ord u(1) e] by (simp add: roomy_def makes_room_def)
qed

lemma move_roomy:
  assumes "valid_order ord" "refining s" "valid_intent b"
  shows "\<exists>t l. move_to_hbm ord cfg b step s = Some (t, l) \<and> roomy cfg (placed_in_hbm b s) t l"
proof -
  have "refining (placed_in_hbm b s)"
    using assms(2,3) placed_in_hbm_wf [of s b]
    by (auto simp: refining_def pins_settled_def placed_in_hbm_def valid_intent_def dict_simps)
  from ensure_roomy [OF assms(1) this, of cfg step] show ?thesis
    by (auto simp: move_to_hbm_def placed_in_hbm_def Let_def)
qed

section \<open>The handlers are steps\<close>

definition implements :: "config \<Rightarrow> command \<Rightarrow> sim \<Rightarrow> sim \<times> int \<Rightarrow> bool" where
  "implements cfg q s r \<longleftrightarrow> (case r of (t, lat) \<Rightarrow>
     refining t \<and> latencies t = latencies s \<and> cache_step cfg q (cache_of s) (spend lat (cache_of t)))"

lemma implementsI:
  assumes "refining t" "latencies t = latencies s" "cache_of t = c" "cache_step cfg q (cache_of s) (spend lat c)"
  shows "implements cfg q s (t, lat)"
  using assms by (simp add: implements_def)

lemma refining_update:
  assumes "refining s" "object_id b = k" "valid_intent b" "live_blocks t = AList.update k b (live_blocks s)"
    and "hbm_blocks t \<subseteq> insert k (hbm_blocks s)" "dram_blocks t \<subseteq> insert k (dram_blocks s)"
  shows "refining t"
  using assms sim_wf_put [OF _ assms(2,4-6)]
  by (auto simp: refining_def pins_settled_def valid_intent_def dict_simps split: if_splits)

lemma refiningD: "refining s \<Longrightarrow> sim_wf s" "refining s \<Longrightarrow> dict_get (live_blocks s) k = Some b \<Longrightarrow> object_id b = k"
  "refining s \<Longrightarrow> dict_get (live_blocks s) k = Some b \<Longrightarrow> priority b = DECODE_CRITICAL \<Longrightarrow> pin_requested b"
  "refining s \<Longrightarrow> k \<in> hbm_blocks s \<Longrightarrow> \<exists>b. dict_get (live_blocks s) k = Some b"
  using keyedD sim_wfD(2) [of s] dict_key_Some [of k "live_blocks s"] subsetD [OF sim_wfD(5), of s k]
  by (auto simp: refining_def pins_settled_def)

text \<open>How the entering of a block looks in the cache.\<close>

lemma cache_of_enter:
  assumes "live_blocks t = AList.update k b (live_blocks s)" "hbm_blocks t = hbm_blocks s" "dram_blocks t = dram_blocks s"
    "latencies t = latencies s"
  shows "cache_of t = enter k (slot_of b) (cache_of s)"
  using assms by (intro cache_eqI) (auto simp: enter_def dict_simps)

lemma put_block_cache [simp]: "cache_of (put_block b s) = enter (object_id b) (slot_of b) (cache_of s)"
  by (rule cache_of_enter) simp_all

lemma put_block_refining: "refining s \<Longrightarrow> valid_intent b \<Longrightarrow> refining (put_block b s)"
  by (rule refining_update) auto

lemma placed_cache: "cache_of (placed_in_hbm b s) = lift_up (object_id b) (enter (object_id b) (slot_of b) (cache_of s))"
  by (rule cache_eqI) (auto simp: placed_in_hbm_def lift_up_def enter_def dict_simps)

lemma roomyD: "roomy cfg s t l \<Longrightarrow> refining t" "roomy cfg s t l \<Longrightarrow> latencies t = latencies s"
  "roomy cfg s t l \<Longrightarrow> makes_room cfg (cache_of s) l (cache_of t)"
  by (simp_all add: roomy_def)

lemma safely_roomy:
  assumes "valid_order ord" "refining s" "\<And>t l. roomy cfg s t l \<Longrightarrow> P (F t l)"
  shows "safely (map_option (\<lambda>(t, l). Inr (F t l)) (ensure_hbm_capacity ord cfg step s)) P"
  using ensure_roomy [OF assms(1,2), of cfg step] assms(3) by auto

lemma safely_move_roomy:
  assumes "valid_order ord" "refining s" "valid_intent b" "\<And>t l. roomy cfg (placed_in_hbm b s) t l \<Longrightarrow> P (F t l)"
  shows "safely (map_option (\<lambda>(t, l). Inr (F t l)) (move_to_hbm ord cfg b step s)) P"
  using move_roomy [OF assms(1-3), of cfg step] assms(4) by auto

lemma allocated_implements:
  assumes ord: "valid_order ord" and s: "refining s" and i: "valid_intent i"
    and q: "cmd_type q = ALLOCATED" "cmd_key q = object_id i" "cmd_slot q = slot_of i" "cmd_home q = current_tier i"
  shows "safely (on_allocated ord cfg step i s) (implements cfg q s)"
proof -
  define s2 where "s2 = (put_block i s)\<lparr>peak_hbm_demand_bytes := max (peak_hbm_demand_bytes (put_block i s))
      (hbm_used (put_block i s) + (if current_tier i = HBM then size_bytes i else 0))\<rparr>"
  have c2: "cache_of s2 = enter (cmd_key q) (cmd_slot q) (cache_of s)" and r2: "refining s2"
    and l2: "latencies s2 = latencies s"
    using q(2,3) put_block_cache [of i s] put_block_refining [OF s i] cache_of_cong [of s2 "put_block i s"]
      refining_cong [of s2 "put_block i s"] by (simp_all add: s2_def)
  have live: "live_blocks s2 = AList.update (object_id i) i (live_blocks s)" by (simp add: s2_def)
  let ?h = "s2\<lparr>hbm_blocks := insert (object_id i) (hbm_blocks s2)\<rparr>"
  let ?d = "s2\<lparr>dram_blocks := insert (object_id i) (dram_blocks s2)\<rparr>"
  have r: "refining ?h" "refining ?d" using i live by (auto intro!: refining_update [OF s refl] simp: s2_def)
  have h: "cache_of ?h = (enter (cmd_key q) (cmd_slot q) (cache_of s))\<lparr>fast := insert (cmd_key q) (fast (cache_of s))\<rparr>"
    and d: "cache_of ?d = (enter (cmd_key q) (cmd_slot q) (cache_of s))\<lparr>slow := insert (cmd_key q) (slow (cache_of s))\<rparr>"
    using c2 q(2) by (auto simp: cache_of_def enter_def s2_def)
  have fast: "safely (map_option (\<lambda>(t, l). Inr (record_usage t, base_step_latency_us cfg + l))
      (ensure_hbm_capacity ord cfg step ?h)) (implements cfg q s)" if "current_tier i = HBM"
  proof (rule safely_roomy [OF ord r(1)])
    fix t l assume t: "roomy cfg ?h t l"
    have "cache_step cfg q (cache_of s) (spend (base_step_latency_us cfg + l) (cache_of t))"
      by (rule cache_step.place_fast) (use q that roomyD(3) [OF t] in \<open>simp_all add: h\<close>)
    with roomyD [OF t] l2 show "implements cfg q s (record_usage t, base_step_latency_us cfg + l)"
      by (simp add: implements_def)
  qed
  moreover have "implements cfg q s (record_usage ?d, base_step_latency_us cfg)" if "current_tier i = DRAM"
    by (rule implementsI [OF _ _ _ cache_step.place_slow]) (use q that r(2) l2 d in simp_all)
  moreover have "implements cfg q s (record_usage s2, base_step_latency_us cfg)" if "current_tier i \<notin> {HBM, DRAM}"
    by (rule implementsI [OF _ _ _ cache_step.place_far]) (use q that r2 l2 c2 in simp_all)
  ultimately show ?thesis by (auto simp: on_allocated_def Let_def s2_def)
qed

text \<open>The slot of a copied block.\<close>

lemma slot_of_copy:
  assumes "copy_with f b = Inr c"
  shows "slot_of c = \<lparr>slot_size = size_bytes (f b), slot_pinned = pin_requested (f b) \<or> priority (f b) = DECODE_CRITICAL,
    slot_tiers = allowed_tiers (f b)\<rparr>"
  using assms by (auto simp: copy_with_Inr_iff slot_of_def pin_requested_auto_pin)

lemma incoming_slot:
  assumes "incoming_intent ev existing = Inr i"
  shows "existing = None \<Longrightarrow> i = auto_pin (ev_intent ev)"
    and "ev_type ev \<in> {ALLOCATED, PREFETCHED} \<Longrightarrow> slot_of i = slot_of (auto_pin (ev_intent ev))
      \<and> current_tier i = current_tier (ev_intent ev)"
    and "ev_type ev = ACCESSED \<Longrightarrow> pin_requested i = pin_requested (auto_pin (ev_intent ev))"
  using assms
  by (auto simp: incoming_intent_def bind_r_Inr_iff merge_intent_def copy_with_Inr_iff slot_of_def
      pin_requested_auto_pin split: option.splits)

lemma enter_enter [simp]: "enter k d (enter k e c) = enter k d c"
  by (simp add: enter_def)

lemma lift_up_again: "lift_up k (enter k d c) = lift_up k (enter k d (enter k e c))"
  by simp

lemma serve_access_implements:
  assumes ord: "valid_order ord" and s: "refining s" and b: "valid_intent b" "object_id b = cmd_key q"
    and c: "cache_of s = enter (cmd_key q) (touched (cmd_slot q) (catalog c (cmd_key q))) c" "cache_of s0 = c"
      "slot_of b = touched (cmd_slot q) (catalog c (cmd_key q))" "latencies s = latencies s0"
    and q: "cmd_type q = ACCESSED"
  shows "safely (serve_access ord cfg step b s) (implements cfg q s0)"
proof (cases "cmd_key q \<in> fast c")
  case True
  then have "cmd_key q \<in> hbm_blocks s" using arg_cong [OF c(1), of fast] by (simp add: enter_def)
  moreover have "implements cfg q s0 (record_usage s, base_step_latency_us cfg)"
    by (rule implementsI [OF _ _ _ cache_step.hit]) (use s c q True in \<open>auto simp: c(1)\<close>)
  ultimately show ?thesis using b(2) by (simp add: serve_access_def)
next
  case False
  then have "cmd_key q \<notin> hbm_blocks s" using arg_cong [OF c(1), of fast] by (simp add: enter_def)
  define m where "m = s\<lparr>miss_count := miss_count s + 1,
      decode_critical_misses := decode_critical_misses s + (if is_decode_critical b then 1 else 0)\<rparr>"
  have m: "refining m" "cache_of m = cache_of s" "latencies m = latencies s0"
    using s refining_cong [of m s] cache_of_cong [of m s] c(4) by (simp_all add: m_def)
  have "safely (map_option (\<lambda>(t, l). Inr (t, base_step_latency_us cfg + miss_penalty_us cfg + l))
      (move_to_hbm ord cfg b step m)) (implements cfg q s0)"
  proof (rule safely_move_roomy [OF ord m(1) b(1)])
    fix t l assume t: "roomy cfg (placed_in_hbm b m) t l"
    have "cache_of (placed_in_hbm b m)
        = lift_up (cmd_key q) (enter (cmd_key q) (touched (cmd_slot q) (catalog c (cmd_key q))) c)"
      by (simp add: placed_cache b(2) c(3) m(2) c(1))
    with roomyD(3) [OF t] have "cache_step cfg q c (spend (base_step_latency_us cfg + miss_penalty_us cfg + l) (cache_of t))"
      by (intro cache_step.miss [OF q False]) simp
    then show "implements cfg q s0 (t, base_step_latency_us cfg + miss_penalty_us cfg + l)"
      using roomyD(1,2) [OF t] c(2) m(3) by (simp add: implements_def)
  qed
  then show ?thesis using b(2) \<open>cmd_key q \<notin> hbm_blocks s\<close> by (simp add: serve_access_def m_def)
qed

lemma accessed_implements:
  assumes ord: "valid_order ord" and s: "refining s" and ev: "ev_type ev = ACCESSED"
    and i: "incoming_intent ev (dict_get (live_blocks s) (object_id (ev_intent ev))) = Inr i"
    and id: "object_id i = object_id (ev_intent ev)"
  shows "safely (on_accessed ord cfg step i s) (implements cfg (command_of ev) s)"
proof -
  let ?k = "object_id i"
  define s1 where "s1 = (if ?k \<notin> dict_keys (live_blocks s) then put_block i s else s)"
  have vi: "valid_intent i" by (rule incoming_intent_valid [OF i])
  have s1: "refining s1" "latencies s1 = latencies s" using put_block_refining [OF s vi] s by (simp_all add: s1_def)
  show ?thesis
  proof (cases "dict_get (live_blocks s1) ?k")
    case None
    then show ?thesis by (simp add: on_accessed_def Let_def s1_def [symmetric])
  next
    case (Some b)
    have "safely (serve_access ord cfg step c (s1\<lparr>live_blocks := AList.update ?k c (live_blocks s1)\<rparr>))
        (implements cfg (command_of ev) s)" if c: "copy_with (access_update step i) b = Inr c" for c
    proof (rule serve_access_implements [OF ord])
      have idc: "object_id c = ?k" using copy_with_object_id [OF c] refiningD(2) [OF s1(1) Some] by (simp add: access_update_def)
      have vc: "valid_intent c" by (rule copy_with_valid [OF c])
      have pin: "pin_requested i \<or> priority i = DECODE_CRITICAL \<longleftrightarrow> pin_requested (auto_pin (ev_intent ev))"
        using vi incoming_slot(3) [OF i ev] by (auto simp: valid_intent_def)
      have "slot_of c = (slot_of b)\<lparr>slot_pinned := pin_requested (auto_pin (ev_intent ev))\<rparr>"
        using slot_of_copy [OF c] pin by (simp add: slot_of_def access_update_def)
      moreover have "b = i \<and> i = auto_pin (ev_intent ev) \<and> dict_get (live_blocks s) ?k = None \<or> dict_get (live_blocks s) ?k = Some b"
        using Some incoming_slot(1) [OF i] id dict_get_None_iff [of "live_blocks s" ?k]
        by (auto simp: s1_def dict_simps split: if_splits)
      ultimately show slot: "slot_of c = touched (cmd_slot (command_of ev)) (catalog (cache_of s) (cmd_key (command_of ev)))"
        using id by (auto simp: touched_def slot_of_def)
      have "cache_of s1 = cache_of s \<or> cache_of s1 = enter ?k (slot_of i) (cache_of s)" by (simp add: s1_def)
      moreover have "cache_of (s1\<lparr>live_blocks := AList.update ?k c (live_blocks s1)\<rparr>) = enter ?k (slot_of c) (cache_of s1)"
        by (rule cache_of_enter) simp_all
      ultimately show "cache_of (s1\<lparr>live_blocks := AList.update ?k c (live_blocks s1)\<rparr>)
          = enter (cmd_key (command_of ev)) (touched (cmd_slot (command_of ev))
              (catalog (cache_of s) (cmd_key (command_of ev)))) (cache_of s)"
        using slot id by auto
      show "refining (s1\<lparr>live_blocks := AList.update ?k c (live_blocks s1)\<rparr>)"
        by (rule refining_update [OF s1(1) idc vc]) auto
    qed (use copy_with_valid [OF c] copy_with_object_id [OF c] refiningD(2) [OF s1(1) Some] ev id s1(2)
        in \<open>simp_all add: access_update_def\<close>)
    then show ?thesis by (simp add: on_accessed_def Let_def s1_def [symmetric] Some)
  qed
qed

text \<open>The handlers that move no data into the fast tier.\<close>

lemma idle_implements:
  assumes "refining s" "cmd_type q \<in> {MARKED_COLD, COMMITTED, MISS}
      \<or> (cmd_type q = SPILLED \<and> (\<forall>d. catalog (cache_of s) (cmd_key q) = Some d \<longrightarrow> DRAM \<notin> slot_tiers d))
      \<or> (cmd_type q = PREFETCHED \<and> (catalog (cache_of s) (cmd_key q) = None \<or> cmd_key q \<in> fast (cache_of s)))"
  shows "implements cfg q s (s, base_step_latency_us cfg)"
  by (rule implementsI [OF assms(1) refl refl cache_step.idle [OF assms(2)]])

lemma replaced_implements:
  assumes s: "refining s" and q: "cmd_type q \<in> {MARKED_COLD, COMMITTED}" and e: "dict_get (live_blocks s) k = Some e"
    and f: "object_id (f e) = object_id e" "size_bytes (f e) = size_bytes e" "allowed_tiers (f e) = allowed_tiers e"
      "pin_requested (f e) \<or> priority (f e) = DECODE_CRITICAL \<longleftrightarrow> pin_requested e"
  shows "safely (bind_o (Some (copy_with f e)) (\<lambda>b.
      Some (Inr (s\<lparr>live_blocks := AList.update k b (live_blocks s)\<rparr>, base_step_latency_us cfg)))) (implements cfg q s)"
proof -
  have "implements cfg q s (s\<lparr>live_blocks := AList.update k b (live_blocks s)\<rparr>, base_step_latency_us cfg)"
    (is "implements cfg q s (?t, _)") if b: "copy_with f e = Inr b" for b
  proof -
    have id: "object_id b = k" using copy_with_object_id [OF b] f(1) refiningD(2) [OF s e] by simp
    have "refining ?t" by (rule refining_update [OF s id copy_with_valid [OF b]]) auto
    moreover have "cache_of ?t = enter k (slot_of b) (cache_of s)" by (rule cache_of_enter) simp_all
    moreover have "slot_of b = slot_of e" using slot_of_copy [OF b] f(2-4) by (simp add: slot_of_def)
    then have "enter k (slot_of b) (cache_of s) = cache_of s" using e by (intro cache_eqI) (auto simp: enter_def)
    ultimately show ?thesis using q by (intro implementsI [OF _ _ _ cache_step.idle]) auto
  qed
  then show ?thesis by simp
qed

lemma cold_implements:
  assumes s: "refining s" and q: "cmd_type q = MARKED_COLD"
  shows "safely (on_marked_cold cfg (dict_get (live_blocks s) (object_id i)) i s) (implements cfg q s)"
proof (cases "dict_get (live_blocks s) (object_id i)")
  case None
  then show ?thesis using idle_implements [OF s, of q cfg] q by (simp add: on_marked_cold_def)
next
  case (Some e)
  show ?thesis unfolding on_marked_cold_def Some option.case
    by (rule replaced_implements [OF s _ Some]) (use q in simp_all)
qed

lemma committed_implements:
  assumes s: "refining s" and q: "cmd_type q = COMMITTED"
  shows "safely (on_committed cfg (dict_get (live_blocks s) (object_id i)) i s) (implements cfg q s)"
proof (cases "dict_get (live_blocks s) (object_id i)")
  case None
  then show ?thesis using idle_implements [OF s, of q cfg] q by (simp add: on_committed_def)
next
  case (Some e)
  show ?thesis unfolding on_committed_def Some option.case
    by (rule replaced_implements [OF s _ Some]) (use q refiningD(3) [OF s Some] in auto)
qed

lemma marked_implements:
  assumes s: "refining s" and ev: "ev_type ev = MARKED_DECODE_CRITICAL"
    and i: "incoming_intent ev (dict_get (live_blocks s) (object_id (ev_intent ev))) = Inr i"
    and id: "object_id i = object_id (ev_intent ev)"
  shows "safely (on_marked_decode_critical cfg (dict_get (live_blocks s) (object_id i)) i s)
    (implements cfg (command_of ev) s)"
proof -
  let ?k = "object_id i"
  have step: "implements cfg (command_of ev) s (s\<lparr>live_blocks := AList.update ?k b (live_blocks s)\<rparr>, base_step_latency_us cfg)"
    if "valid_intent b" "object_id b = ?k"
      "slot_of b = protected (cmd_slot (command_of ev)) (catalog (cache_of s) (cmd_key (command_of ev)))" for b
  proof -
    let ?t = "s\<lparr>live_blocks := AList.update ?k b (live_blocks s)\<rparr>"
    have "refining ?t" by (rule refining_update [OF s that(2,1)]) auto
    moreover have "cache_of ?t = enter ?k (slot_of b) (cache_of s)" by (rule cache_of_enter) simp_all
    ultimately show ?thesis
      by (intro implementsI [OF _ _ _ cache_step.protect]) (use ev id that(3) in simp_all)
  qed
  show ?thesis
  proof (cases "dict_get (live_blocks s) ?k")
    case None
    then have fresh: "i = auto_pin (ev_intent ev)" using incoming_slot(1) [OF i] id by simp
    have "implements cfg (command_of ev) s (s\<lparr>live_blocks := AList.update ?k b (live_blocks s)\<rparr>, base_step_latency_us cfg)"
      if b: "copy_with (\<lambda>i. i\<lparr>priority := DECODE_CRITICAL, pin_requested := True\<rparr>) i = Inr b" for b
      by (rule step [OF copy_with_valid [OF b]])
        (use copy_with_object_id [OF b] slot_of_copy [OF b] None id in \<open>simp_all add: fresh protected_def slot_of_def\<close>)
    with None show ?thesis by (simp add: on_marked_decode_critical_def)
  next
    case (Some e)
    have "implements cfg (command_of ev) s (s\<lparr>live_blocks := AList.update ?k b (live_blocks s)\<rparr>, base_step_latency_us cfg)"
      if b: "copy_with f e = Inr b" "object_id (f e) = object_id e" "size_bytes (f e) = size_bytes e"
        "allowed_tiers (f e) = allowed_tiers e" "pin_requested (f e)" for b f
      by (rule step [OF copy_with_valid [OF b(1)]])
        (use copy_with_object_id [OF b(1)] slot_of_copy [OF b(1)] b(2-5) refiningD(2) [OF s Some] Some id
          in \<open>simp_all add: protected_def slot_of_def\<close>)
    with Some show ?thesis by (simp add: on_marked_decode_critical_def)
  qed
qed

lemma pinned_slot: "refining s \<Longrightarrow> dict_get (live_blocks s) k = Some e
  \<Longrightarrow> slot_of e = \<lparr>slot_size = size_bytes e, slot_pinned = pin_requested e \<or> priority e = DECODE_CRITICAL,
        slot_tiers = allowed_tiers e\<rparr>"
  using refiningD(3) by (auto simp: slot_of_def)

lemma spilled_implements:
  assumes s: "refining s" and q: "cmd_type q = SPILLED"
  shows "safely (on_spilled cfg (dict_get (live_blocks s) (cmd_key q)) s) (implements cfg q s)"
proof (cases "dict_get (live_blocks s) (cmd_key q)")
  case None
  then show ?thesis using idle_implements [OF s, of q cfg] q by (simp add: on_spilled_def)
next
  case (Some e)
  have id: "object_id e = cmd_key q" by (rule refiningD(2) [OF s Some])
  show ?thesis
  proof (cases "DRAM \<in> allowed_tiers e")
    case False
    then show ?thesis using Some idle_implements [OF s, of q cfg] q by (simp add: on_spilled_def)
  next
    case True
    have "implements cfg q s (s\<lparr>hbm_blocks := hbm_blocks s - {cmd_key q}, dram_blocks := insert (cmd_key q) (dram_blocks s),
        live_blocks := AList.update (cmd_key q) c (live_blocks s), spill_count := spill_count s + 1\<rparr>,
        base_step_latency_us cfg + spill_latency_us cfg)" (is "implements cfg q s (?t, _)")
      if c: "copy_with (\<lambda>i. i\<lparr>current_tier := DRAM\<rparr>) e = Inr c" for c
    proof (rule implementsI [OF _ _ _ cache_step.spill [OF q]])
      have slot: "slot_of c = slot_of e" using slot_of_copy [OF c] pinned_slot [OF s Some] by simp
      show "refining ?t" using copy_with_object_id [OF c] id copy_with_valid [OF c]
        by (auto intro!: refining_update [OF s, of c "cmd_key q"])
      show "catalog (cache_of s) (cmd_key q) = Some (slot_of e)" "DRAM \<in> slot_tiers (slot_of e)" using Some True by simp_all
      show "cache_of ?t = (cache_of s)\<lparr>fast := fast (cache_of s) - {cmd_key q}, slow := insert (cmd_key q) (slow (cache_of s))\<rparr>"
        using slot Some by (intro cache_eqI) (auto simp: dict_simps)
    qed simp
    then show ?thesis using Some True id by (simp add: on_spilled_def)
  qed
qed

lemma removed_implements:
  assumes s: "refining s" and t: "live_blocks t = live_blocks s" "hbm_blocks t = hbm_blocks s - {cmd_key q}"
    "dram_blocks t = dram_blocks s - {cmd_key q}" "latencies t = latencies s" and q: "cmd_type q = EVICTED"
  shows "implements cfg q s (t, base_step_latency_us cfg)"
proof (rule implementsI [OF _ _ _ cache_step.evict [OF q]])
  have "sim_wf t" using s t by (auto simp: refining_def intro: sim_wf_shrink)
  then show "refining t" using s t(1) by (simp add: refining_def pins_settled_def)
qed (use t in \<open>auto simp: cache_of_def leave_def\<close>)

lemma evicted_implements:
  assumes s: "refining s" and q: "cmd_type q = EVICTED"
  shows "safely (on_evicted cfg (dict_get (live_blocks s) (cmd_key q)) s) (implements cfg q s)"
proof (cases "dict_get (live_blocks s) (cmd_key q)")
  case None
  then have "cmd_key q \<notin> dict_keys (live_blocks s)" by (simp add: dict_get_None_iff)
  then have "implements cfg q s (s, base_step_latency_us cfg)"
    using sim_wfD(5,6) [OF refiningD(1) [OF s]] by (intro removed_implements [OF s _ _ _ _ q]) auto
  with None show ?thesis by (simp add: on_evicted_def)
next
  case (Some e)
  then show ?thesis using refiningD(2) [OF s Some]
    by (auto simp: on_evicted_def intro!: removed_implements [OF s _ _ _ _ q])
qed

lemma freed_implements:
  assumes s: "refining s" and q: "cmd_type q = FREED" "cmd_key q = object_id i"
  shows "safely (on_freed cfg i s) (implements cfg q s)"
proof -
  let ?t = "s\<lparr>live_blocks := AList.delete (object_id i) (live_blocks s), hbm_blocks := hbm_blocks s - {object_id i},
     dram_blocks := dram_blocks s - {object_id i}\<rparr>"
  have "implements cfg q s (?t, base_step_latency_us cfg)"
  proof (rule implementsI [OF _ _ _ cache_step.free [OF q(1)]])
    show "refining ?t" using delete_wf [OF refiningD(1) [OF s]] s
      by (auto simp: refining_def pins_settled_def dict_simps split: if_splits)
    show "cache_of ?t = (leave (cmd_key q) (cache_of s))\<lparr>catalog := (catalog (cache_of s))(cmd_key q := None)\<rparr>"
      by (rule cache_eqI) (auto simp: leave_def q(2) dict_simps)
  qed simp
  then show ?thesis by (simp add: on_freed_def)
qed

lemma prefetched_implements:
  assumes ord: "valid_order ord" and s: "refining s" and ev: "ev_type ev = PREFETCHED"
    and i: "incoming_intent ev (dict_get (live_blocks s) (object_id (ev_intent ev))) = Inr i"
    and id: "object_id i = object_id (ev_intent ev)"
  shows "safely (on_prefetched ord cfg step i s) (implements cfg (command_of ev) s)"
proof (cases "dict_get (live_blocks s) (object_id i)")
  case None
  then show ?thesis using idle_implements [OF s, of "command_of ev" cfg] ev id by (simp add: on_prefetched_def)
next
  case (Some b)
  let ?q = "command_of ev"
  have idb: "object_id b = object_id i" by (rule refiningD(2) [OF s Some])
  have cat: "catalog (cache_of s) (cmd_key ?q) = Some (slot_of b)" using Some id by simp
  show ?thesis
  proof (cases "object_id i \<in> hbm_blocks s")
    case True
    then show ?thesis using idle_implements [OF s, of ?q cfg] ev Some idb id by (simp add: on_prefetched_def)
  next
    case False
    then have out: "cmd_key ?q \<notin> fast (cache_of s)" using id by simp
    have "safely (if should_prefetch (cfg_policy cfg) c step then
          map_option (\<lambda>(t, added). Inr (log_decision cfg step ''prefetch'' c r False t,
              base_step_latency_us cfg + prefetch_latency_us cfg + added))
            (move_to_hbm ord cfg c step ((put_block c s)\<lparr>prefetch_count := prefetch_count (put_block c s) + 1\<rparr>))
        else Some (Inr (put_block c s, base_step_latency_us cfg))) (implements cfg ?q s)"
      if c: "merge_intent PREFETCHED b i = Inr c" for c r
    proof -
      have c': "copy_with (merge_update PREFETCHED i) b = Inr c" using c by (simp add: merge_intent_def)
      have idc: "object_id c = object_id i" using merge_intent_id [OF c] idb by simp
      have vc: "valid_intent c" by (rule copy_with_valid [OF c'])
      have slot: "slot_of c = cmd_slot ?q"
        using slot_of_copy [OF c'] incoming_slot(2) [OF i] ev incoming_intent_valid [OF i]
        by (auto simp: slot_of_def valid_intent_def)
      define m where "m = (put_block c s)\<lparr>prefetch_count := prefetch_count (put_block c s) + 1\<rparr>"
      have m: "refining m" "cache_of m = cache_of (put_block c s)" "latencies m = latencies s"
        using put_block_refining [OF s vc] refining_cong [of m "put_block c s"] cache_of_cong [of m "put_block c s"]
        by (simp_all add: m_def)
      have "safely (map_option (\<lambda>(t, l). Inr (log_decision cfg step ''prefetch'' c r False t,
          base_step_latency_us cfg + prefetch_latency_us cfg + l)) (move_to_hbm ord cfg c step m)) (implements cfg ?q s)"
      proof (rule safely_move_roomy [OF ord m(1) vc])
        fix t l assume t: "roomy cfg (placed_in_hbm c m) t l"
        have "cache_of (placed_in_hbm c m) = lift_up (cmd_key ?q) (enter (cmd_key ?q) (cmd_slot ?q) (cache_of s))"
          using slot idc id by (simp add: placed_cache m(2))
        with roomyD(3) [OF t] have "cache_step cfg ?q (cache_of s)
            (spend (base_step_latency_us cfg + prefetch_latency_us cfg + l) (cache_of t))"
          by (intro cache_step.prefetch [OF _ cat out]) (use ev in simp_all)
        moreover have "latencies t = latencies s" using roomyD(2) [OF t] m(3) by simp
        moreover have "latencies (log_decision cfg step ''prefetch'' c r False t) = latencies t"
          by (simp add: log_decision_def)
        ultimately show "implements cfg ?q s (log_decision cfg step ''prefetch'' c r False t,
            base_step_latency_us cfg + prefetch_latency_us cfg + l)"
          using roomyD(1) [OF t] by (simp add: implements_def)
      qed
      moreover have "implements cfg ?q s (put_block c s, base_step_latency_us cfg)"
        by (rule implementsI [OF _ _ _ cache_step.prefetch_declined [OF _ cat out]])
          (use put_block_refining [OF s vc] slot idc id ev in simp_all)
      ultimately show ?thesis by (simp add: m_def)
    qed
    then show ?thesis using Some False idb by (simp add: on_prefetched_def Let_def)
  qed
qed

section \<open>Events and runs\<close>

lemma dispatch_implements:
  assumes ord: "valid_order ord" and s: "refining s"
    and i: "incoming_intent ev (dict_get (live_blocks s) (object_id (ev_intent ev))) = Inr i"
  shows "safely (dispatch_event ord cfg ev (dict_get (live_blocks s) (object_id (ev_intent ev))) i s)
    (implements cfg (command_of ev) s)"
proof -
  have id: "object_id i = object_id (ev_intent ev)"
    by (rule incoming_intent_id [OF i refl sim_wfD(2) [OF refiningD(1) [OF s]]])
  show ?thesis
  proof (cases "ev_type ev")
    case ALLOCATED
    then show ?thesis using incoming_slot(2) [OF i] incoming_intent_valid [OF i] id
      by (simp add: dispatch_event_def, intro allocated_implements [OF ord s]) simp_all
  next
    case ACCESSED
    then show ?thesis using accessed_implements [OF ord s _ i id] by (simp add: dispatch_event_def)
  next
    case PREFETCHED
    then show ?thesis using prefetched_implements [OF ord s _ i id] by (simp add: dispatch_event_def)
  next
    case MARKED_DECODE_CRITICAL
    then show ?thesis using marked_implements [OF s _ i id] id by (simp add: dispatch_event_def)
  next
    case MARKED_COLD
    then show ?thesis using cold_implements [OF s, of "command_of ev" cfg i] id by (simp add: dispatch_event_def)
  next
    case COMMITTED
    then show ?thesis using committed_implements [OF s, of "command_of ev" cfg i] id by (simp add: dispatch_event_def)
  next
    case SPILLED
    then show ?thesis using spilled_implements [OF s, of "command_of ev" cfg] by (simp add: dispatch_event_def)
  next
    case EVICTED
    then show ?thesis using evicted_implements [OF s, of "command_of ev" cfg] by (simp add: dispatch_event_def)
  next
    case FREED
    then show ?thesis using freed_implements [OF s, of "command_of ev" i cfg] id by (simp add: dispatch_event_def)
  next
    case MISS
    then show ?thesis using idle_implements [OF s, of "command_of ev" cfg] by (simp add: dispatch_event_def)
  qed
qed

lemma decay_keeps_cache:
  assumes s: "refining s" and d: "decay step s = Inr t"
  shows "refining t \<and> cache_of t = cache_of s"
proof -
  note D = decay_effect [OF d]
  have "pins_settled t"
    unfolding pins_settled_def
  proof (intro allI impI)
    fix k c assume "dict_get (live_blocks t) k = Some c" "priority c = DECODE_CRITICAL"
    moreover then obtain b where "dict_get (live_blocks s) k = Some b" "aged b c" using rel_option_get [OF D(9)] by blast
    ultimately show "pin_requested c" using agedD(5,6) refiningD(3) [OF s] by fastforce
  qed
  moreover have "map_option slot_of (dict_get (live_blocks t) k) = map_option slot_of (dict_get (live_blocks s) k)" for k
  proof (cases "dict_get (live_blocks s) k")
    case None
    then show ?thesis using D(9) [of k] by simp
  next
    case (Some b)
    then obtain c where c: "dict_get (live_blocks t) k = Some c" "aged b c" using rel_option_get' [OF D(9)] by blast
    have "pin_requested c = pin_requested b" using agedD(5,7) [OF c(2)] refiningD(3) [OF s Some] by blast
    then show ?thesis using Some c(1) agedD(2,3) [OF c(2)] by (simp add: slot_of_def)
  qed
  ultimately show ?thesis
    using decay_wf [OF refiningD(1) [OF s] d] D(1-3) by (auto simp: refining_def intro!: cache_eqI)
qed

lemma event_implements:
  assumes ord: "valid_order ord" and s: "refining s"
  shows "safely (handle_event ord cfg ev s) (\<lambda>t. refining t \<and> cache_step cfg (command_of ev) (cache_of s) (cache_of t))"
proof -
  let ?ex = "dict_get (live_blocks s) (object_id (ev_intent ev))"
  have "safely (dispatch_event ord cfg ev ?ex i s) (\<lambda>(s1, lat). \<forall>s2. decay (ev_step ev) s1 = Inr s2 \<longrightarrow>
      refining (s2\<lparr>latencies := latencies s2 @ [lat]\<rparr>)
      \<and> cache_step cfg (command_of ev) (cache_of s) (cache_of (s2\<lparr>latencies := latencies s2 @ [lat]\<rparr>)))"
    if i: "incoming_intent ev ?ex = Inr i" for i
  proof (rule safely_mono [OF dispatch_implements [OF ord s i]], clarify)
    fix s1 lat s2 assume h: "implements cfg (command_of ev) s (s1, lat)" and d: "decay (ev_step ev) s1 = Inr s2"
    then have s2: "refining s2" "cache_of s2 = cache_of s1" using decay_keeps_cache [OF _ d] by (auto simp: implements_def)
    let ?t = "s2\<lparr>latencies := latencies s2 @ [lat]\<rparr>"
    have "cache_of ?t = spend lat (cache_of s1)" unfolding s2(2) [symmetric] by (simp add: cache_of_def spend_def)
    then show "refining ?t \<and> cache_step cfg (command_of ev) (cache_of s) (cache_of ?t)"
      using h s2(1) refining_cong [of ?t s2] by (simp add: implements_def)
  qed
  then show ?thesis by (auto simp: handle_event_def Let_def case_prod_unfold)
qed

text \<open>Transition functions whose steps are steps of a specification, and what follows for whole runs.\<close>

locale simulation =
  fixes step :: "'e \<Rightarrow> 's \<Rightarrow> 's outcome" and inv :: "'s \<Rightarrow> bool"
    and spec :: "'e \<Rightarrow> 'a \<Rightarrow> 'a \<Rightarrow> bool" and abstract :: "'s \<Rightarrow> 'a"
    and specs :: "'e list \<Rightarrow> 'a \<Rightarrow> 'a \<Rightarrow> bool"
  assumes step_simulates: "inv s \<Longrightarrow> safely (step e s) (\<lambda>t. inv t \<and> spec e (abstract s) (abstract t))"
    and specs_Nil: "specs [] a a"
    and specs_Cons: "spec e a b \<Longrightarrow> specs es b c \<Longrightarrow> specs (e # es) a c"
begin

lemma run_simulates: "inv s \<Longrightarrow> safely (fold_o step es s) (\<lambda>t. inv t \<and> specs es (abstract s) (abstract t))"
proof (induction es arbitrary: s)
  case (Cons e es)
  have "safely (step e s) (\<lambda>t. safely (fold_o step es t) (\<lambda>u. inv u \<and> specs (e # es) (abstract s) (abstract u)))"
  proof (rule safely_mono [OF step_simulates [OF Cons.prems, of e]])
    fix t assume t: "inv t \<and> spec e (abstract s) (abstract t)"
    then show "safely (fold_o step es t) (\<lambda>u. inv u \<and> specs (e # es) (abstract s) (abstract u))"
      by (intro safely_mono [OF Cons.IH]) (auto intro: specs_Cons)
  qed
  then show ?case by simp
qed (simp add: specs_Nil)

end

interpretation cache: simulation "handle_event ord cfg" "\<lambda>s. valid_order ord \<and> refining s"
  "\<lambda>ev. cache_step cfg (command_of ev)" cache_of "\<lambda>es. cache_run cfg (map command_of es)" for ord cfg
proof
  fix s e assume "valid_order ord \<and> refining s"
  then show "safely (handle_event ord cfg e s)
      (\<lambda>t. (valid_order ord \<and> refining t) \<and> cache_step cfg (command_of e) (cache_of s) (cache_of t))"
    using event_implements [of ord s cfg e] by simp
qed auto

lemma start_cache: "refining init_sim" "cache_of init_sim = empty_cache"
  by (auto simp: refining_def pins_settled_def empty_cache_def cache_of_def)

lemma run_is_cache_run:
  assumes "valid_order ord" "run_events ord cfg es init_sim = Some (Inr t)"
  shows "refining t" "cache_run cfg (map command_of es) empty_cache (cache_of t)"
  using safelyD [OF cache.run_simulates [of ord init_sim cfg es]] assms start_cache by (auto simp: run_events_def)

text \<open>Which blocks a run leaves live depends only on the types and names of its events.\<close>

lemma run_live_keys:
  assumes "valid_order ord" "run_events ord cfg es init_sim = Some (Inr t)"
  shows "dict_keys (live_blocks t) = fold (\<lambda>e. keys_after (command_of e)) es {}"
proof -
  have "dom (catalog (cache_of t)) = fold keys_after (map command_of es) (dom (catalog empty_cache))"
    by (rule cache_run_keys [OF run_is_cache_run(2) [OF assms]])
  moreover have "dom (catalog (cache_of t)) = dict_keys (live_blocks t)" by (simp add: cache_of_def dom_map_option dom_map_of_conv_image_fst)
  ultimately show ?thesis by (simp add: empty_cache_def fold_map comp_def)
qed

end
