(* ===== verification/Damon.thy ===== *)
theory Damon
  imports CacheRefinement SimulatorProps Trace Emission "HOL-Library.Word"
begin

text \<open>
  The DAMON experiments (\<open>src/kernel_vm/experiments/damon_kv_hotness\<close>): the conversion of measured access counts
  into an intent trace, the controller that configures the kernel interface and polls it, and the workload that
  touches memory. The kernel is a parameter: the addresses \<open>mmap\<close> returns, the content of the sysfs files and
  the clock. Memory is a list of 8-bit words, whose addition wraps as \<open>& 0xFF\<close> does.
\<close>

section \<open>Access counts as intents\<close>

definition classify_priority :: "int \<Rightarrow> priority" where
  "classify_priority nr_accesses =
     (if 10 \<le> nr_accesses then DECODE_CRITICAL else if 3 \<le> nr_accesses then HOT
      else if 1 \<le> nr_accesses then WARM else COLD)"

definition damon_id :: "int \<Rightarrow> string" where "damon_id index = ''damon-region-'' @ int_str index"

definition damon_intent :: "int \<Rightarrow> int \<Rightarrow> int \<Rightarrow> mintent" where
  "damon_intent index accesses region_bytes =
     (let pr = classify_priority accesses; critical = (pr = DECODE_CRITICAL)
      in (new_intent (damon_id index) (''damon-req-'' @ int_str index) index KV_CACHE
            (if critical then DECODE else IDLE) pr {HBM, DRAM} DRAM region_bytes)
           \<lparr>request_priority := (if critical then 90 else 30),
            recency_score := min (fdiv (int_to_float accesses) 10) 1,
            deadline_us := (if critical then Some 2000 else None), slack_us := (if critical then Some 500 else None),
            prefetch_ok := True, pin_requested := critical, created_step := 0, last_access_step := accesses\<rparr>)"

definition build_event :: "conversions \<Rightarrow> int \<Rightarrow> jdict \<Rightarrow> mevent result" where
  "build_event c index region =
     bind_r (case dict_get region ''nr_accesses'' of None \<Rightarrow> Inr 0 | Some v \<Rightarrow> py_int c v) (\<lambda>accesses.
     bind_r (bind_r (get_item region ''size_bytes'') (py_int c)) (\<lambda>region_bytes.
     bind_r (post_init (damon_intent index accesses region_bytes)) (\<lambda>i.
     mk_event index (if classify_priority accesses = DECODE_CRITICAL then MARKED_DECODE_CRITICAL else MARKED_COLD) i
       (''Derived from DAMON nr_accesses='' @ int_str accesses))))"

text \<open>\<open>data.get("regions", [])\<close>, and \<open>.get\<close> on each region.\<close>

definition region_dict :: "json \<Rightarrow> jdict result" where
  "region_dict j = (case j of JDict d \<Rightarrow> Inr d | _ \<Rightarrow> Inl (AttributeError ''get''))"

definition damon_events :: "conversions \<Rightarrow> json \<Rightarrow> recorder result" where
  "damon_events c data =
     bind_r (region_dict data) (\<lambda>d.
     bind_r (py_iter (case dict_get d ''regions'' of None \<Rightarrow> JList [] | Some v \<Rightarrow> v)) (\<lambda>regions.
     fold_r (\<lambda>(index, j) r. bind_r (bind_r (region_dict j) (build_event c index)) (\<lambda>e. Inr (record_event e r)))
       (py_enumerate regions) new_recorder))"

text \<open>The text of the trace written for the text of the measurements.\<close>

definition damon_to_intent :: "conversions \<Rightarrow> string \<Rightarrow> string result" where
  "damon_to_intent c text = bind_r (bind_r (json_loads text) (damon_events c)) (\<lambda>r. Inr (to_jsonl r))"

section \<open>The conversion is total on measurements\<close>

definition region_json :: "int \<times> int \<Rightarrow> json" where
  "region_json r = JDict [(''nr_accesses'', JInt (fst r)), (''size_bytes'', JInt (snd r))]"

definition measurement :: "(int \<times> int) list \<Rightarrow> json" where
  "measurement rs = JDict [(''regions'', JList (map region_json rs))]"

definition measured :: "(int \<times> int) list \<Rightarrow> bool" where
  "measured rs \<longleftrightarrow> (\<forall>(a, s) \<in> set rs. 0 \<le> a \<and> 0 < s)"

definition damon_event :: "int \<Rightarrow> int \<times> int \<Rightarrow> mevent" where
  "damon_event index r = \<lparr>ev_step = index,
     ev_type = (if 10 \<le> fst r then MARKED_DECODE_CRITICAL else MARKED_COLD), ev_intent = damon_intent index (fst r) (snd r),
     ev_reason = Some (''Derived from DAMON nr_accesses='' @ int_str (fst r)), ev_latency_us = None\<rparr>"

definition damon_trace :: "(int \<times> int) list \<Rightarrow> mevent list" where
  "damon_trace rs = map (\<lambda>x. damon_event (fst x) (snd x)) (py_enumerate rs)"

lemma critical_iff: "classify_priority a = DECODE_CRITICAL \<longleftrightarrow> 10 \<le> a"
  by (simp add: classify_priority_def)

lemma damon_intent_sound:
  assumes "0 \<le> index" "0 \<le> a" "0 < s"
  shows "intent_ranges (damon_intent index a s)" "sound (damon_intent index a s)"
    "auto_pin (damon_intent index a s) = damon_intent index a s"
proof -
  have "0 \<le> fdiv (int_to_float a) 10" using assms(2) by (simp add: fdiv_def int_to_float_def fl_nonneg)
  then show "intent_ranges (damon_intent index a s)"
    using assms by (simp add: damon_intent_def damon_id_def new_intent_def intent_ranges_def Let_def)
  then show "sound (damon_intent index a s)"
    by (simp add: sound_def valid_intent_def routable_def) (simp add: damon_intent_def new_intent_def Let_def)
  show "auto_pin (damon_intent index a s) = damon_intent index a s"
    by (simp add: auto_pin_def damon_intent_def new_intent_def Let_def)
qed

lemma build_event_returns:
  assumes "0 \<le> index" "0 \<le> fst r" "0 < snd r"
  shows "bind_r (region_dict (region_json r)) (build_event c index) = Inr (damon_event index r)"
  using damon_intent_sound [OF assms] assms(1)
  by (simp add: region_dict_def region_json_def build_event_def get_item_def post_init_eq mk_event_def event_post_init_def
      critical_iff damon_event_def)

lemma measured_regions:
  assumes "measured rs" "x \<in> set (py_enumerate rs)"
  shows "0 \<le> fst x \<and> 0 \<le> fst (snd x) \<and> 0 < snd (snd x)"
proof -
  have "0 \<le> fst x" "snd x \<in> set rs" using py_enumerate_member [OF assms(2)] by simp_all
  moreover from this(2) assms(1) have "case snd x of (a, s) \<Rightarrow> 0 \<le> a \<and> 0 < s" by (simp add: measured_def)
  ultimately show ?thesis by (simp add: case_prod_beta)
qed

lemma damon_events_return:
  assumes "measured rs"
  shows "damon_events c (measurement rs) = Inr \<lparr>rec_events = damon_trace rs\<rparr>"
proof -
  have loop: "fold_r (\<lambda>(i, j) r. bind_r (bind_r (region_dict j) (build_event c i)) (\<lambda>e. Inr (record_event e r)))
      (map (\<lambda>x. (fst x, region_json (snd x))) xs) rec = Inr (extend_events (map (\<lambda>x. damon_event (fst x) (snd x)) xs) rec)"
    if "\<forall>x \<in> set xs. 0 \<le> fst x \<and> 0 \<le> fst (snd x) \<and> 0 < snd (snd x)" for xs rec
    using that by (induction xs arbitrary: rec) (simp_all add: build_event_returns record_event_def extend_events_def)
  have "py_enumerate (map region_json rs) = map (\<lambda>x. (fst x, region_json (snd x))) (py_enumerate rs)"
    by (simp add: py_enumerate_def zip_map2 case_prod_beta)
  moreover have "\<forall>x \<in> set (py_enumerate rs). 0 \<le> fst x \<and> 0 \<le> fst (snd x) \<and> 0 < snd (snd x)"
    using measured_regions [OF assms] by blast
  ultimately show ?thesis
    by (simp add: damon_events_def measurement_def region_dict_def [of "JDict d" for d] loop damon_trace_def extend_events_def
        new_recorder_def)
qed

section \<open>Replaying the trace\<close>

lemma damon_live_names:
  "fold (\<lambda>e. keys_after (command_of e)) (map (\<lambda>x. damon_event (fst x) (snd x)) xs) ks
    = ks \<union> (\<lambda>x. damon_id (fst x)) ` {x \<in> set xs. 10 \<le> fst (snd x)}"
proof (induction xs arbitrary: ks)
  case (Cons x xs)
  let ?c = "\<lambda>x :: int \<times> int \<times> int. 10 \<le> fst (snd x)"
  have "keys_after (command_of (damon_event (fst x) (snd x))) ks = (if ?c x then insert (damon_id (fst x)) ks else ks)"
    by (simp add: keys_after_def damon_event_def damon_intent_def new_intent_def Let_def)
  moreover have "{y \<in> set (x # xs). ?c y} = (if ?c x then insert x {y \<in> set xs. ?c y} else {y \<in> set xs. ?c y})" by auto
  ultimately show ?case by (simp add: Cons.IH del: set_simps split del: if_split split: if_splits)
qed simp

lemma set_py_enumerate: "set (py_enumerate xs) = (\<lambda>i. (int i, xs ! i)) ` {..<length xs}"
proof (intro equalityI subsetI)
  fix x assume "x \<in> set (py_enumerate xs)"
  then obtain i where "i < length xs" "x = py_enumerate xs ! i" by (auto simp: in_set_conv_nth)
  then show "x \<in> (\<lambda>i. (int i, xs ! i)) ` {..<length xs}" by simp
next
  fix x assume "x \<in> (\<lambda>i. (int i, xs ! i)) ` {..<length xs}"
  then obtain i where "i < length xs" "x = (int i, xs ! i)" by blast
  then have "x = py_enumerate xs ! i" "i < length (py_enumerate xs)" by simp_all
  then show "x \<in> set (py_enumerate xs)" by (simp only: nth_mem)
qed

text \<open>C32: A DAMON trace can always be built and replayed, but the replay only sees the decode-critical regions: for
  measured regions the conversion returns, the simulator handles the trace under every policy, capacity and set
  order, and the blocks live at the end are exactly the regions with ten or more accesses. The other regions, hot
  and warm ones included, are emitted as MARKED_COLD, which the simulator ignores for a block it does not know.\<close>

theorem damon_replay_sees_critical:
  assumes "measured rs" "valid_order ord"
  shows "\<exists>r t. damon_events c (measurement rs) = Inr r \<and> run_events ord cfg (rec_events r) init_sim = Some (Inr t)
    \<and> length (rec_events r) = length rs
    \<and> dict_keys (live_blocks t) = (\<lambda>i. damon_id (int i)) ` {i. i < length rs \<and> 10 \<le> fst (rs ! i)}"
proof -
  let ?es = "damon_trace rs"
  have "sound (ev_intent e)" if e: "e \<in> set ?es" for e
  proof -
    obtain x where x: "x \<in> set (py_enumerate rs)" "e = damon_event (fst x) (snd x)" using e by (auto simp: damon_trace_def)
    from damon_intent_sound(2) measured_regions [OF assms(1) x(1)] show ?thesis by (simp add: x(2) damon_event_def)
  qed
  then obtain t where t: "run_events ord cfg ?es init_sim = Some (Inr t)"
    using safe_runs.run_total [of ord init_sim ?es cfg] assms(2) by (auto simp: run_events_def all_sound_def)
  have "dict_keys (live_blocks t) = (\<lambda>x. damon_id (fst x)) ` {x \<in> set (py_enumerate rs). 10 \<le> fst (snd x)}"
    using damon_live_names [of "py_enumerate rs" "{}"] run_live_keys [OF assms(2) t] by (simp add: damon_trace_def)
  also have "{x \<in> set (py_enumerate rs). 10 \<le> fst (snd x)} = (\<lambda>i. (int i, rs ! i)) ` {i. i < length rs \<and> 10 \<le> fst (rs ! i)}"
    unfolding set_py_enumerate by auto
  also have "(\<lambda>x. damon_id (fst x)) ` (\<lambda>i. (int i, rs ! i)) ` {i. i < length rs \<and> 10 \<le> fst (rs ! i)}
      = (\<lambda>i. damon_id (int i)) ` {i. i < length rs \<and> 10 \<le> fst (rs ! i)}"
    by (simp add: image_image)
  finally show ?thesis
    using damon_events_return [OF assms(1), of c] t by (intro exI [of _ "\<lparr>rec_events = ?es\<rparr>"] exI [of _ t]) (simp add: damon_trace_def)
qed

theorem damon_replay_sees_critical_witness:
  "\<forall>c. \<exists>r t. damon_events c (measurement [(12, 4096), (9, 4096), (0, 8192)]) = Inr r
    \<and> run_events sorted_order (default_config LRUPolicy 4096 65536) (rec_events r) init_sim = Some (Inr t)
    \<and> dict_keys (live_blocks t) = {damon_id 0}"
proof
  fix c
  let ?rs = "[(12, 4096), (9, 4096), (0, 8192)] :: (int \<times> int) list"
  have m: "measured ?rs" by (simp add: measured_def)
  have "{i. i < length ?rs \<and> 10 \<le> fst (?rs ! i)} = {0}"
  proof (rule set_eqI)
    fix i show "i \<in> {i. i < length ?rs \<and> 10 \<le> fst (?rs ! i)} \<longleftrightarrow> i \<in> {0}" by (cases i; cases "i - 1") auto
  qed
  then have "(\<lambda>i. damon_id (int i)) ` {i. i < length ?rs \<and> 10 \<le> fst (?rs ! i)} = {damon_id 0}" by simp
  with damon_replay_sees_critical [OF m valid_sorted_order, of c "default_config LRUPolicy 4096 65536"]
  show "\<exists>r t. damon_events c (measurement ?rs) = Inr r
    \<and> run_events sorted_order (default_config LRUPolicy 4096 65536) (rec_events r) init_sim = Some (Inr t)
    \<and> dict_keys (live_blocks t) = {damon_id 0}"
    by metis
qed

end
