(* ===== verification/DamonControl.thy ===== *)
theory DamonControl
  imports Damon Report
begin

text \<open>
  The DAMON controller (\<open>kv_damon_controller.py\<close>) and the memory workload (\<open>kv_region_workload.py\<close>). The kernel
  is seen through the addresses \<open>mmap\<close> returns and the sysfs files, and the configuration is the list of the
  files written, in order; memory is a list of 8-bit words. The laws count the touches of each page.
\<close>

type_synonym memory = "8 word list"

section \<open>Memory\<close>

text \<open>\<open>range(0, n, 4096)\<close>\<close>

definition page_offsets :: "nat \<Rightarrow> nat list" where
  "page_offsets n = map (\<lambda>p. p * 4096) [0..<(n + 4095) div 4096]"

definition touch_pages :: "memory \<Rightarrow> memory" where
  "touch_pages mem = fold (\<lambda>offset m. m[offset := m ! offset + 1]) (page_offsets (length mem)) mem"

definition fresh_pages :: "(nat \<Rightarrow> 8 word) \<Rightarrow> nat \<Rightarrow> memory" where
  "fresh_pages value_of n = fold (\<lambda>offset m. m[offset := value_of (offset div 4096)]) (page_offsets n) (replicate n 0)"

text \<open>\<open>allocate_region\<close> of the workload.\<close>

definition workload_region :: "int \<Rightarrow> memory" where
  "workload_region size_mb = fresh_pages of_nat (nat (size_mb * 1024 * 1024))"

section \<open>Regions of the controller\<close>

record region_spec =
  rg_index :: int
  rg_address :: int
  rg_size :: int
  rg_pattern :: string
  every_n :: int
  nr_accesses :: int
  classification :: string

datatype py_object = Buffer int | Address int

text \<open>What \<open>mmap\<close> returns at the k-th call; \<open>None\<close> is the null pointer.\<close>

definition allocate_region :: "(nat \<Rightarrow> int option) \<Rightarrow> nat \<Rightarrow> int \<Rightarrow> py_object list result" where
  "allocate_region mmap k size_mb =
     (case mmap k of
        None \<Rightarrow> Inl (TypeError ''integer expected'')
      | Some address \<Rightarrow> if address = 0 \<or> address = 2 ^ 64 - 1 then Inl (OSError ''mmap'')
          else Inr [Buffer (size_mb * 1024 * 1024), Address address])"

definition unpack3 :: "'a list \<Rightarrow> ('a \<times> 'a \<times> 'a) result" where
  "unpack3 xs = (case xs of [a, b, c] \<Rightarrow> Inr (a, b, c)
     | _ \<Rightarrow> Inl (ValueError (if length xs < 3
         then ''not enough values to unpack (expected 3, got '' @ nat_str (length xs) @ '')''
         else ''too many values to unpack (expected 3)'')))"

definition pattern_of :: "int \<Rightarrow> string \<times> int" where
  "pattern_of index = (if index \<le> 1 then (''HOT'', 1) else if index \<le> 3 then (''WARM'', 5) else (''COLD'', 0))"

definition region_bytes :: "int \<Rightarrow> int \<Rightarrow> memory" where
  "region_bytes index size_mb = fresh_pages (\<lambda>page. of_int (index + int page)) (nat (size_mb * 1024 * 1024))"

definition make_region ::
  "(nat \<Rightarrow> int option) \<Rightarrow> int \<Rightarrow> int \<Rightarrow> (region_spec \<times> memory) list \<Rightarrow> (region_spec \<times> memory) list result" where
  "make_region mmap size_mb index regions =
     bind_r (allocate_region mmap (nat index) size_mb) (\<lambda>values.
     bind_r (unpack3 values) (\<lambda>(_, buffer, address).
     case (buffer, address) of
       (Buffer _, Address a) \<Rightarrow>
         Inr (regions @ [(\<lparr>rg_index = index, rg_address = a, rg_size = size_mb * 1024 * 1024, rg_pattern = fst (pattern_of index),
           every_n = snd (pattern_of index), nr_accesses = 0, classification = ''UNKNOWN''\<rparr>, region_bytes index size_mb)])
     | _ \<Rightarrow> Inl (TypeError ''item assignment'')))"

definition make_regions :: "(nat \<Rightarrow> int option) \<Rightarrow> int \<Rightarrow> int \<Rightarrow> (region_spec \<times> memory) list result" where
  "make_regions mmap n size_mb = fold_r (make_region mmap size_mb) [0..n - 1] []"

section \<open>Configuring the kernel interface\<close>

definition sub_path :: "string \<Rightarrow> string \<Rightarrow> string" where "sub_path p q = p @ ''/'' @ q"

definition sysfs_line :: "int \<Rightarrow> string" where "sysfs_line i = int_str i @ newline"

definition kdamond_of :: "string \<Rightarrow> string" where "kdamond_of admin = sub_path (sub_path admin ''kdamonds'') ''0''"

definition regions_dir :: "string \<Rightarrow> string" where
  "regions_dir admin = sub_path (kdamond_of admin) ''contexts/0/targets/0/regions''"

definition region_writes :: "string \<Rightarrow> region_spec \<Rightarrow> (string \<times> string) list" where
  "region_writes admin r =
     (let dir = sub_path (regions_dir admin) (int_str (rg_index r))
      in [(sub_path dir ''start'', sysfs_line (rg_address r)), (sub_path dir ''end'', sysfs_line (rg_address r + rg_size r))])"

definition configure_damon :: "string \<Rightarrow> int \<Rightarrow> region_spec list \<Rightarrow> int \<Rightarrow> int \<Rightarrow> (string \<times> string) list" where
  "configure_damon admin pid regions sample_us aggr_us =
     (let kdamond = kdamond_of admin; context = sub_path kdamond ''contexts/0'';
          intervals = sub_path context ''monitoring_attrs/intervals''; target = sub_path context ''targets/0''
      in [(sub_path admin ''nr_kdamonds'', sysfs_line 1), (sub_path kdamond ''state'', ''off'' @ newline),
          (sub_path kdamond ''nr_contexts'', sysfs_line 1), (sub_path context ''operations'', ''vaddr'' @ newline),
          (sub_path intervals ''sample_us'', sysfs_line sample_us), (sub_path intervals ''aggr_us'', sysfs_line aggr_us),
          (sub_path intervals ''update_us'', sysfs_line aggr_us), (sub_path context ''nr_targets'', sysfs_line 1),
          (sub_path target ''pid_target'', sysfs_line pid), (sub_path target ''nr_regions'', sysfs_line (int (length regions)))]
         @ concat (map (region_writes admin) regions) @ [(sub_path kdamond ''state'', ''on'' @ newline)])"

section \<open>Polling\<close>

definition infer_classification :: "int \<Rightarrow> string" where
  "infer_classification accesses = (if 10 \<le> accesses then ''HOT'' else if 3 \<le> accesses then ''WARM'' else ''COLD'')"

text \<open>\<open>text.strip().split()[0]\<close> converted by \<open>int\<close>, 0 when there is none or it is no number.\<close>

definition first_number :: "conversions \<Rightarrow> string \<Rightarrow> int" where
  "first_number c text =
     (let word = takeWhile (\<lambda>ch. \<not> is_space ch) (py_strip text)
      in if word = [] then 0 else case int_of_text c word of Inr n \<Rightarrow> n | Inl _ \<Rightarrow> 0)"

definition poll_region :: "conversions \<Rightarrow> (string \<Rightarrow> string option) \<Rightarrow> string \<Rightarrow> region_spec \<Rightarrow> region_spec" where
  "poll_region c sysfs admin r =
     (let n = (case sysfs (sub_path (sub_path (regions_dir admin) (int_str (rg_index r))) ''nr_accesses'') of
          None \<Rightarrow> nr_accesses r | Some text \<Rightarrow> first_number c text)
      in r\<lparr>nr_accesses := n, classification := infer_classification n\<rparr>)"

definition poll_access_counts ::
  "conversions \<Rightarrow> (string \<Rightarrow> string option) \<Rightarrow> string \<Rightarrow> region_spec list \<Rightarrow> region_spec list" where
  "poll_access_counts c sysfs admin regions = map (poll_region c sysfs admin) regions"

section \<open>The loop\<close>

definition due :: "region_spec \<Rightarrow> nat \<Rightarrow> bool" where
  "due r k \<longleftrightarrow> \<not> (every_n r = 0 \<or> int k mod every_n r \<noteq> 0)"

definition touch_region :: "nat \<Rightarrow> region_spec \<times> memory \<Rightarrow> region_spec \<times> memory" where
  "touch_region k rm = (fst rm, if due (fst rm) k then touch_pages (snd rm) else snd rm)"

fun hex_text :: "nat \<Rightarrow> nat \<Rightarrow> string" where
  "hex_text 0 n = []"
| "hex_text (Suc fuel) n = (if n < 16 then [hex_digit n] else hex_text fuel (n div 16) @ [hex_digit (n mod 16)])"

definition pad_left :: "nat \<Rightarrow> string \<Rightarrow> string" where "pad_left w s = replicate (w - length s) (CHR '' '') @ s"
definition pad_right :: "nat \<Rightarrow> string \<Rightarrow> string" where "pad_right w s = s @ replicate (w - length s) (CHR '' '')"

definition region_line :: "region_spec \<Rightarrow> string" where
  "region_line r = py_join '' | '' [pad_left 6 (int_str (rg_index r)), ''0x'' @ hex_text 64 (nat (rg_address r)),
     pad_left 4 (int_str (rg_size r div (1024 * 1024))) @ ''MB'', pad_right 7 (rg_pattern r),
     pad_left 17 (int_str (nr_accesses r)), classification r]"

definition region_table :: "region_spec list \<Rightarrow> string list" where
  "region_table rs =
     ''Region | Addr       | Size  | Pattern | DAMON nr_accesses | Classification'' # map region_line rs"

text \<open>Iteration \<open>k\<close> reads the clock once, and polls the files as they are then. The results: the regions with
  their memory, the printed lines, and the number of iterations.\<close>

partial_function (option) damon_loop ::
  "conversions \<Rightarrow> (nat \<Rightarrow> pyfloat) \<Rightarrow> (nat \<Rightarrow> string \<Rightarrow> string option) \<Rightarrow> string \<Rightarrow> pyfloat \<Rightarrow> nat \<Rightarrow> (region_spec \<times> memory) list
   \<Rightarrow> string list \<Rightarrow> ((region_spec \<times> memory) list \<times> string list \<times> nat) option"
where
  "damon_loop c clock sysfs admin duration k regions printed =
     (if fsub (clock (Suc k)) (clock 0) < duration then
        let touched = map (touch_region k) regions;
            polled = poll_access_counts c (sysfs k) admin (map fst touched)
        in damon_loop c clock sysfs admin duration (Suc k) (zip polled (map snd touched)) (printed @ region_table polled @ [[]])
      else Some (regions, printed, k))"

section \<open>The program\<close>

record controller_args =
  ct_regions :: int
  ct_region_mb :: int
  ct_duration_sec :: int
  ct_poll_sec :: int
  ct_sample_ms :: int
  ct_aggregate_ms :: int
  ct_sysfs_root :: string

definition region_asdict :: "region_spec \<Rightarrow> jdict" where
  "region_asdict r = [(''index'', JInt (rg_index r)), (''address'', JInt (rg_address r)), (''size_bytes'', JInt (rg_size r)),
     (''pattern'', JStr (rg_pattern r)), (''every_n'', JInt (every_n r)), (''nr_accesses'', JInt (nr_accesses r)),
     (''classification'', JStr (classification r))]"

definition damon_report :: "int \<Rightarrow> string \<Rightarrow> controller_args \<Rightarrow> region_spec list \<Rightarrow> jdict" where
  "damon_report pid now a rs =
     [(''pid'', JInt pid), (''duration_sec'', JInt (ct_duration_sec a)), (''sample_ms'', JInt (ct_sample_ms a)),
      (''aggregate_ms'', JInt (ct_aggregate_ms a)), (''regions'', JList (map (\<lambda>r. JDict (region_asdict r)) rs)),
      (''generated_at'', JStr now),
      (''note'', JStr ''DAMON access counts are sampled from Linux sysfs and remain an experimental hotness proxy.'')]"

text \<open>What the program did: the sysfs files it wrote, in order, the lines it printed, and the text of its report. Whether the
  interface exists and whether the user is root are arguments.\<close>

record controller_trace =
  ctl_writes :: "(string \<times> string) list"
  ctl_printed :: "string list"
  ctl_report :: "string option"

definition controller_main ::
  "conversions \<Rightarrow> (nat \<Rightarrow> int option) \<Rightarrow> (nat \<Rightarrow> pyfloat) \<Rightarrow> (nat \<Rightarrow> string \<Rightarrow> string option) \<Rightarrow> bool \<Rightarrow> bool \<Rightarrow> int \<Rightarrow> string
   \<Rightarrow> string \<Rightarrow> controller_args \<Rightarrow> (unit result \<times> controller_trace) option" where
  "controller_main c mmap clock sysfs present is_root pid now here a =
     (let idle = \<lparr>ctl_writes = [], ctl_printed = [], ctl_report = None\<rparr>; admin = ct_sysfs_root a
      in if \<not> present then Some (Inl (SystemExit (''DAMON sysfs root not found: '' @ admin)), idle)
         else if \<not> is_root then Some (Inl (SystemExit ''Run with sudo so DAMON sysfs can be configured.''), idle)
         else case make_regions mmap (ct_regions a) (ct_region_mb a) of
           Inl e \<Rightarrow> Some (Inl e, idle)
         | Inr regions \<Rightarrow>
             (case damon_loop c clock sysfs admin (int_to_float (ct_duration_sec a)) 0 regions
                [''Configured DAMON for PID '' @ int_str pid @ '' with '' @ nat_str (length regions) @ '' regions.'',
                 ''Polling every '' @ int_str (ct_poll_sec a) @ ''s for '' @ int_str (ct_duration_sec a) @ ''s.''] of
                None \<Rightarrow> None
              | Some (rs, printed, k) \<Rightarrow> Some (Inr (), \<lparr>
                  ctl_writes = configure_damon admin pid (map fst regions) (ct_sample_ms a * 1000) (ct_aggregate_ms a * 1000)
                    @ [(sub_path (kdamond_of admin) ''state'', ''off'' @ newline)],
                  ctl_printed = printed @ [''Wrote '' @ here @ ''/results/damon_hotness_result.json''],
                  ctl_report = Some (json_pretty 0 (JDict (damon_report pid now a (map fst rs))) @ newline)\<rparr>)))"

section \<open>The workload\<close>

record schedule =
  next_hot :: pyfloat
  next_warm :: pyfloat
  next_cold :: pyfloat
  next_progress :: pyfloat
  hot_mem :: memory
  warm_mem :: memory
  cold_mem :: memory
  progress :: "string list"

record region_args =
  hot_mb :: int
  warm_mb :: int
  cold_mb :: int
  run_sec :: pyfloat
  hot_interval_ms :: pyfloat
  warm_interval_ms :: pyfloat
  cold_interval_ms :: pyfloat

definition schedule_step :: "region_args \<Rightarrow> pyfloat \<Rightarrow> pyfloat \<Rightarrow> schedule \<Rightarrow> schedule" where
  "schedule_step a start now s =
     (let s1 = (if next_hot s \<le> now then s\<lparr>hot_mem := touch_pages (hot_mem s),
              next_hot := fadd now (fdiv (hot_interval_ms a) 1000)\<rparr> else s);
          s2 = (if next_warm s1 \<le> now then s1\<lparr>warm_mem := touch_pages (warm_mem s1),
              next_warm := fadd now (fdiv (warm_interval_ms a) 1000)\<rparr> else s1);
          s3 = (if next_cold s2 \<le> now then s2\<lparr>cold_mem := touch_pages (cold_mem s2),
              next_cold := fadd now (fdiv (cold_interval_ms a) 1000)\<rparr> else s2)
      in if next_progress s3 \<le> now then s3\<lparr>progress := progress s3 @ [''Progress: '' @ fixed 1 (fsub now start) @ ''s / ''
              @ fixed 1 (run_sec a) @ ''s''], next_progress := fadd now 5\<rparr> else s3)"

partial_function (option) schedule_loop ::
  "region_args \<Rightarrow> (nat \<Rightarrow> pyfloat) \<Rightarrow> pyfloat \<Rightarrow> nat \<Rightarrow> schedule \<Rightarrow> schedule option"
where
  "schedule_loop a clock stop k s =
     (if clock (2 * k + 1) < stop then schedule_loop a clock stop (Suc k) (schedule_step a (clock 0) (clock (2 * k + 2)) s)
      else Some s)"

definition region_workload :: "region_args \<Rightarrow> (nat \<Rightarrow> pyfloat) \<Rightarrow> schedule option" where
  "region_workload a clock =
     (let start = clock 0 in
      schedule_loop a clock (fadd start (run_sec a)) 0
        \<lparr>next_hot = start, next_warm = start, next_cold = start, next_progress = fadd start 5,
         hot_mem = workload_region (hot_mb a), warm_mem = workload_region (warm_mb a), cold_mem = workload_region (cold_mb a),
         progress = []\<rparr>)"

end
