(* ===== verification/DamonLaws.thy ===== *)
theory DamonLaws
  imports DamonControl
begin

text \<open>
  What the DAMON controller and its workload do to memory and to the kernel interface: the pages a touch changes
  and how often each region is touched, the order of the configuration, and the allocation that raises.
\<close>

section \<open>Multiples below a bound\<close>

lemma multiple_below: "0 < e \<Longrightarrow> p < (n + e - 1) div e \<longleftrightarrow> p * e < (n :: nat)"
proof -
  assume e: "0 < e"
  have "p < (n + e - 1) div e \<longleftrightarrow> Suc p * e \<le> n + e - 1"
    using less_eq_div_iff_mult_less_eq [OF e, of "Suc p" "n + e - 1"] by (simp only: Suc_le_eq)
  also have "\<dots> \<longleftrightarrow> p * e < n" using e by (simp add: algebra_simps) linarith
  finally show ?thesis .
qed

lemma multiples_below:
  assumes "0 < (e :: nat)"
  shows "{k. k < n \<and> e dvd k} = (\<lambda>p. p * e) ` {..<(n + e - 1) div e}"
proof (intro equalityI subsetI)
  fix k assume "k \<in> {k. k < n \<and> e dvd k}"
  then obtain p where "k = p * e" "p * e < n" by (auto simp: dvd_def mult.commute)
  then show "k \<in> (\<lambda>p. p * e) ` {..<(n + e - 1) div e}" using multiple_below [OF assms] by blast
next
  fix k assume "k \<in> (\<lambda>p. p * e) ` {..<(n + e - 1) div e}"
  then obtain p where "k = p * e" "p < (n + e - 1) div e" by blast
  then show "k \<in> {k. k < n \<and> e dvd k}" using multiple_below [OF assms] by simp
qed

lemma count_multiples: "0 < e \<Longrightarrow> card {k. k < n \<and> e dvd k} = (n + e - 1) div (e :: nat)"
  unfolding multiples_below by (simp add: card_image inj_on_def)

lemma page_offsets_set: "set (page_offsets n) = {i. i < n \<and> 4096 dvd i}"
proof -
  have "n + 4096 - 1 = n + 4095" by simp
  with multiples_below [of 4096 n] show ?thesis by (simp only: page_offsets_def set_map atLeast_upt [symmetric])
qed

lemma page_offsets_distinct: "distinct (page_offsets n)"
  by (simp add: page_offsets_def distinct_map inj_on_def)

section \<open>Touching pages\<close>

lemma fold_pages:
  assumes "distinct os" "\<forall>i \<in> set os. i < length m"
  shows "length (fold (\<lambda>i m. m[i := f i (m ! i)]) os m) = length m
    \<and> (\<forall>i < length m. fold (\<lambda>i m. m[i := f i (m ! i)]) os m ! i = (if i \<in> set os then f i (m ! i) else m ! i))"
  using assms
proof (induction os arbitrary: m)
  case (Cons x os)
  from Cons.IH [of "m[x := f x (m ! x)]"] Cons.prems show ?case by (auto simp: nth_list_update)
qed simp

lemma touch_pages_nth:
  "length (touch_pages m) = length m"
  "i < length m \<Longrightarrow> touch_pages m ! i = m ! i + (if 4096 dvd i then 1 else 0)"
  using fold_pages [OF page_offsets_distinct, of "length m" m "\<lambda>_ b. b + 1"]
  by (simp_all add: touch_pages_def page_offsets_set)

lemma fresh_pages_nth:
  "length (fresh_pages g n) = n" "i < n \<Longrightarrow> fresh_pages g n ! i = (if 4096 dvd i then g (i div 4096) else 0)"
  using fold_pages [OF page_offsets_distinct, of n "replicate n 0" "\<lambda>i _. g (i div 4096)"]
  by (simp_all add: fresh_pages_def page_offsets_set)

lemma touches_nth:
  "length ((touch_pages ^^ n) m) = length m"
  "i < length m \<Longrightarrow> (touch_pages ^^ n) m ! i = m ! i + (if 4096 dvd i then of_nat n else 0)"
  by (induction n) (simp_all add: touch_pages_nth)

text \<open>Touching a fresh region n times leaves the first byte of page p at p + n modulo 256 and every other byte at 0:
  the touches reach each page exactly once, and the byte wraps around.\<close>

theorem touched_pages:
  assumes "i < nat (size_mb * 1024 * 1024)"
  shows "unat ((touch_pages ^^ n) (workload_region size_mb) ! i) = (if 4096 dvd i then (i div 4096 + n) mod 256 else 0)"
  using assms touches_nth(2) [of i "workload_region size_mb" n]
  by (simp add: workload_region_def fresh_pages_nth unat_of_nat flip: of_nat_add)

theorem touched_pages_witness:
  "unat ((touch_pages ^^ 300) (workload_region 1) ! 8192) = 46"
  using touched_pages [of 8192 1 300] by simp

section \<open>How often a region is touched\<close>

definition touches :: "region_spec \<Rightarrow> nat \<Rightarrow> nat" where "touches r n = card {k. k < n \<and> due r k}"

lemma touches_Suc: "touches r (Suc n) = touches r n + (if due r n then 1 else 0)"
proof -
  have "{k. k < Suc n \<and> due r k} = (if due r n then insert n {k. k < n \<and> due r k} else {k. k < n \<and> due r k})"
    by (auto simp: less_Suc_eq)
  then show ?thesis by (simp add: touches_def)
qed

lemma touches_0 [simp]: "touches r 0 = 0"
  by (simp add: touches_def)

lemma touches_count:
  assumes "0 \<le> every_n r"
  shows "touches r n = (if every_n r = 0 then 0 else (n + nat (every_n r) - 1) div nat (every_n r))"
proof (cases "every_n r = 0")
  case False
  then have e: "every_n r = int (nat (every_n r))" "0 < nat (every_n r)" using assms by simp_all
  have "due r k \<longleftrightarrow> nat (every_n r) dvd k" for k
    using False e(1) by (metis due_def dvd_eq_mod_eq_0 int_dvd_int_iff)
  then show ?thesis using False count_multiples [OF e(2)] by (simp add: touches_def)
qed (simp add: touches_def due_def)

definition same_region :: "region_spec \<Rightarrow> region_spec \<Rightarrow> bool" where
  "same_region r s \<longleftrightarrow> rg_index s = rg_index r \<and> rg_address s = rg_address r \<and> rg_size s = rg_size r
     \<and> rg_pattern s = rg_pattern r \<and> every_n s = every_n r"

lemma same_region_refl [simp]: "same_region r r" "same_region r (poll_region c f admin r)"
  by (simp_all add: same_region_def poll_region_def Let_def)

lemma same_region_due: "same_region r s \<Longrightarrow> due s k = due r k"
  by (simp add: same_region_def due_def)

text \<open>The state at the head of iteration \<open>k\<close>.\<close>

definition after :: "nat \<Rightarrow> region_spec \<times> memory \<Rightarrow> region_spec \<times> memory \<Rightarrow> bool" where
  "after k rm sm \<longleftrightarrow> same_region (fst rm) (fst sm) \<and> snd sm = (touch_pages ^^ touches (fst rm) k) (snd rm)
     \<and> (0 < k \<longrightarrow> classification (fst sm) = infer_classification (nr_accesses (fst sm)))"

lemma after_one:
  assumes "after k rm sm"
  shows "after (Suc k) rm (poll_region c f admin (fst sm), snd (touch_region k sm))"
proof -
  have "classification (poll_region c f admin r) = infer_classification (nr_accesses (poll_region c f admin r))" for r
    by (simp add: poll_region_def Let_def)
  moreover have "same_region (fst rm) (poll_region c f admin (fst sm))"
    using assms by (simp add: after_def same_region_def poll_region_def Let_def)
  moreover have "due (fst sm) k = due (fst rm) k" using assms same_region_due by (simp add: after_def)
  ultimately show ?thesis using assms by (simp add: after_def touch_region_def touches_Suc)
qed

lemma after_step:
  assumes "list_all2 (after k) rs ss"
  shows "list_all2 (after (Suc k)) rs
    (zip (poll_access_counts c f admin (map fst (map (touch_region k) ss))) (map snd (map (touch_region k) ss)))"
proof -
  have eq: "zip (poll_access_counts c f admin (map fst (map (touch_region k) ss))) (map snd (map (touch_region k) ss))
      = map (\<lambda>x. (poll_region c f admin (fst x), snd (touch_region k x))) ss"
    by (simp add: poll_access_counts_def zip_map_map zip_same_conv_map touch_region_def)
  show ?thesis unfolding eq list.rel_map by (rule list_all2_mono [OF assms after_one])
qed

lemma damon_loop_ends:
  assumes stop: "\<not> fsub (clock (Suc n)) (clock 0) < duration" "\<forall>k < n. fsub (clock (Suc k)) (clock 0) < duration"
  shows "k \<le> n \<Longrightarrow> list_all2 (after k) rs ss
    \<Longrightarrow> \<exists>ts out. damon_loop c clock sysfs admin duration k ss printed = Some (ts, out, n) \<and> list_all2 (after n) rs ts"
proof (induction "n - k" arbitrary: k ss printed)
  case 0
  then have "k = n" by simp
  with 0 stop(1) show ?case by (subst damon_loop.simps) simp
next
  case (Suc d)
  then have k: "k < n" "d = n - Suc k" by simp_all
  let ?p = "poll_access_counts c (sysfs k) admin (map fst (map (touch_region k) ss))"
  from Suc.hyps(1) [OF k(2) _ after_step [OF Suc.prems(2)], of c "sysfs k" admin "printed @ region_table ?p @ [[]]"] k(1)
  show ?case using stop(2) by (subst damon_loop.simps) (simp add: Let_def del: map_map)
qed

text \<open>C33: The controller runs exactly as many iterations as the clock allows, and in n iterations touches a region of
  period e \<open>\<lceil>n / e\<rceil>\<close> times (a cold region, of period 0, never): the first byte of each of its pages has grown by
  that number modulo 256 and no other byte has changed. The regions keep their identity, and after the last poll
  each is classified by its access count.\<close>

theorem controller_touches:
  assumes "\<forall>k < n. fsub (clock (Suc k)) (clock 0) < duration" "\<not> fsub (clock (Suc n)) (clock 0) < duration"
    "\<forall>(r, m) \<in> set regions. 0 \<le> every_n r"
  shows "\<exists>ts out. damon_loop c clock sysfs admin duration 0 regions [] = Some (ts, out, n) \<and> length ts = length regions
    \<and> (\<forall>j < length regions. case (regions ! j, ts ! j) of ((r, m), (s, m')) \<Rightarrow>
        rg_index s = rg_index r \<and> rg_address s = rg_address r \<and> length m' = length m
        \<and> (\<forall>i < length m. m' ! i = m ! i + (if 4096 dvd i \<and> every_n r \<noteq> 0
              then of_nat ((n + nat (every_n r) - 1) div nat (every_n r)) else 0))
        \<and> (0 < n \<longrightarrow> classification s = infer_classification (nr_accesses s)))"
proof -
  have start: "list_all2 (after 0) regions regions" by (simp add: list_all2_conv_all_nth after_def)
  obtain ts out where ts: "damon_loop c clock sysfs admin duration 0 regions [] = Some (ts, out, n)" "list_all2 (after n) regions ts"
    using damon_loop_ends [OF assms(2,1) le0 start] by blast
  have "case (regions ! j, ts ! j) of ((r, m), (s, m')) \<Rightarrow>
        rg_index s = rg_index r \<and> rg_address s = rg_address r \<and> length m' = length m
        \<and> (\<forall>i < length m. m' ! i = m ! i + (if 4096 dvd i \<and> every_n r \<noteq> 0
              then of_nat ((n + nat (every_n r) - 1) div nat (every_n r)) else 0))
        \<and> (0 < n \<longrightarrow> classification s = infer_classification (nr_accesses s))" if j: "j < length regions" for j
  proof -
    obtain r m s m' where eq: "regions ! j = (r, m)" "ts ! j = (s, m')" by (metis prod.exhaust)
    have a: "after n (r, m) (s, m')" using list_all2_nthD [OF ts(2) j] by (simp only: eq)
    have "0 \<le> every_n r" using assms(3) nth_mem [OF j] by (simp add: eq split_beta) (metis eq(1) fst_conv)
    from touches_count [OF this, of n] have "m' ! i = m ! i + (if 4096 dvd i \<and> every_n r \<noteq> 0
              then of_nat ((n + nat (every_n r) - 1) div nat (every_n r)) else 0)" if "i < length m" for i
      using a touches_nth(2) [OF that] by (simp add: after_def)
    with a show ?thesis by (simp add: eq after_def same_region_def touches_nth(1))
  qed
  with ts list_all2_lengthD [OF ts(2)] show ?thesis by (intro exI [of _ ts] exI [of _ out]) simp
qed

definition sample_region :: "int \<Rightarrow> int \<Rightarrow> region_spec" where
  "sample_region index period = \<lparr>rg_index = index, rg_address = 65536 * (index + 1), rg_size = 2, rg_pattern = ''WARM'', every_n = period,
     nr_accesses = 0, classification = ''UNKNOWN''\<rparr>"

theorem controller_touches_witness:
  "\<forall>c. \<exists>ts out. damon_loop c (\<lambda>k. of_nat k) (\<lambda>_ _. None) ''admin'' 7 0 [(sample_region 0 1, [255, 9]), (sample_region 1 5, [0, 7])] []
     = Some (ts, out, 6) \<and> snd (ts ! 0) ! 0 = 5 \<and> snd (ts ! 1) ! 0 = 2"
proof
  fix c
  let ?rs = "[(sample_region 0 1, [255, 9]), (sample_region 1 5, [0, 7])] :: (region_spec \<times> memory) list"
  have sub: "fsub (of_nat (Suc k)) (of_nat 0) = of_nat (Suc k)" if "k \<le> 6" for k
    using that fl_of_int [of "int (Suc k)"] by (simp add: fsub_def)
  have "\<forall>k < 6. fsub (of_nat (Suc k)) (of_nat 0) < 7"
  proof (intro allI impI)
    fix k :: nat assume "k < 6"
    then have "(of_nat (Suc k) :: rat) < of_nat 7" by (simp only: of_nat_less_iff)
    with sub [of k] \<open>k < 6\<close> show "fsub (of_nat (Suc k)) (of_nat 0) < 7" by simp
  qed
  moreover have "\<not> fsub (of_nat (Suc 6)) (of_nat 0) < 7" using sub [of 6] by simp
  moreover have "\<forall>(r, m) \<in> set ?rs. 0 \<le> every_n r" by (simp add: sample_region_def)
  ultimately obtain ts out where "damon_loop c (\<lambda>k. of_nat k) (\<lambda>_ _. None) ''admin'' 7 0 ?rs [] = Some (ts, out, 6)"
    and all: "\<forall>j < length ?rs. case (?rs ! j, ts ! j) of ((r, m), (s, m')) \<Rightarrow>
        rg_index s = rg_index r \<and> rg_address s = rg_address r \<and> length m' = length m
        \<and> (\<forall>i < length m. m' ! i = m ! i + (if 4096 dvd i \<and> every_n r \<noteq> 0
              then of_nat ((6 + nat (every_n r) - 1) div nat (every_n r)) else 0))
        \<and> (0 < (6 :: nat) \<longrightarrow> classification s = infer_classification (nr_accesses s))"
    using controller_touches [of 6 "\<lambda>k. of_nat k" 7 ?rs c "\<lambda>_ _. None" "''admin''"] by blast
  moreover have "snd (ts ! 0) ! 0 = 5" "snd (ts ! 1) ! 0 = 2"
    using spec [OF all, of 0] spec [OF all, of 1] by (auto simp: sample_region_def split: prod.splits)
  ultimately show "\<exists>ts out. damon_loop c (\<lambda>k. of_nat k) (\<lambda>_ _. None) ''admin'' 7 0 ?rs [] = Some (ts, out, 6)
      \<and> snd (ts ! 0) ! 0 = 5 \<and> snd (ts ! 1) ! 0 = 2" by blast
qed

section \<open>Allocation\<close>

text \<open>The controller never gets a region: with at least one region requested and a successful \<open>mmap\<close>,
  \<open>make_regions\<close> raises ValueError on the first one, because it unpacks three values from the pair
  that \<open>allocate_region\<close> returns.\<close>

theorem make_regions_raises:
  assumes "1 \<le> n" "mmap 0 = Some address" "address \<noteq> 0" "address \<noteq> 2 ^ 64 - 1"
  shows "make_regions mmap n size_mb = Inl (ValueError ''not enough values to unpack (expected 3, got 2)'')"
proof -
  have "[0..n - 1] = 0 # [1..n - 1]" using assms(1) by (simp add: upto_rec1)
  moreover have "nat_str 2 = ''2''" by code_simp
  ultimately show ?thesis
    using assms(2-4) by (simp add: make_regions_def make_region_def allocate_region_def unpack3_def numeral_2_eq_2)
qed

theorem make_regions_raises_witness:
  "make_regions (\<lambda>k. Some (65536 * int (k + 1))) 8 64 = Inl (ValueError ''not enough values to unpack (expected 3, got 2)'')"
  by (rule make_regions_raises [of _ _ 65536]) simp_all

text \<open>C37: The controller never measures anything: with at least one region requested, whatever \<open>mmap\<close> answers and however the
  program is started, it raises before it writes the first sysfs file, prints a line or leaves a report. Started as
  root where the interface exists and with a successful \<open>mmap\<close>, the exception is the ValueError of unpacking three
  values from the pair that \<open>allocate_region\<close> returns.\<close>

theorem controller_never_measures:
  assumes "1 \<le> ct_regions a"
  shows "\<exists>e. controller_main c mmap clock sysfs present is_root pid now here a
      = Some (Inl e, \<lparr>ctl_writes = [], ctl_printed = [], ctl_report = None\<rparr>)
    \<and> (present \<and> is_root \<and> mmap 0 = Some address \<and> address \<noteq> 0 \<and> address \<noteq> 2 ^ 64 - 1
        \<longrightarrow> e = ValueError ''not enough values to unpack (expected 3, got 2)'')"
proof -
  let ?unpacked = "\<lambda>x. x \<noteq> 0 \<and> x \<noteq> 2 ^ 64 - (1 :: int)"
  have first: "[0..ct_regions a - 1] = 0 # [1..ct_regions a - 1]" using assms by (simp add: upto_rec1)
  have "\<exists>e. make_regions mmap (ct_regions a) (ct_region_mb a) = Inl e
      \<and> (mmap 0 = Some address \<and> ?unpacked address \<longrightarrow> e = ValueError ''not enough values to unpack (expected 3, got 2)'')"
  proof (cases "\<exists>x. mmap 0 = Some x \<and> ?unpacked x")
    case True
    with make_regions_raises [of "ct_regions a" mmap] assms show ?thesis by auto
  next
    case False
    then show ?thesis by (cases "mmap 0") (auto simp: make_regions_def first make_region_def allocate_region_def)
  qed
  then consider e where "make_regions mmap (ct_regions a) (ct_region_mb a) = Inl e"
    "mmap 0 = Some address \<and> ?unpacked address \<longrightarrow> e = ValueError ''not enough values to unpack (expected 3, got 2)''" by blast
  then show ?thesis by cases (auto simp: controller_main_def Let_def)
qed

definition sample_controller :: controller_args where
  "sample_controller = \<lparr>ct_regions = 8, ct_region_mb = 64, ct_duration_sec = 30, ct_poll_sec = 2, ct_sample_ms = 5,
     ct_aggregate_ms = 100, ct_sysfs_root = ''/sys/kernel/mm/damon/admin''\<rparr>"

theorem controller_never_measures_witness:
  "\<forall>c clock sysfs pid now here. controller_main c (\<lambda>k. Some (65536 * int (k + 1))) clock sysfs True True pid now here sample_controller
    = Some (Inl (ValueError ''not enough values to unpack (expected 3, got 2)''), \<lparr>ctl_writes = [], ctl_printed = [], ctl_report = None\<rparr>)"
proof (intro allI)
  fix c clock sysfs pid now here
  have "1 \<le> ct_regions sample_controller" by (simp add: sample_controller_def)
  from controller_never_measures [OF this, of c "\<lambda>k. Some (65536 * int (k + 1))" clock sysfs True True pid now here 65536]
  show "controller_main c (\<lambda>k. Some (65536 * int (k + 1))) clock sysfs True True pid now here sample_controller
    = Some (Inl (ValueError ''not enough values to unpack (expected 3, got 2)''), \<lparr>ctl_writes = [], ctl_printed = [], ctl_report = None\<rparr>)"
    by auto
qed

section \<open>Configuration\<close>

text \<open>The content of a sysfs file after some writes.\<close>

definition sysfs_after :: "(string \<times> string) list \<Rightarrow> string \<Rightarrow> string option" where
  "sysfs_after ws = map_of (rev ws)"

lemma sysfs_after_append: "sysfs_after (xs @ ys) p = (case sysfs_after ys p of None \<Rightarrow> sysfs_after xs p | Some t \<Rightarrow> Some t)"
  by (simp add: sysfs_after_def map_add_def split: option.splits)

lemma sysfs_after_last: "sysfs_after (xs @ [(q, t)]) p = (if p = q then Some t else sysfs_after xs p)"
  by (simp add: sysfs_after_def)

definition start_path :: "string \<Rightarrow> region_spec \<Rightarrow> string" where
  "start_path admin r = sub_path (sub_path (regions_dir admin) (int_str (rg_index r))) ''start''"

definition end_path :: "string \<Rightarrow> region_spec \<Rightarrow> string" where
  "end_path admin r = sub_path (sub_path (regions_dir admin) (int_str (rg_index r))) ''end''"

lemma region_writes_paths: "region_writes admin r
    = [(start_path admin r, sysfs_line (rg_address r)), (end_path admin r, sysfs_line (rg_address r + rg_size r))]"
  by (simp add: region_writes_def start_path_def end_path_def Let_def)

lemma start_not_end: "start_path admin r \<noteq> end_path admin s"
proof
  assume "start_path admin r = end_path admin s"
  then have "last (start_path admin r) = last (end_path admin s)" by simp
  then show False by (simp add: start_path_def end_path_def sub_path_def)
qed

lemma region_paths:
  "start_path admin r = start_path admin s \<longleftrightarrow> rg_index r = rg_index s" "end_path admin r = end_path admin s \<longleftrightarrow> rg_index r = rg_index s"
  "start_path admin r \<noteq> sub_path (kdamond_of admin) ''state''" "end_path admin r \<noteq> sub_path (kdamond_of admin) ''state''"
  by (simp_all add: start_path_def end_path_def sub_path_def regions_dir_def)

lemma region_writes_distinct:
  "distinct (map rg_index rs) \<Longrightarrow> distinct (map fst (concat (map (region_writes admin) rs)))"
  by (induction rs) (auto simp: region_writes_paths region_paths start_not_end start_not_end [symmetric])

lemma sysfs_after_member:
  assumes "distinct (map fst ws)" "(p, t) \<in> set ws"
  shows "sysfs_after ws p = Some t"
proof -
  have "distinct (map fst (rev ws))" using assms(1) by (simp add: rev_map [symmetric])
  then show ?thesis unfolding sysfs_after_def using assms(2) by (intro map_of_is_SomeI) simp_all
qed

text \<open>The controller configures the kernel in the right order and completely: it creates the worker and switches it off,
  writes everything else without touching its state, and switches it on last; and when the regions have
  distinct indices, the files then give for each region the address where it starts and the one where it ends.\<close>

theorem configuration_complete:
  assumes "distinct (map rg_index regions)"
  shows "\<exists>writes. configure_damon admin pid regions sample_us aggr_us
        = [(sub_path admin ''nr_kdamonds'', sysfs_line 1), (sub_path (kdamond_of admin) ''state'', ''off'' @ newline)]
          @ writes @ [(sub_path (kdamond_of admin) ''state'', ''on'' @ newline)]
      \<and> sub_path (kdamond_of admin) ''state'' \<notin> fst ` set writes
    \<and> (\<forall>r \<in> set regions.
        sysfs_after (configure_damon admin pid regions sample_us aggr_us) (start_path admin r) = Some (sysfs_line (rg_address r))
      \<and> sysfs_after (configure_damon admin pid regions sample_us aggr_us) (end_path admin r) = Some (sysfs_line (rg_address r + rg_size r)))"
proof -
  let ?ws = "concat (map (region_writes admin) regions)"
  define pre where "pre = [(sub_path (kdamond_of admin) ''nr_contexts'', sysfs_line 1),
    (sub_path (sub_path (kdamond_of admin) ''contexts/0'') ''operations'', ''vaddr'' @ newline),
    (sub_path (sub_path (sub_path (kdamond_of admin) ''contexts/0'') ''monitoring_attrs/intervals'') ''sample_us'', sysfs_line sample_us),
    (sub_path (sub_path (sub_path (kdamond_of admin) ''contexts/0'') ''monitoring_attrs/intervals'') ''aggr_us'', sysfs_line aggr_us),
    (sub_path (sub_path (sub_path (kdamond_of admin) ''contexts/0'') ''monitoring_attrs/intervals'') ''update_us'', sysfs_line aggr_us),
    (sub_path (sub_path (kdamond_of admin) ''contexts/0'') ''nr_targets'', sysfs_line 1),
    (sub_path (sub_path (sub_path (kdamond_of admin) ''contexts/0'') ''targets/0'') ''pid_target'', sysfs_line pid),
    (sub_path (sub_path (sub_path (kdamond_of admin) ''contexts/0'') ''targets/0'') ''nr_regions'', sysfs_line (int (length regions)))]"
  let ?first = "[(sub_path admin ''nr_kdamonds'', sysfs_line 1), (sub_path (kdamond_of admin) ''state'', ''off'' @ newline)]"
  let ?on = "[(sub_path (kdamond_of admin) ''state'', ''on'' @ newline)]"
  have eq: "configure_damon admin pid regions sample_us aggr_us = ?first @ (pre @ ?ws) @ ?on"
    by (simp add: configure_damon_def Let_def pre_def)
  have "sub_path (kdamond_of admin) ''state'' \<notin> fst ` set pre" by (simp add: pre_def sub_path_def)
  moreover have "sub_path (kdamond_of admin) ''state'' \<notin> fst ` set ?ws"
    using region_paths(3,4) by (auto simp: region_writes_paths) metis+
  ultimately have quiet: "sub_path (kdamond_of admin) ''state'' \<notin> fst ` set (pre @ ?ws)" by (simp add: image_Un)
  have files: "sysfs_after (?first @ (pre @ ?ws) @ ?on) p = Some t"
    if "(p, t) \<in> set ?ws" "p \<noteq> sub_path (kdamond_of admin) ''state''" for p t
  proof -
    have "sysfs_after ((?first @ pre) @ ?ws) p = Some t"
      using sysfs_after_member [OF region_writes_distinct [OF assms] that(1)] unfolding sysfs_after_append by simp
    then show ?thesis using sysfs_after_last [of "(?first @ pre) @ ?ws"] that(2) by simp
  qed
  have member: "(start_path admin r, sysfs_line (rg_address r)) \<in> set ?ws"
    "(end_path admin r, sysfs_line (rg_address r + rg_size r)) \<in> set ?ws" if "r \<in> set regions" for r
    using that by (auto simp: region_writes_paths)
  show ?thesis
    unfolding eq using quiet files [OF member(1) region_paths(3)] files [OF member(2) region_paths(4)] by blast
qed

theorem configuration_complete_witness:
  "sysfs_after (configure_damon ''admin'' 42 [sample_region 0 1, sample_region 1 5] 5000 100000)
      (end_path ''admin'' (sample_region 1 5)) = Some (sysfs_line 131074)"
proof -
  have "distinct (map rg_index [sample_region 0 1, sample_region 1 5])" by (simp add: sample_region_def)
  from configuration_complete [OF this, of "''admin''" 42 5000 100000]
  have "sysfs_after (configure_damon ''admin'' 42 [sample_region 0 1, sample_region 1 5] 5000 100000)
      (end_path ''admin'' (sample_region 1 5)) = Some (sysfs_line (rg_address (sample_region 1 5) + rg_size (sample_region 1 5)))"
    by (metis list.set_intros(1) list.set_intros(2))
  then show ?thesis by (simp add: sample_region_def)
qed

end
