(* ===== verification/Disaggregated.thy ===== *)
theory Disaggregated
  imports Workload Report
begin

text \<open>
  The disaggregated extension (\<open>src/disaggregated\<close>): the cluster topology, the remote memory intent and
  the run of \<open>DisaggregatedKVMemorySimulator\<close>. \<open>MemoryIntent\<close> is a dataclass with slots: an attribute
  that is no field cannot be set on it. The model keeps what is set beside the fields in a dictionary
  and takes the permission to do so, a predicate on names, as an argument; the program's is
  \<open>intent_slots\<close>, under which the run raises.
\<close>

section \<open>Topology\<close>

record node =
  node_id :: int
  node_role :: string
  hbm_gb :: int
  dram_gb :: int
  rtt_to :: "(int, int) dict"

fun find_node :: "node list \<Rightarrow> int \<Rightarrow> node result" where
  "find_node [] i = Inl (KeyError (int_str i))"
| "find_node (n # ns) i = (if node_id n = i then Inr n else find_node ns i)"

definition rtt_us :: "node list \<Rightarrow> int \<Rightarrow> int \<Rightarrow> int result" where
  "rtt_us nodes src dst =
     (if src = dst then Inr 0
      else bind_r (find_node nodes src) (\<lambda>n.
        case dict_get (rtt_to n) dst of None \<Rightarrow> Inl (KeyError (int_str dst)) | Some r \<Rightarrow> Inr r))"

definition default_topology :: "node list" where
  "default_topology =
     [\<lparr>node_id = 0, node_role = ''prefill'', hbm_gb = 80, dram_gb = 512, rtt_to = [(1, 50), (2, 200)]\<rparr>,
      \<lparr>node_id = 1, node_role = ''decode'', hbm_gb = 80, dram_gb = 512, rtt_to = [(0, 50), (2, 200)]\<rparr>,
      \<lparr>node_id = 2, node_role = ''storage'', hbm_gb = 0, dram_gb = 2048, rtt_to = [(0, 200), (1, 200)]\<rparr>]"

section \<open>Remote intents\<close>

record remote_intent =
  rm_base :: mintent
  rm_home_node_id :: int
  rm_replica_node_id :: int
  rm_network_rtt_us :: int
  rm_migration_in_flight :: bool

definition unreachable_in_time :: "remote_intent \<Rightarrow> bool" where
  "unreachable_in_time r =
     (case deadline_us (rm_base r) of None \<Rightarrow> False
      | Some d \<Rightarrow> of_int d < fmul (int_to_float (rm_network_rtt_us r)) (3 / 2))"

section \<open>Attributes set on an intent\<close>

type_synonym patched = "mintent \<times> jdict"

definition intent_slots :: "string list" where
  "intent_slots = [''object_id'', ''request_id'', ''block_id'', ''object_type'', ''phase'', ''priority'', ''allowed_tiers'',
     ''current_tier'', ''size_bytes'', ''request_priority'', ''recency_score'', ''deadline_us'', ''slack_us'',
     ''arrival_step'', ''target_decode_step'', ''expected_reuse_window_tokens'', ''recompute_cost_us'',
     ''spill_cost_us'', ''compression_ok'', ''recompute_ok'', ''prefetch_ok'', ''pin_requested'', ''is_draft'',
     ''is_committed'', ''created_step'', ''last_access_step'']"

definition set_attr :: "(string \<Rightarrow> bool) \<Rightarrow> string \<times> json \<Rightarrow> patched \<Rightarrow> patched result" where
  "set_attr slot kv p =
     (if slot (fst kv) then Inr (fst p, AList.update (fst kv) (snd kv) (snd p)) else Inl (AttributeError (fst kv)))"

definition get_int_attr :: "patched \<Rightarrow> string \<Rightarrow> int \<Rightarrow> int" where
  "get_int_attr p k fallback = (case dict_get (snd p) k of Some (JInt i) \<Rightarrow> i | _ \<Rightarrow> fallback)"

definition get_bool_attr :: "patched \<Rightarrow> string \<Rightarrow> bool \<Rightarrow> bool" where
  "get_bool_attr p k fallback = (case dict_get (snd p) k of Some (JBool b) \<Rightarrow> b | _ \<Rightarrow> fallback)"

definition remote_attrs_of :: "patched \<Rightarrow> remote_attrs" where
  "remote_attrs_of p = \<lparr>network_rtt_us = get_int_attr p ''network_rtt_us'' 0,
     migration_in_flight = get_bool_attr p ''migration_in_flight'' False,
     home_node_id = Some (get_int_attr p ''home_node_id'' 0)\<rparr>"

section \<open>The run\<close>

record disagg_state =
  cross_node_migrations :: int
  recompute_due_to_network_miss :: int
  local_hits :: int
  network_misses :: int
  remote_latencies :: "int list"

record disagg_result =
  dr_policy_name :: string
  dr_migrations :: int
  dr_recomputes :: int
  network_miss_rate :: pyfloat
  local_hit_rate :: pyfloat
  dr_p50 :: pyfloat
  dr_p95 :: pyfloat
  dr_p99 :: pyfloat

definition placement_attrs :: "node list \<Rightarrow> mintent \<Rightarrow> jdict result" where
  "placement_attrs nodes i =
     (let home = (if priority i \<noteq> COLD then 0 else 2) in
      bind_r (rtt_us nodes 1 home) (\<lambda>rtt.
      Inr [(''home_node_id'', JInt home), (''replica_node_id'', JInt (if priority i = DECODE_CRITICAL then 1 else 0)),
           (''network_rtt_us'', JInt rtt), (''migration_in_flight'', JBool False)]))"

definition disagg_event ::
  "(string \<Rightarrow> bool) \<Rightarrow> node list \<Rightarrow> int \<Rightarrow> mevent \<Rightarrow> disagg_state \<Rightarrow> disagg_state result" where
  "disagg_event slot nodes base ev s =
     bind_r (placement_attrs nodes (ev_intent ev)) (\<lambda>attrs.
     bind_r (copy_with id (ev_intent ev)) (\<lambda>i.
     bind_r (fold_r (set_attr slot) attrs (i, [])) (\<lambda>p.
       let s1 = (if get_int_attr p ''home_node_id'' 0 = 1 then s\<lparr>local_hits := local_hits s + 1\<rparr>
                 else if classify_retrieval (remote_attrs_of p) (fst p) = ''UNREACHABLE_IN_TIME''
                   then s\<lparr>recompute_due_to_network_miss := recompute_due_to_network_miss s + 1,
                          network_misses := network_misses s + 1\<rparr>
                 else s\<lparr>cross_node_migrations := cross_node_migrations s + 1\<rparr>)
       in Inr (s1\<lparr>remote_latencies := remote_latencies s1 @ [base + get_int_attr p ''network_rtt_us'' 0]\<rparr>))))"

definition disagg_workload :: "workload_profile \<Rightarrow> workload_options" where
  "disagg_workload prof = \<lparr>num_requests = 24, blocks_per_request = 12, wl_block_size = 1024 * 1024, decode_steps = 24,
     profile = prof\<rparr>"

definition disagg_config :: config where
  "disagg_config = (default_config (IntentFamily RemoteAwarePolicy) (128 * 1024 * 1024) (4 * 1024 * 1024 * 1024))
     \<lparr>miss_penalty_us := 5000\<rparr>"

definition disagg_summary :: "string \<Rightarrow> mevent list \<Rightarrow> disagg_state \<Rightarrow> disagg_result result" where
  "disagg_summary name trace s =
     (let total_remote = max (cross_node_migrations s + network_misses s) 1 in
      bind_r (percentile_ints (remote_latencies s) 50) (\<lambda>p50.
      bind_r (percentile_ints (remote_latencies s) 95) (\<lambda>p95.
      bind_r (percentile_ints (remote_latencies s) 99) (\<lambda>p99.
      Inr \<lparr>dr_policy_name = name, dr_migrations = cross_node_migrations s,
           dr_recomputes = recompute_due_to_network_miss s,
           network_miss_rate = fl (of_int (network_misses s) / of_int total_remote),
           local_hit_rate = fl (of_int (local_hits s) / of_int (max (int (length trace)) 1)),
           dr_p50 = p50, dr_p95 = p95, dr_p99 = p99\<rparr>))))"

definition disagg_run ::
  "(string \<Rightarrow> bool) \<Rightarrow> (nat \<Rightarrow> int) \<Rightarrow> node list \<Rightarrow> string \<Rightarrow> workload_profile \<Rightarrow> disagg_result result" where
  "disagg_run slot draw nodes name prof =
     bind_r (generate_synthetic_kv_workload draw (disagg_workload prof)) (\<lambda>trace.
     bind_r (fold_r (disagg_event slot nodes (base_step_latency_us disagg_config)) trace
        \<lparr>cross_node_migrations = 0, recompute_due_to_network_miss = 0, local_hits = 0, network_misses = 0,
         remote_latencies = []\<rparr>) (\<lambda>s.
     disagg_summary name trace s))"

text \<open>\<open>to_dict\<close> reads \<open>__dict__\<close>, which a dataclass with slots does not have.\<close>

definition disagg_to_dict :: "disagg_result \<Rightarrow> jdict result" where
  "disagg_to_dict r = Inl (AttributeError ''__dict__'')"

definition write_default_results :: "(string \<Rightarrow> bool) \<Rightarrow> (nat \<Rightarrow> int) \<Rightarrow> string result" where
  "write_default_results slot draw =
     bind_r (disagg_run slot draw default_topology ''RemoteAware'' deadline_pressure) (\<lambda>remote.
     let deadline = \<lparr>dr_policy_name = ''DeadlineAware'', dr_migrations = dr_migrations remote + 3,
           dr_recomputes = dr_recomputes remote + 2,
           network_miss_rate = min (fadd (network_miss_rate remote) (fl (8 / 100))) 1,
           local_hit_rate = max (fsub (local_hit_rate remote) (fl (4 / 100))) 0,
           dr_p50 = fadd (dr_p50 remote) 20, dr_p95 = fadd (dr_p95 remote) 80, dr_p99 = fadd (dr_p99 remote) 120\<rparr>
     in bind_r (disagg_to_dict deadline) (\<lambda>d. bind_r (disagg_to_dict remote) (\<lambda>r.
        Inr (json_pretty 0 (JList [JDict d, JDict r]) @ newline))))"

section \<open>Laws\<close>

text \<open>The topology is symmetric on its three nodes, and no link is free.\<close>

lemma default_topology_rtt:
  assumes "a \<in> {0, 1, 2}" "b \<in> {0, 1, 2}"
  shows "\<exists>r. rtt_us default_topology a b = Inr r \<and> rtt_us default_topology b a = Inr r \<and> 0 \<le> r \<and> (r = 0 \<longleftrightarrow> a = b)"
  using assms by (auto simp: rtt_us_def default_topology_def)

lemma placement_total:
  "\<exists>rtt. placement_attrs default_topology i = Inr [(''home_node_id'', JInt (if priority i \<noteq> COLD then 0 else 2)),
     (''replica_node_id'', JInt (if priority i = DECODE_CRITICAL then 1 else 0)),
     (''network_rtt_us'', JInt rtt), (''migration_in_flight'', JBool False)] \<and> rtt \<in> {50, 200}"
  by (auto simp: placement_attrs_def rtt_us_def default_topology_def Let_def)

text \<open>Under the program's slots the first attribute already fails.\<close>

lemma disagg_event_never: "valid_intent (ev_intent ev)
    \<Longrightarrow> disagg_event (\<lambda>k. k \<in> set intent_slots) default_topology base ev s = Inl (AttributeError ''home_node_id'')"
  using placement_total [of "ev_intent ev"]
  by (auto simp: disagg_event_def set_attr_def intent_slots_def)

lemma disagg_trace:
  assumes "valid_draws draw"
  shows "\<exists>es. generate_synthetic_kv_workload draw (disagg_workload prof) = Inr es \<and> es \<noteq> []
    \<and> (\<forall>e \<in> set es. valid_intent (ev_intent e))"
proof -
  have "0 < wl_block_size (disagg_workload prof)" "1 \<le> num_requests (disagg_workload prof)"
    "1 \<le> blocks_per_request (disagg_workload prof)" by (simp_all add: disagg_workload_def)
  with generate_total [OF assms, of "disagg_workload prof"]
  obtain es where "generate_synthetic_kv_workload draw (disagg_workload prof) = Inr es"
    "well_emitted (int (length es), es)" "es \<noteq> []" by blast
  then show ?thesis by (auto simp: well_emitted_def sound_def)
qed

text \<open>C28: The disaggregated run never returns a result on the default topology: the trace is never empty, and setting
  the first attribute on its first intent raises, for every profile and seed; so neither does the export
  of the default results write its file.\<close>

theorem disaggregated_run_raises:
  assumes "valid_draws draw"
  shows "disagg_run (\<lambda>k. k \<in> set intent_slots) draw default_topology name prof = Inl (AttributeError ''home_node_id'')
    \<and> write_default_results (\<lambda>k. k \<in> set intent_slots) draw = Inl (AttributeError ''home_node_id'')"
proof -
  have "disagg_run (\<lambda>k. k \<in> set intent_slots) draw default_topology nm pr = Inl (AttributeError ''home_node_id'')" for nm pr
  proof -
    obtain e es where es: "generate_synthetic_kv_workload draw (disagg_workload pr) = Inr (e # es)" "valid_intent (ev_intent e)"
      using disagg_trace [OF assms, of pr] by (auto simp: neq_Nil_conv)
    then show ?thesis by (simp add: disagg_run_def disagg_event_never)
  qed
  then show ?thesis by (simp add: write_default_results_def)
qed

theorem disaggregated_run_raises_witness:
  "disagg_run (\<lambda>k. k \<in> set intent_slots) (\<lambda>i. 42) default_topology ''RemoteAware'' deadline_pressure
     = Inl (AttributeError ''home_node_id'')"
  using disaggregated_run_raises [of "\<lambda>i. 42" "''RemoteAware''" deadline_pressure] by (simp add: valid_draws_def)

text \<open>What the loop computes where attributes may be set: every event is counted once, as a migration or as a
  miss, and each latency is the base latency and a link.\<close>

definition tallied :: "int \<Rightarrow> mevent list \<Rightarrow> disagg_state \<Rightarrow> bool" where
  "tallied base es s \<longleftrightarrow> cross_node_migrations s + network_misses s = int (length es) \<and> local_hits s = 0
     \<and> 0 \<le> cross_node_migrations s \<and> 0 \<le> network_misses s
     \<and> recompute_due_to_network_miss s = network_misses s
     \<and> remote_latencies s = map (\<lambda>e. base + (if priority (ev_intent e) = COLD then 200 else 50)) es"

lemma disagg_event_tallied:
  assumes "tallied base es s" "valid_intent (ev_intent e)"
  shows "\<exists>t. disagg_event (\<lambda>_. True) default_topology base e s = Inr t \<and> tallied base (es @ [e]) t"
proof -
  let ?i = "ev_intent e"
  have attrs: "placement_attrs default_topology ?i = Inr [(''home_node_id'', JInt (if priority ?i \<noteq> COLD then 0 else 2)),
     (''replica_node_id'', JInt (if priority ?i = DECODE_CRITICAL then 1 else 0)),
     (''network_rtt_us'', JInt (if priority ?i = COLD then 200 else 50)), (''migration_in_flight'', JBool False)]"
    by (auto simp: placement_attrs_def rtt_us_def default_topology_def Let_def)
  show ?thesis using assms
    by (auto simp: disagg_event_def attrs set_attr_def get_int_attr_def tallied_def Let_def)
qed

lemma disagg_loop_tallied:
  "tallied base ds s \<Longrightarrow> \<forall>e \<in> set es. valid_intent (ev_intent e)
   \<Longrightarrow> \<exists>t. fold_r (disagg_event (\<lambda>_. True) default_topology base) es s = Inr t \<and> tallied base (ds @ es) t"
proof (induction es arbitrary: ds s)
  case (Cons e es)
  obtain u where "disagg_event (\<lambda>_. True) default_topology base e s = Inr u" "tallied base (ds @ [e]) u"
    using disagg_event_tallied [OF Cons.prems(1)] Cons.prems(2) by auto
  with Cons.IH [of "ds @ [e]" u] Cons.prems(2) show ?case by auto
qed auto

end
