(* ===== verification/IoBench.thy ===== *)
theory IoBench
  imports Report
begin

text \<open>
  \<open>src/experiments/linux_io_priority/kv_io_priority_bench.py\<close>: a reader and a writer process that load a
  disk, and the report on their latencies. What the operating system decides is an argument: the
  readings of the clocks, how many bytes a write wrote, the random block indices, and the outcome of
  the priority calls. Each worker returns the calls it made on its file; a loop that need not end is a
  partial function. \<open>sum\<close> adds floats from left to right, as Python 3.11 does.
\<close>

section \<open>Files\<close>

type_synonym byte = int

definition mega :: int where "mega = 1024 * 1024"

function fill_loop :: "byte \<Rightarrow> int \<Rightarrow> byte list \<Rightarrow> byte list" where
  "fill_loop b remaining written =
     (if remaining > 0 then let to_write = min (4 * mega) remaining
        in fill_loop b (remaining - to_write) (written @ replicate (nat to_write) b)
      else written)"
  by pat_completeness auto
termination by (relation "measure (\<lambda>(b, remaining, written). nat remaining)") (auto simp: mega_def)

declare fill_loop.simps [simp del]

definition ensure_file :: "byte list option \<Rightarrow> int \<Rightarrow> byte \<Rightarrow> byte list" where
  "ensure_file existing size_wanted pattern_byte =
     (case existing of
        Some old \<Rightarrow> if int (length old) = size_wanted then old else fill_loop pattern_byte size_wanted []
      | None \<Rightarrow> fill_loop pattern_byte size_wanted [])"

section \<open>Percentiles\<close>

definition bench_percentile :: "pyfloat list \<Rightarrow> pyfloat \<Rightarrow> pyfloat result" where
  "bench_percentile values_ms pct =
     (if values_ms = [] then Inr 0
      else if length values_ms = 1 then py_nth values_ms 0
      else let ordered = sort values_ms;
               rank = fmul (int_to_float (int (length ordered) - 1)) pct;
               lower = \<lfloor>rank\<rfloor>; upper = \<lceil>rank\<rceil>
           in if lower = upper then py_nth ordered lower
              else let weight = fsub rank (int_to_float lower)
                   in bind_r (py_nth ordered lower) (\<lambda>lo. bind_r (py_nth ordered upper) (\<lambda>hi.
                      Inr (fadd (fmul lo (fsub 1 weight)) (fmul hi weight)))))"

section \<open>Priorities\<close>

record host =
  sys_platform :: string
  machine :: string
  libc_failure :: "string option"
  ioprio_call :: "int \<Rightarrow> int \<Rightarrow> int \<Rightarrow> int \<Rightarrow> int"
  errno_text :: string
  nice_failure :: "string option"

record priority_info =
  pi_role :: string
  pi_mode :: string
  nice_delta_applied :: int
  ioprio_active :: bool
  pi_warning :: "string option"

definition ioprio_syscalls :: "(string, int) dict" where
  "ioprio_syscalls = [(''x86_64'', 251), (''amd64'', 251), (''i386'', 289), (''i686'', 289), (''aarch64'', 30),
     (''arm64'', 30)]"

definition linux_ioprio_set :: "host \<Rightarrow> int \<Rightarrow> int \<Rightarrow> bool \<times> string option" where
  "linux_ioprio_set h class_id data =
     (if sys_platform h \<noteq> ''linux'' then (False, Some ''ioprio unavailable on non-Linux platforms'')
      else case dict_get ioprio_syscalls (py_lower (machine h)) of
          None \<Rightarrow> (False, Some (''unsupported architecture for ioprio syscall: '' @ py_lower (machine h)))
        | Some syscall_no \<Rightarrow>
            (case libc_failure h of
               Some exc \<Rightarrow> (False, Some (''failed to load libc: '' @ exc))
             | None \<Rightarrow> if ioprio_call h syscall_no 1 0 (Bit_Operations.or (push_bit 13 class_id) data) \<noteq> 0
                 then (False, Some (errno_text h)) else (True, None)))"

definition maybe_apply_priority :: "host \<Rightarrow> string \<Rightarrow> string \<Rightarrow> priority_info" where
  "maybe_apply_priority h role mode =
     (let info = \<lparr>pi_role = role, pi_mode = mode, nice_delta_applied = 0, ioprio_active = False, pi_warning = None\<rparr> in
      if mode \<noteq> ''separated'' then info
      else
        let niced = (if role = ''background'' then
                (case nice_failure h of None \<Rightarrow> info\<lparr>nice_delta_applied := 10\<rparr>
                 | Some exc \<Rightarrow> info\<lparr>pi_warning := Some (''nice adjustment failed: '' @ exc)\<rparr>) else info);
            outcome = (if role = ''critical'' then linux_ioprio_set h 2 0 else linux_ioprio_set h 3 0);
            active = niced\<lparr>ioprio_active := fst outcome\<rparr>
        in (case snd outcome of
              Some warning \<Rightarrow> if warning \<noteq> [] \<and> pi_warning niced \<in> {None, Some []}
                then active\<lparr>pi_warning := Some (''ioprio inactive: '' @ warning)\<rparr> else active
            | None \<Rightarrow> active))"

section \<open>The workers\<close>

text \<open>The clocks, by the number of the reading, and the system's answers, by the number of the call.\<close>

record machine_run =
  monotonic :: "nat \<Rightarrow> pyfloat"
  perf_counter :: "nat \<Rightarrow> pyfloat"
  random_index :: "nat \<Rightarrow> int \<Rightarrow> int"
  write_count :: "nat \<Rightarrow> int \<Rightarrow> int"

text \<open>\<open>os.pread(fd, n, offset)\<close> on a file of a given length: the number of bytes returned.\<close>

definition bytes_read :: "int \<Rightarrow> int \<Rightarrow> int \<Rightarrow> int" where
  "bytes_read file_length n offset = max 0 (min n (file_length - offset))"

definition read_offset :: "machine_run \<Rightarrow> int \<Rightarrow> int \<Rightarrow> nat \<Rightarrow> int" where
  "read_offset m file_size block_bytes k =
     (let max_offset = max 0 (file_size - block_bytes) in
      if max_offset = 0 then 0 else random_index m k (max_offset div block_bytes) * block_bytes)"

text \<open>One reading of the clock opens iteration \<open>k\<close>. The results: the latencies and the offsets read.\<close>

partial_function (option) reader_loop ::
  "machine_run \<Rightarrow> int \<Rightarrow> int \<Rightarrow> int \<Rightarrow> pyfloat \<Rightarrow> nat \<Rightarrow> pyfloat list \<Rightarrow> int list \<Rightarrow> (pyfloat list \<times> int list) option"
where
  "reader_loop m file_length file_size block_bytes end_time k latencies_ms offsets =
     (if monotonic m (Suc k) < end_time then
        let offset = read_offset m file_size block_bytes k;
            elapsed_ms = fmul (fsub (perf_counter m (2 * k + 1)) (perf_counter m (2 * k))) 1000
        in if bytes_read file_length block_bytes offset = 0 then Some (latencies_ms, offsets @ [offset])
           else reader_loop m file_length file_size block_bytes end_time (Suc k) (latencies_ms @ [elapsed_ms])
                  (offsets @ [offset])
      else Some (latencies_ms, offsets))"

record reader_result =
  rd_priority :: priority_info
  latencies_ms :: "pyfloat list"
  read_count :: int
  rd_offsets :: "int list"

definition critical_reader ::
  "host \<Rightarrow> machine_run \<Rightarrow> int \<Rightarrow> int \<Rightarrow> int \<Rightarrow> pyfloat \<Rightarrow> string \<Rightarrow> reader_result option" where
  "critical_reader h m file_length file_size block_bytes duration mode =
     map_option (\<lambda>(ls, os). \<lparr>rd_priority = maybe_apply_priority h ''critical'' mode, latencies_ms = ls,
         read_count = int (length ls), rd_offsets = os\<rparr>)
       (reader_loop m file_length file_size block_bytes (fadd (monotonic m 0) duration) 0 [] [])"

definition wrapped_offset :: "int \<Rightarrow> int \<Rightarrow> int \<Rightarrow> int" where
  "wrapped_offset file_size write_size offset = (if offset + write_size > max 1 file_size then 0 else offset)"

text \<open>The results: the bytes written, and the offset and length of each write.\<close>

partial_function (option) writer_loop ::
  "machine_run \<Rightarrow> int \<Rightarrow> int \<Rightarrow> pyfloat \<Rightarrow> nat \<Rightarrow> int \<Rightarrow> int \<Rightarrow> (int \<times> int) list \<Rightarrow> (int \<times> (int \<times> int) list) option"
where
  "writer_loop m file_size write_size end_time k offset written writes =
     (if monotonic m (Suc k) < end_time then
        let pos = wrapped_offset file_size write_size offset; n = write_count m k write_size
        in writer_loop m file_size write_size end_time (Suc k) (pos + n) (written + n) (writes @ [(pos, n)])
      else Some (written, writes))"

record writer_result =
  wr_priority :: priority_info
  bytes_written :: int
  wr_writes :: "(int \<times> int) list"

definition background_writer ::
  "host \<Rightarrow> machine_run \<Rightarrow> int \<Rightarrow> int \<Rightarrow> pyfloat \<Rightarrow> string \<Rightarrow> writer_result option" where
  "background_writer h m file_size write_size duration mode =
     map_option (\<lambda>(n, ws). \<lparr>wr_priority = maybe_apply_priority h ''background'' mode, bytes_written = n, wr_writes = ws\<rparr>)
       (writer_loop m file_size write_size (fadd (monotonic m 0) duration) 0 0 0 [])"

section \<open>Results\<close>

text \<open>A count is an integer of one run or the average of several.\<close>

record bench_result =
  br_mode :: string
  br_iterations :: "int option"
  duration_sec :: pyfloat
  critical_read_count :: "int + pyfloat"
  background_write_mbps :: pyfloat
  br_p50 :: pyfloat
  br_p95 :: pyfloat
  br_p99 :: pyfloat
  br_max :: pyfloat
  br_ioprio_active :: bool
  priority_warnings :: "string list"

definition build_result ::
  "string \<Rightarrow> pyfloat \<Rightarrow> pyfloat \<Rightarrow> reader_result \<Rightarrow> writer_result \<Rightarrow> bench_result result" where
  "build_result mode start_time end_time crit bg =
     (let ls = latencies_ms crit; duration = fsub end_time start_time in
      bind_r (bench_percentile ls (1 / 2)) (\<lambda>p50. bind_r (bench_percentile ls (fl (95 / 100))) (\<lambda>p95.
      bind_r (bench_percentile ls (fl (99 / 100))) (\<lambda>p99.
      Inr \<lparr>br_mode = mode, br_iterations = None, duration_sec = duration, critical_read_count = Inl (read_count crit),
           background_write_mbps = (if duration > 0 then fdiv (fl (of_int (bytes_written bg) / of_int mega)) duration else 0),
           br_p50 = p50, br_p95 = p95, br_p99 = p99, br_max = (if ls \<noteq> [] then Max (set ls) else 0),
           br_ioprio_active = (ioprio_active (rd_priority crit) \<or> ioprio_active (wr_priority bg)),
           priority_warnings = filter (\<lambda>w. w \<noteq> []) (List.map_filter id
             [pi_warning (rd_priority crit), pi_warning (wr_priority bg)])\<rparr>))))"

definition float_sum :: "pyfloat list \<Rightarrow> pyfloat" where
  "float_sum xs = fold (\<lambda>x acc. fadd acc x) xs 0"

definition count_value :: "int + pyfloat \<Rightarrow> rat" where
  "count_value x = (case x of Inl i \<Rightarrow> of_int i | Inr q \<Rightarrow> q)"

definition mean_of :: "(bench_result \<Rightarrow> pyfloat) \<Rightarrow> bench_result list \<Rightarrow> pyfloat" where
  "mean_of field results = fdiv (float_sum (map field results)) (int_to_float (int (length results)))"

definition average_results :: "bench_result list \<Rightarrow> bench_result result" where
  "average_results results =
     (case results of
        [] \<Rightarrow> Inl (ValueError ''results must not be empty'')
      | [r] \<Rightarrow> Inr (r\<lparr>br_iterations := Some 1\<rparr>)
      | r # _ \<Rightarrow> Inr \<lparr>br_mode = br_mode r, br_iterations = Some (int (length results)),
          duration_sec = mean_of duration_sec results,
          critical_read_count = Inr (fl (sum_list (map (\<lambda>x. count_value (critical_read_count x)) results)
            / of_int (int (length results)))),
          background_write_mbps = mean_of background_write_mbps results,
          br_p50 = mean_of br_p50 results, br_p95 = mean_of br_p95 results, br_p99 = mean_of br_p99 results,
          br_max = mean_of br_max results, br_ioprio_active = list_ex br_ioprio_active results,
          priority_warnings = sort (remdups (concat (map priority_warnings results)))\<rparr>)"

definition count_text :: "int + pyfloat \<Rightarrow> string" where
  "count_text x = (case x of Inl i \<Rightarrow> int_str i | Inr q \<Rightarrow> float_str q)"

definition bench_summary :: "bench_result \<Rightarrow> string" where
  "bench_summary r = concat (map (\<lambda>l. l @ newline)
     ([''Mode: '' @ br_mode r, ''Duration: '' @ fixed 2 (duration_sec r) @ '' sec'',
       ''Critical reads: '' @ count_text (critical_read_count r),
       ''Background write throughput: '' @ fixed 2 (background_write_mbps r) @ '' MB/s'',
       ''Critical read p50: '' @ fixed 3 (br_p50 r) @ '' ms'', ''Critical read p95: '' @ fixed 3 (br_p95 r) @ '' ms'',
       ''Critical read p99: '' @ fixed 3 (br_p99 r) @ '' ms'', ''Critical read max: '' @ fixed 3 (br_max r) @ '' ms'',
       ''ioprio active: '' @ (if br_ioprio_active r then ''yes'' else ''no'')]
      @ map (\<lambda>w. ''Warning: '' @ w) (priority_warnings r)))"

section \<open>A run of the benchmark\<close>

record bench_args =
  critical_mb :: int
  background_mb :: int
  block_kb :: int
  duration_arg :: pyfloat
  iterations :: int
  ba_mode :: string

text \<open>What one iteration meets: the files before it, the clock at its ends, and what each process sees.\<close>

record bench_world =
  critical_file :: "byte list option"
  background_file :: "byte list option"
  started :: pyfloat
  ended :: pyfloat
  reader_run :: machine_run
  writer_run :: machine_run

definition run_benchmark :: "host \<Rightarrow> bench_args \<Rightarrow> bench_world \<Rightarrow> bench_result outcome" where
  "run_benchmark h args w =
     (let critical_size = critical_mb args * mega; background_size = background_mb args * mega;
          block_bytes = block_kb args * 1024; write_size = max (block_bytes * 4) mega;
          critical = ensure_file (critical_file w) critical_size 67;
          background = ensure_file (background_file w) background_size 83
      in case critical_reader h (reader_run w) (int (length critical)) critical_size block_bytes (duration_arg args) (ba_mode args) of
           None \<Rightarrow> None
         | Some crit \<Rightarrow>
             (case background_writer h (writer_run w) background_size write_size (duration_arg args) (ba_mode args) of
                None \<Rightarrow> None
              | Some bg \<Rightarrow> Some (build_result (ba_mode args) (started w) (ended w) crit bg)))"

definition check_args :: "bench_args \<Rightarrow> unit result" where
  "check_args args =
     (if ba_mode args = ''io_uring_sketch'' then Inl (SystemExit ''0'')
      else if block_kb args \<le> 0 then Inl (SystemExit ''--block-kb must be positive'')
      else if iterations args \<le> 0 then Inl (SystemExit ''--iterations must be positive'')
      else if critical_mb args \<le> 0 \<or> background_mb args \<le> 0 then Inl (SystemExit ''file sizes must be positive'')
      else if duration_arg args \<le> 0 then Inl (SystemExit ''--duration-sec must be positive'')
      else Inr ())"

text \<open>The benchmark over the worlds of its iterations; it prints the summary and returns the result.\<close>

definition run_iterations ::
  "host \<Rightarrow> bench_args \<Rightarrow> (nat \<Rightarrow> bench_world) \<Rightarrow> bench_result outcome" where
  "run_iterations h args worlds =
     bind_o (Some (check_args args)) (\<lambda>_.
       if iterations args = 1 then run_benchmark h args (worlds 0)
       else bind_o (fold_o (\<lambda>k rs. bind_o (run_benchmark h args (worlds k)) (\<lambda>r. Some (Inr (rs @ [r]))))
              [0..<nat (iterations args)] []) (\<lambda>rs. Some (average_results rs)))"

end
