(* ===== verification/IoBenchLaws.thy ===== *)
theory IoBenchLaws
  imports IoBench
begin

text \<open>
  The workers of the I/O benchmark stay within their files and end once the clock has passed the
  deadline; a benchmark with accepted arguments then returns a result. The system is assumed to
  return what its interface documents: a random index within its bounds, at most as many bytes
  written as asked.
\<close>

section \<open>Files\<close>

lemma fill_loop_eq: "fill_loop b r w = w @ replicate (nat r) b"
proof (induction b r w rule: fill_loop.induct)
  case (1 b r w)
  show ?case
  proof (cases "r > 0")
    case True
    define k where "k = min (4 * mega) r"
    have k: "0 < k" "k \<le> r" using True by (auto simp: k_def mega_def)
    have "fill_loop b r w = fill_loop b (r - k) (w @ replicate (nat k) b)"
      using True by (subst fill_loop.simps) (simp add: k_def Let_def)
    also have "\<dots> = w @ replicate (nat k) b @ replicate (nat (r - k)) b"
      using "1.IH" [OF True k_def] by simp
    also have "replicate (nat k) b @ replicate (nat (r - k)) b = replicate (nat r) b"
      using k by (simp flip: replicate_add add: nat_add_distrib [symmetric])
    finally show ?thesis .
  qed (simp add: fill_loop.simps)
qed

lemma ensure_file_spec:
  assumes "0 \<le> n"
  shows "int (length (ensure_file old n b)) = n \<and> (ensure_file old n b = replicate (nat n) b \<or> old = Some (ensure_file old n b))"
  using assms by (auto simp: ensure_file_def fill_loop_eq split: option.splits)

section \<open>The reader\<close>

definition fair_run :: "machine_run \<Rightarrow> bool" where
  "fair_run m \<longleftrightarrow> (\<forall>k n. 0 \<le> n \<longrightarrow> 0 \<le> random_index m k n \<and> random_index m k n \<le> n \<and> 0 \<le> write_count m k n \<and> write_count m k n \<le> n)"

lemma fair_runD: "fair_run m \<Longrightarrow> 0 \<le> n \<Longrightarrow> 0 \<le> random_index m k n \<and> random_index m k n \<le> n"
  "fair_run m \<Longrightarrow> 0 \<le> n \<Longrightarrow> 0 \<le> write_count m k n \<and> write_count m k n \<le> n"
  by (simp_all add: fair_run_def)

definition in_file :: "int \<Rightarrow> int \<Rightarrow> int \<Rightarrow> bool" where
  "in_file n b x \<longleftrightarrow> 0 \<le> x \<and> x < n \<and> b dvd x \<and> (b \<le> n \<longrightarrow> x + b \<le> n)"

lemma read_offset_in_file:
  assumes "fair_run m" "0 < b" "0 < n"
  shows "in_file n b (read_offset m n b k)"
proof (cases "n - b \<le> 0")
  case False
  let ?i = "random_index m k ((n - b) div b)"
  have i: "0 \<le> ?i" "?i \<le> (n - b) div b"
    using fair_runD(1) [OF assms(1), of "(n - b) div b" k] assms(2) False by (simp_all add: pos_imp_zdiv_nonneg_iff)
  have "?i * b \<le> (n - b) div b * b" using i(2) assms(2) by (intro mult_right_mono) simp_all
  also have "\<dots> \<le> n - b" using pos_mod_sign [OF assms(2), of "n - b"] div_mult_mod_eq [of "n - b" b] by linarith
  finally show ?thesis using i(1) assms False by (simp add: read_offset_def Let_def in_file_def)
qed (use assms in \<open>simp add: read_offset_def in_file_def\<close>)

lemma reader_loop_ends:
  assumes m: "fair_run m" and b: "0 < b" "0 < n" and stop: "end_time \<le> monotonic m (Suc N)"
  shows "k \<le> N \<Longrightarrow> \<exists>ls xs. reader_loop m n n b end_time k ls0 xs0 = Some (ls0 @ ls, xs0 @ xs)
    \<and> length ls = length xs \<and> length xs \<le> N - k \<and> (\<forall>x \<in> set xs. in_file n b x)"
proof (induction "N - k" arbitrary: k ls0 xs0)
  case 0
  then have "\<not> monotonic m (Suc k) < end_time" using stop by simp
  then have "reader_loop m n n b end_time k ls0 xs0 = Some (ls0, xs0)" by (subst reader_loop.simps) simp
  then show ?case by (intro exI [of _ "[]"]) simp
next
  case (Suc d)
  show ?case
  proof (cases "monotonic m (Suc k) < end_time")
    case False
    then have "reader_loop m n n b end_time k ls0 xs0 = Some (ls0, xs0)" by (subst reader_loop.simps) simp
    then show ?thesis by (intro exI [of _ "[]"]) simp
  next
    case True
    let ?x = "read_offset m n b k"
    let ?l = "fmul (fsub (perf_counter m (2 * k + 1)) (perf_counter m (2 * k))) 1000"
    note x = read_offset_in_file [OF m b, of k]
    then have "bytes_read n b ?x \<noteq> 0" using b by (auto simp: bytes_read_def in_file_def min_def)
    then have step: "reader_loop m n n b end_time k ls0 xs0
        = reader_loop m n n b end_time (Suc k) (ls0 @ [?l]) (xs0 @ [?x])"
      using True b by (subst reader_loop.simps) (simp add: Let_def)
    have d: "d = N - Suc k" "Suc k \<le> N" using Suc.hyps(2) by simp_all
    from Suc.hyps(1) [OF d, of "ls0 @ [?l]" "xs0 @ [?x]"] obtain ls xs where r: "reader_loop m n n b end_time (Suc k) (ls0 @ [?l]) (xs0 @ [?x])
        = Some ((ls0 @ [?l]) @ ls, (xs0 @ [?x]) @ xs)"
      and "length ls = length xs" "length xs \<le> N - Suc k" "\<forall>x \<in> set xs. in_file n b x" by blast
    with x Suc.hyps(2) show ?thesis
      by (intro exI [of _ "?l # ls"] exI [of _ "?x # xs"]) (auto simp: step)
  qed
qed

section \<open>The writer\<close>

lemma writer_loop_ends:
  assumes m: "fair_run m" and w: "0 \<le> w" and stop: "end_time \<le> monotonic m (Suc N)"
  shows "k \<le> N \<Longrightarrow> 0 \<le> offset \<Longrightarrow> \<exists>ws. writer_loop m n w end_time k offset wrote ws0
      = Some (wrote + sum_list (map snd ws), ws0 @ ws)
    \<and> (\<forall>(p, l) \<in> set ws. 0 \<le> p \<and> 0 \<le> l \<and> l \<le> w \<and> p + l \<le> max w (max 1 n))"
proof (induction "N - k" arbitrary: k offset wrote ws0)
  case 0
  then have "\<not> monotonic m (Suc k) < end_time" using stop by simp
  then have "writer_loop m n w end_time k offset wrote ws0 = Some (wrote, ws0)" by (subst writer_loop.simps) simp
  then show ?case by (intro exI [of _ "[]"]) simp
next
  case (Suc d)
  show ?case
  proof (cases "monotonic m (Suc k) < end_time")
    case False
    then have "writer_loop m n w end_time k offset wrote ws0 = Some (wrote, ws0)" by (subst writer_loop.simps) simp
    then show ?thesis by (intro exI [of _ "[]"]) simp
  next
    case True
    let ?p = "wrapped_offset n w offset" and ?l = "write_count m k w"
    have p: "0 \<le> ?p" "?p + w \<le> max w (max 1 n)" using Suc.prems(2) by (auto simp: wrapped_offset_def)
    have l: "0 \<le> ?l" "?l \<le> w" using fair_runD(2) [OF m w] by simp_all
    have step: "writer_loop m n w end_time k offset wrote ws0
        = writer_loop m n w end_time (Suc k) (?p + ?l) (wrote + ?l) (ws0 @ [(?p, ?l)])"
      using True by (subst writer_loop.simps) (simp add: Let_def)
    have d: "d = N - Suc k" "Suc k \<le> N" "0 \<le> ?p + ?l" using Suc.hyps(2) p l by simp_all
    from Suc.hyps(1) [OF d, of "wrote + ?l" "ws0 @ [(?p, ?l)]"] obtain ws where "writer_loop m n w end_time (Suc k) (?p + ?l) (wrote + ?l) (ws0 @ [(?p, ?l)])
        = Some (wrote + ?l + sum_list (map snd ws), (ws0 @ [(?p, ?l)]) @ ws)"
      "\<forall>(p, l) \<in> set ws. 0 \<le> p \<and> 0 \<le> l \<and> l \<le> w \<and> p + l \<le> max w (max 1 n)" by blast
    with p l show ?thesis by (intro exI [of _ "(?p, ?l) # ws"]) (auto simp: step)
  qed
qed

section \<open>Percentiles\<close>

lemma bench_percentile_total:
  assumes "0 \<le> p" "p \<le> 1" "int (length vs) \<le> 2 ^ 53"
  shows "\<exists>q. bench_percentile vs p = Inr q"
proof (cases "length vs \<le> 1")
  case True
  then show ?thesis by (cases vs) (auto simp: bench_percentile_def py_nth_def)
next
  case False
  define n1 where "n1 = int (length vs) - 1"
  define rank where "rank = fmul (int_to_float n1) p"
  have n1: "0 \<le> n1" "n1 \<le> 2 ^ 53" using False assms(3) by (auto simp: n1_def)
  have "of_int n1 * p \<le> of_int n1 * 1" using assms(2) n1(1) by (intro mult_left_mono) simp_all
  then have "0 \<le> rank" "rank \<le> of_int n1"
    using n1 assms(1) by (auto simp: rank_def int_to_float_exact intro!: fmul_ge fmul_le is_float_of_int)
  then have r: "0 \<le> \<lfloor>rank\<rfloor>" "\<lceil>rank\<rceil> \<le> n1" by (simp_all add: ceiling_le_iff)
  moreover have le: "\<lfloor>rank\<rfloor> \<le> \<lceil>rank\<rceil>" by (rule floor_le_ceiling)
  moreover have "\<lfloor>rank\<rfloor> \<le> n1" using r le by linarith
  ultimately have "\<lfloor>rank\<rfloor> < int (length (sort vs))" "\<lceil>rank\<rceil> < int (length (sort vs))" "0 \<le> \<lceil>rank\<rceil>"
    by (simp_all add: n1_def)
  then show ?thesis
    using False r(1) by (auto simp: bench_percentile_def Let_def n1_def [symmetric] rank_def [symmetric] py_nth_in_range)
qed

section \<open>Both workers\<close>

text \<open>The clock passes the deadline of a worker after fewer readings than a float counts exactly.\<close>

definition timely :: "machine_run \<Rightarrow> pyfloat \<Rightarrow> bool" where
  "timely m duration \<longleftrightarrow> (\<exists>N. int N \<le> 2 ^ 53 \<and> fadd (monotonic m 0) duration \<le> monotonic m (Suc N))"

lemma critical_reader_ends:
  assumes "fair_run m" "timely m d" "0 < b" "0 < n"
  shows "\<exists>r. critical_reader h m n n b d mode = Some r \<and> rd_priority r = maybe_apply_priority h ''critical'' mode
    \<and> read_count r = int (length (latencies_ms r)) \<and> read_count r \<le> 2 ^ 53
    \<and> length (rd_offsets r) = length (latencies_ms r) \<and> (\<forall>x \<in> set (rd_offsets r). in_file n b x)"
proof -
  obtain N where N: "int N \<le> 2 ^ 53" "fadd (monotonic m 0) d \<le> monotonic m (Suc N)"
    using assms(2) by (auto simp: timely_def)
  from reader_loop_ends [OF assms(1,3,4) N(2), of 0 "[]" "[]"] obtain ls xs where
    "reader_loop m n n b (fadd (monotonic m 0) d) 0 [] [] = Some (ls, xs)"
    "length ls = length xs" "length xs \<le> N" "\<forall>x \<in> set xs. in_file n b x" by auto
  with N(1) show ?thesis by (simp add: critical_reader_def)
qed

lemma background_writer_ends:
  assumes "fair_run m" "timely m d" "0 \<le> w"
  shows "\<exists>r. background_writer h m n w d mode = Some r \<and> wr_priority r = maybe_apply_priority h ''background'' mode
    \<and> bytes_written r = sum_list (map snd (wr_writes r))
    \<and> (\<forall>(p, l) \<in> set (wr_writes r). 0 \<le> p \<and> 0 \<le> l \<and> l \<le> w \<and> p + l \<le> max w (max 1 n))"
proof -
  obtain N where N: "fadd (monotonic m 0) d \<le> monotonic m (Suc N)" using assms(2) by (auto simp: timely_def)
  from writer_loop_ends [OF assms(1,3) N, of 0 0 n 0 "[]"] obtain ws where
    "writer_loop m n w (fadd (monotonic m 0) d) 0 0 0 [] = Some (sum_list (map snd ws), ws)"
    "\<forall>(p, l) \<in> set ws. 0 \<le> p \<and> 0 \<le> l \<and> l \<le> w \<and> p + l \<le> max w (max 1 n)" by auto
  then show ?thesis by (simp add: background_writer_def)
qed

text \<open>On a file of at least one byte both workers end when the clock has passed the deadline. Every read of the
  reader starts on a block boundary inside the file, and reads a whole block where the file has one; every write
  of the writer starts at or after 0 and ends by the end of the file, or by the size of one write where that is
  larger; the reported bytes are the sum of the writes.\<close>

theorem workers_stay_in_files:
  assumes "fair_run m" "timely m d" "0 < b" "0 < n" "0 \<le> w"
  shows "\<exists>r v. critical_reader h m n n b d mode = Some r \<and> background_writer h m n w d mode = Some v
    \<and> read_count r = int (length (latencies_ms r))
    \<and> (\<forall>x \<in> set (rd_offsets r). 0 \<le> x \<and> x < n \<and> b dvd x \<and> (b \<le> n \<longrightarrow> x + b \<le> n))
    \<and> (\<forall>(p, l) \<in> set (wr_writes v). 0 \<le> p \<and> 0 \<le> l \<and> l \<le> w \<and> p + l \<le> max w (max 1 n))
    \<and> bytes_written v = sum_list (map snd (wr_writes v))"
  using critical_reader_ends [OF assms(1-4), of h mode] background_writer_ends [OF assms(1,2,5), of h n mode]
  unfolding in_file_def by blast

definition quiet_host :: host where
  "quiet_host = \<lparr>sys_platform = ''linux'', machine = ''x86_64'', libc_failure = None, ioprio_call = \<lambda>_ _ _ _. 0,
     errno_text = [], nice_failure = None\<rparr>"

definition ticking :: machine_run where
  "ticking = \<lparr>monotonic = \<lambda>k. of_nat k / 4, perf_counter = \<lambda>k. of_nat k / 8, random_index = \<lambda>_ n. n,
     write_count = \<lambda>_ n. n\<rparr>"

lemma ticking_fair [simp]: "fair_run ticking" "timely ticking 1"
  by (simp_all add: ticking_def fair_run_def timely_def exI [of _ 4])

theorem workers_stay_in_files_witness:
  "\<exists>r v. critical_reader quiet_host ticking 10 10 4 1 ''separated'' = Some r
    \<and> background_writer quiet_host ticking 10 3 1 ''separated'' = Some v
    \<and> (\<forall>x \<in> set (rd_offsets r). x + 4 \<le> 10) \<and> (\<forall>(p, l) \<in> set (wr_writes v). p + l \<le> 10)"
  using workers_stay_in_files [of ticking 1 4 10 3 quiet_host "''separated''"] by fastforce

section \<open>A run\<close>

definition ready :: "bench_args \<Rightarrow> bench_world \<Rightarrow> bool" where
  "ready args w \<longleftrightarrow> fair_run (reader_run w) \<and> fair_run (writer_run w)
     \<and> timely (reader_run w) (duration_arg args) \<and> timely (writer_run w) (duration_arg args)"

lemma build_result_total:
  assumes "int (length (latencies_ms crit)) \<le> 2 ^ 53"
  shows "\<exists>r. build_result mode t0 t1 crit bg = Inr r \<and> br_mode r = mode \<and> br_iterations r = None
    \<and> critical_read_count r = Inl (read_count crit)"
proof -
  have p: "0 \<le> fl (95 / 100)" "fl (95 / 100) \<le> 1" "0 \<le> fl (99 / 100)" "fl (99 / 100) \<le> 1"
    by (auto intro: fl_nonneg fl_le)
  obtain a where "bench_percentile (latencies_ms crit) (1 / 2) = Inr a"
    using bench_percentile_total [of "1 / 2", OF _ _ assms] by auto
  moreover obtain b where "bench_percentile (latencies_ms crit) (fl (95 / 100)) = Inr b"
    using bench_percentile_total [OF p(1,2) assms] by auto
  moreover obtain c where "bench_percentile (latencies_ms crit) (fl (99 / 100)) = Inr c"
    using bench_percentile_total [OF p(3,4) assms] by auto
  ultimately show ?thesis by (simp add: build_result_def Let_def)
qed

lemma check_args_Inr: "check_args args = Inr () \<longleftrightarrow> ba_mode args \<noteq> ''io_uring_sketch'' \<and> 0 < block_kb args
    \<and> 0 < iterations args \<and> 0 < critical_mb args \<and> 0 < background_mb args \<and> 0 < duration_arg args"
  by (auto simp: check_args_def)

lemma run_benchmark_returns:
  assumes "check_args args = Inr ()" "ready args w"
  shows "\<exists>r. run_benchmark h args w = Some (Inr r) \<and> br_mode r = ba_mode args \<and> br_iterations r = None"
proof -
  let ?n = "critical_mb args * mega" and ?b = "block_kb args * 1024"
  let ?w = "max (?b * 4) mega" and ?bg = "background_mb args * mega"
  from assms(1) have pos: "0 < ?b" "0 < ?n" "0 \<le> ?w" by (simp_all add: check_args_Inr mega_def)
  have len: "int (length (ensure_file (critical_file w) ?n 67)) = ?n"
    using ensure_file_spec [of ?n "critical_file w" 67] pos(2) by simp
  obtain crit where c: "critical_reader h (reader_run w) ?n ?n ?b (duration_arg args) (ba_mode args) = Some crit"
      "read_count crit = int (length (latencies_ms crit))" "read_count crit \<le> 2 ^ 53"
    using critical_reader_ends [OF _ _ pos(1,2), of "reader_run w"] assms(2) unfolding ready_def by blast
  obtain bg where b: "background_writer h (writer_run w) ?bg ?w (duration_arg args) (ba_mode args) = Some bg"
    using background_writer_ends [OF _ _ pos(3), of "writer_run w"] assms(2) unfolding ready_def by blast
  show ?thesis
    using build_result_total [of crit "ba_mode args" "started w" "ended w" bg] c(2,3)
    unfolding run_benchmark_def Let_def len c(1) by (auto simp only: b option.case)
qed

definition one_run :: "bench_args \<Rightarrow> bench_result \<Rightarrow> bool" where
  "one_run args r \<longleftrightarrow> br_mode r = ba_mode args"

lemma run_all:
  assumes "check_args args = Inr ()" "\<And>k. ready args (worlds k)"
  shows "\<exists>rs. fold_o (\<lambda>k rs. bind_o (run_benchmark h args (worlds k)) (\<lambda>r. Some (Inr (rs @ [r])))) ks acc = Some (Inr (acc @ rs))
    \<and> length rs = length ks \<and> list_all (one_run args) rs"
proof (induction ks arbitrary: acc)
  case (Cons k ks)
  obtain r where "run_benchmark h args (worlds k) = Some (Inr r)" "one_run args r"
    using run_benchmark_returns [OF assms(1) assms(2) [of k], of h] by (auto simp: one_run_def)
  with Cons.IH [of "acc @ [r]"] show ?case
    by (auto intro: exI [of _ "r # _"])
qed simp

text \<open>C27: With accepted arguments, and a system whose calls return what they document and whose clock passes the
  deadlines, the benchmark returns a result of the requested mode, with the number of iterations it averaged.\<close>

theorem benchmark_returns:
  assumes "check_args args = Inr ()" "\<And>k. ready args (worlds k)"
  shows "\<exists>r. run_iterations h args worlds = Some (Inr r) \<and> br_mode r = ba_mode args
    \<and> br_iterations r = (if iterations args = 1 then None else Some (iterations args))"
proof (cases "iterations args = 1")
  case True
  then show ?thesis
    using run_benchmark_returns [OF assms(1) assms(2) [of 0], of h] by (auto simp: run_iterations_def assms(1))
next
  case False
  let ?n = "nat (iterations args)"
  obtain rs where rs: "fold_o (\<lambda>k rs. bind_o (run_benchmark h args (worlds k)) (\<lambda>r. Some (Inr (rs @ [r])))) [0..<?n] [] = Some (Inr rs)"
      "length rs = ?n" "list_all (one_run args) rs"
    using run_all [where worlds = worlds, OF assms, where ks = "[0..<?n]" and h = h and acc = "[]"] by auto
  have n: "2 \<le> iterations args" using assms(1) False by (simp add: check_args_Inr)
  then obtain r r' rest where "rs = r # r' # rest" using rs(2) by (cases rs; cases "tl rs") auto
  with rs n False show ?thesis by (auto simp: run_iterations_def assms(1) average_results_def one_run_def)
qed

theorem benchmark_returns_witness:
  defines "args \<equiv> \<lparr>critical_mb = 1, background_mb = 2, block_kb = 256, duration_arg = 1, iterations = 3, ba_mode = ''separated''\<rparr>"
    and "w \<equiv> \<lparr>critical_file = None, background_file = None, started = 0, ended = 1, reader_run = ticking, writer_run = ticking\<rparr>"
  shows "\<exists>r. run_iterations quiet_host args (\<lambda>_. w) = Some (Inr r) \<and> br_mode r = ''separated'' \<and> br_iterations r = Some 3"
  using benchmark_returns [of args "\<lambda>_. w" quiet_host] by (simp add: args_def w_def check_args_def ready_def)

section \<open>Interpolation\<close>

lemma round_nearest:
  assumes "\<bar>y - of_int m\<bar> < 1 / 2 \<or> even m \<and> y = of_int m - 1 / 2"
  shows "round_half_even y = m"
proof (cases "of_int m \<le> y")
  case True
  then have y: "y < of_int m + 1 / 2" using assms by linarith
  then have "\<lfloor>y\<rfloor> = m" using True by (intro floor_unique) linarith+
  then show ?thesis using y by (simp add: round_half_even_def Let_def)
next
  case False
  then have y: "of_int m - 1 / 2 \<le> y" "y = of_int m - 1 / 2 \<Longrightarrow> even m" using assms by linarith+
  have "\<lfloor>y\<rfloor> = m - 1" using y(1) False by (intro floor_unique) simp_all
  then show ?thesis using y by (auto simp: round_half_even_def Let_def)
qed

lemma fl_evalI:
  assumes "pow2 k \<le> x" "x < pow2 (k + 1)" "-1022 \<le> k" "r = of_int m * pow2 (k - 52)"
    and m: "\<bar>x / pow2 (k - 52) - of_int m\<bar> < 1 / 2 \<or> even m \<and> x / pow2 (k - 52) = of_int m - 1 / 2"
  shows "fl x = r"
proof -
  have x: "0 < x" using assms(1) pow2_pos [of k] by linarith
  have "pow2 (ilog2 x) < pow2 (k + 1)" "pow2 k < pow2 (ilog2 x + 1)"
    using ilog2_bounds [OF x] assms(1,2) by linarith+
  then have "ilog2 x = k" by (auto dest!: pow2_less_imp)
  then have e: "ulp_exp x = k - 52" using x assms(3) by (simp add: ulp_exp_def)
  then show ?thesis using round_nearest [OF m] by (simp add: fl_def Let_def assms(4))
qed

lemma pow2_numeral: "pow2 (numeral n) = 2 ^ numeral n" "pow2 (- numeral n) = 1 / 2 ^ numeral n" "pow2 1 = 2" "pow2 (- 1) = 1 / 2"
  by (simp_all add: pow2_def)

lemma percentile_past_maximum_steps:
  defines "a \<equiv> 7656119366529843 / 4503599627370496" and "p \<equiv> 8556839292003942 / 9007199254740992"
  shows "fl (17 / 10) = a" "fl (95 / 100) = p" "fmul (int_to_float 1) p = p" "fsub p (int_to_float 0) = p"
    "fadd (fmul a (fsub 1 p)) (fmul a p) = a + 1 / 4503599627370496"
proof -
  show a: "fl (17 / 10) = a"
    unfolding a_def by (rule fl_evalI [where k = 0 and m = 7656119366529843]) (simp_all add: pow2_numeral)
  show p: "fl (95 / 100) = p"
    unfolding p_def by (rule fl_evalI [where k = "-1" and m = 8556839292003942]) (simp_all add: pow2_numeral)
  have "fl p = p" using fl_idem [of "95 / 100"] by (simp only: p)
  then show "fmul (int_to_float 1) p = p" "fsub p (int_to_float 0) = p"
    using int_to_float_exact [of 1] int_to_float_exact [of 0] by (simp_all add: fmul_def fsub_def)
  have q: "fsub 1 p = 7205759403792800 / 144115188075855872"
    unfolding fsub_def p_def by (rule fl_evalI [where k = "-5" and m = 7205759403792800]) (simp_all add: pow2_numeral)
  have l: "fmul a (7205759403792800 / 144115188075855872) = 6124895493223880 / 72057594037927936"
    unfolding fmul_def a_def by (rule fl_evalI [where k = "-4" and m = 6124895493223880]) (simp_all add: pow2_numeral)
  have r: "fmul a p = 7273313398203351 / 4503599627370496"
    unfolding fmul_def a_def p_def by (rule fl_evalI [where k = 0 and m = 7273313398203351]) (simp_all add: pow2_numeral)
  show "fadd (fmul a (fsub 1 p)) (fmul a p) = a + 1 / 4503599627370496"
    unfolding q l r unfolding fadd_def a_def
    by (rule fl_evalI [where k = 0 and m = 7656119366529844]) (simp_all add: pow2_numeral)
qed

text \<open>The interpolation \<open>a * (1 - w) + b * w\<close> of two equal samples may round past them: when a run made two
  reads of 1.7 ms, the reported 95th percentile is one unit in the last place larger than both samples, and so than
  the reported maximum.\<close>

theorem percentile_past_maximum:
  "bench_percentile [fl (17 / 10), fl (17 / 10)] (fl (95 / 100)) = Inr (fl (17 / 10) + 1 / 2 ^ 52)"
proof -
  note steps = percentile_past_maximum_steps
  define p :: rat where "p = 8556839292003942 / 9007199254740992"
  have "\<lfloor>p\<rfloor> = 0" "\<lceil>p\<rceil> = 1" by (simp_all add: p_def floor_eq_iff ceiling_eq_iff)
  then show ?thesis
    using steps(3,4,5) [folded p_def]
    unfolding bench_percentile_def steps(1,2) [folded p_def] by (simp add: Let_def py_nth_def)
qed

end
