(* ===== verification/VllmPlugin.thy ===== *)
theory VllmPlugin
  imports VllmSignals Workload
begin

text \<open>
  \<open>KVIntentPlugin\<close> of \<open>integrations/vllm/vllm_kv_intent_plugin.py\<close>, the callback layer between an engine
  and the adapter, with the harness of \<open>smoke_test_plugin.py\<close>. The plugin's state is its adapter and the
  text of the file it appends to. A step output is the list of its running sequences.
\<close>

record plugin =
  plugin_adapter :: adapter
  out_text :: string

text \<open>A call on the adapter attribute.\<close>

definition on_adapter :: "(adapter, 'a) routine \<Rightarrow> (plugin, 'a) routine" where
  "on_adapter m p = bind_r (m (plugin_adapter p)) (\<lambda>xa. Inr (fst xa, p\<lparr>plugin_adapter := snd xa\<rparr>))"

definition event_lines :: "mevent list \<Rightarrow> string" where
  "event_lines es = concat (map (\<lambda>e. event_to_json e @ newline) es)"

definition append_events :: "mevent list \<Rightarrow> (plugin, unit) routine" where
  "append_events es = update_s (\<lambda>p. p\<lparr>out_text := out_text p @ event_lines es\<rparr>)"

text \<open>\<open>getattr(sequence, "decode_depth", 0) > 0\<close>\<close>

definition depth_positive :: "sequence \<Rightarrow> bool result" where
  "depth_positive sq =
     (case dict_get sq ''decode_depth'' of
        None \<Rightarrow> Inr False
      | Some (JInt i) \<Rightarrow> Inr (0 < i)
      | Some (JBool b) \<Rightarrow> Inr b
      | Some (JFloat x) \<Rightarrow> Inr (0 < x)
      | _ \<Rightarrow> Inl (TypeError ''not supported between instances''))"

definition promote :: "mevent \<Rightarrow> mevent result" where
  "promote e =
     bind_r (copy_with (\<lambda>i. i\<lparr>pin_requested := True\<rparr>) (ev_intent e)) (\<lambda>i.
     mk_event (ev_step e) MARKED_DECODE_CRITICAL i ''decode tail promoted by KVIntentPlugin'')"

definition step_sequence :: "conversions \<Rightarrow> sequence \<Rightarrow> (plugin, mevent list) routine" where
  "step_sequence c sq =
     bind_s (on_adapter (emit_sequence_accesses c sq)) (\<lambda>es.
     bind_s (lift_s (depth_positive sq)) (\<lambda>decoding.
       if decoding then bind_s (lift_s (map_r promote (last_items 4 es))) (\<lambda>promoted. return_s (es @ promoted))
       else return_s es))"

definition on_scheduler_step :: "conversions \<Rightarrow> sequence list \<Rightarrow> (plugin, unit) routine" where
  "on_scheduler_step c running = bind_s (collect_s (step_sequence c) running) append_events"

definition on_sequence_preempted :: "conversions \<Rightarrow> sequence \<Rightarrow> (plugin, unit) routine" where
  "on_sequence_preempted c sq = bind_s (on_adapter (emit_sequence_spill c sq)) append_events"

definition on_sequence_finished :: "conversions \<Rightarrow> sequence \<Rightarrow> (plugin, unit) routine" where
  "on_sequence_finished c sq = bind_s (on_adapter (emit_sequence_free c sq)) append_events"

section \<open>The smoke test\<close>

record fake_sequence =
  fs_request_id :: string
  fs_block_ids :: "int list"
  fs_step :: int
  fs_decode_depth :: int
  fs_deadline_us :: int
  fs_request_priority :: int

text \<open>Its attributes as \<open>getattr\<close> sees them; \<open>active_block_ids\<close> is a property.\<close>

definition attributes :: "fake_sequence \<Rightarrow> sequence" where
  "attributes f =
     [(''request_id'', JStr (fs_request_id f)), (''block_ids'', JList (map JInt (fs_block_ids f))),
      (''step'', JInt (fs_step f)), (''decode_depth'', JInt (fs_decode_depth f)),
      (''deadline_us'', JInt (fs_deadline_us f)), (''request_priority'', JInt (fs_request_priority f)),
      (''active_block_ids'', JList (map JInt (fs_block_ids f)))]"

definition smoke_sequence :: fake_sequence where
  "smoke_sequence = \<lparr>fs_request_id = ''req-smoke'', fs_block_ids = [0, 1, 2, 3], fs_step = 10, fs_decode_depth = 1,
     fs_deadline_us = 900, fs_request_priority = 90\<rparr>"

definition run_smoke_test :: "conversions \<Rightarrow> string \<Rightarrow> string result" where
  "run_smoke_test c text =
     bind_r (on_request_scheduled 0 ''req-smoke'' 90 (Some 900) (new_adapter None (256 * 1024) None)) (\<lambda>xa.
     bind_r (collect_s (\<lambda>b. bind_s (on_block_allocated b ''req-smoke'' b PREFILL None None None False) (\<lambda>e. return_s [e]))
         [0..3] (snd xa)) (\<lambda>xb.
     bind_r (on_scheduler_step c [attributes smoke_sequence] \<lparr>plugin_adapter = snd xb, out_text = text\<rparr>) (\<lambda>xc.
     bind_r (on_sequence_preempted c (attributes smoke_sequence) (snd xc)) (\<lambda>xd.
     bind_r (on_sequence_finished c (attributes smoke_sequence) (snd xd)) (\<lambda>xe. Inr (out_text (snd xe)))))))"

section \<open>Calls of an engine\<close>

text \<open>A sequence the engine may pass.\<close>

definition sequence_ok :: "fake_sequence \<Rightarrow> bool" where
  "sequence_ok f \<longleftrightarrow> fs_request_id f \<noteq> [] \<and> 0 \<le> fs_step f \<and> list_all (\<lambda>b. 0 \<le> b) (fs_block_ids f)
     \<and> priority_ok (fs_request_priority f)"

text \<open>The three callbacks as one type of calls.\<close>

datatype plugin_call = SchedulerStep "fake_sequence list" | Preempted fake_sequence | Finished fake_sequence

fun make_call :: "conversions \<Rightarrow> plugin_call \<Rightarrow> (plugin, unit) routine" where
  "make_call c (SchedulerStep fs) = on_scheduler_step c (map attributes fs)"
| "make_call c (Preempted f) = on_sequence_preempted c (attributes f)"
| "make_call c (Finished f) = on_sequence_finished c (attributes f)"

fun call_ok :: "plugin_call \<Rightarrow> bool" where
  "call_ok (SchedulerStep fs) = list_all sequence_ok fs"
| "call_ok (Preempted f) = sequence_ok f"
| "call_ok (Finished f) = sequence_ok f"

definition make_calls :: "conversions \<Rightarrow> plugin_call list \<Rightarrow> (plugin, unit list) routine" where
  "make_calls c = collect_s (\<lambda>call. bind_s (make_call c call) (\<lambda>u. return_s [u]))"

end
