(* ===== verification/PluginLaws.thy ===== *)
theory PluginLaws
  imports VllmPlugin
begin

text \<open>
  What the plugin appends to its file, against a specification that knows nothing of the adapter's table
  but the set of blocks it remembers: a scheduler step adds the blocks of its sequences to that set, a
  completion removes them, and a preemption spills exactly those of its blocks that are in it. The
  file holds, per call, the adapter's events and the promoted tail of every decoding sequence.
\<close>

section \<open>The blocks the adapter remembers\<close>

definition known :: "adapter \<Rightarrow> (string \<times> int) set" where
  "known a = dict_keys (blocks a)"

definition event_key :: "mevent \<Rightarrow> string \<times> int" where
  "event_key e = (request_id (ev_intent e), block_id (ev_intent e))"

lemma about_key: "about rid bid step et e \<Longrightarrow> event_key e = (rid, bid)"
  by (simp add: about_def own_def event_key_def)

lemma known_simps [simp]:
  "known (a\<lparr>blocks := AList.update k v d\<rparr>) = insert k (dict_keys d)"
  "known (a\<lparr>blocks := AList.delete k d\<rparr>) = dict_keys d - {k}"
  "known (a\<lparr>request_metadata := m\<rparr>) = known a" "known (a\<lparr>adapter_recorder := r\<rparr>) = known a"
  "dict_keys (blocks a) = known a"
  by (simp_all add: known_def dict_simps)

text \<open>A returning method adds exactly the keys of the given lookups and of the events it records.\<close>

lemma bind_s_Inr: "bind_s m k a = Inr (y, c) \<longleftrightarrow> (\<exists>x b. m a = Inr (x, b) \<and> k x b = Inr (y, c))"
  by (cases "m a") (auto simp: bind_s_def)

lemma lift_s_Inr: "lift_s r a = Inr (x, b) \<longleftrightarrow> r = Inr x \<and> b = a"
  by (cases r) (auto simp: lift_s_def)

lemmas returns_simps = bind_s_Inr lift_s_Inr return_s_def read_s_def update_s_def

lemma request_defaults_known: "request_defaults rid a = Inr (m, b) \<Longrightarrow> known b = known a"
  by (auto simp: request_defaults_def returns_simps split: option.splits)

lemma make_intent_known: "make_intent rid bid args a = Inr (i, b) \<Longrightarrow> known b = known a"
  by (auto simp: make_intent_def returns_simps dest: request_defaults_known)

lemma get_or_create_known:
  "get_or_create_block step rid bid ph pr critical rprio deadline prefix a = Inr (found, b)
    \<Longrightarrow> known b = insert (rid, bid) (known a)"
  by (auto simp: get_or_create_block_def returns_simps store_block_def split: option.splits dest!: make_intent_known)

lemma emit_update_known:
  "emit_update step et f reason found a = Inr (e, b) \<Longrightarrow> known b = insert (event_key e) (known a)"
  by (auto simp: emit_update_def adapter_record_def returns_simps store_block_def event_key_def)

lemma accessed_known:
  "on_block_accessed step rid bid ph c a = Inr (e, b) \<Longrightarrow> known b = {(rid, bid), event_key e} \<union> known a"
  by (auto simp: on_block_accessed_def returns_simps dest!: get_or_create_known emit_update_known)

lemma decode_block_known:
  "decode_block step rid deadline rprio m ob a = Inr (ys, b)
    \<Longrightarrow> known b = insert (rid, snd ob) (event_key ` set ys \<union> known a)"
  by (auto simp: decode_block_def returns_simps dest!: get_or_create_known emit_update_known accessed_known)

lemma collect_known:
  assumes "\<And>x a ys b. body x a = Inr (ys, b) \<Longrightarrow> known b = insert (key x) (event_key ` set ys \<union> known a)"
    and "collect_s body xs a = Inr (zs, b)"
  shows "known b = key ` set xs \<union> event_key ` set zs \<union> known a"
  using assms(2)
proof (induction xs arbitrary: a zs b)
  case (Cons x xs)
  then obtain ys c ws where *: "body x a = Inr (ys, c)" "collect_s body xs c = Inr (ws, b)" "zs = ys @ ws"
    by (auto simp: returns_simps)
  from assms(1) [OF *(1)] Cons.IH [OF *(2)] *(3) show ?case by auto
qed (simp add: returns_simps)

lemma decode_step_known:
  assumes "on_decode_step step rid bids deadline rprio a = Inr (ys, b)"
  shows "known b = Pair rid ` set bids \<union> event_key ` set ys \<union> known a"
proof -
  from assms obtain m c where found: "request_defaults rid a = Inr (m, c)"
    and loop: "collect_s (decode_block step rid deadline rprio (note_decode step deadline rprio m)) (py_enumerate bids)
      (c\<lparr>request_metadata := AList.update rid (note_decode step deadline rprio m) (request_metadata c)\<rparr>) = Inr (ys, b)"
    by (auto simp: on_decode_step_def returns_simps)
  have "(\<lambda>ob. (rid, snd ob)) ` set (py_enumerate bids) = Pair rid ` set bids"
    by (auto simp: py_enumerate_def image_iff set_zip in_set_conv_nth Bex_def)
  then show ?thesis
    using collect_known [OF decode_block_known loop] request_defaults_known [OF found] by simp
qed

lemma prefill_step_known:
  "on_prefill_step step rid bids a = Inr (ys, b) \<Longrightarrow> known b = Pair rid ` set bids \<union> event_key ` set ys \<union> known a"
  unfolding on_prefill_step_def
  by (rule collect_known) (auto simp: returns_simps dest!: get_or_create_known emit_update_known)

lemma finish_block_known:
  "finish_block step rid bid a = Inr (ys, b) \<Longrightarrow> known b = event_key ` set ys \<union> known a - {(rid, bid)}"
  by (auto simp: finish_block_def on_block_freed_def returns_simps dest!: get_or_create_known emit_update_known)

lemma finish_loop_known:
  "collect_s (finish_block step rid) bids a = Inr (ys, b)
    \<Longrightarrow> known a - Pair rid ` set bids \<subseteq> known b \<and> known b \<subseteq> event_key ` set ys \<union> known a"
proof (induction bids arbitrary: a ys b)
  case (Cons bid bids)
  then obtain xs c zs where *: "finish_block step rid bid a = Inr (xs, c)"
    "collect_s (finish_block step rid) bids c = Inr (zs, b)" "ys = xs @ zs" by (auto simp: returns_simps)
  from finish_block_known [OF *(1)] Cons.IH [OF *(2)] *(3) show ?case by auto
qed (simp add: returns_simps)

lemma finished_known:
  assumes "on_request_finished step rid bids a = Inr (ys, b)"
  shows "known a - Pair rid ` set bids \<subseteq> known b \<and> known b \<subseteq> event_key ` set ys \<union> known a"
  using assms by (auto simp: on_request_finished_def returns_simps dest!: finish_loop_known)

section \<open>What the adapter answers\<close>

text \<open>The state of the adapter: \<open>K\<close> the blocks it remembers, \<open>es\<close> all it has recorded.\<close>

definition holds :: "(string \<times> int) set \<Rightarrow> mevent list \<Rightarrow> adapter \<Rightarrow> bool" where
  "holds K es a \<longleftrightarrow> adapter_inv {} es a \<and> known a = K"

definition sequence_keys :: "fake_sequence \<Rightarrow> (string \<times> int) set" where
  "sequence_keys f = Pair (fs_request_id f) ` set (fs_block_ids f)"

text \<open>
  The events of a running sequence: for a decoding one the decode-critical mark and the access of each block in
  order, with the deadline and priority of the sequence (a priority of 0 counts as 50), otherwise one access
  per block.
\<close>

definition accesses :: "fake_sequence \<Rightarrow> mevent list \<Rightarrow> bool" where
  "accesses f es \<longleftrightarrow>
     (if 0 < fs_decode_depth f then
        \<exists>yss. es = concat yss \<and> list_all2 (decode_pair (fs_step f) (fs_request_id f) (Some (fs_deadline_us f))
          (if fs_request_priority f = 0 then 50 else fs_request_priority f)) (py_enumerate (fs_block_ids f)) yss
      else list_all2 (\<lambda>b e. about (fs_request_id f) b (fs_step f) ACCESSED e) (fs_block_ids f) es)"

text \<open>A preemption spills the blocks of the sequence that are remembered, a completion ends every block it lists.\<close>

definition spills :: "(string \<times> int) set \<Rightarrow> fake_sequence \<Rightarrow> mevent list \<Rightarrow> bool" where
  "spills K f es \<longleftrightarrow> list_all2 (\<lambda>b e. about (fs_request_id f) b (fs_step f) SPILLED e \<and> current_tier (ev_intent e) = DRAM)
     (filter (\<lambda>b. (fs_request_id f, b) \<in> K) (fs_block_ids f)) es"

definition ends :: "fake_sequence \<Rightarrow> mevent list \<Rightarrow> bool" where
  "ends f es \<longleftrightarrow> (\<exists>yss. es = concat yss \<and> list_all2 (finish_pair (fs_step f) (fs_request_id f)) (fs_block_ids f) yss)"

lemma delivers_and:
  assumes "delivers P m Q" "\<And>a x b. R a \<Longrightarrow> m a = Inr (x, b) \<Longrightarrow> Q x b \<Longrightarrow> S x b"
  shows "delivers (\<lambda>a. P a \<and> R a) m (\<lambda>x b. Q x b \<and> S x b)"
proof (rule deliversI, elim conjE)
  fix a assume "P a" and r: "R a"
  with assms(1) obtain x b where "m a = Inr (x, b)" "Q x b" by (auto elim: deliversD)
  with assms(2) [OF r] show "\<exists>x b. m a = Inr (x, b) \<and> Q x b \<and> S x b" by blast
qed

lemma chunk_keys:
  assumes "list_all2 (\<lambda>x ys. \<forall>e \<in> set ys. event_key e = key x) xs yss"
  shows "event_key ` set (concat yss) \<subseteq> key ` set xs"
proof
  fix k assume "k \<in> event_key ` set (concat yss)"
  then obtain ys e where e: "ys \<in> set yss" "e \<in> set ys" "k = event_key e" by auto
  then obtain i where "i < length yss" "ys = yss ! i" by (auto simp: in_set_conv_nth)
  with assms e show "k \<in> key ` set xs" by (auto simp: list_all2_conv_all_nth)
qed

lemma decode_keys:
  assumes "list_all2 (decode_pair step rid d p) (py_enumerate bids) yss"
  shows "event_key ` set (concat yss) \<subseteq> Pair rid ` set bids"
proof -
  have "list_all2 (\<lambda>ob ys. \<forall>e \<in> set ys. event_key e = (rid, snd ob)) (py_enumerate bids) yss"
    using assms by (rule list_all2_mono) (auto simp: decode_pair_def about_key)
  from chunk_keys [OF this] show ?thesis by (fastforce dest: py_enumerate_member)
qed

lemma finish_keys:
  assumes "list_all2 (finish_pair step rid) bids yss"
  shows "event_key ` set (concat yss) \<subseteq> Pair rid ` set bids"
proof -
  have "list_all2 (\<lambda>b ys. \<forall>e \<in> set ys. event_key e = (rid, b)) bids yss"
    using assms by (rule list_all2_mono) (auto simp: finish_pair_def about_key)
  from chunk_keys [OF this] show ?thesis .
qed

lemma prefill_keys:
  assumes "list_all2 (\<lambda>b ys. \<exists>e. ys = [e] \<and> about rid b step ACCESSED e) bids yss"
  shows "event_key ` set (concat yss) \<subseteq> Pair rid ` set bids"
    and "list_all2 (\<lambda>b e. about rid b step ACCESSED e) bids (concat yss)"
proof -
  have "list_all2 (\<lambda>b ys. \<forall>e \<in> set ys. event_key e = (rid, b)) bids yss"
    using assms by (rule list_all2_mono) (auto simp: about_key)
  from chunk_keys [OF this] show "event_key ` set (concat yss) \<subseteq> Pair rid ` set bids" .
  show "list_all2 (\<lambda>b e. about rid b step ACCESSED e) bids (concat yss)"
    using assms by (induction bids yss rule: list_all2_induct) auto
qed

section \<open>Reading a sequence\<close>

lemma attribute_readings:
  assumes "fs_request_id f \<noteq> []"
  shows "sequence_request_id c (attributes f) = Inr (fs_request_id f)"
    and "sequence_block_ids c (attributes f) = Inr (fs_block_ids f)"
    and "attr_int c (attributes f) ''step'' = Inr (fs_step f)"
    and "attr_int c (attributes f) ''decode_depth'' = Inr (fs_decode_depth f)"
    and "attr_opt_int c (attributes f) ''deadline_us'' = Inr (Some (fs_deadline_us f))"
    and "attr_opt_int c (attributes f) ''request_priority'' = Inr (Some (fs_request_priority f))"
proof -
  have ints: "map_r (py_int c) (map JInt xs) = Inr xs" for xs by (induction xs) simp_all
  show "sequence_block_ids c (attributes f) = Inr (fs_block_ids f)"
    using ints by (simp add: sequence_block_ids_def attr_def attributes_def Let_def)
qed (use assms in \<open>auto simp: sequence_request_id_def attr_def attributes_def attr_int_def attr_opt_int_def Let_def\<close>)

lemma depth_reading: "depth_positive (attributes f) = Inr (0 < fs_decode_depth f)"
  by (simp add: depth_positive_def attributes_def)

text \<open>The adapter calls, on readable attributes, in terms of the signals of the adapter.\<close>

lemma delivers_lift_bind: "r = Inr x \<Longrightarrow> delivers P (k x) Q \<Longrightarrow> delivers P (bind_s (lift_s r) k) Q"
  by (simp add: delivers_def method_defs)

lemma refs_ok:
  "sequence_ok f \<Longrightarrow> list_all (ref_ok (fs_step f) (fs_request_id f)) (fs_block_ids f)"
  by (auto simp: sequence_ok_def ref_ok_def list_all_iff)

lemma schedule_unknown_delivers:
  assumes "sequence_ok f"
  shows "delivers (holds K es) (schedule_unknown c (attributes f) (fs_request_id f)) (\<lambda>_. holds K es)"
proof -
  have rid: "fs_request_id f \<noteq> []" using assms by (simp add: sequence_ok_def)
  show ?thesis
    using assms attribute_readings [OF rid, of c] adapter_inv_meta
    by (auto simp: delivers_def schedule_unknown_def method_defs on_request_scheduled_def sequence_ok_def holds_def)
qed

lemma decode_delivers:
  assumes "sequence_ok f" "0 < fs_decode_depth f"
  shows "delivers (holds K es) (on_decode_step (fs_step f) (fs_request_id f) (fs_block_ids f)
      (Some (fs_deadline_us f)) (Some (fs_request_priority f)))
    (\<lambda>ys a. holds (K \<union> sequence_keys f) (es @ ys) a \<and> accesses f ys)"
proof -
  have p: "range_ok (Some (fs_request_priority f))" using assms(1) by (simp add: sequence_ok_def range_ok_def)
  let ?p = "if fs_request_priority f = 0 then 50 else fs_request_priority f"
  let ?pairs = "\<lambda>yss. list_all2 (decode_pair (fs_step f) (fs_request_id f) (Some (fs_deadline_us f)) ?p)
    (py_enumerate (fs_block_ids f)) yss"
  let ?step = "on_decode_step (fs_step f) (fs_request_id f) (fs_block_ids f)
      (Some (fs_deadline_us f)) (Some (fs_request_priority f))"
  have "delivers (adapter_inv {} es) ?step (\<lambda>ys s. adapter_inv {} (es @ ys) s \<and> (\<exists>yss. ys = concat yss \<and> ?pairs yss))"
    using decode_step_delivers [OF refs_ok [OF assms(1)] p, of "{}" es "Some (fs_deadline_us f)"]
    by (rule delivers_weaken) auto
  then have "delivers (\<lambda>a. adapter_inv {} es a \<and> known a = K) ?step
      (\<lambda>ys s. (adapter_inv {} (es @ ys) s \<and> (\<exists>yss. ys = concat yss \<and> ?pairs yss)) \<and> known s = K \<union> sequence_keys f)"
    by (rule delivers_and) (auto dest!: decode_step_known decode_keys simp: sequence_keys_def)
  then show ?thesis by (rule delivers_weaken) (use assms(2) in \<open>auto simp: holds_def accesses_def\<close>)
qed

lemma prefill_delivers:
  assumes "sequence_ok f" "\<not> 0 < fs_decode_depth f"
  shows "delivers (holds K es) (on_prefill_step (fs_step f) (fs_request_id f) (fs_block_ids f))
    (\<lambda>ys a. holds (K \<union> sequence_keys f) (es @ ys) a \<and> accesses f ys)"
proof -
  let ?one = "\<lambda>yss. list_all2 (\<lambda>b ys. \<exists>e. ys = [e] \<and> about (fs_request_id f) b (fs_step f) ACCESSED e) (fs_block_ids f) yss"
  have "delivers (adapter_inv {} es) (on_prefill_step (fs_step f) (fs_request_id f) (fs_block_ids f))
      (\<lambda>ys s. adapter_inv {} (es @ ys) s \<and> (\<exists>yss. ys = concat yss \<and> ?one yss))"
    using prefill_step_delivers [OF refs_ok [OF assms(1)], of "{}" es] by simp
  then have "delivers (\<lambda>a. adapter_inv {} es a \<and> known a = K)
      (on_prefill_step (fs_step f) (fs_request_id f) (fs_block_ids f))
      (\<lambda>ys s. (adapter_inv {} (es @ ys) s \<and> (\<exists>yss. ys = concat yss \<and> ?one yss)) \<and> known s = K \<union> sequence_keys f)"
    by (rule delivers_and) (auto dest!: prefill_step_known prefill_keys(1) simp: sequence_keys_def)
  then show ?thesis
    by (rule delivers_weaken) (use assms(2) in \<open>auto simp: holds_def accesses_def dest: prefill_keys(2)\<close>)
qed

lemma accesses_deliver:
  assumes "sequence_ok f"
  shows "delivers (holds K es) (emit_sequence_accesses c (attributes f))
    (\<lambda>ys a. holds (K \<union> sequence_keys f) (es @ ys) a \<and> accesses f ys)"
proof -
  have rid: "fs_request_id f \<noteq> []" using assms by (simp add: sequence_ok_def)
  note reads = attribute_readings [OF rid, of c]
  have decode: "delivers (holds K es)
      (bind_s (lift_s (attr_opt_int c (attributes f) ''deadline_us'')) (\<lambda>d.
       bind_s (lift_s (attr_opt_int c (attributes f) ''request_priority'')) (\<lambda>p.
         on_decode_step (fs_step f) (fs_request_id f) (fs_block_ids f) d p)))
      (\<lambda>ys a. holds (K \<union> sequence_keys f) (es @ ys) a \<and> accesses f ys)" if "0 < fs_decode_depth f"
    by (intro delivers_lift_bind [OF reads(5)] delivers_lift_bind [OF reads(6)] decode_delivers [OF assms that])
  show ?thesis
    unfolding emit_sequence_accesses_def
    by (intro delivers_lift_bind [OF reads(1)] delivers_lift_bind [OF reads(2)] delivers_lift_bind [OF reads(4)]
        delivers_bind [OF schedule_unknown_delivers [OF assms]] delivers_lift_bind [OF reads(3)])
      (use decode prefill_delivers [OF assms] in auto)
qed

lemma spill_block_delivers:
  assumes "0 \<le> step"
  shows "delivers (holds K acc) (spill_block step rid b) (\<lambda>ys s. holds K (acc @ ys) s
     \<and> (if (rid, b) \<in> K then \<exists>e. ys = [e] \<and> about rid b step SPILLED e \<and> current_tier (ev_intent e) = DRAM else ys = []))"
proof (rule deliversI)
  fix a assume a: "holds K acc a"
  let ?Q = "\<lambda>ys t. holds K (acc @ ys) t \<and> (if (rid, b) \<in> K
    then \<exists>e. ys = [e] \<and> about rid b step SPILLED e \<and> current_tier (ev_intent e) = DRAM else ys = [])"
  show "\<exists>ys t. spill_block step rid b a = Inr (ys, t) \<and> ?Q ys t"
  proof (cases "dict_get (blocks a) (rid, b)")
    case None
    then have "(rid, b) \<notin> K" using a by (simp add: holds_def dict_simps)
    with None a show ?thesis by (simp add: spill_block_def method_defs)
  next
    case (Some x)
    let ?f = "\<lambda>b. b\<lparr>current_tier := DRAM\<rparr>"
    have inv: "adapter_inv {} acc a" and K: "known a = K" using a by (simp_all add: holds_def)
    have x: "own rid b x" using adapter_okD(4) [OF adapter_invD(1) [OF inv] Some] .
    have m: "mild ?f x" by (rule mild_field_updates(7) [OF x])
    have mem: "(rid, b) \<in> K" using dict_key_of [OF Some] K by simp
    from emit_update_delivers [of rid b "(x, None)" ?f step "{}" acc SPILLED "''sequence preempted; block spilled''"]
      x m assms inv
    obtain e t where e: "emit_update step SPILLED ?f ''sequence preempted; block spilled'' (x, None) a = Inr (e, t)"
      "adapter_inv {} (acc @ [e]) t" "recorded_as step SPILLED (auto_pin (?f x)) e"
      by (auto simp: delivers_def)
    have ab: "about rid b step SPILLED e" by (rule recorded_about [OF x m e(3)])
    have "known t = K" using emit_update_known [OF e(1)] K mem about_key [OF ab] by auto
    moreover have "current_tier (ev_intent e) = DRAM" using e(3) by (simp add: recorded_as_def auto_pin_def)
    moreover have "spill_block step rid b a = Inr ([e], t)" using Some e(1) by (simp add: spill_block_def method_defs)
    ultimately show ?thesis using e(2) ab mem by (auto simp: holds_def)
  qed
qed

lemma spill_chunks:
  "list_all2 (\<lambda>b ys. if k b then \<exists>e. ys = [e] \<and> Q b e else ys = []) bs yss \<Longrightarrow> list_all2 Q (filter k bs) (concat yss)"
  by (induction bs yss rule: list_all2_induct) (auto split: if_splits)

lemma spill_delivers:
  assumes "sequence_ok f"
  shows "delivers (holds K es) (emit_sequence_spill c (attributes f)) (\<lambda>ys a. holds K (es @ ys) a \<and> spills K f ys)"
proof -
  have rid: "fs_request_id f \<noteq> []" and step: "0 \<le> fs_step f" using assms by (simp_all add: sequence_ok_def)
  note reads = attribute_readings [OF rid, of c]
  have "delivers (holds K es) (collect_s (spill_block (fs_step f) (fs_request_id f)) (fs_block_ids f))
      (\<lambda>ys a. holds K (es @ ys) a \<and> spills K f ys)"
    unfolding spills_def
    using delivers_collect [where P = "holds K", OF spill_block_delivers [OF step]]
    by (rule delivers_weaken) (auto dest: spill_chunks)
  then show ?thesis
    unfolding emit_sequence_spill_def
    by (intro delivers_lift_bind [OF reads(1)] delivers_lift_bind [OF reads(3)] delivers_lift_bind [OF reads(2)])
qed

lemma free_delivers:
  assumes "sequence_ok f"
  shows "delivers (holds K es) (emit_sequence_free c (attributes f))
    (\<lambda>ys a. holds (K - sequence_keys f) (es @ ys) a \<and> ends f ys)"
proof -
  have rid: "fs_request_id f \<noteq> []" using assms by (simp add: sequence_ok_def)
  note reads = attribute_readings [OF rid, of c]
  let ?finish = "on_request_finished (fs_step f) (fs_request_id f) (fs_block_ids f)"
  have "delivers (\<lambda>a. adapter_inv {} es a \<and> known a = K) ?finish
      (\<lambda>ys s. (adapter_inv (sequence_keys f) (es @ ys) s \<and> ends f ys) \<and> known s = K - sequence_keys f)"
  proof (rule delivers_and)
    show "delivers (adapter_inv {} es) ?finish (\<lambda>ys s. adapter_inv (sequence_keys f) (es @ ys) s \<and> ends f ys)"
      using finished_delivers [OF refs_ok [OF assms], of es]
      by (rule delivers_weaken) (auto simp: ends_def sequence_keys_def)
    fix a ys b
    assume a: "known a = K" "?finish a = Inr (ys, b)" "adapter_inv (sequence_keys f) (es @ ys) b \<and> ends f ys"
    have "known b \<inter> sequence_keys f = {}" using a(3) by (auto simp: adapter_inv_def dict_simps)
    moreover have "event_key ` set ys \<subseteq> sequence_keys f"
      using a(3) finish_keys [of "fs_step f" "fs_request_id f" "fs_block_ids f"]
      unfolding ends_def sequence_keys_def by blast
    ultimately show "known b = K - sequence_keys f"
      using finished_known [OF a(2)] a(1) by (fold sequence_keys_def) blast
  qed
  then have "delivers (holds K es) ?finish (\<lambda>ys a. holds (K - sequence_keys f) (es @ ys) a \<and> ends f ys)"
    by (rule delivers_weaken) (auto simp: holds_def elim: adapter_inv_fewer)
  then show ?thesis
    unfolding emit_sequence_free_def
    by (intro delivers_lift_bind [OF reads(1)] delivers_lift_bind [OF reads(3)] delivers_lift_bind [OF reads(2)])
qed

section \<open>What the plugin appends\<close>

definition good_events :: "mevent list \<Rightarrow> bool" where
  "good_events es \<longleftrightarrow> (\<forall>e \<in> set es. valid_event e \<and> sound (ev_intent e) \<and> is_float (recency_score (ev_intent e)))"

lemma good_simps [simp]: "good_events []" "good_events (xs @ ys) = (good_events xs \<and> good_events ys)"
  by (auto simp: good_events_def)

lemma holds_good: "holds K es a \<Longrightarrow> good_events es"
  by (auto simp: holds_def adapter_inv_def good_events_def)

text \<open>The promotion of an event: the same block at the same step, pinned, marked decode-critical.\<close>

definition promoted :: "mevent \<Rightarrow> mevent" where
  "promoted e = \<lparr>ev_step = ev_step e, ev_type = MARKED_DECODE_CRITICAL,
     ev_intent = (ev_intent e)\<lparr>pin_requested := True\<rparr>,
     ev_reason = Some ''decode tail promoted by KVIntentPlugin'', ev_latency_us = None\<rparr>"

definition sequence_lines :: "fake_sequence \<Rightarrow> mevent list \<Rightarrow> mevent list" where
  "sequence_lines f es = es @ (if 0 < fs_decode_depth f then map promoted (last_items 4 es) else [])"

lemma promote_total:
  assumes "good_events [e]"
  shows "promote e = Inr (promoted e) \<and> good_events [promoted e]"
proof -
  let ?f = "\<lambda>i. i\<lparr>pin_requested := True\<rparr>"
  have e: "valid_event e" "sound (ev_intent e)" "is_float (recency_score (ev_intent e))"
    using assms by (auto simp: good_events_def)
  have ranges: "intent_ranges (?f (ev_intent e))" "routable (?f (ev_intent e))"
    using e(2) by (auto simp: sound_def valid_intent_def intent_ranges_def routable_def)
  have pinned: "auto_pin (?f (ev_intent e)) = ?f (ev_intent e)" by (simp add: auto_pin_def)
  have i: "copy_with ?f (ev_intent e) = Inr (?f (ev_intent e))" "sound (?f (ev_intent e))"
    using post_init_eq [OF ranges(1)] ranges by (simp_all add: copy_with_def pinned sound_def valid_intent_def)
  moreover have "0 \<le> ev_step e" using e(1) by (simp add: valid_event_def)
  ultimately show ?thesis
    using e(3) by (simp add: promote_def mk_event_def event_post_init_def good_events_def valid_event_def sound_def
        promoted_def)
qed

lemma promote_all: "good_events es \<Longrightarrow> map_r promote es = Inr (map promoted es) \<and> good_events (map promoted es)"
proof (induction es)
  case (Cons e es)
  then have "good_events [e]" "good_events es" by (auto simp: good_events_def)
  with promote_total [of e] Cons.IH show ?case by (simp add: good_events_def)
qed simp

lemma promote_tail: "good_events es \<Longrightarrow> map_r promote (last_items n es) = Inr (map promoted (last_items n es))"
  by (rule conjunct1 [OF promote_all]) (auto simp: good_events_def last_items_def dest: in_set_dropD)

lemma sequence_lines_good: "good_events es \<Longrightarrow> good_events (sequence_lines f es)"
proof -
  assume es: "good_events es"
  then have "good_events (last_items 4 es)" by (auto simp: good_events_def last_items_def dest: in_set_dropD)
  from conjunct2 [OF promote_all [OF this]] es show ?thesis by (simp add: sequence_lines_def)
qed

section \<open>Calls\<close>

text \<open>
  One call answered by chunks of adapter events, one per sequence; the blocks known afterwards; and the
  events it appends to the file.
\<close>

fun answers :: "(string \<times> int) set \<Rightarrow> plugin_call \<Rightarrow> mevent list list \<Rightarrow> bool" where
  "answers K (SchedulerStep fs) ess = list_all2 accesses fs ess"
| "answers K (Preempted f) ess = (\<exists>es. ess = [es] \<and> spills K f es)"
| "answers K (Finished f) ess = (\<exists>es. ess = [es] \<and> ends f es)"

fun known_after :: "(string \<times> int) set \<Rightarrow> plugin_call \<Rightarrow> (string \<times> int) set" where
  "known_after K (SchedulerStep fs) = K \<union> \<Union> (set (map sequence_keys fs))"
| "known_after K (Preempted f) = K"
| "known_after K (Finished f) = K - sequence_keys f"

fun written :: "plugin_call \<Rightarrow> mevent list list \<Rightarrow> mevent list" where
  "written (SchedulerStep fs) ess = concat (map2 sequence_lines fs ess)"
| "written (Preempted f) ess = concat ess"
| "written (Finished f) ess = concat ess"

fun trail :: "(string \<times> int) set \<Rightarrow> plugin_call list \<Rightarrow> mevent list list list \<Rightarrow> bool" where
  "trail K [] esss \<longleftrightarrow> esss = []"
| "trail K (call # calls) esss \<longleftrightarrow>
     (\<exists>ess rest. esss = ess # rest \<and> answers K call ess \<and> trail (known_after K call) calls rest)"

text \<open>The state of the plugin; \<open>t\<close> is the text of its file.\<close>

definition plugin_state :: "(string \<times> int) set \<Rightarrow> mevent list \<Rightarrow> string \<Rightarrow> plugin \<Rightarrow> bool" where
  "plugin_state K es t p \<longleftrightarrow> holds K es (plugin_adapter p) \<and> out_text p = t"

lemma on_adapter_delivers:
  assumes "delivers (holds K es) m (\<lambda>ys a. holds K' (es @ ys) a \<and> Q ys)"
  shows "delivers (plugin_state K es t) (on_adapter m) (\<lambda>ys p. plugin_state K' (es @ ys) t p \<and> Q ys)"
proof (rule deliversI)
  fix p assume p: "plugin_state K es t p"
  then have "holds K es (plugin_adapter p)" by (simp add: plugin_state_def)
  with assms obtain ys a where "m (plugin_adapter p) = Inr (ys, a)" "holds K' (es @ ys) a \<and> Q ys" by (rule deliversD)
  with p show "\<exists>ys q. on_adapter m p = Inr (ys, q) \<and> plugin_state K' (es @ ys) t q \<and> Q ys"
    by (simp add: on_adapter_def plugin_state_def)
qed

lemma step_sequence_delivers:
  assumes "sequence_ok f"
  shows "delivers (plugin_state K es t) (step_sequence c (attributes f)) (\<lambda>ws p. \<exists>ys. ws = sequence_lines f ys
    \<and> plugin_state (K \<union> sequence_keys f) (es @ ys) t p \<and> accesses f ys)"
  unfolding step_sequence_def
proof (rule delivers_bind [OF on_adapter_delivers [OF accesses_deliver [OF assms]]])
  fix ys
  let ?rest = "\<lambda>decoding. if decoding then bind_s (lift_s (map_r promote (last_items 4 ys))) (\<lambda>promoted. return_s (ys @ promoted))
     else return_s ys"
  have "delivers (\<lambda>p. plugin_state (K \<union> sequence_keys f) (es @ ys) t p \<and> accesses f ys) (?rest (0 < fs_decode_depth f))
      (\<lambda>ws p. \<exists>ys. ws = sequence_lines f ys \<and> plugin_state (K \<union> sequence_keys f) (es @ ys) t p \<and> accesses f ys)"
  proof (rule deliversI, elim conjE)
    fix p assume p: "plugin_state (K \<union> sequence_keys f) (es @ ys) t p" "accesses f ys"
    have "good_events ys" using p(1) by (auto simp: plugin_state_def dest: holds_good)
    from promote_tail [OF this, of 4] p show "\<exists>ws q. ?rest (0 < fs_decode_depth f) p = Inr (ws, q) \<and>
        (\<exists>ys. ws = sequence_lines f ys \<and> plugin_state (K \<union> sequence_keys f) (es @ ys) t q \<and> accesses f ys)"
      by (auto simp: method_defs sequence_lines_def)
  qed
  then show "delivers (\<lambda>p. plugin_state (K \<union> sequence_keys f) (es @ ys) t p \<and> accesses f ys)
      (bind_s (lift_s (depth_positive (attributes f))) ?rest)
      (\<lambda>ws p. \<exists>ys. ws = sequence_lines f ys \<and> plugin_state (K \<union> sequence_keys f) (es @ ys) t p \<and> accesses f ys)"
    by (rule delivers_lift_bind [OF depth_reading])
qed

lemma collect_s_map: "collect_s body (map f xs) = collect_s (body \<circ> f) xs"
  by (induction xs) simp_all

lemma steps_deliver:
  assumes "list_all sequence_ok fs"
  shows "delivers (plugin_state K es t) (collect_s (step_sequence c \<circ> attributes) fs) (\<lambda>ws p. \<exists>ess.
    ws = written (SchedulerStep fs) ess \<and> answers K (SchedulerStep fs) ess
    \<and> plugin_state (known_after K (SchedulerStep fs)) (es @ concat ess) t p)"
  using assms
proof (induction fs arbitrary: K es)
  case Nil
  then show ?case by (auto intro!: delivers_return)
next
  case (Cons f fs)
  show ?case
  proof (rule deliversI)
    fix p assume "plugin_state K es t p"
    with step_sequence_delivers [of f K es t c] Cons.prems obtain q ys where
      one: "step_sequence c (attributes f) p = Inr (sequence_lines f ys, q)"
      "plugin_state (K \<union> sequence_keys f) (es @ ys) t q" "accesses f ys"
      by (auto simp: delivers_def)
    with Cons.IH [of "K \<union> sequence_keys f" "es @ ys"] Cons.prems obtain r ess where
      rest: "collect_s (step_sequence c \<circ> attributes) fs q = Inr (written (SchedulerStep fs) ess, r)"
      "list_all2 accesses fs ess"
      "plugin_state (K \<union> sequence_keys f \<union> \<Union> (set (map sequence_keys fs))) ((es @ ys) @ concat ess) t r"
      by (auto simp: delivers_def comp_def)
    have "collect_s (step_sequence c \<circ> attributes) (f # fs) p = Inr (written (SchedulerStep (f # fs)) (ys # ess), r)"
      using one(1) rest(1) by (simp add: method_defs)
    moreover have "plugin_state (known_after K (SchedulerStep (f # fs))) (es @ concat (ys # ess)) t r"
      using rest(3) by (simp add: Un_assoc)
    moreover have "answers K (SchedulerStep (f # fs)) (ys # ess)" using one(3) rest(2) by simp
    ultimately show "\<exists>ws r. collect_s (step_sequence c \<circ> attributes) (f # fs) p = Inr (ws, r) \<and> (\<exists>ess.
        ws = written (SchedulerStep (f # fs)) ess \<and> answers K (SchedulerStep (f # fs)) ess
        \<and> plugin_state (known_after K (SchedulerStep (f # fs))) (es @ concat ess) t r)" by blast
  qed
qed

lemma then_append:
  assumes "delivers (plugin_state K es t) m (\<lambda>ws p. \<exists>ess. ws = written call ess \<and> answers K call ess
    \<and> plugin_state K' (es @ concat ess) t p)"
  shows "delivers (plugin_state K es t) (bind_s m append_events) (\<lambda>_ p. \<exists>ess. answers K call ess
    \<and> plugin_state K' (es @ concat ess) (t @ event_lines (written call ess)) p)"
proof (rule deliversI)
  fix p assume "plugin_state K es t p"
  with assms obtain ess q where "m p = Inr (written call ess, q)" "answers K call ess"
    "plugin_state K' (es @ concat ess) t q" by (auto simp: delivers_def)
  then show "\<exists>x r. bind_s m append_events p = Inr (x, r) \<and> (\<exists>ess. answers K call ess
      \<and> plugin_state K' (es @ concat ess) (t @ event_lines (written call ess)) r)"
    by (auto simp: append_events_def method_defs plugin_state_def)
qed

lemma one_chunk:
  "spills K f ys \<Longrightarrow> \<exists>ess. ys = written (Preempted f) ess \<and> answers K (Preempted f) ess \<and> concat ess = ys"
  "ends f ys \<Longrightarrow> \<exists>ess. ys = written (Finished f) ess \<and> answers K (Finished f) ess \<and> concat ess = ys"
  by (rule exI [of _ "[ys]"], simp)+

lemma make_call_delivers:
  assumes "call_ok call"
  shows "delivers (plugin_state K es t) (make_call c call) (\<lambda>_ p. \<exists>ess. answers K call ess
    \<and> plugin_state (known_after K call) (es @ concat ess) (t @ event_lines (written call ess)) p)"
proof (cases call)
  case (SchedulerStep fs)
  with then_append [OF steps_deliver, of fs K es t c] assms show ?thesis
    by (simp add: on_scheduler_step_def collect_s_map)
next
  case (Preempted f)
  have "delivers (plugin_state K es t) (on_adapter (emit_sequence_spill c (attributes f)))
      (\<lambda>ws p. \<exists>ess. ws = written call ess \<and> answers K call ess \<and> plugin_state K (es @ concat ess) t p)"
    using on_adapter_delivers [OF spill_delivers] by (rule delivers_weaken) (use assms Preempted one_chunk in fastforce)+
  from then_append [OF this] Preempted show ?thesis by (simp add: on_sequence_preempted_def)
next
  case (Finished f)
  have "delivers (plugin_state K es t) (on_adapter (emit_sequence_free c (attributes f))) (\<lambda>ws p. \<exists>ess.
      ws = written call ess \<and> answers K call ess \<and> plugin_state (K - sequence_keys f) (es @ concat ess) t p)"
    using on_adapter_delivers [OF free_delivers] by (rule delivers_weaken) (use assms Finished one_chunk in fastforce)+
  from then_append [OF this] Finished show ?thesis by (simp add: on_sequence_finished_def)
qed

lemma make_calls_deliver:
  assumes "list_all call_ok calls"
  shows "delivers (plugin_state K es t) (make_calls c calls) (\<lambda>_ p. \<exists>esss. trail K calls esss
    \<and> plugin_state (foldl known_after K calls) (es @ concat (concat esss))
        (t @ event_lines (concat (map2 written calls esss))) p)"
  using assms
proof (induction calls arbitrary: K es t)
  case Nil
  then show ?case by (auto simp: make_calls_def event_lines_def intro: delivers_return)
next
  case (Cons call calls)
  show ?case
  proof (rule deliversI)
    fix p assume "plugin_state K es t p"
    with make_call_delivers [of call K es t c] Cons.prems obtain u q ess where
      one: "make_call c call p = Inr (u, q)" "answers K call ess"
      "plugin_state (known_after K call) (es @ concat ess) (t @ event_lines (written call ess)) q"
      by (auto simp: delivers_def)
    with Cons.IH [of "known_after K call" "es @ concat ess" "t @ event_lines (written call ess)"] Cons.prems
    obtain us r esss where rest: "make_calls c calls q = Inr (us, r)" "trail (known_after K call) calls esss"
      "plugin_state (foldl known_after (known_after K call) calls) ((es @ concat ess) @ concat (concat esss))
        ((t @ event_lines (written call ess)) @ event_lines (concat (map2 written calls esss))) r"
      by (auto simp: delivers_def)
    have "trail K (call # calls) (ess # esss)" using one(2) rest(2) by simp
    moreover have "plugin_state (foldl known_after K (call # calls)) (es @ concat (concat (ess # esss)))
        (t @ event_lines (concat (map2 written (call # calls) (ess # esss)))) r"
      using rest(3) by (simp add: event_lines_def)
    moreover have "make_calls c (call # calls) p = Inr ([u] @ us, r)"
      using one(1) rest(1) by (simp add: make_calls_def method_defs)
    ultimately show "\<exists>x r. make_calls c (call # calls) p = Inr (x, r) \<and> (\<exists>esss. trail K (call # calls) esss
        \<and> plugin_state (foldl known_after K (call # calls)) (es @ concat (concat esss))
            (t @ event_lines (concat (map2 written (call # calls) esss))) r)" by blast
  qed
qed

text \<open>Everything written is a valid event, since the adapter recorded it or it was promoted from one it recorded.\<close>

lemma answers_written_good:
  assumes "answers K call ess" "good_events (concat ess)" shows "good_events (written call ess)"
proof (cases call)
  case (SchedulerStep fs)
  have "good_events (concat (map2 sequence_lines fs ess))" if "list_all2 accesses fs ess" "good_events (concat ess)"
    using that by (induction fs ess rule: list_all2_induct) (auto intro: sequence_lines_good)
  with SchedulerStep assms show ?thesis by simp
qed (use assms in auto)

lemma trail_written_good:
  "trail K calls esss \<Longrightarrow> good_events (concat (concat esss)) \<Longrightarrow> good_events (concat (map2 written calls esss))"
proof (induction calls arbitrary: K esss)
  case (Cons call calls)
  then obtain ess rest where *: "esss = ess # rest" "answers K call ess" "trail (known_after K call) calls rest" by auto
  with Cons.prems(2) have "good_events (concat ess)" "good_events (concat (concat rest))" by simp_all
  with answers_written_good [OF *(2)] Cons.IH [OF *(3)] *(1) show ?case by simp
qed simp

text \<open>The file reads back as the list of events.\<close>

lemma event_lines_jsonl: "ws \<noteq> [] \<Longrightarrow> event_lines ws = to_jsonl \<lparr>rec_events = ws\<rparr>"
proof -
  have "ls \<noteq> [] \<Longrightarrow> concat (map (\<lambda>l. l @ newline) ls) = py_join newline ls @ newline" for ls
    by (induction newline ls rule: py_join.induct) simp_all
  from this [of "map event_to_json ws"] show "ws \<noteq> [] \<Longrightarrow> event_lines ws = to_jsonl \<lparr>rec_events = ws\<rparr>"
    by (simp add: event_lines_def to_jsonl_def comp_def)
qed

lemma event_lines_back:
  assumes "good_events ws" shows "from_jsonl c (event_lines ws) = Inr \<lparr>rec_events = ws\<rparr>"
proof (cases "ws = []")
  case True
  then show ?thesis by (simp add: event_lines_def from_jsonl_def py_splitlines.simps new_recorder_def)
next
  case False
  have "from_jsonl c (to_jsonl \<lparr>rec_events = ws\<rparr>) = Inr \<lparr>rec_events = ws\<rparr>"
    by (rule jsonl_back) (use assms in \<open>simp add: good_events_def\<close>)
  then show ?thesis using event_lines_jsonl [OF False] by simp
qed

end
