(* ===== verification/Drain.thy ===== *)
theory Drain
  imports CacheRefinement TraceImporter
begin

text \<open>
  What becomes of the blocks an imported trace allocates: the events of a completed record end with
  the release of every block they named, so that a run of the whole trace leaves live only blocks
  of records that did not complete.
\<close>

section \<open>The live names of an event list\<close>

definition live_names :: "mevent list \<Rightarrow> string set" where
  "live_names es = fold (\<lambda>e. keys_after (command_of e)) es {}"

definition names_after :: "event_type \<Rightarrow> string \<Rightarrow> string set \<Rightarrow> string set" where
  "names_after et k ks = keys_after \<lparr>cmd_type = et, cmd_key = k, cmd_slot = slot_of undefined, cmd_home = HBM\<rparr> ks"

lemma names_after_simps [simp]:
  "names_after ALLOCATED k ks = insert k ks" "names_after ACCESSED k ks = insert k ks"
  "names_after MARKED_DECODE_CRITICAL k ks = insert k ks" "names_after MARKED_COLD k ks = ks"
  "names_after FREED k ks = ks - {k}"
  by (simp_all add: names_after_def keys_after_def)

lemma emit_live:
  assumes "emit et i m st = Inr st'"
  shows "live_names (snd st') = names_after et (object_id i) (live_names (snd st))"
proof -
  obtain e where "mk_event (fst st) et i m = Inr e" "snd st' = snd st @ [e]"
    using assms by (auto simp: emit_def bind_r_Inr_iff)
  moreover then have "ev_type e = et" "ev_intent e = i"
    by (auto simp: mk_event_def event_post_init_def split: if_splits)
  ultimately show ?thesis by (simp add: live_names_def keys_after_def names_after_def)
qed

lemma built_live:
  assumes "bind_r (post_init i) (\<lambda>j. emit et j m st) = Inr st'"
  shows "live_names (snd st') = names_after et (object_id i) (live_names (snd st))"
proof -
  obtain j where "post_init i = Inr j" "emit et j m st = Inr st'" using assms by (auto simp: bind_r_Inr_iff)
  then show ?thesis using emit_live by (auto simp: post_init_Inr_iff)
qed

section \<open>The loops of the importer\<close>

lemma alloc_live: "alloc_step r lay b st = Inr st' \<Longrightarrow> live_names (snd st') = insert (import_id r b) (live_names (snd st))"
  unfolding alloc_step_def by (drule built_live) simp

lemma hot_live:
  assumes "hot_step r lay k st = Inr st'"
  shows "live_names (snd st') = insert (import_id r (num_blocks lay - decode_hot_blocks lay + k)) (live_names (snd st))"
proof -
  obtain i st1 m j m' where i: "post_init (hot_intent r lay k (fst st)) = Inr i"
    and e: "emit MARKED_DECODE_CRITICAL i m st = Inr st1" "emit ACCESSED j m' st1 = Inr st'"
    and j: "copy_with (\<lambda>x. x\<lparr>last_access_step := fst st1\<rparr>) i = Inr j"
    using assms unfolding hot_step_def bind_r_Inr_iff by blast
  have "object_id i = import_id r (num_blocks lay - decode_hot_blocks lay + k)" "object_id j = object_id i"
    using i copy_with_object_id [OF j] by (auto simp: post_init_Inr_iff)
  then show ?thesis using emit_live [OF e(1)] emit_live [OF e(2)] by simp
qed

lemma cold_live: "cold_step r lay b st = Inr st' \<Longrightarrow> live_names (snd st') = live_names (snd st)"
  unfolding cold_step_def by (drule built_live) simp

lemma free_live: "free_step r lay b st = Inr st' \<Longrightarrow> live_names (snd st') = live_names (snd st) - {import_id r b}"
  unfolding free_step_def by (drule built_live) simp

lemma fold_r_adds:
  assumes "\<And>x u v. f x u = Inr v \<Longrightarrow> live_names (snd v) = insert (g x) (live_names (snd u))"
  shows "fold_r f xs st = Inr st' \<Longrightarrow> live_names (snd st') = live_names (snd st) \<union> g ` set xs"
  by (induction xs arbitrary: st) (auto simp: bind_r_Inr_iff dest!: assms)

lemma fold_r_removes:
  assumes "\<And>x u v. f x u = Inr v \<Longrightarrow> live_names (snd v) = live_names (snd u) - {g x}"
  shows "fold_r f xs st = Inr st' \<Longrightarrow> live_names (snd st') = live_names (snd st) - g ` set xs"
  by (induction xs arbitrary: st) (auto simp: bind_r_Inr_iff dest!: assms)

lemma fold_r_same:
  assumes "\<And>x u v. f x u = Inr v \<Longrightarrow> live_names (snd v) = live_names (snd u)"
  shows "fold_r f xs st = Inr st' \<Longrightarrow> live_names (snd st') = live_names (snd st)"
  by (induction xs arbitrary: st) (auto simp: bind_r_Inr_iff dest!: assms)

text \<open>A completed record leaves nothing behind, any other at most its own blocks.\<close>

lemma record_live:
  assumes "import_record opts m r st = Inr st'" "options_ok opts" "footprint_ok m r"
  shows "live_names (snd st') \<subseteq> live_names (snd st) \<union> (if status r = ''completed'' then {} else range (import_id r))"
proof -
  obtain kv where kv: "estimate_request_kv_bytes m (prompt_tokens r) (generated_tokens r) = Inr kv" "0 \<le> kv" "kv \<le> 2 ^ 53"
    using assms(3) by (auto simp: footprint_ok_def)
  define lay where "lay = layout_of opts kv r"
  have lay: "decode_hot_blocks lay \<le> num_blocks lay" using layout_bounds [OF assms(2) kv(2,3)] by (simp add: lay_def)
  obtain s1 s2 s3 where s: "fold_r (alloc_step r lay) [0..num_blocks lay - 1] st = Inr s1"
      "fold_r (hot_step r lay) [0..decode_hot_blocks lay - 1] s1 = Inr s2"
      "fold_r (cold_step r lay) [0..max 0 (num_blocks lay - decode_hot_blocks lay) - 1] s2 = Inr s3"
    and st': "if status r = ''completed'' then fold_r (free_step r lay) [0..num_blocks lay - 1] s3 = Inr st' else st' = s3"
    using assms(1) by (auto simp: import_record_def kv(1) Let_def lay_def [symmetric] bind_r_Inr_iff split: if_splits)
  let ?ids = "import_id r ` set [0..num_blocks lay - 1]"
  have "live_names (snd s1) = live_names (snd st) \<union> ?ids" by (rule fold_r_adds [OF alloc_live s(1)])
  moreover have "live_names (snd s2) = live_names (snd s1)
      \<union> (\<lambda>k. import_id r (num_blocks lay - decode_hot_blocks lay + k)) ` set [0..decode_hot_blocks lay - 1]"
    by (rule fold_r_adds [OF hot_live s(2)])
  moreover have "live_names (snd s3) = live_names (snd s2)" by (rule fold_r_same [OF cold_live s(3)])
  moreover have "(\<lambda>k. import_id r (num_blocks lay - decode_hot_blocks lay + k)) ` set [0..decode_hot_blocks lay - 1] \<subseteq> ?ids"
    using lay by auto
  ultimately have s3: "live_names (snd s3) = live_names (snd st) \<union> ?ids" by blast
  show ?thesis
  proof (cases "status r = ''completed''")
    case True
    have "live_names (snd st') = live_names (snd s3) - ?ids"
      by (rule fold_r_removes [OF free_live st' [unfolded if_P [OF True]]])
    with s3 True show ?thesis by auto
  next
    case False
    with s3 st' show ?thesis by auto
  qed
qed

definition leftover :: "request_record list \<Rightarrow> string set" where
  "leftover records = (\<Union>r \<in> {r \<in> set records. status r \<noteq> ''completed''}. range (import_id r))"

lemma leftoverD: "k \<in> leftover records \<Longrightarrow> \<exists>r \<in> set records. status r \<noteq> ''completed'' \<and> (\<exists>b. k = import_id r b)"
  by (auto simp: leftover_def)

lemma import_live:
  assumes "options_ok opts" "\<forall>r \<in> set records. footprint_ok m r"
    and "request_trace_to_intent_events opts m records = Inr es"
  shows "live_names es \<subseteq> leftover records"
proof -
  let ?rs = "sort_key (\<lambda>r. (arrival_ms r, rr_request_id r)) records"
  have "bind_r (fold_r (import_record opts m) ?rs (0, [])) (\<lambda>st. Inr (snd st)) = Inr es"
    using assms(1,3) unfolding request_trace_to_intent_events_def options_ok_def
    by (simp split: if_splits option.splits)
  then obtain st where st: "fold_r (import_record opts m) ?rs (0, []) = Inr st" "snd st = es"
    unfolding bind_r_Inr_iff by blast
  have "fold_r (import_record opts m) rs u = Inr v \<Longrightarrow> set rs \<subseteq> set records
      \<Longrightarrow> live_names (snd u) \<subseteq> leftover records \<Longrightarrow> live_names (snd v) \<subseteq> leftover records" for rs u v
  proof (induction rs arbitrary: u)
    case (Cons r rs)
    then obtain w where w: "import_record opts m r u = Inr w" "fold_r (import_record opts m) rs w = Inr v"
      by (auto simp: bind_r_Inr_iff)
    have r: "r \<in> set records" "footprint_ok m r" using Cons.prems(2) assms(2) by simp_all
    have "(if status r = ''completed'' then {} else range (import_id r)) \<subseteq> leftover records"
      using r(1) unfolding leftover_def by (cases "status r = ''completed''") (simp_all, blast)
    then have "live_names (snd w) \<subseteq> leftover records"
      using record_live [OF w(1) assms(1) r(2)] Cons.prems(3) by blast
    then show ?case using Cons.IH w(2) Cons.prems(2) by simp
  qed simp
  from this [OF st(1)] st(2) show ?thesis by (simp add: live_names_def)
qed

end
