(* ===== verification/TelemetryLaws.thy ===== *)
theory TelemetryLaws
  imports Telemetry
begin

text \<open>
  The imported events: every entry whose fields can be read yields sound events, and every block is
  allocated before it is marked and freed. \<open>well_logged\<close> is the part of \<open>well_emitted\<close> that these
  adapters keep; their steps are not consecutive.
\<close>

definition well_logged :: "mevent list \<Rightarrow> bool" where
  "well_logged es \<longleftrightarrow> (\<forall>e \<in> set es. valid_event e \<and> sound (ev_intent e)
       \<and> (ev_type e = ALLOCATED \<longrightarrow> current_tier (ev_intent e) = HBM)) \<and> allocated_first {} es"

lemma append_event_total:
  assumes "well_logged es" "intent_ranges i \<and> routable i" "0 \<le> step"
    and "if et = ALLOCATED then current_tier i = HBM else object_id i \<in> allocated es"
  shows "\<exists>e. append_event step et reason i es = Inr (es @ [e]) \<and> well_logged (es @ [e])
    \<and> ev_type e = et \<and> object_id (ev_intent e) = object_id i \<and> ev_step e = step"
proof -
  obtain j where j: "post_init i = Inr j" "sound j" "object_id j = object_id i"
    using post_init_sound [OF assms(2)] by blast
  have tier: "current_tier j = current_tier i" using j(1) by (auto simp: post_init_Inr_iff)
  define e where "e = \<lparr>ev_step = step, ev_type = et, ev_intent = j, ev_reason = Some reason, ev_latency_us = None\<rparr>"
  have run: "append_event step et reason i es = Inr (es @ [e])"
    using j(1) assms(3) by (simp add: append_event_def e_def mk_event_def event_post_init_def)
  have "valid_event e" using j(2) assms(3) by (simp add: valid_event_def e_def sound_def)
  moreover have "allocated_first {} (es @ [e])"
    using assms(1,4) allocated_subset [of es] j(3)
    by (auto simp: allocated_first_append well_logged_def e_def split: if_splits)
  ultimately have "well_logged (es @ [e])"
    using assms(1,4) j tier by (auto simp: well_logged_def e_def split: if_splits)
  with run j(3) show ?thesis by (auto simp: e_def)
qed

section \<open>Proxy logs\<close>

definition entry_ok :: "proxy_entry \<Rightarrow> bool" where
  "entry_ok p \<longleftrightarrow> pe_request_id p \<noteq> [] \<and> 0 < pe_bytes p \<and> 1 \<le> pe_blocks p"

lemma proxy_intents_ok:
  assumes "entry_ok p" "0 \<le> b"
  shows "intent_ranges (proxy_alloc_intent p step b) \<and> routable (proxy_alloc_intent p step b)"
    and "intent_ranges (proxy_hot_intent p step b) \<and> routable (proxy_hot_intent p step b)"
    and "intent_ranges (proxy_free_intent p step free b) \<and> routable (proxy_free_intent p step free b)"
  using assms by (auto simp: entry_ok_def proxy_alloc_intent_def proxy_hot_intent_def proxy_free_intent_def
      proxy_base_def new_intent_def intent_ranges_def routable_def fl_nonneg fl_le)

lemma proxy_intent_fields:
  "object_id (proxy_alloc_intent p step b) = tagged_id (pe_request_id p) ''proxy'' b"
  "current_tier (proxy_alloc_intent p step b) = HBM"
  "object_id (proxy_hot_intent p step b) = tagged_id (pe_request_id p) ''proxy'' b"
  "object_id (proxy_free_intent p step free b) = tagged_id (pe_request_id p) ''proxy'' b"
  by (simp_all add: proxy_alloc_intent_def proxy_hot_intent_def proxy_free_intent_def proxy_base_def new_intent_def)

lemma append_event_grows: "append_event step et r i es = Inr es' \<Longrightarrow> allocated es \<subseteq> allocated es'"
  by (auto simp: append_event_def bind_r_Inr_iff allocated_append)

lemma free_step_nonneg: "0 \<le> step \<Longrightarrow> step + 1 \<le> free_step_of p step"
proof -
  have "fl (of_int (max (pe_completion p) 1) / of_int 64) \<ge> fl (1 / 64)"
    by (rule fl_mono) (simp add: divide_right_mono)
  moreover have "0 < fl (1 / 64)" by code_simp
  ultimately have "0 < ceil_div (max (pe_completion p) 1) 64" by (simp add: ceil_div_def)
  then show ?thesis by (simp add: free_step_of_def)
qed

text \<open>A loop that emits one event per block, once the blocks are allocated.\<close>

lemma block_loop:
  assumes "well_logged es" "0 \<le> step" "et \<noteq> ALLOCATED"
    and "\<And>b. b \<in> set bs \<Longrightarrow> intent_ranges (mk b) \<and> routable (mk b) \<and> object_id (mk b) \<in> allocated es"
  shows "\<exists>es'. fold_r (\<lambda>b. append_event step et reason (mk b)) bs es = Inr es' \<and> well_logged es'
    \<and> allocated es \<subseteq> allocated es'"
proof -
  have "\<exists>es'. fold_r (\<lambda>b. append_event step et reason (mk b)) bs es = Inr es'
      \<and> (well_logged es' \<and> allocated es \<subseteq> allocated es')"
  proof (rule fold_r_total)
    fix b u assume b: "b \<in> set bs" and u: "well_logged u \<and> allocated es \<subseteq> allocated u"
    have "if et = ALLOCATED then current_tier (mk b) = HBM else object_id (mk b) \<in> allocated u"
      using assms(3) assms(4) [OF b] u by auto
    from append_event_total [OF _ _ assms(2) this, of reason] assms(4) [OF b] u
    obtain e where "append_event step et reason (mk b) u = Inr (u @ [e])" "well_logged (u @ [e])" by auto
    with u show "\<exists>v. append_event step et reason (mk b) u = Inr v \<and> well_logged v \<and> allocated es \<subseteq> allocated v"
      by (auto simp: allocated_append)
  qed (use assms(1) in simp)
  then show ?thesis by blast
qed

lemma alloc_blocks:
  assumes "well_logged es" "0 \<le> step" "entry_ok p"
  shows "\<exists>es'. fold_r (\<lambda>b. append_event step ALLOCATED reason (proxy_alloc_intent p step b)) [0..n - 1] es = Inr es'
    \<and> well_logged es' \<and> (\<forall>b \<in> set [0..n - 1]. tagged_id (pe_request_id p) ''proxy'' b \<in> allocated es')"
proof (rule fold_r_each [where P = well_logged])
  fix b u assume b: "b \<in> set [0..n - 1]" and u: "well_logged u"
  from append_event_total [OF u _ assms(2), of "proxy_alloc_intent p step b" ALLOCATED reason]
    proxy_intents_ok(1) [OF assms(3), of b step] b
  obtain e where "append_event step ALLOCATED reason (proxy_alloc_intent p step b) u = Inr (u @ [e])"
    "well_logged (u @ [e])" "ev_type e = ALLOCATED" "object_id (ev_intent e) = tagged_id (pe_request_id p) ''proxy'' b"
    by (auto simp: proxy_intent_fields)
  then show "\<exists>v. append_event step ALLOCATED reason (proxy_alloc_intent p step b) u = Inr v \<and> well_logged v
      \<and> tagged_id (pe_request_id p) ''proxy'' b \<in> allocated v"
    by (auto simp: allocated_append)
qed (use assms(1) append_event_grows in blast)+

lemma entry_events_total:
  assumes "well_logged es" "0 \<le> step" "entry_ok p"
  shows "\<exists>es'. proxy_entry_events p step es = Inr es' \<and> well_logged es'"
proof -
  let ?id = "tagged_id (pe_request_id p) ''proxy''"
  obtain es1 where es1: "fold_r (\<lambda>b. append_event step ALLOCATED ''imported from OpenAI-compatible proxy log''
      (proxy_alloc_intent p step b)) [0..pe_blocks p - 1] es = Inr es1" "well_logged es1"
    "\<forall>b \<in> set [0..pe_blocks p - 1]. ?id b \<in> allocated es1"
    using alloc_blocks [OF assms] by blast
  have "\<exists>es2. fold_r (\<lambda>b. append_event (step + 1) MARKED_DECODE_CRITICAL
      ''decode-critical block inferred from proxy completion log'' (proxy_hot_intent p step b))
      [max 0 (pe_blocks p - 2)..pe_blocks p - 1] es1 = Inr es2 \<and> well_logged es2 \<and> allocated es1 \<subseteq> allocated es2"
    using assms(2) es1(3) proxy_intents_ok(2) [OF assms(3)]
    by (intro block_loop es1(2)) (auto simp: proxy_intent_fields)
  then obtain es2 where es2: "fold_r (\<lambda>b. append_event (step + 1) MARKED_DECODE_CRITICAL
      ''decode-critical block inferred from proxy completion log'' (proxy_hot_intent p step b))
      [max 0 (pe_blocks p - 2)..pe_blocks p - 1] es1 = Inr es2" "well_logged es2" "allocated es1 \<subseteq> allocated es2"
    by blast
  have "\<exists>es3. fold_r (\<lambda>b. append_event (free_step_of p step) FREED ''request completion inferred from proxy log''
      (proxy_free_intent p step (free_step_of p step) b)) [0..pe_blocks p - 1] es2 = Inr es3
      \<and> well_logged es3 \<and> allocated es2 \<subseteq> allocated es3"
    using free_step_nonneg [OF assms(2), of p] assms(2) es1(3) es2(3) proxy_intents_ok(3) [OF assms(3)]
    by (intro block_loop es2(2)) (auto simp: proxy_intent_fields)
  with es1(1) es2(1) show ?thesis by (auto simp: proxy_entry_events_def)
qed

lemma resolved_config: "resolve_model_config name = Inr cfg \<Longrightarrow> valid_config cfg"
  by (simp add: resolve_model_config_def config_post_init_valid)

lemma py_str_truthy:
  assumes "py_bool v" "\<And>j. repr_of c j \<noteq> []" shows "py_str c v \<noteq> []"
  using assms float_str_nonempty by (cases v) (auto simp: int_str_def)

lemma read_entry_ok:
  assumes "read_entry c block_tokens override step entry = Inr p" "0 < block_tokens" "\<And>j. repr_of c j \<noteq> []"
  shows "entry_ok p"
proof -
  from assms(1) obtain name cfg n where p: "resolve_model_config name = Inr cfg" "kv_bytes_per_token cfg = Inr n"
    "pe_bytes p = n * block_tokens" "pe_request_id p = str_or c entry ''id'' (''request-'' @ int_str step)"
    "1 \<le> pe_blocks p"
    by (auto simp: read_entry_def bind_r_Inr_iff Let_def)
  have "0 < n" using kv_bytes_per_token_valid [OF resolved_config [OF p(1)]] p(2) by auto
  with assms(2) p show ?thesis
    using py_str_truthy [OF _ assms(3)] by (auto simp: entry_ok_def str_or_def split: option.splits)
qed

definition readable :: "conversions \<Rightarrow> int \<Rightarrow> string option \<Rightarrow> jdict list \<Rightarrow> bool" where
  "readable c block_tokens override ordered \<longleftrightarrow>
     (\<forall>se \<in> set (py_enumerate ordered). \<exists>p. read_entry c block_tokens override (fst se) (snd se) = Inr p)"

lemma proxy_logs_total:
  assumes "0 < block_tokens" "sorted_by (log_key c) entries = Inr ordered" "readable c block_tokens override ordered"
    and "\<And>j. repr_of c j \<noteq> []"
  shows "\<exists>es. openai_proxy_logs_to_intent_events c entries block_tokens override = Inr es \<and> well_logged es"
proof -
  have "\<exists>es. fold_r (proxy_step c block_tokens override) (py_enumerate ordered) [] = Inr es \<and> well_logged es"
  proof (rule fold_r_total)
    fix se u assume se: "se \<in> set (py_enumerate ordered)" and u: "well_logged u"
    obtain p where p: "read_entry c block_tokens override (fst se) (snd se) = Inr p"
      using assms(3) se by (auto simp: readable_def)
    have "0 \<le> fst se" using py_enumerate_member [OF se] by simp
    from entry_events_total [OF u this read_entry_ok [OF p assms(1,4)]] p
    show "\<exists>v. proxy_step c block_tokens override se u = Inr v \<and> well_logged v" by (simp add: proxy_step_def)
  qed (simp add: well_logged_def)
  with assms(1,2) show ?thesis by (simp add: openai_proxy_logs_to_intent_events_def)
qed

end
