(* ===== verification/Spec2Isabelle.thy ===== *)
theory Spec2Isabelle
  imports SuiteLaws PlotLaws IoUringLaws Thp CliLaws DamonLaws Report Disaggregated IoBenchLaws SimulatorProps TraceImporter Workload VllmMock PluginLaws Drain TelemetryLaws SpeculativeProps
begin

text \<open>
  KV Deadline Scheduler: verification library.

  \<^bold>\<open>The program.\<close> A Python package (\<open>src/kv_memory_intent\<close>) describes every KV-cache block of an inference engine by a
  memory intent (phase, deadline, priority, pin, tiers), records events on these intents as a trace, and replays a
  trace through a simulator of two memory tiers under one of several placement policies. Adapters, importers and
  generators produce traces; a command line and benchmark programs run them and report. Experiments beside it measure
  the operating system: I/O priorities, io_uring, DAMON access counts, transparent huge pages. Paths below are relative
  to the root of the repository.

  \<^bold>\<open>Values.\<close> A Python int is an \<open>int\<close>. A float is the rational that a binary64 value denotes and every operation
  rounds to nearest, ties to even (\<open>PyFloat\<close>: \<open>fl\<close>, \<open>fadd\<close>, \<open>fmul\<close>, \<open>fdiv\<close>); infinities, NaN, overflow and signed
  zeros are outside the model, and \<open>sum\<close> adds from left to right as Python 3.11 does. Its shortest decimal text is in
  \<open>FloatText\<close>. A string is a list of characters up to code 255. A dict is an association list in insertion order. A
  set that is only tested and iterated is a HOL set with its iteration order as a parameter \<open>ord\<close> (\<open>valid_order\<close>: it
  lists the elements once). A call returns \<open>Inl\<close> of an exception or \<open>Inr\<close> of a value (\<open>result\<close>); where a loop may not
  end it is a \<open>partial_function (option)\<close>, and \<open>None\<close> means that it does not return (\<open>outcome\<close>). A method that changes
  its object is a function of the object's state (\<open>StateResult\<close>); a command is a function of the files and the
  standard output (\<open>Cli\<close>).

  \<^bold>\<open>Theories.\<close> Shared ground: \<open>Prelude\<close> (results, loops, dictionaries, the locales \<open>stepwise\<close>, \<open>total_stepwise\<close> and
  \<open>keyed_store\<close>), \<open>PyFloat\<close>, \<open>PyChoice\<close> (\<open>min\<close> and \<open>max\<close> with a key, the locales of victim selection), \<open>FloatText\<close>,
  \<open>JsonText\<close> (\<open>json.dumps\<close>, \<open>json.loads\<close> and their round trip), \<open>StateResult\<close>.
    \<^item> Data: \<open>Schema\<close> (\<open>schema.py\<close>: \<open>MemoryIntent\<close>, \<open>__post_init__\<close>, \<open>copy_with\<close>), \<open>IntentScore\<close> (its two scores), \<open>Events\<close>
      (\<open>events.py\<close>), \<open>Serialization\<close> (\<open>to_dict\<close>/\<open>from_dict\<close> of both), \<open>Trace\<close> (\<open>trace.py\<close>).
    \<^item> Simulator: \<open>Policies\<close> (\<open>policies.py\<close> and the two policies built on it), \<open>Metrics\<close> (\<open>metrics.py\<close>), \<open>Simulator\<close>
      (\<open>KVMemorySimulator\<close>: one definition per handler of \<open>run\<close>, \<open>ensure_loop\<close> for \<open>_ensure_hbm_capacity\<close>,
      \<open>evict_victim\<close> for its body). Laws: \<open>PolicyLaws\<close>, \<open>SimulatorLaws\<close> (the invariant \<open>sim_wf\<close>, termination of the
      loop), \<open>EvictionLaws\<close> (the loop's contract), \<open>HandlerLaws\<close>, \<open>RunLaws\<close> (reachable states, the latency ledger),
      \<open>SafetyLaws\<close> (no exception on sound intents), \<open>CapacityLaws\<close>, and the properties in \<open>SimulatorProps\<close>.
    \<^item> Specification: \<open>CacheSpec\<close> is a two-tier cache that knows only sizes, pins and tiers; \<open>CacheRefinement\<close> shows
      that each event of the simulator is a step of it, through the locale \<open>simulation\<close>.
    \<^item> Trace sources: \<open>Emission\<close> (the emitter they share), \<open>Workload\<close> (\<open>generate_synthetic_kv_workload\<close>), \<open>KvEstimator\<close>
      (\<open>kv_estimator.py\<close>), \<open>RequestTrace\<close> (\<open>request_trace.py\<close>), \<open>TraceImporter\<close> (\<open>trace_importer.py\<close>), \<open>TraceShape\<close>
      and \<open>Drain\<close> (what these traces look like and what they leave behind), \<open>Telemetry\<close> and \<open>TelemetryLaws\<close>
      (\<open>adapters/openai_proxy_adapter.py\<close>, \<open>adapters/prometheus_adapter.py\<close>).
    \<^item> Engine side: \<open>VllmAdapter\<close> (\<open>adapters/vllm_adapter.py\<close>, one definition per method), \<open>VllmLaws\<close> (its invariant),
      \<open>VllmSignals\<close> (sequences of calls), \<open>VllmMock\<close> (\<open>generate_mock_vllm_trace\<close>), \<open>VllmPlugin\<close>
      (\<open>integrations/vllm\<close>) and \<open>PluginLaws\<close> (its file against a specification that knows only the set of blocks
      the adapter remembers).
    \<^item> Speculative decoding: \<open>Speculative\<close> (\<open>speculative/spec_intent.py\<close>, \<open>draft_workload.py\<close>, \<open>benchmark.py\<close>),
      \<open>SpeculativeLaws\<close>, \<open>SpeculativeProps\<close>. Remote memory: \<open>Disaggregated\<close> (\<open>disaggregated/\<close>).
    \<^item> Programs: \<open>Report\<close> (\<open>metrics.py\<close>, the reports of \<open>trace.py\<close> and \<open>simulator.py\<close>), \<open>Cli\<close> and \<open>CliLaws\<close> (\<open>cli.py\<close>),
      \<open>Plot\<close> and \<open>PlotLaws\<close> (\<open>examples/plot_sweep_results.py\<close> with the CSV reader it uses),
      \<open>Suite\<close> and \<open>SuiteLaws\<close> (the other programs of \<open>examples/\<close>, \<open>benchmarks/run_reproducible_suite.py\<close>,
      \<open>integrations/external_trace/parsers.py\<close>).
    \<^item> Experiments: \<open>IoBench\<close> and \<open>IoBenchLaws\<close> (\<open>experiments/linux_io_priority\<close>), \<open>Damon\<close>, \<open>DamonControl\<close> and
      \<open>DamonLaws\<close> (\<open>kernel_vm/experiments/damon_kv_hotness\<close>),
      \<open>IoUring\<close> and \<open>IoUringLaws\<close> (\<open>experiments/io_uring_kv\<close>: structure layouts, the rings as words of 32 bits, polling),
      \<open>Thp\<close> (\<open>kernel_vm/experiments/thp_kv/kv_thp_alloc.py\<close>).

  \<^bold>\<open>How the parts interact.\<close> Sources only produce lists of events whose intents are valid and routable (\<open>well_emitted\<close>,
  \<open>adapter_inv\<close>, \<open>well_logged\<close>); the simulator never raises on these (\<open>sound\<close>) and keeps its ledger and capacity. The
  properties below and in \<open>CliLaws\<close> and \<open>SuiteLaws\<close> put the two halves together: whatever a source writes can be read
  back, simulated and compared.

  \<^bold>\<open>Locales.\<close> \<open>victim_selection\<close>, \<open>ranked_selection\<close>, \<open>pin_respecting\<close> and \<open>pin_ranked\<close> state what the eviction loop asks of a
  policy and are interpreted on each policy of the source. \<open>stepwise\<close> and \<open>total_stepwise\<close> carry an invariant through a
  loop over events; they are interpreted on \<open>handle_event\<close> for the structure, the ledger, the capacity and the absence of
  exceptions. \<open>keyed_store\<close> is a dictionary whose values know their key (the live blocks, the adapter's table).
  \<open>simulation\<close> is forward simulation, interpreted on the simulator and the cache.

  \<^bold>\<open>Loops and fuel.\<close> Two definitions carry fuel: the JSON reader, by twice the length of its text (\<open>JsonText\<close>
  shows that this is enough), and the hexadecimal text of an address, by 64 digits for addresses of 64 bits. Loops over given lists are folds; the eviction loop, the walks over a draft tree, the
  resolution of a draft, polling and time-bounded loops are partial functions, and the theorems that they return are
  proved from a measure: the number of candidates left in HBM, the age of a node in a tree whose parents are older than
  their children, for the benchmark workers the first reading of the clock past the deadline, for the completion loop of
  io_uring the next look at which the kernel has posted a completion.

  \<^bold>\<open>Parameters of the model.\<close> Random generators (\<open>draw\<close>, \<open>gauss\<close>, \<open>unit\<close>, constrained only to their documented range), the
  iteration order of sets, readings of the clock, the time of day, the answers of the operating system (\<open>host\<close>, \<open>kernel\<close>,
  addresses, sysfs files), and the conversions \<open>int(text)\<close>, \<open>float(text)\<close> and \<open>str(container)\<close> that the program applies only
  to values of an unexpected type.

  \<^bold>\<open>Not modelled.\<close> The argument parsers (\<open>argparse\<close>): commands take the parsed arguments. The file system below a path:
  a file is its text under a normalised path whose directories exist. The drawing of figures by
  \<open>matplotlib\<close>, the re-exports of the package \<open>__init__.py\<close> files, the C programs, the
  kernel material, the website and the paper. Of the io_uring experiment the memory
  mappings and addresses, of the THP experiment the C program it starts. The configuration file of the reproducible suite
  arrives as its converted fields, and profile names are the five of the library.
\<close>

section \<open>Properties that span components\<close>

text \<open>Sound events never make the simulator raise; when they also allocate in HBM only, a policy that
  ignores pins respects the capacity.\<close>

lemma sound_run:
  assumes ord: "valid_order ord" and sound: "\<forall>e \<in> set es. sound (ev_intent e)"
  shows "\<exists>t. run_events ord cfg es init_sim = Some (Inr t) \<and> sim_wf t \<and> ledger cfg t"
proof -
  obtain t where t: "fold_o (handle_event ord cfg) es init_sim = Some (Inr t)" "sim_wf t"
    using safe_runs.run_total [of ord init_sim es cfg] ord sound by (auto simp: all_sound_def)
  have "ledger cfg t"
    using reachable_ledger [OF ord run_reachable [OF reachable.start]] t(1) by (simp add: run_events_def)
  with t show ?thesis by (auto simp: run_events_def)
qed

definition well_placed :: "mevent list \<Rightarrow> bool" where
  "well_placed es \<longleftrightarrow> (\<forall>e \<in> set es. sound (ev_intent e) \<and> (ev_type e = ALLOCATED \<longrightarrow> current_tier (ev_intent e) = HBM))"

lemma placed_run:
  assumes ord: "valid_order ord" and es: "well_placed es"
  shows "\<exists>t. run_events ord cfg es init_sim = Some (Inr t) \<and> sim_wf t \<and> ledger cfg t
    \<and> (\<not> is_intent_family (cfg_policy cfg) \<longrightarrow> 0 \<le> hbm_capacity_bytes cfg \<longrightarrow> hbm_used t \<le> hbm_capacity_bytes cfg)"
proof -
  obtain t where t: "run_events ord cfg es init_sim = Some (Inr t)" "sim_wf t" "ledger cfg t"
    using sound_run [OF ord] es by (fastforce simp: well_placed_def)
  have "hbm_used t \<le> hbm_capacity_bytes cfg"
    if "\<not> is_intent_family (cfg_policy cfg)" "0 \<le> hbm_capacity_bytes cfg"
  proof -
    have "\<forall>e \<in> set es. steady cfg {} e" using es that(1) by (auto simp: well_placed_def steady_def sound_def)
    from bounded_runs.run_safely [of ord init_sim cfg "{}", OF _ this] t(1) ord
    have "bounded cfg {} t" by (simp add: bounded_init run_events_def)
    from bounded_capacity(1) [OF this t(2) that(2)] that(1) show ?thesis by force
  qed
  with t show ?thesis by blast
qed

lemma well_emitted_placed: "well_emitted (n, es) \<Longrightarrow> well_placed es"
  by (simp add: well_emitted_def well_placed_def)

lemmas emitted_run = placed_run [OF _ well_emitted_placed]

text \<open>C16: An imported request trace can always be simulated: for options the importer accepts (positive sizes)
  and valid records whose key-value cache takes at most 2^53 bytes, the importer returns events, the
  simulator handles all of them without raising, under every policy, capacity and set order, charges
  them by the ledger, and under a policy that ignores pins ends within an HBM capacity that is not negative.\<close>

theorem imported_trace_simulates:
  assumes "valid_order ord" "options_ok opts" "\<forall>r \<in> set records. valid_record r \<and> footprint_ok m r"
  shows "\<exists>es t. request_trace_to_intent_events opts m records = Inr es
    \<and> run_events ord cfg es init_sim = Some (Inr t) \<and> sim_wf t \<and> ledger cfg t
    \<and> (\<not> is_intent_family (cfg_policy cfg) \<longrightarrow> 0 \<le> hbm_capacity_bytes cfg \<longrightarrow> hbm_used t \<le> hbm_capacity_bytes cfg)"
  using import_total [OF assms(2,3)] emitted_run [OF assms(1)] by blast

theorem imported_trace_simulates_witness:
  "\<exists>es t. request_trace_to_intent_events sample_options (preset ''llama-3-8b'' 32 4096 32) [sample_record] = Inr es
    \<and> run_events sorted_order (default_config LRUPolicy 2097152 0) es init_sim = Some (Inr t) \<and> hbm_used t \<le> 2097152"
  using imported_trace_simulates [of sorted_order sample_options "[sample_record]"
      "preset ''llama-3-8b'' 32 4096 32" "default_config LRUPolicy 2097152 0"] by auto

text \<open>C17: A synthetic workload of any profile with at least one request and a positive block size can be simulated: whatever
  the random draws the generator returns its events, and the simulator handles them under every policy, capacity and
  set order, by the ledger, and within the capacity (if not negative) under a policy that ignores pins. (Without
  requests the generator divides by zero and the workload raises, as \<open>workload_without_requests_raises\<close> shows.)\<close>

theorem workload_simulates:
  assumes "valid_order ord" "valid_draws draw" "0 < wl_block_size w" "1 \<le> num_requests w"
  shows "\<exists>es t. generate_synthetic_kv_workload draw w = Inr es
    \<and> run_events ord cfg es init_sim = Some (Inr t) \<and> sim_wf t \<and> ledger cfg t
    \<and> (\<not> is_intent_family (cfg_policy cfg) \<longrightarrow> 0 \<le> hbm_capacity_bytes cfg \<longrightarrow> hbm_used t \<le> hbm_capacity_bytes cfg)"
  using generate_total [of draw w] assms(2-4) emitted_run [OF assms(1)] by blast

theorem workload_simulates_witness:
  "\<exists>es t. generate_synthetic_kv_workload (\<lambda>i. 42) sample_workload = Inr es
    \<and> run_events sorted_order (default_config HotColdPolicy 4096 0) es init_sim = Some (Inr t) \<and> hbm_used t \<le> 4096"
  using workload_simulates [of sorted_order "\<lambda>i. 42" sample_workload "default_config HotColdPolicy 4096 0"]
  by (auto simp: valid_draws_def sample_workload_def)

text \<open>C18: The mock vLLM trace can always be generated and simulated: for at least one request and any random
  draws the adapter accepts every signal the generator sends it, the recorder holds valid events, and
  the simulator handles all of them under every policy, capacity and set order, charging them by the
  ledger.\<close>

theorem mock_trace_simulates:
  assumes "valid_order ord" "valid_randrange draw" "1 \<le> n"
  shows "\<exists>rec t. generate_mock_vllm_trace draw n k None = Inr rec \<and> (\<forall>e \<in> set (rec_events rec). valid_event e)
    \<and> run_events ord cfg (rec_events rec) init_sim = Some (Inr t) \<and> sim_wf t \<and> ledger cfg t"
proof -
  obtain a es where a: "generate_mock_vllm_trace draw n k None = Inr (adapter_recorder a)" "adapter_inv {} es a"
    using mock_trace_total [OF assms(2,3), of k] by (auto simp: healthy_def)
  from sound_run [OF assms(1), of "rec_events (adapter_recorder a)" cfg] a show ?thesis
    by (fastforce simp: adapter_inv_def)
qed

theorem mock_trace_simulates_witness:
  "\<exists>rec t. generate_mock_vllm_trace (\<lambda>i n. int i mod n) 12 96 None = Inr rec
    \<and> run_events sorted_order (default_config LRUPolicy 4194304 0) (rec_events rec) init_sim = Some (Inr t)"
  using mock_trace_simulates [of sorted_order "\<lambda>i n. int i mod n" 12 96 "default_config LRUPolicy 4194304 0"]
  by (fastforce simp: valid_randrange_def)

text \<open>C19: Proxy logs are imported and simulated end to end: when the block size is positive and every entry can be
  sorted and read (a repr is never empty), the importer returns
  events in which every block is allocated before it is marked and freed, and the simulator handles
  them without raising, by the ledger, and within the capacity under a policy that ignores pins.\<close>

theorem proxy_logs_simulate:
  assumes "valid_order ord" "0 < block_tokens" "sorted_by (log_key c) entries = Inr ordered"
    and "\<forall>se \<in> set (py_enumerate ordered). \<exists>p. read_entry c block_tokens override (fst se) (snd se) = Inr p"
    and "\<forall>j. repr_of c j \<noteq> []"
  shows "\<exists>es t. openai_proxy_logs_to_intent_events c entries block_tokens override = Inr es \<and> allocated_first {} es
    \<and> run_events ord cfg es init_sim = Some (Inr t) \<and> sim_wf t \<and> ledger cfg t
    \<and> (\<not> is_intent_family (cfg_policy cfg) \<longrightarrow> 0 \<le> hbm_capacity_bytes cfg \<longrightarrow> hbm_used t \<le> hbm_capacity_bytes cfg)"
proof -
  have "readable c block_tokens override ordered" using assms(4) by (simp add: readable_def)
  from proxy_logs_total [OF assms(2,3) this] assms(5)
  obtain es where "openai_proxy_logs_to_intent_events c entries block_tokens override = Inr es" "well_logged es" by blast
  with placed_run [OF assms(1), of es cfg] show ?thesis by (auto simp: well_logged_def well_placed_def)
qed

definition sample_conversions :: conversions where
  "sample_conversions = \<lparr>repr_of = (\<lambda>j. ''0.0''), int_of_text = (\<lambda>s. Inl (ValueError ''invalid literal for int()'')),
     float_of_text = (\<lambda>s. Inl (ValueError ''could not convert string to float'')),
     dict_of_items = (\<lambda>j. Inl (TypeError ''not iterable''))\<rparr>"

definition sample_log :: "jdict list" where
  "sample_log = [[(''created'', JInt 7), (''id'', JStr ''cmpl-1''),
     (''usage'', JDict [(''prompt_tokens'', JInt 600), (''completion_tokens'', JInt 130)])]]"

lemma sample_log_readable:
  "sorted_by (log_key sample_conversions) sample_log = Inr sample_log"
  "\<forall>se \<in> set (py_enumerate sample_log). \<exists>p. read_entry sample_conversions 256 None (fst se) (snd se) = Inr p"
proof -
  have "\<not> isl (read_entry sample_conversions 256 None 0 (hd sample_log))" by code_simp
  then show "\<forall>se \<in> set (py_enumerate sample_log). \<exists>p. read_entry sample_conversions 256 None (fst se) (snd se) = Inr p"
    by (cases "read_entry sample_conversions 256 None 0 (hd sample_log)") (auto simp: sample_log_def py_enumerate_def)
qed code_simp

theorem proxy_logs_simulate_witness:
  "\<exists>es t. openai_proxy_logs_to_intent_events sample_conversions sample_log 256 None = Inr es
    \<and> run_events sorted_order (default_config LRUPolicy 100000000 0) es init_sim = Some (Inr t)
    \<and> hbm_used t \<le> 100000000"
  using proxy_logs_simulate [OF _ _ sample_log_readable, of sorted_order "default_config LRUPolicy 100000000 0"]
  by (auto simp: sample_conversions_def)

text \<open>C20: The trace file of the vLLM plugin holds exactly what the engine's calls mean, and it can be simulated. Take
  any scheduler steps, preemptions and completions on well-formed sequences (a request id, steps and block ids not
  negative, a priority of 0 to 100), from a new adapter with a positive block size whose blocks may live in HBM and
  DRAM, and an empty file. No callback raises. The adapter is asked for exactly one chunk of events per sequence: a decoding sequence
  gets the decode-critical mark and the access of each block, another one access per block, a preemption one spill
  to DRAM for each listed block the adapter still knows, a completion the cold mark and the free of each
  listed block; the known blocks are those of the sequences stepped and not finished since. The file reads back,
  call by call, as these chunks, each chunk of a decoding sequence followed by its last four events
  promoted (pinned, marked decode-critical) and nothing else; and the simulator handles all of it.\<close>

theorem plugin_trace_simulates:
  assumes "valid_order ord" "list_all call_ok calls" "0 < n" "{HBM, DRAM} \<subseteq> ts"
  shows "\<exists>us p esss t. make_calls c calls \<lparr>plugin_adapter = new_adapter None n (Some ts), out_text = []\<rparr> = Inr (us, p)
    \<and> trail {} calls esss \<and> rec_events (adapter_recorder (plugin_adapter p)) = concat (concat esss)
    \<and> known (plugin_adapter p) = foldl known_after {} calls
    \<and> from_jsonl c (out_text p) = Inr \<lparr>rec_events = concat (map2 written calls esss)\<rparr>
    \<and> run_events ord cfg (concat (map2 written calls esss)) init_sim = Some (Inr t) \<and> sim_wf t \<and> ledger cfg t"
proof -
  let ?p = "\<lparr>plugin_adapter = new_adapter None n (Some ts), out_text = []\<rparr>"
  have "plugin_state {} [] [] ?p"
    using new_adapter_inv [OF assms(3,4)] by (simp add: plugin_state_def holds_def known_def new_adapter_def)
  with make_calls_deliver [OF assms(2), of "{}" "[]" "[]" c] obtain us p esss where
    p: "make_calls c calls ?p = Inr (us, p)" "trail {} calls esss"
    "plugin_state (foldl known_after {} calls) (concat (concat esss)) (event_lines (concat (map2 written calls esss))) p"
    by (auto simp: delivers_def)
  let ?ws = "concat (map2 written calls esss)"
  have a: "holds (foldl known_after {} calls) (concat (concat esss)) (plugin_adapter p)" and
    out: "out_text p = event_lines ?ws" using p(3) by (simp_all add: plugin_state_def)
  have good: "good_events ?ws" by (rule trail_written_good [OF p(2) holds_good [OF a]])
  then have "\<forall>e \<in> set ?ws. sound (ev_intent e)" by (simp add: good_events_def)
  from sound_run [OF assms(1) this, of cfg] event_lines_back [OF good, of c] p(1,2) out a show ?thesis
    by (auto simp: holds_def adapter_inv_def)
qed

definition sample_sequence :: fake_sequence where
  "sample_sequence = smoke_sequence\<lparr>fs_block_ids := [0, 7]\<rparr>"

theorem plugin_trace_simulates_witness:
  "\<exists>us p esss t. make_calls sample_conversions
        [SchedulerStep [sample_sequence, smoke_sequence], Preempted sample_sequence, Finished smoke_sequence]
        \<lparr>plugin_adapter = new_adapter None 16384 (Some {HBM, DRAM}), out_text = []\<rparr> = Inr (us, p)
    \<and> trail {} [SchedulerStep [sample_sequence, smoke_sequence], Preempted sample_sequence, Finished smoke_sequence] esss
    \<and> known (plugin_adapter p) = {(''req-smoke'', 7)}
    \<and> run_events sorted_order (default_config LRUPolicy 65536 0)
        (concat (map2 written [SchedulerStep [sample_sequence, smoke_sequence], Preempted sample_sequence,
          Finished smoke_sequence] esss)) init_sim = Some (Inr t)"
proof -
  let ?calls = "[SchedulerStep [sample_sequence, smoke_sequence], Preempted sample_sequence, Finished smoke_sequence]"
  have ok: "list_all call_ok ?calls" by (simp add: sample_sequence_def smoke_sequence_def sequence_ok_def priority_ok_def)
  have left: "foldl known_after {} ?calls = {(''req-smoke'', 7)}"
    by (auto simp: sequence_keys_def sample_sequence_def smoke_sequence_def)
  have new: "(0 :: int) < 16384" "{HBM, DRAM} \<subseteq> {HBM, DRAM}" by simp_all
  show ?thesis
    using plugin_trace_simulates [OF valid_sorted_order ok new, of sample_conversions "default_config LRUPolicy 65536 0",
        unfolded left]
    by (elim exE conjE) (intro exI conjI, assumption+)
qed

text \<open>C9: The simulator refines the abstract cache: forgetting policies, scores, logs and counters, a run that
  returns is a run of the specification on the announced sizes, pins and tiers. Each event is one guarded
  step, entries are demoted only while HBM is over capacity and (under the intent family) only unpinned,
  demotion goes on until HBM fits or nothing may leave, and the reported latency is what the steps cost.\<close>

theorem simulator_refines_cache:
  assumes "valid_order ord" "run ord cfg es init_sim = Some (Inr (t, r))"
  shows "cache_run cfg (map command_of es) empty_cache (cache_of t) \<and> total_latency_us r = elapsed (cache_of t)
    \<and> final_hbm_used_bytes r = fast_bytes (cache_of t)"
  using run_is_cache_run(2) [OF assms(1) run_cases(1) [OF assms(2)]] summary_fields(1,5) [OF run_cases(2) [OF assms(2)]]
  by simp

theorem simulator_refines_cache_witness:
  "\<exists>t r. run sorted_order (default_config (IntentFamily DeadlineAwarePolicy) 1024 0)
      [sample_event ALLOCATED cold_block, sample_event ACCESSED critical_block] init_sim = Some (Inr (t, r))
    \<and> cache_run (default_config (IntentFamily DeadlineAwarePolicy) 1024 0)
        [command_of (sample_event ALLOCATED cold_block), command_of (sample_event ACCESSED critical_block)]
        empty_cache (cache_of t)"
proof -
  let ?es = "[sample_event ALLOCATED cold_block, sample_event ACCESSED critical_block]"
  let ?cfg = "default_config (IntentFamily DeadlineAwarePolicy) 1024 0"
  obtain t r where "run sorted_order ?cfg ?es init_sim = Some (Inr (t, r))"
    using run_succeeds [of sorted_order ?es ?cfg] by auto
  with simulator_refines_cache [OF _ this] show ?thesis by auto
qed

text \<open>C10: Every block an imported trace allocates is eventually released, for options with positive sizes and valid records
  whose cache takes at most 2^53 bytes: after a run of the whole trace, the
  blocks still live all belong to records that did not complete, and when every record completed, nothing
  is left in any tier.\<close>

theorem imported_trace_drains:
  assumes "valid_order ord" "options_ok opts" "\<forall>r \<in> set records. valid_record r \<and> footprint_ok m r"
  shows "\<exists>es t. request_trace_to_intent_events opts m records = Inr es \<and> run_events ord cfg es init_sim = Some (Inr t)
    \<and> (\<forall>k \<in> dict_keys (live_blocks t). \<exists>r \<in> set records. status r \<noteq> ''completed'' \<and> (\<exists>b. k = import_id r b))
    \<and> ((\<forall>r \<in> set records. status r = ''completed'') \<longrightarrow>
          live_blocks t = [] \<and> hbm_blocks t = {} \<and> dram_blocks t = {})"
proof -
  obtain es where es: "request_trace_to_intent_events opts m records = Inr es" "well_emitted (int (length es), es)"
    using import_total [OF assms(2,3)] by blast
  obtain t where t: "run_events ord cfg es init_sim = Some (Inr t)" "sim_wf t"
    using emitted_run [OF assms(1) es(2), of cfg] by blast
  have "\<forall>r \<in> set records. footprint_ok m r" using assms(3) by blast
  from import_live [OF assms(2) this es(1)] run_live_keys [OF assms(1) t(1)]
  have keys: "dict_keys (live_blocks t) \<subseteq> leftover records" by (simp add: live_names_def)
  have "live_blocks t = [] \<and> hbm_blocks t = {} \<and> dram_blocks t = {}" if "\<forall>r \<in> set records. status r = ''completed''"
  proof -
    have "leftover records = {}" using that by (simp add: leftover_def)
    then have "live_blocks t = []" using keys by simp
    then show ?thesis using sim_wfD(5,6) [OF t(2)] by simp
  qed
  moreover have "\<forall>k \<in> dict_keys (live_blocks t). \<exists>r \<in> set records. status r \<noteq> ''completed'' \<and> (\<exists>b. k = import_id r b)"
    using keys leftoverD by blast
  ultimately show ?thesis using es(1) t(1) by blast
qed

lemma sample_record_status: "status sample_record = ''completed''"
  by (simp add: sample_record_def)

theorem imported_trace_drains_witness:
  "\<exists>es t. request_trace_to_intent_events sample_options (preset ''llama-3-8b'' 32 4096 32) [sample_record] = Inr es
    \<and> run_events sorted_order (default_config LRUPolicy 2097152 0) es init_sim = Some (Inr t) \<and> live_blocks t = []"
  using imported_trace_drains [of sorted_order sample_options "[sample_record]"
      "preset ''llama-3-8b'' 32 4096 32" "default_config LRUPolicy 2097152 0"] sample_record_status
  by auto

end
